(* ===== verification/Prelude.thy ===== *)
theory Prelude
  imports Main "HOL-Library.Word"
begin

text \<open>
  What every theory of the development shares: fixed-width integer types, fallible results,
  the option combinators of the Rust standard library that the sources use, and the lemmas
  about them that the component proofs apply.
\<close>

type_synonym u8 = "8 word"
type_synonym u16 = "16 word"
type_synonym u32 = "32 word"
type_synonym uuid = "128 word"

named_theorems res_simps "unfolding rules for fallible results"

section \<open>Fallible results\<close>

text \<open>
  A \<open>Result<T, E>\<close> is a value of \<open>'e + 'a\<close>: \<open>Inl\<close> for \<open>Err\<close> and \<open>Inr\<close> for
  \<open>Ok\<close>. \<open>rbind\<close> is the \<open>?\<close> operator: it passes an error on and continues with the value.
\<close>

definition rbind :: "'e + 'a \<Rightarrow> ('a \<Rightarrow> 'e + 'b) \<Rightarrow> 'e + 'b" where
  "rbind m f = (case m of Inl e \<Rightarrow> Inl e | Inr a \<Rightarrow> f a)"

definition ok_or :: "'e \<Rightarrow> 'a option \<Rightarrow> 'e + 'a" where
  "ok_or e x = (case x of None \<Rightarrow> Inl e | Some a \<Rightarrow> Inr a)"

definition is_ok :: "'e + 'a \<Rightarrow> bool" where
  "is_ok m = (case m of Inl _ \<Rightarrow> False | Inr _ \<Rightarrow> True)"

lemma rbind_simps [simp]:
  "rbind (Inl e) f = Inl e"
  "rbind (Inr a) f = f a"
  by (simp_all add: rbind_def)

lemma rbind_eq_Inr [res_simps]: "rbind m f = Inr b \<longleftrightarrow> (\<exists>a. m = Inr a \<and> f a = Inr b)"
  by (cases m) simp_all

lemma rbind_eq_Inl [res_simps]:
  "rbind m f = Inl e \<longleftrightarrow> m = Inl e \<or> (\<exists>a. m = Inr a \<and> f a = Inl e)"
  by (cases m) simp_all

lemma ok_or_simps [simp]:
  "ok_or e None = Inl e"
  "ok_or e (Some a) = Inr a"
  by (simp_all add: ok_or_def)

lemma ok_or_eq_Inr [res_simps]: "ok_or e x = Inr a \<longleftrightarrow> x = Some a"
  by (cases x) simp_all

lemma is_ok_simps [simp]:
  "is_ok (Inl e) = False"
  "is_ok (Inr a) = True"
  by (simp_all add: is_ok_def)

lemma is_ok_iff: "is_ok m \<longleftrightarrow> (\<exists>a. m = Inr a)"
  by (cases m) simp_all

section \<open>Options\<close>

text \<open>\<open>Option::or_else\<close>, \<open>Iterator::find_map\<close> and \<open>Option::unwrap_or\<close>.\<close>

definition or_else :: "'a option \<Rightarrow> 'a option \<Rightarrow> 'a option" where
  "or_else x y = (case x of None \<Rightarrow> y | Some a \<Rightarrow> Some a)"

definition unwrap_or :: "'a \<Rightarrow> 'a option \<Rightarrow> 'a" where
  "unwrap_or d x = (case x of None \<Rightarrow> d | Some a \<Rightarrow> a)"

definition clamp :: "'a :: linorder \<Rightarrow> 'a \<Rightarrow> 'a \<Rightarrow> 'a" where
  "clamp lo hi x = (if x < lo then lo else if hi < x then hi else x)"

fun find_map :: "('a \<Rightarrow> 'b option) \<Rightarrow> 'a list \<Rightarrow> 'b option" where
  "find_map f [] = None"
| "find_map f (x # xs) = (case f x of None \<Rightarrow> find_map f xs | Some b \<Rightarrow> Some b)"

lemma or_else_simps [simp]:
  "or_else None y = y"
  "or_else (Some a) y = Some a"
  by (simp_all add: or_else_def)

lemma unwrap_or_simps [simp]:
  "unwrap_or d None = d"
  "unwrap_or d (Some a) = a"
  by (simp_all add: unwrap_or_def)

lemma or_else_eq_None: "or_else x y = None \<longleftrightarrow> x = None \<and> y = None"
  by (cases x) simp_all

lemma find_map_None: "find_map f xs = None \<longleftrightarrow> (\<forall>x \<in> set xs. f x = None)"
  by (induction xs) (auto split: option.splits)

lemma find_map_SomeD: "find_map f xs = Some b \<Longrightarrow> \<exists>x \<in> set xs. f x = Some b"
  by (induction xs) (auto split: option.splits)

section \<open>Lists\<close>

text \<open>A \<open>UPDATE\<close> of the rows that satisfy a predicate, and how many rows it touched.\<close>

definition update_where :: "('r \<Rightarrow> bool) \<Rightarrow> ('r \<Rightarrow> 'r) \<Rightarrow> 'r list \<Rightarrow> 'r list" where
  "update_where p f rows = map (\<lambda>r. if p r then f r else r) rows"

definition rows_affected :: "('r \<Rightarrow> bool) \<Rightarrow> 'r list \<Rightarrow> nat" where
  "rows_affected p rows = length (filter p rows)"

lemma length_update_where [simp]: "length (update_where p f rows) = length rows"
  by (simp add: update_where_def)

lemma update_where_Nil [simp]: "update_where p f [] = []"
  by (simp add: update_where_def)

lemma update_where_Cons [simp]:
  "update_where p f (r # rows) = (if p r then f r else r) # update_where p f rows"
  by (simp add: update_where_def)

lemma set_update_where:
  "set (update_where p f rows) = (\<lambda>r. if p r then f r else r) ` set rows"
  by (simp add: update_where_def)

lemma map_update_where:
  assumes "\<And>r. g (f r) = g r"
  shows "map g (update_where p f rows) = map g rows"
  using assms by (simp add: update_where_def)

lemma update_where_none: "\<forall>r \<in> set rows. \<not> p r \<Longrightarrow> update_where p f rows = rows"
  by (induction rows) auto

lemma find_update_where:
  assumes "\<And>r. q (f r) = q r"
  shows "find q (update_where p f rows) = map_option (\<lambda>r. if p r then f r else r) (find q rows)"
  using assms by (induction rows) auto

lemma rows_affected_pos: "0 < rows_affected p rows \<longleftrightarrow> (\<exists>r \<in> set rows. p r)"
  by (auto simp: rows_affected_def filter_empty_conv)

lemma append_sep_eqD:
  "xs @ x # us = ys @ x # vs \<Longrightarrow> x \<notin> set xs \<Longrightarrow> x \<notin> set ys \<Longrightarrow> xs = ys \<and> us = vs"
proof (induction xs arbitrary: ys)
  case Nil
  then show ?case by (cases ys) auto
next
  case (Cons a xs)
  then show ?case by (cases ys) auto
qed

lemma le_length_takeWhile:
  "k \<le> length (takeWhile P xs) \<longleftrightarrow> k \<le> length xs \<and> (\<forall>x \<in> set (take k xs). P x)"
proof (induction xs arbitrary: k)
  case Nil
  then show ?case by auto
next
  case (Cons x xs)
  then show ?case by (cases k) auto
qed

lemma map_map2_fst:
  assumes "\<And>x y. f (g x y) = x" and "length xs = length ys"
  shows "map f (map2 g xs ys) = xs"
  using assms(2) by (induction rule: list_induct2) (simp_all add: assms(1))

lemma map_map2_snd:
  assumes "\<And>x y. f (g x y) = y" and "length xs = length ys"
  shows "map f (map2 g xs ys) = ys"
  using assms(2) by (induction rule: list_induct2) (simp_all add: assms(1))

lemma mem_map_filter: "r \<in> set (List.map_filter g xs) \<longleftrightarrow> (\<exists>x \<in> set xs. g x = Some r)"
  by (force simp: List.map_filter_def)

lemma distinct_map_of_filter:
  assumes "distinct (map key xs)"
    and "\<And>x y r s. x \<in> set xs \<Longrightarrow> y \<in> set xs \<Longrightarrow> g x = Some r \<Longrightarrow> g y = Some s \<Longrightarrow> f r = f s \<Longrightarrow> key x = key y"
  shows "distinct (map f (List.map_filter g xs))"
  using assms
proof (induction xs)
  case (Cons x xs)
  then have IH: "distinct (map f (List.map_filter g xs))" by (auto intro!: Cons.IH)
  show ?case
  proof (cases "g x")
    case (Some r)
    have "f r \<notin> f ` set (List.map_filter g xs)"
    proof
      assume "f r \<in> f ` set (List.map_filter g xs)"
      then obtain y s where "y \<in> set xs" "g y = Some s" "f r = f s"
        by (auto simp: mem_map_filter)
      with Cons.prems Some have "key x = key y" by (metis list.set_intros)
      with Cons.prems(1) \<open>y \<in> set xs\<close> show False by (auto simp: rev_image_eqI)
    qed
    with IH Some show ?thesis by (simp add: List.map_filter_simps)
  qed (simp add: List.map_filter_simps IH)
qed (simp add: List.map_filter_simps)

lemma list_all2_set2: "list_all2 R ks rss \<Longrightarrow> rs \<in> set rss \<Longrightarrow> \<exists>k \<in> set ks. R k rs"
  by (induction rule: list_all2_induct) auto

lemma insort_key_split:
  "insort_key f x xs = takeWhile (\<lambda>y. f y < f x) xs @ x # dropWhile (\<lambda>y. f y < f x) xs"
  for f :: "'a \<Rightarrow> 'b :: linorder"
  by (induction xs) auto

lemma takeWhile_sorted:
  "sorted (map f xs) \<Longrightarrow> takeWhile (\<lambda>y. f y < t) xs = filter (\<lambda>y. f y < t) xs"
  for f :: "'a \<Rightarrow> 'b :: linorder"
proof (induction xs)
  case (Cons x xs)
  then show ?case by (cases "f x < t") (force intro!: filter_False [symmetric] dest: le_less_trans)+
qed simp

lemma length_filter_sort_key: "length (filter P (sort_key f xs)) = length (filter P xs)"
  by (simp add: filter_sort)

lemma sum_list_sort_key: "sum_list (map g (sort_key f xs)) = sum_list (map g xs)" for g :: "'a \<Rightarrow> int"
proof -
  have "sum_list (map g (insort_key f y ys)) = g y + sum_list (map g ys)" for y ys
    by (induction ys) auto
  then show ?thesis by (induction xs) auto
qed

lemma map_filter_None: "(\<And>x. x \<in> set xs \<Longrightarrow> f x = None) \<Longrightarrow> List.map_filter f xs = []"
  by (induction xs) (auto simp: List.map_filter_simps)

lemma replicate_numeral [simp]: "replicate (numeral k) x = x # replicate (pred_numeral k) x"
  by (simp add: numeral_eq_Suc)

section \<open>Integers\<close>

lemma le_div_iff_mult_le: "0 < m \<Longrightarrow> k \<le> d div m \<longleftrightarrow> k * m \<le> (d :: int)"
proof
  assume m: "0 < m" and "k \<le> d div m"
  then have "k * m \<le> d div m * m" by simp
  also have "\<dots> \<le> d"
    using m pos_mod_sign [of m d] div_mult_mod_eq [of d m] by linarith
  finally show "k * m \<le> d" .
next
  assume m: "0 < m" and "k * m \<le> d"
  then have "k * m div m \<le> d div m" by (intro zdiv_mono1)
  with m show "k \<le> d div m" by simp
qed

lemma list_ex_update_where:
  "list_ex P xs \<Longrightarrow> (\<And>x. P x \<Longrightarrow> q x \<Longrightarrow> P (f x)) \<Longrightarrow> list_ex P (update_where q f xs)"
  by (induction xs) (auto simp: update_where_def)

lemma update_where_memD: "x \<in> set (update_where p f xs) \<Longrightarrow> \<exists>y \<in> set xs. x = (if p y then f y else y)"
  by (auto simp: update_where_def)

lemma one_row:
  "distinct (map g xs) \<Longrightarrow> a \<in> set xs \<Longrightarrow> p a \<Longrightarrow> (\<And>x. p x \<Longrightarrow> g x = g a) \<Longrightarrow> rows_affected p xs = 1"
proof -
  assume d: "distinct (map g xs)" and a: "a \<in> set xs" "p a" and g: "\<And>x. p x \<Longrightarrow> g x = g a"
  have "set (filter p xs) = {a}" using d a g by (auto simp: distinct_map dest: inj_onD)
  moreover have "distinct (filter p xs)" using d by (simp add: distinct_map)
  ultimately have "length (filter p xs) = 1" using distinct_card by fastforce
  then show ?thesis by (simp add: rows_affected_def)
qed

lemma length_filter_mono: "(\<And>x. p x \<Longrightarrow> q x) \<Longrightarrow> length (filter p xs) \<le> length (filter q xs)"
  by (induction xs) (auto intro: le_SucI)

end
