(* ===== verification/RustStr.thy ===== *)
theory RustStr
  imports Prelude
begin

text \<open>
  The string operations of the Rust standard library that the sources call. A Rust
  \<open>String\<close> is a \<open>string\<close> of HOL: the list of its UTF-8 bytes, so \<open>len()\<close> is
  \<open>length\<close>. \<open>utf8_chars\<close> cuts a valid UTF-8 string at its character boundaries (every
  byte that is not a continuation byte starts a character), which gives \<open>chars()\<close>.
\<close>

section \<open>Characters\<close>

definition is_cont :: "char \<Rightarrow> bool" where
  "is_cont c = (digit7 c \<and> \<not> digit6 c)"

function utf8_chars :: "string \<Rightarrow> string list" where
  "utf8_chars [] = []"
| "utf8_chars (c # cs) = (c # takeWhile is_cont cs) # utf8_chars (dropWhile is_cont cs)"
  by pat_completeness auto
termination
  by (relation "measure length") (auto simp: le_imp_less_Suc length_dropWhile_le)

lemma concat_utf8_chars [simp]: "concat (utf8_chars s) = s"
  by (induction s rule: utf8_chars.induct) simp_all

text \<open>The characters of Unicode's \<open>White_Space\<close> property, as UTF-8 bytes.\<close>

definition unicode_ws :: "string list" where
  "unicode_ws = [[CHR 0x09], [CHR 0x0A], [CHR 0x0B], [CHR 0x0C], [CHR 0x0D], [CHR 0x20],
     [CHR 0xC2, CHR 0x85], [CHR 0xC2, CHR 0xA0], [CHR 0xE1, CHR 0x9A, CHR 0x80],
     [CHR 0xE2, CHR 0x80, CHR 0x80], [CHR 0xE2, CHR 0x80, CHR 0x81], [CHR 0xE2, CHR 0x80, CHR 0x82],
     [CHR 0xE2, CHR 0x80, CHR 0x83], [CHR 0xE2, CHR 0x80, CHR 0x84], [CHR 0xE2, CHR 0x80, CHR 0x85],
     [CHR 0xE2, CHR 0x80, CHR 0x86], [CHR 0xE2, CHR 0x80, CHR 0x87], [CHR 0xE2, CHR 0x80, CHR 0x88],
     [CHR 0xE2, CHR 0x80, CHR 0x89], [CHR 0xE2, CHR 0x80, CHR 0x8A], [CHR 0xE2, CHR 0x80, CHR 0xA8],
     [CHR 0xE2, CHR 0x80, CHR 0xA9], [CHR 0xE2, CHR 0x80, CHR 0xAF], [CHR 0xE2, CHR 0x81, CHR 0x9F],
     [CHR 0xE3, CHR 0x80, CHR 0x80]]"

definition is_ws :: "string \<Rightarrow> bool" where
  "is_ws g = List.member unicode_ws g"

lemma cont_byte: "is_cont c \<Longrightarrow> 128 \<le> (of_char c :: nat)"
  by (cases c) (simp add: is_cont_def)

lemma ws_byte: "is_ws [c] \<Longrightarrow> (of_char c :: nat) \<le> 32"
  by (auto simp: is_ws_def unicode_ws_def)

definition str_trim :: "string \<Rightarrow> string" where
  "str_trim s = concat (rev (dropWhile is_ws (rev (dropWhile is_ws (utf8_chars s)))))"

definition str_trim_start :: "string \<Rightarrow> string" where
  "str_trim_start s = concat (dropWhile is_ws (utf8_chars s))"

definition ascii_lower_char :: "char \<Rightarrow> char" where
  "ascii_lower_char c =
     (let n = (of_char c :: nat) in if 65 \<le> n \<and> n \<le> 90 then char_of (n + 32) else c)"

definition to_ascii_lowercase :: "string \<Rightarrow> string" where
  "to_ascii_lowercase s = map ascii_lower_char s"

definition is_ascii_digit :: "char \<Rightarrow> bool" where
  "is_ascii_digit c = (let n = (of_char c :: nat) in 48 \<le> n \<and> n \<le> 57)"

definition is_ascii_lowercase :: "char \<Rightarrow> bool" where
  "is_ascii_lowercase c = (let n = (of_char c :: nat) in 97 \<le> n \<and> n \<le> 122)"

definition is_ascii_uppercase :: "char \<Rightarrow> bool" where
  "is_ascii_uppercase c = (let n = (of_char c :: nat) in 65 \<le> n \<and> n \<le> 90)"

definition is_ascii_alphanumeric :: "char \<Rightarrow> bool" where
  "is_ascii_alphanumeric c = (is_ascii_digit c \<or> is_ascii_lowercase c \<or> is_ascii_uppercase c)"

section \<open>Prefixes, splits and searches\<close>

definition strip_prefix :: "string \<Rightarrow> string \<Rightarrow> string option" where
  "strip_prefix p s = (if take (length p) s = p then Some (drop (length p) s) else None)"

definition split_once :: "char \<Rightarrow> string \<Rightarrow> (string \<times> string) option" where
  "split_once c s =
     (if List.member s c then Some (takeWhile (\<lambda>x. x \<noteq> c) s, tl (dropWhile (\<lambda>x. x \<noteq> c) s)) else None)"

fun split_on :: "char \<Rightarrow> string \<Rightarrow> string list" where
  "split_on c [] = [[]]"
| "split_on c (x # xs) =
     (if x = c then [] # split_on c xs
      else (case split_on c xs of [] \<Rightarrow> [[x]] | y # ys \<Rightarrow> (x # y) # ys))"

text \<open>\<open>split_whitespace()\<close>: the non-empty runs of characters between white space.\<close>

fun split_ws :: "string list \<Rightarrow> string list list" where
  "split_ws [] = [[]]"
| "split_ws (g # gs) =
     (if is_ws g then [] # split_ws gs
      else (case split_ws gs of [] \<Rightarrow> [[g]] | y # ys \<Rightarrow> (g # y) # ys))"

definition split_whitespace :: "string \<Rightarrow> string list" where
  "split_whitespace s = map concat (filter (\<lambda>w. w \<noteq> []) (split_ws (utf8_chars s)))"

fun str_contains :: "string \<Rightarrow> string \<Rightarrow> bool" where
  "str_contains [] sub = (sub = [])"
| "str_contains (x # xs) sub = (take (length sub) (x # xs) = sub \<or> str_contains xs sub)"

definition trim_matches :: "char \<Rightarrow> string \<Rightarrow> string" where
  "trim_matches c s = rev (dropWhile (\<lambda>x. x = c) (rev (dropWhile (\<lambda>x. x = c) s)))"

text \<open>\<open>find\<close>, \<open>get(a..b)\<close>, \<open>starts_with\<close>, \<open>ends_with\<close> and \<open>join\<close>.\<close>

fun str_find :: "string \<Rightarrow> string \<Rightarrow> nat option" where
  "str_find needle s =
     (if take (length needle) s = needle then Some 0
      else case s of [] \<Rightarrow> None | _ # cs \<Rightarrow> map_option Suc (str_find needle cs))"

declare str_find.simps [simp del]

definition is_boundary :: "string \<Rightarrow> nat \<Rightarrow> bool" where
  "is_boundary s i = (i = 0 \<or> i = length s \<or> (i < length s \<and> \<not> is_cont (s ! i)))"

definition slice :: "string \<Rightarrow> nat \<Rightarrow> nat \<Rightarrow> string" where
  "slice s a b = take (b - a) (drop a s)"

definition str_get :: "string \<Rightarrow> nat \<Rightarrow> nat \<Rightarrow> string option" where
  "str_get s a b = (if a \<le> b \<and> is_boundary s a \<and> is_boundary s b then Some (slice s a b) else None)"

definition ends_with :: "string \<Rightarrow> string \<Rightarrow> bool" where
  "ends_with suf s = (length suf \<le> length s \<and> drop (length s - length suf) s = suf)"

definition starts_with :: "string \<Rightarrow> string \<Rightarrow> bool" where
  "starts_with p s = (take (length p) s = p)"

fun str_join :: "string \<Rightarrow> string list \<Rightarrow> string" where
  "str_join sep [] = []"
| "str_join sep [x] = x"
| "str_join sep (x # y # ys) = x @ sep @ str_join sep (y # ys)"

text \<open>The tables of Unicode that the standard library consults.\<close>

record unicode =
  lowercase :: "string \<Rightarrow> string"
  alphanumeric :: "string \<Rightarrow> bool"

lemma strip_prefix_append [simp]: "strip_prefix p (p @ s) = Some s"
  by (simp add: strip_prefix_def)

lemma strip_prefix_SomeD: "strip_prefix p s = Some r \<Longrightarrow> s = p @ r"
  by (metis append_take_drop_id option.inject option.distinct(1) strip_prefix_def)

lemma strip_prefix_missing: "c \<in> set p \<Longrightarrow> c \<notin> set s \<Longrightarrow> strip_prefix p s = None"
  by (cases "strip_prefix p s") (auto dest: strip_prefix_SomeD)

lemma split_once_append [simp]: "c \<notin> set a \<Longrightarrow> split_once c (a @ c # b) = Some (a, b)"
  by (induction a) (auto simp: split_once_def)

lemma split_once_SomeD: "split_once c s = Some (a, b) \<Longrightarrow> s = a @ c # b \<and> c \<notin> set a"
proof -
  assume h: "split_once c s = Some (a, b)"
  then have mem: "c \<in> set s" and a: "a = takeWhile (\<lambda>x. x \<noteq> c) s"
    and b: "b = tl (dropWhile (\<lambda>x. x \<noteq> c) s)"
    by (auto simp: split_once_def split: if_splits)
  from mem have ne: "dropWhile (\<lambda>x. x \<noteq> c) s \<noteq> []"
    by (auto simp: dropWhile_eq_Nil_conv)
  then have "hd (dropWhile (\<lambda>x. x \<noteq> c) s) = c"
    using hd_dropWhile [OF ne] by simp
  with ne b have "dropWhile (\<lambda>x. x \<noteq> c) s = c # b"
    by (metis list.collapse)
  with a have "s = a @ c # b"
    by (metis takeWhile_dropWhile_id)
  moreover have "c \<notin> set a"
    using a by (auto dest: set_takeWhileD)
  ultimately show ?thesis ..
qed

lemma utf8_chars_ascii: "\<forall>c \<in> set s. \<not> is_cont c \<Longrightarrow> utf8_chars s = map (\<lambda>c. [c]) s"
proof (induction s)
  case Nil
  then show ?case by simp
next
  case (Cons c cs)
  then have "takeWhile is_cont cs = []" and "dropWhile is_cont cs = cs"
    by (cases cs; simp)+
  with Cons show ?case by simp
qed

lemma dropWhile_none: "\<forall>x \<in> set xs. \<not> P x \<Longrightarrow> dropWhile P xs = xs"
  by (cases xs) simp_all

lemma str_trim_id: "\<forall>c \<in> set s. \<not> is_cont c \<and> \<not> is_ws [c] \<Longrightarrow> str_trim s = s"
  by (simp add: str_trim_def utf8_chars_ascii dropWhile_none)

lemma trim_matches_id: "c \<notin> set s \<Longrightarrow> trim_matches c s = s"
proof -
  assume "c \<notin> set s"
  then have "\<forall>x \<in> set s. \<not> x = c" by auto
  then have "dropWhile (\<lambda>x. x = c) s = s" and "dropWhile (\<lambda>x. x = c) (rev s) = rev s"
    by (simp_all add: dropWhile_none)
  then show ?thesis by (simp add: trim_matches_def)
qed

lemma split_on_none: "c \<notin> set s \<Longrightarrow> split_on c s = [s]"
  by (induction s) auto

section \<open>Characters of parts of a string\<close>

lemma takeWhile_stop: "xs = [] \<or> \<not> P (hd xs) \<Longrightarrow> takeWhile P (ys @ xs) = takeWhile P ys"
  by (induction ys) (cases xs; auto)+

lemma dropWhile_stop: "xs = [] \<or> \<not> P (hd xs) \<Longrightarrow> dropWhile P (ys @ xs) = dropWhile P ys @ xs"
  by (induction ys) (cases xs; auto)+

lemma utf8_chars_take_append:
  assumes "rest = [] \<or> \<not> is_cont (hd rest)"
  shows "utf8_chars (concat (take n (utf8_chars s)) @ rest) = take n (utf8_chars s) @ utf8_chars rest"
proof (induction s arbitrary: n rule: utf8_chars.induct)
  case 1
  then show ?case by simp
next
  case (2 c cs)
  show ?case
  proof (cases n)
    case (Suc m)
    define rem where "rem = concat (take m (utf8_chars (dropWhile is_cont cs))) @ rest"
    have "rem = [] \<or> \<not> is_cont (hd rem)"
    proof (cases "m = 0 \<or> dropWhile is_cont cs = []")
      case True
      then have "concat (take m (utf8_chars (dropWhile is_cont cs))) = []"
        by (elim disjE) (simp_all only: take_0 utf8_chars.simps take_Nil concat.simps)
      then show ?thesis using assms by (simp only: rem_def append_Nil)
    next
      case False
      then obtain d ds k where d: "dropWhile is_cont cs = d # ds" and m: "m = Suc k"
        by (cases "dropWhile is_cont cs"; cases m) auto
      then have "\<not> is_cont d" by (metis hd_dropWhile list.sel(1) list.distinct(1))
      then show ?thesis by (simp add: rem_def d m)
    qed
    moreover from this have "takeWhile is_cont rem = [] \<and> dropWhile is_cont rem = rem"
      by (cases rem) simp_all
    moreover have "dropWhile is_cont (takeWhile is_cont cs) = []"
      by (auto simp: dropWhile_eq_Nil_conv dest: set_takeWhileD)
    ultimately show ?thesis
      using 2 [of m] Suc by (simp add: takeWhile_stop dropWhile_stop flip: rem_def)
  qed simp
qed

lemma utf8_chars_append:
  "rest = [] \<or> \<not> is_cont (hd rest) \<Longrightarrow> utf8_chars (s @ rest) = utf8_chars s @ utf8_chars rest"
  using utf8_chars_take_append [of rest "length (utf8_chars s)" s] by simp

lemma utf8_chars_hd: "g \<in> set (tl (utf8_chars s)) \<Longrightarrow> g \<noteq> [] \<and> \<not> is_cont (hd g)"
proof (induction s rule: utf8_chars.induct)
  case (2 c cs)
  show ?case
  proof (cases "dropWhile is_cont cs")
    case (Cons d ds)
    then have "\<not> is_cont d" by (metis hd_dropWhile list.sel(1) list.distinct(1))
    with 2 Cons show ?thesis by auto
  next
    case Nil
    then have "utf8_chars (c # cs) = [c # takeWhile is_cont cs]" by (simp only: utf8_chars.simps)
    with 2(2) show ?thesis by simp
  qed
qed simp

lemma utf8_chars_nonempty: "g \<in> set (utf8_chars s) \<Longrightarrow> g \<noteq> []"
  by (induction s rule: utf8_chars.induct) auto

lemma utf8_chars_drop: "utf8_chars (concat (drop k (utf8_chars s))) = drop k (utf8_chars s)"
proof (cases k)
  case (Suc j)
  let ?rest = "concat (drop k (utf8_chars s))"
  have "?rest = [] \<or> \<not> is_cont (hd ?rest)"
  proof (cases "drop k (utf8_chars s)")
    case (Cons g gs)
    then have "g \<in> set (drop j (tl (utf8_chars s)))" by (metis Suc drop_Suc list.set_intros(1))
    then have "g \<noteq> []" "\<not> is_cont (hd g)" using utf8_chars_hd by (metis in_set_dropD)+
    with Cons show ?thesis by simp
  qed simp
  from utf8_chars_append [OF this, of "concat (take k (utf8_chars s))"] 
  have "utf8_chars s = utf8_chars (concat (take k (utf8_chars s))) @ utf8_chars ?rest"
    by (metis append_take_drop_id concat_append concat_utf8_chars)
  moreover have "utf8_chars (concat (take k (utf8_chars s))) = take k (utf8_chars s)"
    using utf8_chars_take_append [of "[]" k s] by simp
  ultimately show ?thesis by (metis append_take_drop_id same_append_eq)
qed simp


lemma dropWhile_drop: "dropWhile P xs = drop (length (takeWhile P xs)) xs"
  by (induction xs) auto

lemma trim_end_prefix: "rev (dropWhile P (rev xs)) = take (length (dropWhile P (rev xs))) xs"
  by (metis append_eq_conv_conj length_rev rev_append rev_rev_ident takeWhile_dropWhile_id)

lemma take_eq_ConsD: "take k xs = y # ys \<Longrightarrow> xs \<noteq> [] \<and> hd xs = y"
  by (cases xs; cases k) auto

text \<open>A trimmed string is a part of the string, and trimming it again changes nothing.\<close>

lemma str_trim_parts:
  obtains n m where "str_trim_start s = concat (drop n (utf8_chars s))"
    and "utf8_chars (str_trim s) = take m (drop n (utf8_chars s))"
    and "str_trim s = concat (take m (drop n (utf8_chars s)))"
    and "take m (drop n (utf8_chars s)) = rev (dropWhile is_ws (rev (dropWhile is_ws (utf8_chars s))))"
proof -
  define n where "n = length (takeWhile is_ws (utf8_chars s))"
  define m where "m = length (dropWhile is_ws (rev (drop n (utf8_chars s))))"
  have d: "dropWhile is_ws (utf8_chars s) = drop n (utf8_chars s)"
    unfolding n_def by (rule dropWhile_drop)
  have t: "take m (drop n (utf8_chars s)) = rev (dropWhile is_ws (rev (drop n (utf8_chars s))))"
    unfolding m_def by (rule trim_end_prefix [symmetric])
  have "utf8_chars (concat (take m (drop n (utf8_chars s)))) = take m (drop n (utf8_chars s))"
    using utf8_chars_take_append [of "[]" m "concat (drop n (utf8_chars s))"] by (simp add: utf8_chars_drop)
  with that [of n m] show ?thesis by (simp add: str_trim_start_def str_trim_def d t)
qed

lemma str_trim_idem: "str_trim (str_trim s) = str_trim s"
proof -
  obtain n m where ch: "utf8_chars (str_trim s) = take m (drop n (utf8_chars s))"
    and eq: "take m (drop n (utf8_chars s)) = rev (dropWhile is_ws (rev (dropWhile is_ws (utf8_chars s))))"
    by (rule str_trim_parts)
  let ?xs = "dropWhile is_ws (utf8_chars s)"
  have "dropWhile is_ws (rev (dropWhile is_ws (rev ?xs))) = rev (dropWhile is_ws (rev ?xs))"
  proof (cases "rev (dropWhile is_ws (rev ?xs))")
    case (Cons y ys)
    then have "take (length (dropWhile is_ws (rev ?xs))) ?xs = y # ys"
      by (simp only: trim_end_prefix [symmetric])
    then have "?xs \<noteq> []" "hd ?xs = y" by (auto dest: take_eq_ConsD)
    then have "\<not> is_ws y" using hd_dropWhile by blast
    with Cons show ?thesis by simp
  next
    case Nil
    then show ?thesis by (simp only: dropWhile.simps)
  qed
  then show ?thesis by (simp add: str_trim_def [of "str_trim s"] ch eq) (simp add: str_trim_def)
qed


lemma drop_leading:
  "drop (length s - length (str_trim_start s)) s = str_trim_start s"
proof -
  obtain n where n: "str_trim_start s = concat (drop n (utf8_chars s))" by (rule str_trim_parts)
  have "s = concat (take n (utf8_chars s)) @ str_trim_start s"
    by (metis n append_take_drop_id concat_append concat_utf8_chars)
  then show ?thesis by (metis append_eq_conv_conj length_append diff_add_inverse2)
qed

lemma trim_is_prefix: "take (length (str_trim s)) (str_trim_start s) = str_trim s"
proof -
  obtain n m where "str_trim_start s = concat (drop n (utf8_chars s))"
    and "str_trim s = concat (take m (drop n (utf8_chars s)))" by (rule str_trim_parts)
  then show ?thesis by (metis append_eq_conv_conj append_take_drop_id concat_append)
qed

end
