(* ===== verification/Authz.thy ===== *)
theory Authz
  imports RustStr
begin

text \<open>
  Role-based access control: the role and capability matrix (\<open>crates/authz/src/matrix.rs\<close>),
  the decision seam that runs before the tenant setting is written
  (\<open>crates/authz/src/lib.rs\<close>), and the request middleware that enforces the matrix
  (\<open>apps/api/src/middleware/authz.rs\<close>, \<open>org_guc.rs\<close>).
\<close>

section \<open>The matrix\<close>

datatype capability =
    OrgRead
  | OrgUpdate
  | OrgDelete
  | OrgMfaPolicySet
  | MemberList
  | MemberInvite
  | MemberDeactivate
  | MemberRoleAssign
  | BillingRead
  | BillingUpdate
  | BillingPortalAccess
  | ProjectCreate
  | ProjectRead
  | ProjectUpdate
  | ProjectDelete
  | ProjectArchive
  | BrandCreate
  | BrandRead
  | BrandUpdate
  | BrandDelete
  | PromptCreate
  | PromptRead
  | PromptUpdate
  | PromptDelete
  | RunCreate
  | RunRead
  | ApiKeyCreate
  | ApiKeyRevoke
  | ApiKeyList
  | WebhookCreate
  | WebhookUpdate
  | WebhookDelete
  | WebhookRead
  | AuditRead
  | BrandGrantManage

datatype role = Owner | Admin | Billing | Operator | Viewer

text \<open>
  One function per role, an equation per arm of the source's \<open>match (role, capability)\<close>.
\<close>

primrec admin_allows :: "capability \<Rightarrow> bool" where
  "admin_allows OrgRead = True"
| "admin_allows OrgUpdate = True"
| "admin_allows OrgDelete = False"
| "admin_allows OrgMfaPolicySet = True"
| "admin_allows MemberList = True"
| "admin_allows MemberInvite = True"
| "admin_allows MemberDeactivate = True"
| "admin_allows MemberRoleAssign = True"
| "admin_allows BillingRead = True"
| "admin_allows BillingUpdate = False"
| "admin_allows BillingPortalAccess = False"
| "admin_allows ProjectCreate = True"
| "admin_allows ProjectRead = True"
| "admin_allows ProjectUpdate = True"
| "admin_allows ProjectDelete = True"
| "admin_allows ProjectArchive = True"
| "admin_allows BrandCreate = True"
| "admin_allows BrandRead = True"
| "admin_allows BrandUpdate = True"
| "admin_allows BrandDelete = True"
| "admin_allows PromptCreate = True"
| "admin_allows PromptRead = True"
| "admin_allows PromptUpdate = True"
| "admin_allows PromptDelete = True"
| "admin_allows RunCreate = True"
| "admin_allows RunRead = True"
| "admin_allows ApiKeyCreate = True"
| "admin_allows ApiKeyRevoke = True"
| "admin_allows ApiKeyList = True"
| "admin_allows WebhookCreate = True"
| "admin_allows WebhookUpdate = True"
| "admin_allows WebhookDelete = True"
| "admin_allows WebhookRead = True"
| "admin_allows AuditRead = True"
| "admin_allows BrandGrantManage = True"

primrec billing_allows :: "capability \<Rightarrow> bool" where
  "billing_allows OrgRead = True"
| "billing_allows OrgUpdate = False"
| "billing_allows OrgDelete = False"
| "billing_allows OrgMfaPolicySet = False"
| "billing_allows MemberList = False"
| "billing_allows MemberInvite = False"
| "billing_allows MemberDeactivate = False"
| "billing_allows MemberRoleAssign = False"
| "billing_allows BillingRead = True"
| "billing_allows BillingUpdate = True"
| "billing_allows BillingPortalAccess = True"
| "billing_allows ProjectCreate = False"
| "billing_allows ProjectRead = False"
| "billing_allows ProjectUpdate = False"
| "billing_allows ProjectDelete = False"
| "billing_allows ProjectArchive = False"
| "billing_allows BrandCreate = False"
| "billing_allows BrandRead = False"
| "billing_allows BrandUpdate = False"
| "billing_allows BrandDelete = False"
| "billing_allows PromptCreate = False"
| "billing_allows PromptRead = False"
| "billing_allows PromptUpdate = False"
| "billing_allows PromptDelete = False"
| "billing_allows RunCreate = False"
| "billing_allows RunRead = False"
| "billing_allows ApiKeyCreate = False"
| "billing_allows ApiKeyRevoke = False"
| "billing_allows ApiKeyList = False"
| "billing_allows WebhookCreate = False"
| "billing_allows WebhookUpdate = False"
| "billing_allows WebhookDelete = False"
| "billing_allows WebhookRead = False"
| "billing_allows AuditRead = False"
| "billing_allows BrandGrantManage = False"

primrec operator_allows :: "capability \<Rightarrow> bool" where
  "operator_allows OrgRead = True"
| "operator_allows OrgUpdate = False"
| "operator_allows OrgDelete = False"
| "operator_allows OrgMfaPolicySet = False"
| "operator_allows MemberList = True"
| "operator_allows MemberInvite = False"
| "operator_allows MemberDeactivate = False"
| "operator_allows MemberRoleAssign = False"
| "operator_allows BillingRead = False"
| "operator_allows BillingUpdate = False"
| "operator_allows BillingPortalAccess = False"
| "operator_allows ProjectCreate = True"
| "operator_allows ProjectRead = True"
| "operator_allows ProjectUpdate = True"
| "operator_allows ProjectDelete = False"
| "operator_allows ProjectArchive = True"
| "operator_allows BrandCreate = False"
| "operator_allows BrandRead = True"
| "operator_allows BrandUpdate = False"
| "operator_allows BrandDelete = False"
| "operator_allows PromptCreate = True"
| "operator_allows PromptRead = True"
| "operator_allows PromptUpdate = True"
| "operator_allows PromptDelete = True"
| "operator_allows RunCreate = True"
| "operator_allows RunRead = True"
| "operator_allows ApiKeyCreate = True"
| "operator_allows ApiKeyRevoke = True"
| "operator_allows ApiKeyList = True"
| "operator_allows WebhookCreate = True"
| "operator_allows WebhookUpdate = True"
| "operator_allows WebhookDelete = True"
| "operator_allows WebhookRead = True"
| "operator_allows AuditRead = False"
| "operator_allows BrandGrantManage = False"

primrec viewer_allows :: "capability \<Rightarrow> bool" where
  "viewer_allows OrgRead = True"
| "viewer_allows OrgUpdate = False"
| "viewer_allows OrgDelete = False"
| "viewer_allows OrgMfaPolicySet = False"
| "viewer_allows MemberList = True"
| "viewer_allows MemberInvite = False"
| "viewer_allows MemberDeactivate = False"
| "viewer_allows MemberRoleAssign = False"
| "viewer_allows BillingRead = False"
| "viewer_allows BillingUpdate = False"
| "viewer_allows BillingPortalAccess = False"
| "viewer_allows ProjectCreate = False"
| "viewer_allows ProjectRead = True"
| "viewer_allows ProjectUpdate = False"
| "viewer_allows ProjectDelete = False"
| "viewer_allows ProjectArchive = False"
| "viewer_allows BrandCreate = False"
| "viewer_allows BrandRead = True"
| "viewer_allows BrandUpdate = False"
| "viewer_allows BrandDelete = False"
| "viewer_allows PromptCreate = False"
| "viewer_allows PromptRead = True"
| "viewer_allows PromptUpdate = False"
| "viewer_allows PromptDelete = False"
| "viewer_allows RunCreate = False"
| "viewer_allows RunRead = True"
| "viewer_allows ApiKeyCreate = False"
| "viewer_allows ApiKeyRevoke = False"
| "viewer_allows ApiKeyList = True"
| "viewer_allows WebhookCreate = False"
| "viewer_allows WebhookUpdate = False"
| "viewer_allows WebhookDelete = False"
| "viewer_allows WebhookRead = True"
| "viewer_allows AuditRead = False"
| "viewer_allows BrandGrantManage = False"

definition is_allowed :: "role \<Rightarrow> capability \<Rightarrow> bool" where
  "is_allowed r c =
     (case r of
        Owner \<Rightarrow> True
      | Admin \<Rightarrow> admin_allows c
      | Billing \<Rightarrow> billing_allows c
      | Operator \<Rightarrow> operator_allows c
      | Viewer \<Rightarrow> viewer_allows c)"

definition ALL_CAPABILITIES :: "capability list" where
  "ALL_CAPABILITIES = [OrgRead, OrgUpdate, OrgDelete, OrgMfaPolicySet, MemberList, MemberInvite,
     MemberDeactivate, MemberRoleAssign, BillingRead, BillingUpdate, BillingPortalAccess, ProjectCreate,
     ProjectRead, ProjectUpdate, ProjectDelete, ProjectArchive, BrandCreate, BrandRead,
     BrandUpdate, BrandDelete, PromptCreate, PromptRead, PromptUpdate, PromptDelete,
     RunCreate, RunRead, ApiKeyCreate, ApiKeyRevoke, ApiKeyList, WebhookCreate,
     WebhookUpdate, WebhookDelete, WebhookRead, AuditRead, BrandGrantManage]"

definition ALL_ROLES :: "role list" where
  "ALL_ROLES = [Owner, Admin, Billing, Operator, Viewer]"

lemma is_allowed_simps [simp]:
  "is_allowed Owner c = True"
  "is_allowed Admin c = admin_allows c"
  "is_allowed Billing c = billing_allows c"
  "is_allowed Operator c = operator_allows c"
  "is_allowed Viewer c = viewer_allows c"
  by (simp_all add: is_allowed_def)

lemma viewer_operator: "viewer_allows c \<Longrightarrow> operator_allows c"
  by (cases c) simp_all

lemma operator_admin: "operator_allows c \<Longrightarrow> admin_allows c"
  by (cases c) simp_all

lemma billing_allows_iff:
  "billing_allows c \<longleftrightarrow> c \<in> {OrgRead, BillingRead, BillingUpdate, BillingPortalAccess}"
  by (cases c) simp_all

lemma all_capabilities: "c \<in> set ALL_CAPABILITIES"
  by (cases c) (simp_all add: ALL_CAPABILITIES_def)

section \<open>The decision seam\<close>

datatype decision = Allow | Deny

datatype authz_error = Store string | GucSet string

text \<open>
  The deciders of the crate: \<open>DenyAllDecider\<close>, \<open>AllowAllDecider\<close>, \<open>ErrorDecider\<close> and
  \<open>RbacDecider\<close> (a role lookup and the capability it checks).
\<close>

definition deny_all_decide :: "uuid \<Rightarrow> uuid \<Rightarrow> authz_error + decision" where
  "deny_all_decide caller org = Inr Deny"

definition allow_all_decide :: "uuid \<Rightarrow> uuid \<Rightarrow> authz_error + decision" where
  "allow_all_decide caller org = Inr Allow"

definition error_decide :: "uuid \<Rightarrow> uuid \<Rightarrow> authz_error + decision" where
  "error_decide caller org = Inl (Store ''injected failure'')"

definition rbac_decide ::
  "(uuid \<Rightarrow> uuid \<Rightarrow> role option) \<Rightarrow> capability \<Rightarrow> uuid \<Rightarrow> uuid \<Rightarrow> authz_error + decision" where
  "rbac_decide role_lookup cap caller org =
     (case role_lookup caller org of
        None \<Rightarrow> Inr Deny
      | Some r \<Rightarrow> if is_allowed r cap then Inr Allow else Inr Deny)"

text \<open>
  The tenant setting \<open>app.org\<close> is a state of type \<open>uuid option\<close>; \<open>set_local\<close> of a
  \<open>GucContext\<close> takes it and returns the new one.
\<close>

type_synonym guc = "uuid option"

definition noop_set_local :: "uuid \<Rightarrow> guc \<Rightarrow> (authz_error + unit) \<times> guc" where
  "noop_set_local org g = (Inr (), g)"

definition faulty_set_local :: "uuid \<Rightarrow> guc \<Rightarrow> (authz_error + unit) \<times> guc" where
  "faulty_set_local org g = (Inl (GucSet ''injected SET LOCAL failure''), g)"

definition authz_then_guc ::
  "(uuid \<Rightarrow> uuid \<Rightarrow> authz_error + decision) \<Rightarrow> (uuid \<Rightarrow> guc \<Rightarrow> (authz_error + unit) \<times> guc)
     \<Rightarrow> uuid \<Rightarrow> uuid \<Rightarrow> guc \<Rightarrow> (authz_error + decision) \<times> guc" where
  "authz_then_guc decide set_local caller org g =
     (case decide caller org of
        Inl e \<Rightarrow> (Inl e, g)
      | Inr d \<Rightarrow>
          if d = Deny then (Inr Deny, g)
          else case set_local org g of
                 (Inl e, g') \<Rightarrow> (Inl e, g')
               | (Inr _, g') \<Rightarrow> (Inr Allow, g'))"

text \<open>What the entry point relies on: a setter that fails leaves the setting as it was.\<close>

locale guc_context =
  fixes set_local :: "uuid \<Rightarrow> guc \<Rightarrow> (authz_error + unit) \<times> guc"
  assumes set_fail: "set_local org g = (Inl e, g') \<Longrightarrow> g' = g"
begin

lemma guc_written_only_on_allow:
  assumes "authz_then_guc decide set_local caller org g = (res, g')" and "g' \<noteq> g"
  shows "decide caller org = Inr Allow \<and> res = Inr Allow"
  using assms
  by (auto simp: authz_then_guc_def split: sum.splits if_splits prod.splits
      dest: set_fail intro: decision.exhaust)

end

interpretation noop_guc: guc_context noop_set_local
  by unfold_locales (simp add: noop_set_local_def)

interpretation faulty_guc: guc_context faulty_set_local
  by unfold_locales (simp add: faulty_set_local_def)

text \<open>What a decider promises: it never fails, and it allows exactly what the role may do.\<close>

locale role_decider =
  fixes decide :: "uuid \<Rightarrow> uuid \<Rightarrow> authz_error + decision"
    and role_of :: "uuid \<Rightarrow> uuid \<Rightarrow> role option"
    and cap :: capability
  assumes total: "\<exists>d. decide caller org = Inr d"
    and allow_iff: "decide caller org = Inr Allow \<longleftrightarrow>
      (\<exists>r. role_of caller org = Some r \<and> is_allowed r cap)"
begin

lemma entry_allows_iff:
  assumes "set_local org g = (Inr (), g')"
  shows "fst (authz_then_guc decide set_local caller org g) = Inr Allow \<longleftrightarrow>
    (\<exists>r. role_of caller org = Some r \<and> is_allowed r cap)"
proof -
  obtain d where d: "decide caller org = Inr d"
    using total by blast
  show ?thesis
    using assms d allow_iff [of caller org]
    by (cases d) (simp_all add: authz_then_guc_def)
qed

lemma denied_leaves_guc:
  assumes "\<nexists>r. role_of caller org = Some r \<and> is_allowed r cap"
  shows "authz_then_guc decide set_local caller org g = (Inr Deny, g)"
proof -
  obtain d where d: "decide caller org = Inr d"
    using total by blast
  show ?thesis
    using assms d allow_iff [of caller org]
    by (cases d) (auto simp: authz_then_guc_def)
qed

end

interpretation rbac: role_decider "rbac_decide role_lookup cap" role_lookup cap
  for role_lookup cap
  by unfold_locales (auto simp: rbac_decide_def split: option.splits)

section \<open>Brand grants\<close>

definition role_bypasses_brand_grants :: "role \<Rightarrow> bool" where
  "role_bypasses_brand_grants r = (r = Owner \<or> r = Admin)"

definition role_requires_brand_grant :: "role \<Rightarrow> bool" where
  "role_requires_brand_grant r = (r = Operator \<or> r = Viewer)"

definition can_access_brand :: "role \<Rightarrow> bool \<Rightarrow> bool" where
  "can_access_brand r has_grant =
     (if role_bypasses_brand_grants r then True
      else if role_requires_brand_grant r then has_grant
      else False)"

section \<open>The enforcement middleware\<close>

record org_context =
  ctx_org_id :: uuid
  ctx_operator_id :: "uuid option"

text \<open>The request extensions the middleware reads and writes.\<close>

record request =
  required_capability :: "capability option"
  org_ctx :: "org_context option"
  caller_role :: "role option"

datatype authz_response =
    NotAMember
  | RoleForbidden role capability
  | ServiceUnavailable

text \<open>
  \<open>resolve_role\<close> runs one query on \<open>operator_org_roles\<close>: its result is \<open>None\<close> when the
  query fails, else the rows of the table as \<open>(operator, org, role)\<close>.
\<close>

type_synonym role_rows = "(uuid \<times> uuid \<times> string) list"

definition parse_role :: "string \<Rightarrow> role option" where
  "parse_role s =
     (if s = ''owner'' then Some Owner
      else if s = ''admin'' then Some Admin
      else if s = ''billing'' then Some Billing
      else if s = ''operator'' then Some Operator
      else if s = ''viewer'' then Some Viewer
      else None)"

definition resolve_role :: "role_rows option \<Rightarrow> uuid \<Rightarrow> uuid \<Rightarrow> authz_response + role option" where
  "resolve_role db operator_id org_id =
     (case db of
        None \<Rightarrow> Inl ServiceUnavailable
      | Some rows \<Rightarrow>
          Inr (case find (\<lambda>(op, org, _). op = operator_id \<and> org = org_id) rows of
                 None \<Rightarrow> None
               | Some (_, _, s) \<Rightarrow> parse_role s))"

text \<open>\<open>Inr\<close> is the request handed to the next handler, \<open>Inl\<close> the response sent instead.\<close>

definition check_authz :: "role_rows option \<Rightarrow> request \<Rightarrow> authz_response + request" where
  "check_authz db req =
     (case required_capability req of
        None \<Rightarrow> Inr req
      | Some cap \<Rightarrow>
          (case org_ctx req of
             None \<Rightarrow> Inr req
           | Some ctx \<Rightarrow>
               (case ctx_operator_id ctx of
                  None \<Rightarrow> Inr (req\<lparr>caller_role := Some Operator\<rparr>)
                | Some operator_id \<Rightarrow>
                    rbind (resolve_role db operator_id (ctx_org_id ctx)) (\<lambda>r.
                      case r of
                        None \<Rightarrow> Inl NotAMember
                      | Some r \<Rightarrow>
                          if is_allowed r cap then Inr (req\<lparr>caller_role := Some r\<rparr>)
                          else Inl (RoleForbidden r cap)))))"

definition enforce_capability ::
  "role_rows option \<Rightarrow> org_context option \<Rightarrow> capability \<Rightarrow> authz_response + role option" where
  "enforce_capability db ctx cap =
     (case ctx of
        None \<Rightarrow> Inr None
      | Some ctx \<Rightarrow>
          (case ctx_operator_id ctx of
             None \<Rightarrow>
               if is_allowed Operator cap then Inr (Some Operator)
               else Inl (RoleForbidden Operator cap)
           | Some operator_id \<Rightarrow>
               rbind (resolve_role db operator_id (ctx_org_id ctx)) (\<lambda>r.
                 case r of
                   None \<Rightarrow> Inl NotAMember
                 | Some r \<Rightarrow>
                     if is_allowed r cap then Inr (Some r) else Inl (RoleForbidden r cap))))"

text \<open>The two entry points agree whenever the caller is a known operator.\<close>

lemma check_authz_operator:
  assumes "required_capability req = Some cap" and "org_ctx req = Some ctx"
    and "ctx_operator_id ctx = Some op"
  shows "check_authz db req =
    rbind (enforce_capability db (Some ctx) cap) (\<lambda>r. Inr (req\<lparr>caller_role := r\<rparr>))"
  using assms
  by (auto simp: check_authz_def enforce_capability_def rbind_def split: sum.splits option.splits)

lemma enforce_allowed:
  "enforce_capability db (Some ctx) cap = Inr r \<Longrightarrow> \<exists>x. r = Some x \<and> is_allowed x cap"
  by (auto simp: enforce_capability_def res_simps split: option.splits if_splits)

section \<open>Properties\<close>

text \<open>
  The matrix is a hierarchy: everything a viewer may do an operator may do,
  everything an operator may do an admin may do, and an owner may do everything, each
  strictly more than the one before; the billing role stands aside with exactly the
  organisation read and the three billing capabilities, two of which an admin lacks.
\<close>

theorem role_hierarchy:
  "{c. is_allowed Viewer c} \<subset> {c. is_allowed Operator c}
   \<and> {c. is_allowed Operator c} \<subset> {c. is_allowed Admin c}
   \<and> {c. is_allowed Admin c} \<subset> {c. is_allowed Owner c}
   \<and> {c. is_allowed Owner c} = set ALL_CAPABILITIES
   \<and> {c. is_allowed Billing c} = {OrgRead, BillingRead, BillingUpdate, BillingPortalAccess}
   \<and> {c. is_allowed Billing c} - {c. is_allowed Admin c} = {BillingUpdate, BillingPortalAccess}"
proof (intro conjI)
  show "{c. is_allowed Viewer c} \<subset> {c. is_allowed Operator c}"
    using viewer_operator by (auto intro!: psubsetI dest: equalityD2 [THEN subsetD, of _ _ ProjectCreate])
  show "{c. is_allowed Operator c} \<subset> {c. is_allowed Admin c}"
    using operator_admin by (auto intro!: psubsetI dest: equalityD2 [THEN subsetD, of _ _ OrgUpdate])
  show "{c. is_allowed Admin c} \<subset> {c. is_allowed Owner c}"
    by (auto intro!: psubsetI dest: equalityD2 [THEN subsetD, of _ _ OrgDelete])
  show "{c. is_allowed Owner c} = set ALL_CAPABILITIES"
    using all_capabilities by auto
  show "{c. is_allowed Billing c} = {OrgRead, BillingRead, BillingUpdate, BillingPortalAccess}"
    using billing_allows_iff by auto
  show "{c. is_allowed Billing c} - {c. is_allowed Admin c} = {BillingUpdate, BillingPortalAccess}"
    by (auto simp: billing_allows_iff)
qed

text \<open>
  Authorisation before tenant: with the matrix-backed decider, whatever the
  setter does, the entry point calls it exactly when the caller has a role that may perform
  the capability, passes a setter failure on, and otherwise answers deny with the tenant
  setting untouched.
\<close>

theorem tenant_set_only_after_allow:
  "authz_then_guc (rbac_decide role_lookup cap) set_local caller org g =
     (if \<exists>r. role_lookup caller org = Some r \<and> is_allowed r cap
      then (case set_local org g of
              (Inl e, g') \<Rightarrow> (Inl e, g')
            | (Inr _, g') \<Rightarrow> (Inr Allow, g'))
      else (Inr Deny, g))"
proof (cases "\<exists>r. role_lookup caller org = Some r \<and> is_allowed r cap")
  case True
  then have "rbac_decide role_lookup cap caller org = Inr Allow"
    by (simp add: rbac.allow_iff)
  with True show ?thesis by (simp add: authz_then_guc_def)
next
  case False
  then have "authz_then_guc (rbac_decide role_lookup cap) set_local caller org g = (Inr Deny, g)"
    by (intro rbac.denied_leaves_guc)
  with False show ?thesis by auto
qed



text \<open>
  A request whose context carries no operator (an API key) passes the
  middleware whatever capability the route requires, with the operator role stamped on it,
  while the in-handler check refuses exactly the capabilities the operator role lacks.
\<close>

theorem api_key_bypasses_matrix:
  assumes "required_capability req = Some cap" and "org_ctx req = Some ctx"
    and "ctx_operator_id ctx = None"
  shows "check_authz db req = Inr (req\<lparr>caller_role := Some Operator\<rparr>)
    \<and> is_ok (enforce_capability db (Some ctx) cap) = is_allowed Operator cap"
  using assms by (simp add: check_authz_def enforce_capability_def)

theorem api_key_bypasses_matrix_witness:
  "check_authz None
     \<lparr>required_capability = Some OrgDelete, org_ctx = Some \<lparr>ctx_org_id = 3, ctx_operator_id = None\<rparr>,
      caller_role = None\<rparr>
   = Inr \<lparr>required_capability = Some OrgDelete, org_ctx = Some \<lparr>ctx_org_id = 3, ctx_operator_id = None\<rparr>,
      caller_role = Some Operator\<rparr>
   \<and> \<not> is_ok (enforce_capability None (Some \<lparr>ctx_org_id = 3, ctx_operator_id = None\<rparr>) OrgDelete)"
  using api_key_bypasses_matrix [of "\<lparr>required_capability = Some OrgDelete,
      org_ctx = Some \<lparr>ctx_org_id = 3, ctx_operator_id = None\<rparr>, caller_role = None\<rparr>"
      OrgDelete "\<lparr>ctx_org_id = 3, ctx_operator_id = None\<rparr>"]
  by simp

end
