(* ===== verification/RustNum.thy ===== *)
theory RustNum
  imports RustStr
begin

text \<open>
  Numbers as text: \<open>from_str_radix\<close> and \<open>parse\<close> of the Rust integer types (a leading
  \<open>+\<close> is accepted, a leading \<open>-\<close> for signed types only, an empty digit string and an
  overflow are errors), decimal printing, and lower-case hex of bytes; with the round trips
  the signature and key formats rest on.
\<close>

section \<open>Digits\<close>

definition digit_val :: "nat \<Rightarrow> char \<Rightarrow> nat option" where
  "digit_val radix c =
     (let n = (of_char c :: nat);
          v = (if 48 \<le> n \<and> n \<le> 57 then n - 48
               else if 97 \<le> n \<and> n \<le> 122 then n - 87
               else if 65 \<le> n \<and> n \<le> 90 then n - 55
               else radix)
      in if v < radix then Some v else None)"

fun digits_val :: "nat \<Rightarrow> nat \<Rightarrow> string \<Rightarrow> nat option" where
  "digits_val radix acc [] = Some acc"
| "digits_val radix acc (c # cs) =
     (case digit_val radix c of None \<Rightarrow> None | Some d \<Rightarrow> digits_val radix (acc * radix + d) cs)"

definition digit_char :: "nat \<Rightarrow> char" where
  "digit_char d = (if d < 10 then char_of (48 + d) else char_of (87 + d))"

definition is_ascii_hexdigit :: "char \<Rightarrow> bool" where
  "is_ascii_hexdigit c = (digit_val 16 c \<noteq> None)"

section \<open>Parsing\<close>

text \<open>Wrapping of a mathematical integer to \<open>i64\<close>.\<close>

definition wrap_i64 :: "int \<Rightarrow> int" where
  "wrap_i64 x = (x + 2 ^ 63) mod 2 ^ 64 - 2 ^ 63"

lemma wrap_i64_id: "- (2 ^ 63) \<le> x \<Longrightarrow> x < 2 ^ 63 \<Longrightarrow> wrap_i64 x = x"
  by (simp add: wrap_i64_def)

text \<open>An unsigned integer of \<open>bits\<close> bits.\<close>

definition parse_uint :: "nat \<Rightarrow> nat \<Rightarrow> string \<Rightarrow> nat option" where
  "parse_uint bits radix s =
     (let ds = (case s of [] \<Rightarrow> [] | c # cs \<Rightarrow> if c = CHR ''+'' then cs else s)
      in if ds = [] then None
         else case digits_val radix 0 ds of
                None \<Rightarrow> None
              | Some n \<Rightarrow> if n < 2 ^ bits then Some n else None)"

definition parse_i64 :: "string \<Rightarrow> int option" where
  "parse_i64 s =
     (let (neg, ds) = (case s of [] \<Rightarrow> (False, [])
                       | c # cs \<Rightarrow> if c = CHR ''-'' then (True, cs)
                                  else if c = CHR ''+'' then (False, cs) else (False, s))
      in if ds = [] then None
         else case digits_val 10 0 ds of
                None \<Rightarrow> None
              | Some n \<Rightarrow>
                  let v = (if neg then - int n else int n)
                  in if - (2 ^ 63) \<le> v \<and> v < 2 ^ 63 then Some v else None)"

section \<open>Printing\<close>

fun show_nat :: "nat \<Rightarrow> string" where
  "show_nat n = (if n < 10 then [digit_char n] else show_nat (n div 10) @ [digit_char (n mod 10)])"

declare show_nat.simps [simp del]

definition show_int :: "int \<Rightarrow> string" where
  "show_int i = (if i < 0 then CHR ''-'' # show_nat (nat (- i)) else show_nat (nat i))"

definition hex_byte :: "u8 \<Rightarrow> string" where
  "hex_byte b = [digit_char (unat b div 16), digit_char (unat b mod 16)]"

definition hex_lower :: "u8 list \<Rightarrow> string" where
  "hex_lower bs = concat (map hex_byte bs)"

definition str_bytes :: "string \<Rightarrow> u8 list" where
  "str_bytes s = map of_char s"

lemma digit_char_eqI: "of_char c = 48 + d \<Longrightarrow> d < 10 \<Longrightarrow> digit_char d = c"
  by (metis char_of_char digit_char_def)

lemma digit_char_lits [simp]:
  "digit_char 0 = CHR ''0''" "digit_char (Suc 0) = CHR ''1''" "digit_char 1 = CHR ''1''"
  "digit_char 2 = CHR ''2''" "digit_char 3 = CHR ''3''" "digit_char 4 = CHR ''4''"
  "digit_char 5 = CHR ''5''" "digit_char 6 = CHR ''6''" "digit_char 7 = CHR ''7''"
  "digit_char 8 = CHR ''8''" "digit_char 9 = CHR ''9''"
  by (rule digit_char_eqI; simp)+

section \<open>Round trips\<close>

lemma of_char_digit_char: "d < 16 \<Longrightarrow> (of_char (digit_char d) :: nat) = (if d < 10 then 48 + d else 87 + d)"
  by (auto simp: digit_char_def)

lemma digit_val_digit_char: "d < radix \<Longrightarrow> radix \<le> 16 \<Longrightarrow> digit_val radix (digit_char d) = Some d"
  by (auto simp: digit_val_def of_char_digit_char Let_def)

lemma digits_val_append:
  "digits_val radix acc (xs @ ys) =
     (case digits_val radix acc xs of None \<Rightarrow> None | Some a \<Rightarrow> digits_val radix a ys)"
  by (induction xs arbitrary: acc) (auto split: option.splits)

lemma digits_val_show_nat: "digits_val 10 0 (show_nat n) = Some n"
proof (induction n rule: show_nat.induct)
  case (1 n)
  show ?case
  proof (cases "n < 10")
    case True
    then show ?thesis by (simp add: show_nat.simps [of n] digit_val_digit_char)
  next
    case False
    with 1 have "digits_val 10 0 (show_nat (n div 10)) = Some (n div 10)" by simp
    with False show ?thesis
      by (simp add: show_nat.simps [of n] digits_val_append digit_val_digit_char)
  qed
qed

lemma show_nat_digits: "\<forall>c \<in> set (show_nat n). digit_val 10 c \<noteq> None"
proof (induction n rule: show_nat.induct)
  case (1 n)
  then show ?case
    by (cases "n < 10") (auto simp: show_nat.simps [of n] digit_val_digit_char)
qed

lemma show_nat_not_Nil [simp]: "show_nat n \<noteq> []"
  by (subst show_nat.simps) simp

lemma digit_not_sign:
  assumes "digit_val 10 c \<noteq> None"
  shows "c \<noteq> CHR ''-''" "c \<noteq> CHR ''+''" "c \<noteq> CHR '',''"
  using assms by (auto simp: digit_val_def)

lemma show_int_no_comma: "CHR '','' \<notin> set (show_int i)"
  using show_nat_digits digit_not_sign(3) by (auto simp: show_int_def)

lemma parse_i64_show_int:
  assumes "- (2 ^ 63) \<le> i" and "i < 2 ^ 63"
  shows "parse_i64 (show_int i) = Some i"
proof (cases "i < 0")
  case True
  then show ?thesis
    using assms by (simp add: parse_i64_def show_int_def digits_val_show_nat)
next
  case False
  obtain c cs where eq: "show_nat (nat i) = c # cs"
    by (cases "show_nat (nat i)") auto
  with show_nat_digits [of "nat i"] have "digit_val 10 c \<noteq> None" by auto
  then have "c \<noteq> CHR ''-''" "c \<noteq> CHR ''+''" by (rule digit_not_sign)+
  with False assms eq digits_val_show_nat [of "nat i"] show ?thesis
    by (simp add: parse_i64_def show_int_def split: option.splits)
qed

lemma parse_i64_range: "parse_i64 s = Some i \<Longrightarrow> - (2 ^ 63) \<le> i \<and> i < 2 ^ 63"
  by (auto simp: parse_i64_def Let_def split: list.splits if_splits option.splits)

lemma parse_uint_bound: "parse_uint bits radix s = Some n \<Longrightarrow> n < 2 ^ bits"
  by (auto simp: parse_uint_def Let_def split: list.splits if_splits option.splits)

lemma parse_uint_show_nat: "n < 2 ^ bits \<Longrightarrow> parse_uint bits 10 (show_nat n) = Some n"
proof -
  assume b: "n < 2 ^ bits"
  obtain c cs where eq: "show_nat n = c # cs"
    by (cases "show_nat n") auto
  with show_nat_digits [of n] have "digit_val 10 c \<noteq> None" by auto
  then have "c \<noteq> CHR ''+''" by (rule digit_not_sign)
  with b eq digits_val_show_nat [of n] show ?thesis
    by (simp add: parse_uint_def split: option.splits)
qed

lemma unat_u8_lt: "unat (b :: u8) < 256"
  using unsigned_less [where 'a = nat and w = b] by simp

lemma hex_byte_hexdigits: "\<forall>c \<in> set (hex_byte b). is_ascii_hexdigit c"
proof -
  have "unat b div 16 < 16" using unat_u8_lt [of b] by (simp add: div_less_iff_less_mult)
  then show ?thesis
    by (auto simp: hex_byte_def is_ascii_hexdigit_def digit_val_digit_char)
qed

lemma hex_lower_hexdigits: "\<forall>c \<in> set (hex_lower bs). is_ascii_hexdigit c"
  using hex_byte_hexdigits by (auto simp: hex_lower_def)

lemma length_hex_lower [simp]: "length (hex_lower bs) = 2 * length bs"
  by (induction bs) (simp_all add: hex_lower_def hex_byte_def)

lemma digit_char_inj: "a < 16 \<Longrightarrow> b < 16 \<Longrightarrow> digit_char a = digit_char b \<Longrightarrow> a = b"
  by (metis digit_val_digit_char option.inject order_refl)

lemma hex_byte_inj: "hex_byte a = hex_byte b \<Longrightarrow> a = b"
proof -
  assume h: "hex_byte a = hex_byte b"
  have "unat a div 16 < 16" "unat b div 16 < 16"
    using unat_u8_lt [of a] unat_u8_lt [of b] by (simp_all add: div_less_iff_less_mult)
  with h have "unat a div 16 = unat b div 16" and "unat a mod 16 = unat b mod 16"
    using digit_char_inj [of "unat a div 16" "unat b div 16"]
      digit_char_inj [of "unat a mod 16" "unat b mod 16"]
    by (simp_all add: hex_byte_def)
  then have "unat a = unat b"
    by (metis div_mult_mod_eq)
  then show ?thesis by (simp add: unsigned_word_eqI)
qed

lemma hex_lower_inj: "hex_lower as = hex_lower bs \<Longrightarrow> as = bs"
proof (induction as arbitrary: bs)
  case Nil
  then show ?case by (cases bs) (simp_all add: hex_lower_def hex_byte_def)
next
  case (Cons a as)
  then obtain b bs' where bs: "bs = b # bs'"
    by (cases bs) (simp_all add: hex_lower_def hex_byte_def)
  with Cons.prems have "hex_byte a = hex_byte b" and "hex_lower as = hex_lower bs'"
    by (simp_all add: hex_lower_def hex_byte_def)
  with bs Cons.IH hex_byte_inj show ?case by blast
qed

lemma unat_of_char_u8 [simp]: "unat (of_char c :: u8) = of_char c"
proof -
  have "(of_char c :: u8) = of_nat (of_char c)"
    by (simp only: of_nat_of_char)
  then show ?thesis
    by (simp add: unat_of_nat)
qed

lemma str_bytes_inj: "str_bytes a = str_bytes b \<Longrightarrow> a = b"
proof (induction a arbitrary: b)
  case Nil
  then show ?case by (simp add: str_bytes_def)
next
  case (Cons x xs)
  then obtain y ys where b: "b = y # ys"
    by (cases b) (simp_all add: str_bytes_def)
  with Cons.prems have "(of_char x :: u8) = of_char y" and tl: "str_bytes xs = str_bytes ys"
    by (simp_all add: str_bytes_def)
  then have "unat (of_char x :: u8) = unat (of_char y :: u8)" by simp
  then have "x = y" by simp
  with b tl Cons.IH show ?case by simp
qed

end
