(* ===== verification/Authn.thy ===== *)
theory Authn
  imports Authz RustNum
begin

text \<open>
  Operator lifecycle guards: key minting and the last-owner rule
  (\<open>crates/authn/src/invites.rs\<close>) and the MFA policy gate (\<open>crates/authn/src/totp.rs\<close>).
  SHA-256 is a parameter of the definitions that hash.
\<close>

section \<open>Roles and key minting\<close>

datatype org_role = OrViewer | OrOperator | OrAdmin | OrBilling | OrOwner

text \<open>The declared discriminants; \<open>PartialOrd\<close> and \<open>Ord\<close> are derived from them.\<close>

primrec discriminant :: "org_role \<Rightarrow> nat" where
  "discriminant OrViewer = 0"
| "discriminant OrOperator = 1"
| "discriminant OrAdmin = 2"
| "discriminant OrBilling = 3"
| "discriminant OrOwner = 4"

lemma discriminant_inj: "discriminant a = discriminant b \<Longrightarrow> a = b"
  by (cases a; cases b) simp_all

instantiation org_role :: linorder
begin

definition less_eq_org_role :: "org_role \<Rightarrow> org_role \<Rightarrow> bool" where
  "less_eq_org_role a b = (discriminant a \<le> discriminant b)"

definition less_org_role :: "org_role \<Rightarrow> org_role \<Rightarrow> bool" where
  "less_org_role a b = (discriminant a < discriminant b)"

instance
  by standard (auto simp: less_eq_org_role_def less_org_role_def dest: discriminant_inj)

end

definition can_mint_key_with_role :: "org_role \<Rightarrow> org_role \<Rightarrow> bool" where
  "can_mint_key_with_role minter target =
     (case minter of
        OrBilling \<Rightarrow> target = OrBilling \<or> target = OrViewer
      | _ \<Rightarrow> target \<le> minter)"

section \<open>Invites and guards\<close>

datatype invite_state = Pending | Invited | Accepted | Failed | Expired

datatype invite_error =
    LastOwnerViolation
  | KeyScopeEscalation org_role org_role
  | InvalidToken
  | InviteNotPending

definition hash_invite_token :: "(u8 list \<Rightarrow> u8 list) \<Rightarrow> string \<Rightarrow> string" where
  "hash_invite_token sha256 token = hex_lower (sha256 (str_bytes token))"

definition verify_invite_token :: "(u8 list \<Rightarrow> u8 list) \<Rightarrow> string \<Rightarrow> string \<Rightarrow> bool" where
  "verify_invite_token sha256 raw stored_hash =
     (let computed = hash_invite_token sha256 raw in str_bytes computed = str_bytes stored_hash)"

definition assert_not_last_owner :: "string \<Rightarrow> string list \<Rightarrow> invite_error + unit" where
  "assert_not_last_owner operator_id active_owners =
     (let remaining = filter (\<lambda>id. id \<noteq> operator_id) active_owners
      in if remaining = [] then Inl LastOwnerViolation else Inr ())"

definition assert_key_scope_not_escalated :: "org_role \<Rightarrow> org_role \<Rightarrow> invite_error + unit" where
  "assert_key_scope_not_escalated minter target =
     (if \<not> can_mint_key_with_role minter target then Inl (KeyScopeEscalation minter target)
      else Inr ())"

section \<open>MFA policy\<close>

datatype mfa_error = MfaEnrollmentRequired | MfaChallengeRequired

definition assert_mfa_policy :: "bool \<Rightarrow> bool \<Rightarrow> bool \<Rightarrow> mfa_error + unit" where
  "assert_mfa_policy org_mfa_required has_confirmed_enrollment token_mfa_verified =
     (if \<not> org_mfa_required then Inr ()
      else if \<not> has_confirmed_enrollment then Inl MfaEnrollmentRequired
      else if \<not> token_mfa_verified then Inl MfaChallengeRequired
      else Inr ())"

section \<open>Lemmas\<close>

primrec matrix_role :: "org_role \<Rightarrow> role" where
  "matrix_role OrViewer = Viewer"
| "matrix_role OrOperator = Operator"
| "matrix_role OrAdmin = Admin"
| "matrix_role OrBilling = Billing"
| "matrix_role OrOwner = Owner"

section \<open>Properties\<close>

text \<open>
  Key minting never hands out a capability the minter's own role lacks, for
  every pair of roles the guard accepts except one: a billing minter may issue a viewer
  key, which reads projects, prompts and runs that the billing role may not.
\<close>

theorem minting_escalates_only_billing_to_viewer:
  assumes "assert_key_scope_not_escalated minter target = Inr ()"
  shows "{c. is_allowed (matrix_role target) c} \<subseteq> {c. is_allowed (matrix_role minter) c}
     \<longleftrightarrow> \<not> (minter = OrBilling \<and> target = OrViewer)"
proof -
  have "\<not> {c. is_allowed Viewer c} \<subseteq> {c. is_allowed Billing c}"
    by (auto dest: subsetD [of _ _ ProjectRead])
  with assms viewer_operator operator_admin show ?thesis
    by (cases minter; cases target)
      (auto simp: assert_key_scope_not_escalated_def can_mint_key_with_role_def
        less_eq_org_role_def split: if_splits)
qed

theorem minting_escalates_only_billing_to_viewer_witness:
  "assert_key_scope_not_escalated OrBilling OrViewer = Inr ()
   \<and> \<not> {c. is_allowed Viewer c} \<subseteq> {c. is_allowed Billing c}"
proof -
  have h: "assert_key_scope_not_escalated OrBilling OrViewer = Inr ()"
    by (simp add: assert_key_scope_not_escalated_def can_mint_key_with_role_def)
  then show ?thesis
    using minting_escalates_only_billing_to_viewer [OF h] by simp
qed

text \<open>
  The last-owner guard lets an operator go exactly when some other active
  owner remains, so removing the operator from the list it was asked about never leaves the
  organisation without an owner.
\<close>

theorem last_owner_guard_exact:
  "(assert_not_last_owner op owners = Inr () \<longleftrightarrow> (\<exists>x \<in> set owners. x \<noteq> op))
   \<and> (is_ok (assert_not_last_owner op owners) \<longleftrightarrow> removeAll op owners \<noteq> [])"
  by (auto simp: assert_not_last_owner_def removeAll_filter_not_eq filter_empty_conv Let_def)

end
