(* ===== verification/F64.thy ===== *)
theory F64
  imports RustNum Complex_Main
begin

text \<open>
  The \<open>f64\<close> of Rust: IEEE 754 binary64 with round to nearest, ties to even. A value is not a
  number, an infinity (\<open>True\<close> for the negative one) or a finite number, kept as the rational it
  is; the two zeros are not told apart, which the operations below, none of which divides by a
  negative zero, do not need. With the conversions and the parser the sources use.
\<close>

datatype f64 = NaN | FInf bool | Fin rat

section \<open>Rounding\<close>

function bits :: "int \<Rightarrow> nat" where
  "bits n = (if n \<le> 0 then 0 else Suc (bits (n div 2)))"
  by pat_completeness auto
termination
  by (relation "measure nat") auto

declare bits.simps [simp del]

text \<open>The exponent of a positive rational: \<open>2^e \<le> q < 2^(e+1)\<close>.\<close>

definition flog2 :: "rat \<Rightarrow> int" where
  "flog2 q =
     (case quotient_of q of (a, b) \<Rightarrow>
        let k = int (bits a) - int (bits b)
        in if 2 powi k \<le> q then k else k - 1)"

definition round_half_even :: "rat \<Rightarrow> int" where
  "round_half_even x =
     (let f = \<lfloor>x\<rfloor>; d = x - of_int f
      in if d < 1 / 2 then f else if 1 / 2 < d then f + 1 else if even f then f else f + 1)"

text \<open>
  The mantissa has 53 bits, the least exponent is \<open>-1074\<close>, and a result of \<open>2^1024\<close> or more
  overflows.
\<close>

definition f64_round :: "rat \<Rightarrow> f64" where
  "f64_round q =
     (if q = 0 then Fin 0
      else let e = max (- 1074) (flog2 \<bar>q\<bar> - 52);
               m = round_half_even (q / 2 powi e)
           in if 971 < e \<or> e = 971 \<and> 2 ^ 53 \<le> \<bar>m\<bar> then FInf (q < 0) else Fin (of_int m * 2 powi e))"

section \<open>Operations\<close>

fun f64_div :: "f64 \<Rightarrow> f64 \<Rightarrow> f64" where
  "f64_div (Fin x) (Fin y) =
     (if y = 0 then (if x = 0 then NaN else FInf (x < 0)) else f64_round (x / y))"
| "f64_div (Fin x) (FInf s) = Fin 0"
| "f64_div (FInf s) (Fin y) = FInf (s \<noteq> (y < 0))"
| "f64_div _ _ = NaN"

fun f64_mul :: "f64 \<Rightarrow> f64 \<Rightarrow> f64" where
  "f64_mul (Fin x) (Fin y) = f64_round (x * y)"
| "f64_mul (Fin x) (FInf s) = (if x = 0 then NaN else FInf (s \<noteq> (x < 0)))"
| "f64_mul (FInf s) (Fin y) = (if y = 0 then NaN else FInf (s \<noteq> (y < 0)))"
| "f64_mul (FInf s) (FInf t) = FInf (s \<noteq> t)"
| "f64_mul _ _ = NaN"

fun f64_add :: "f64 \<Rightarrow> f64 \<Rightarrow> f64" where
  "f64_add (Fin x) (Fin y) = f64_round (x + y)"
| "f64_add (Fin x) (FInf s) = FInf s"
| "f64_add (FInf s) (Fin y) = FInf s"
| "f64_add (FInf s) (FInf t) = (if s = t then FInf s else NaN)"
| "f64_add _ _ = NaN"

text \<open>\<open>x < y\<close>, false when either is not a number; \<open>x <= y\<close>.\<close>

fun f64_lt :: "f64 \<Rightarrow> f64 \<Rightarrow> bool" where
  "f64_lt (Fin x) (Fin y) = (x < y)"
| "f64_lt (Fin x) (FInf s) = (\<not> s)"
| "f64_lt (FInf s) (Fin y) = s"
| "f64_lt (FInf s) (FInf t) = (s \<and> \<not> t)"
| "f64_lt _ _ = False"

definition f64_le :: "f64 \<Rightarrow> f64 \<Rightarrow> bool" where
  "f64_le x y = (x \<noteq> NaN \<and> y \<noteq> NaN \<and> (f64_lt x y \<or> x = y))"

lemma f64_le_Fin [simp]: "f64_le (Fin x) (Fin y) \<longleftrightarrow> x \<le> y"
  by (auto simp: f64_le_def)

fun f64_ceil :: "f64 \<Rightarrow> f64" where
  "f64_ceil (Fin x) = Fin (of_int \<lceil>x\<rceil>)"
| "f64_ceil x = x"

text \<open>\<open>round()\<close> rounds halves away from zero.\<close>

fun f64_round_int :: "f64 \<Rightarrow> f64" where
  "f64_round_int (Fin x) = Fin (of_int (if 0 \<le> x then \<lfloor>x + 1 / 2\<rfloor> else - \<lfloor>1 / 2 - x\<rfloor>))"
| "f64_round_int x = x"

text \<open>\<open>as i64\<close> truncates and saturates; not a number becomes zero.\<close>

fun f64_as_i64 :: "f64 \<Rightarrow> int" where
  "f64_as_i64 (Fin x) =
     max (- (2 ^ 63)) (min (2 ^ 63 - 1) (if 0 \<le> x then \<lfloor>x\<rfloor> else \<lceil>x\<rceil>))"
| "f64_as_i64 (FInf s) = (if s then - (2 ^ 63) else 2 ^ 63 - 1)"
| "f64_as_i64 NaN = 0"

definition f64_of_nat :: "nat \<Rightarrow> f64" where
  "f64_of_nat n = f64_round (of_nat n)"

section \<open>Parsing\<close>

text \<open>
  \<open>f64::from_str\<close>: an optional sign, then \<open>inf\<close>, \<open>infinity\<close> or \<open>nan\<close> in any case, or
  digits with an optional point and an optional exponent, at least one digit on either side of the
  point; the nearest representable value is the result.
\<close>

definition all_digits :: "string \<Rightarrow> bool" where
  "all_digits s = list_all is_ascii_digit s"

definition digits_nat :: "string \<Rightarrow> nat" where
  "digits_nat s = (case digits_val 10 0 s of None \<Rightarrow> 0 | Some n \<Rightarrow> n)"

definition strip_sign :: "string \<Rightarrow> bool \<times> string" where
  "strip_sign s =
     (case s of [] \<Rightarrow> (False, [])
      | c # cs \<Rightarrow> if c = CHR ''-'' then (True, cs) else if c = CHR ''+'' then (False, cs) else (False, s))"

definition parse_decimal :: "string \<Rightarrow> rat option" where
  "parse_decimal s =
     (let (whole, frac) = (case split_once (CHR ''.'') s of None \<Rightarrow> (s, []) | Some p \<Rightarrow> p)
      in if all_digits whole \<and> all_digits frac \<and> whole @ frac \<noteq> []
         then Some (of_nat (digits_nat (whole @ frac)) / 10 ^ length frac)
         else None)"

definition parse_exponent :: "string \<Rightarrow> int option" where
  "parse_exponent s =
     (let (neg, ds) = strip_sign s
      in if all_digits ds \<and> ds \<noteq> [] then Some (if neg then - int (digits_nat ds) else int (digits_nat ds)) else None)"

definition parse_number :: "string \<Rightarrow> rat option" where
  "parse_number s =
     (case split_once (CHR ''e'') s of
        None \<Rightarrow> parse_decimal s
      | Some (m, x) \<Rightarrow>
          Option.bind (parse_decimal m) (\<lambda>q. Option.bind (parse_exponent x) (\<lambda>k. Some (q * 10 powi k))))"

definition parse_f64 :: "string \<Rightarrow> f64 option" where
  "parse_f64 s =
     (let (neg, r) = strip_sign (to_ascii_lowercase s)
      in if r = ''nan'' then Some NaN
         else if r = ''inf'' \<or> r = ''infinity'' then Some (FInf neg)
         else map_option (\<lambda>q. f64_round (if neg then - q else q)) (parse_number r))"

section \<open>Rounding error\<close>

lemma bits_bounds: "0 < n \<Longrightarrow> 2 ^ (bits n - 1) \<le> n \<and> n < 2 ^ bits n \<and> 0 < bits n"
proof (induction n rule: bits.induct)
  case (1 n)
  show ?case
  proof (cases "n = 1")
    case True
    then show ?thesis by (simp add: bits.simps)
  next
    case False
    with 1 have IH: "2 ^ (bits (n div 2) - 1) \<le> n div 2" "n div 2 < 2 ^ bits (n div 2)" "0 < bits (n div 2)"
      by auto
    then obtain b where b: "bits (n div 2) = Suc b" by (cases "bits (n div 2)") auto
    moreover define p :: int where "p = 2 ^ b"
    ultimately have "p \<le> n div 2" "n div 2 < 2 * p" using IH by simp_all
    then have "2 * p \<le> n" "n < 4 * p" by linarith+
    with 1(2) b p_def show ?thesis by (simp add: bits.simps [of n])
  qed
qed

lemma flog2_bounds:
  assumes "0 < q"
  shows "2 powi flog2 q \<le> q \<and> q < 2 powi (flog2 q + 1)"
proof -
  obtain a b where ab: "quotient_of q = (a, b)" by (cases "quotient_of q")
  then have b: "0 < b" by (rule quotient_of_denom_pos)
  from ab have q: "q = of_int a / of_int b" by (rule quotient_of_div)
  with assms b have a: "0 < a" by (simp add: zero_less_divide_iff)
  obtain x y where xy: "bits a = Suc x" "bits b = Suc y"
    using bits_bounds [OF a] bits_bounds [OF b] by (metis gr0_implies_Suc)
  define k where "k = int x - int y"
  have le: "(2::rat) ^ x \<le> of_int a" "(2::rat) ^ y \<le> of_int b"
    and lt: "(of_int a :: rat) < 2 ^ Suc x" "(of_int b :: rat) < 2 ^ Suc y"
    using bits_bounds [OF a] bits_bounds [OF b]
    unfolding xy by (metis diff_Suc_1 of_int_le_iff of_int_less_iff of_int_numeral of_int_power)+
  have "k + 1 = int (Suc x) - int y" "k - 1 = int x - int (Suc y)" by (simp_all add: k_def)
  then have pow: "2 powi (k + 1) = (2::rat) ^ Suc x / 2 ^ y" "2 powi (k - 1) = (2::rat) ^ x / 2 ^ Suc y"
    using power_int_diff [of "2 :: rat" "int (Suc x)" "int y"] power_int_diff [of "2 :: rat" "int x" "int (Suc y)"]
    by (simp_all only: power_int_of_nat) simp_all
  have "q < 2 powi (k + 1)"
    unfolding pow q using a b le lt by (intro frac_less) simp_all
  moreover have "2 powi (k - 1) \<le> q"
    unfolding pow q using a b le lt by (intro frac_le) simp_all
  ultimately show ?thesis
    by (auto simp: flog2_def ab k_def xy Let_def)
qed

lemma round_half_even_int [simp]: "round_half_even (of_int i) = i"
  by (simp add: round_half_even_def)

lemma round_half_even_close: "\<bar>of_int (round_half_even x) - x\<bar> \<le> 1 / 2"
proof -
  have "of_int \<lfloor>x\<rfloor> \<le> x" "x < of_int \<lfloor>x\<rfloor> + 1" by linarith+
  then show ?thesis by (auto simp: round_half_even_def Let_def abs_le_iff)
qed

lemma f64_round_0 [simp]: "f64_round 0 = Fin 0"
  by (simp add: f64_round_def)

lemma pow2_less_iff: "(2 :: rat) powi a < 2 powi b \<longleftrightarrow> a < b"
  using power_int_strict_increasing [of a b "2 :: rat"] power_int_increasing [of b a "2 :: rat"]
  by (meson linorder_not_less one_less_numeral_iff order_le_less semiring_norm(76) zero_less_numeral
      one_le_numeral zero_neq_numeral)

lemma flog2_less: "0 < q \<Longrightarrow> q < 2 ^ n \<Longrightarrow> flog2 q < int n"
proof -
  assume q: "0 < q" "q < 2 ^ n"
  then have "q < 2 powi int n" by (simp only: power_int_of_nat)
  then have "2 powi flog2 q < (2 :: rat) powi int n"
    using flog2_bounds [OF q(1)] by (meson order_le_less_trans)
  then show ?thesis by (simp only: pow2_less_iff)
qed

lemma flog2_ge: "2 powi k \<le> q \<Longrightarrow> k \<le> flog2 q"
proof -
  assume q: "2 powi k \<le> q"
  moreover have "(0 :: rat) < 2 powi k" by simp
  ultimately have "0 < q" by linarith
  with q have "2 powi k < (2 :: rat) powi (flog2 q + 1)"
    using flog2_bounds [of q] by linarith
  then have "k < flog2 q + 1" by (simp only: pow2_less_iff)
  then show ?thesis by simp
qed

text \<open>Integers below \<open>2^53\<close> are exact; other numbers in the normal range are within \<open>2^-53\<close>, relatively.\<close>

lemma f64_round_int_exact:
  assumes "\<bar>i\<bar> < 2 ^ 53"
  shows "f64_round (of_int i) = Fin (of_int i)"
proof (cases "i = 0")
  case False
  define e where "e = max (- 1074) (flog2 \<bar>of_int i\<bar> - 52)"
  have lt: "\<bar>of_int i :: rat\<bar> < 2 ^ 53"
    using assms by (metis of_int_abs of_int_less_iff of_int_numeral of_int_power)
  with False have "flog2 \<bar>of_int i\<bar> < 53" using flog2_less [of "\<bar>of_int i\<bar>" 53] by simp
  then have "e \<le> 0" by (simp add: e_def)
  then obtain k where e: "e = - int k" by (metis minus_minus neg_0_le_iff_le nonneg_int_cases)
  have "of_int i / 2 powi e = (of_int (i * 2 ^ k) :: rat)"
    by (simp add: e power_int_minus divide_inverse)
  then have "of_int (round_half_even (of_int i / 2 powi e)) * 2 powi e = (of_int i :: rat)"
    by (simp only: round_half_even_int) (simp add: e power_int_minus)
  then show ?thesis
    using False \<open>e \<le> 0\<close> by (simp add: f64_round_def Let_def flip: e_def)
qed simp

lemma f64_round_close:
  assumes "2 powi (- 1022) \<le> q" and "q \<le> 2 ^ 1000"
  shows "\<exists>v. f64_round q = Fin v \<and> \<bar>v - q\<bar> \<le> q / 2 ^ 53"
proof -
  have pos: "0 < q" using assms(1) by (meson order_less_le_trans zero_less_numeral zero_less_power_int)
  define p where "p = (2 :: rat) powi (flog2 q - 52)"
  have e: "max (- 1074) (flog2 q - 52) = flog2 q - 52"
    using flog2_ge [OF assms(1)] by simp
  have p0: "0 < p" by (simp add: p_def)
  have "2 powi flog2 q = p * 2 ^ 52"
    using power_int_add [of "2 :: rat" "flog2 q - 52" 52] by (simp add: p_def)
  then have pq: "p * 2 ^ 52 \<le> q" using flog2_bounds [OF pos] by simp
  define v where "v = of_int (round_half_even (q / p)) * p"
  have "v - q = (of_int (round_half_even (q / p)) - q / p) * p"
    using p0 by (simp add: v_def field_simps)
  then have "\<bar>v - q\<bar> = \<bar>of_int (round_half_even (q / p)) - q / p\<bar> * p"
    using p0 by (simp add: abs_mult)
  also have "\<dots> \<le> 1 / 2 * p"
    using round_half_even_close [of "q / p"] p0 by (intro mult_right_mono) simp_all
  also have "\<dots> \<le> q / 2 ^ 53" using pq by simp
  finally have close: "\<bar>v - q\<bar> \<le> q / 2 ^ 53" .
  have "q < 2 ^ 1001" using assms(2) by (rule order_le_less_trans) simp
  then have "flog2 q < 1001" using flog2_less [OF pos, of 1001] by simp
  then have "f64_round q = Fin v"
    using pos by (simp add: f64_round_def Let_def e v_def flip: p_def)
  with close show ?thesis by blast
qed

lemma f64_of_nat_exact: "n < 2 ^ 53 \<Longrightarrow> f64_of_nat n = Fin (of_nat n)"
proof -
  assume "n < 2 ^ 53"
  then have "int n < 2 ^ 53" by (metis of_nat_less_iff of_nat_numeral of_nat_power)
  then show ?thesis using f64_round_int_exact [of "int n"] by (simp add: f64_of_nat_def)
qed

text \<open>
  A count of minutes survives being kept as ticks per day: \<open>1440 / (1440 / m)\<close>, each quotient
  rounded, rounds back to \<open>m\<close>.
\<close>

lemma day_quotient_roundtrip:
  assumes "1 \<le> m" and "m \<le> 2 ^ 40"
  shows "\<exists>v. f64_round (1440 / of_int m) = Fin v \<and> 0 < v
    \<and> f64_as_i64 (f64_round_int (f64_div (Fin 1440) (Fin v))) = m"
proof -
  define x where "x = (of_int m :: rat)"
  have x: "1 \<le> x" "x \<le> 2 ^ 40"
    using assms unfolding x_def by (metis of_int_1 of_int_le_iff of_int_numeral of_int_power)+
  have range: "2 powi (- 1022) \<le> q" "q \<le> 2 ^ 1000" if "1 / 2 ^ 60 \<le> q" "q \<le> 2 ^ 60" for q :: rat
  proof -
    have "(2 :: rat) powi (- 1022) \<le> 2 powi (- 60)" by (rule power_int_increasing) simp_all
    also have "\<dots> = 1 / 2 ^ 60" by (simp add: power_int_def inverse_eq_divide power_divide)
    finally show "2 powi (- 1022) \<le> q" using that by simp
    have "(2 :: rat) ^ 60 \<le> 2 ^ 1000" by (rule power_increasing) simp_all
    with that show "q \<le> 2 ^ 1000" by simp
  qed
  have "1 / 2 ^ 60 \<le> 1440 / x" "1440 / x \<le> 2 ^ 60" using x by (simp_all add: field_simps)
  with f64_round_close [OF range] obtain v where v: "f64_round (1440 / x) = Fin v"
    and close: "\<bar>v - 1440 / x\<bar> \<le> 1440 / x / 2 ^ 53" by blast
  define d where "d = (1 :: rat) / 2 ^ 53"
  have lo: "1440 / x * (1 - d) \<le> v" and hi: "v \<le> 1440 / x * (1 + d)"
    using close by (simp_all add: abs_le_iff d_def algebra_simps)
  have d: "0 < d" "d < 1 / 2 ^ 52" by (simp_all add: d_def)
  have u: "1440 / x * (1 - d) > 0" using x d by (intro mult_pos_pos) simp_all
  with lo have v0: "0 < v" by linarith
  define q where "q = 1440 / v"
  have q_hi: "q \<le> x * (1 + 2 * d)"
  proof -
    have "1440 \<le> 1440 * ((1 - d) * (1 + 2 * d))" using d by (simp add: algebra_simps)
    also have "\<dots> = 1440 / x * (1 - d) * (x * (1 + 2 * d))" using x by simp
    also have "\<dots> \<le> v * (x * (1 + 2 * d))" using lo x d by (intro mult_right_mono) simp_all
    finally show ?thesis using v0 by (simp add: q_def divide_le_eq mult.commute)
  qed
  have q_lo: "x * (1 - d) \<le> q"
  proof -
    have "v * (x * (1 - d)) \<le> 1440 / x * (1 + d) * (x * (1 - d))" using hi x d by (intro mult_right_mono) simp_all
    also have "\<dots> = 1440 * ((1 + d) * (1 - d))" using x by simp
    also have "\<dots> \<le> 1440" using d by (simp add: algebra_simps)
    finally show ?thesis using v0 by (simp add: q_def le_divide_eq mult.commute)
  qed
  have xd: "x * (1 / 2) \<le> x * (1 - d)" "x * (1 + 2 * d) \<le> x * 2" using x d by (intro mult_left_mono; simp)+
  with q_lo q_hi x have "1 / 2 ^ 60 \<le> q" "q \<le> 2 ^ 60" by (simp, linarith)+
  with f64_round_close [OF range] obtain w where w: "f64_round q = Fin w" and "\<bar>w - q\<bar> \<le> q / 2 ^ 53" by blast
  then have "\<bar>w - q\<bar> \<le> q * d" by (simp add: d_def)
  moreover have "q * d \<le> x * 2 * d" using q_hi xd d by (intro mult_right_mono) simp_all
  ultimately have "\<bar>w - x\<bar> \<le> 4 * (x * d)" using q_lo q_hi by (simp add: abs_le_iff algebra_simps)
  moreover have "x * d \<le> 2 ^ 40 * d" using x d by (intro mult_right_mono) simp_all
  ultimately have "\<bar>w - x\<bar> < 1 / 2" by (simp add: d_def)
  then have near: "x - 1 / 2 < w" "w < x + 1 / 2" unfolding abs_less_iff by linarith+
  then have "\<lfloor>w + 1 / 2\<rfloor> = m" unfolding floor_eq_iff x_def by linarith
  moreover from near x have "0 \<le> w" by linarith
  ultimately have "f64_as_i64 (f64_round_int (Fin w)) = m" using assms by simp
  with v v0 w show ?thesis by (simp add: x_def q_def)
qed

end
