(* ===== verification/F32.thy ===== *)
theory F32
  imports F64
begin

text \<open>
  The \<open>f32\<close> of Rust: IEEE 754 binary32, over the values of \<open>F64\<close> (every binary32 number is a
  binary64 number, so widening is the identity). With the formatting of a float to a fixed number
  of decimals.
\<close>

section \<open>Rounding and operations\<close>

text \<open>The mantissa has 24 bits, the least exponent is \<open>-149\<close>; \<open>2^128\<close> overflows.\<close>

definition f32_round :: "rat \<Rightarrow> f64" where
  "f32_round q =
     (if q = 0 then Fin 0
      else let e = max (- 149) (flog2 \<bar>q\<bar> - 23);
               m = round_half_even (q / 2 powi e)
           in if 104 < e \<or> e = 104 \<and> 2 ^ 24 \<le> \<bar>m\<bar> then FInf (q < 0) else Fin (of_int m * 2 powi e))"

definition f32_of_nat :: "nat \<Rightarrow> f64" where
  "f32_of_nat n = f32_round (of_nat n)"

fun f32_sub :: "f64 \<Rightarrow> f64 \<Rightarrow> f64" where
  "f32_sub (Fin x) (Fin y) = f32_round (x - y)"
| "f32_sub (Fin x) (FInf s) = FInf (\<not> s)"
| "f32_sub (FInf s) (Fin y) = FInf s"
| "f32_sub (FInf s) (FInf t) = (if s = t then NaN else FInf s)"
| "f32_sub _ _ = NaN"

fun f32_div :: "f64 \<Rightarrow> f64 \<Rightarrow> f64" where
  "f32_div (Fin x) (Fin y) =
     (if y = 0 then (if x = 0 then NaN else FInf (x < 0)) else f32_round (x / y))"
| "f32_div (Fin x) (FInf s) = Fin 0"
| "f32_div (FInf s) (Fin y) = FInf (s \<noteq> (y < 0))"
| "f32_div _ _ = NaN"

fun f32_mul :: "f64 \<Rightarrow> f64 \<Rightarrow> f64" where
  "f32_mul (Fin x) (Fin y) = f32_round (x * y)"
| "f32_mul (Fin x) (FInf s) = (if x = 0 then NaN else FInf (s \<noteq> (x < 0)))"
| "f32_mul (FInf s) (Fin y) = (if y = 0 then NaN else FInf (s \<noteq> (y < 0)))"
| "f32_mul (FInf s) (FInf t) = FInf (s \<noteq> t)"
| "f32_mul _ _ = NaN"

text \<open>
  \<open>min_by\<close> with \<open>total_cmp\<close>: the first of the least elements. Not a number sorts last.
\<close>

definition total_less :: "f64 \<Rightarrow> f64 \<Rightarrow> bool" where
  "total_less x y = (if y = NaN then x \<noteq> NaN else f64_lt x y)"

fun min_by_total :: "('a \<Rightarrow> f64) \<Rightarrow> 'a list \<Rightarrow> 'a option" where
  "min_by_total f [] = None"
| "min_by_total f (x # xs) = Some (fold (\<lambda>y best. if total_less (f y) (f best) then y else best) xs x)"

section \<open>Printing\<close>

text \<open>\<open>{:.k}\<close>: the exact value, rounded half to even to \<open>k\<close> decimals.\<close>

definition pad_zeros :: "nat \<Rightarrow> string \<Rightarrow> string" where
  "pad_zeros k s = replicate (k - length s) (CHR ''0'') @ s"

definition show_fixed :: "nat \<Rightarrow> f64 \<Rightarrow> string" where
  "show_fixed k x =
     (case x of
        NaN \<Rightarrow> ''NaN''
      | FInf s \<Rightarrow> if s then ''-inf'' else ''inf''
      | Fin q \<Rightarrow>
          let n = nat (round_half_even (\<bar>q\<bar> * 10 ^ k))
          in (if q < 0 then ''-'' else []) @ show_nat (n div 10 ^ k)
             @ (if k = 0 then [] else CHR ''.'' # pad_zeros k (show_nat (n mod 10 ^ k))))"

section \<open>Rounding error\<close>

text \<open>A number between \<open>2^-100\<close> and \<open>2^100\<close> is kept within \<open>2^-24\<close>, relatively.\<close>

lemma f32_round_0 [simp]: "f32_round 0 = Fin 0"
  by (simp add: f32_round_def)

lemma f32_round_close:
  assumes "2 powi (- 100) \<le> q" and "q \<le> 2 ^ 100"
  shows "\<exists>v. f32_round q = Fin v \<and> \<bar>v - q\<bar> \<le> q / 2 ^ 24"
proof -
  have pos: "0 < q" using assms(1) by (meson order_less_le_trans zero_less_numeral zero_less_power_int)
  define p where "p = (2 :: rat) powi (flog2 q - 23)"
  have e: "max (- 149) (flog2 q - 23) = flog2 q - 23"
    using flog2_ge [OF assms(1)] by simp
  have p0: "0 < p" by (simp add: p_def)
  have "2 powi flog2 q = p * 2 ^ 23"
    using power_int_add [of "2 :: rat" "flog2 q - 23" 23] by (simp add: p_def)
  then have pq: "p * 2 ^ 23 \<le> q" using flog2_bounds [OF pos] by simp
  define v where "v = of_int (round_half_even (q / p)) * p"
  have "v - q = (of_int (round_half_even (q / p)) - q / p) * p"
    using p0 by (simp add: v_def field_simps)
  then have "\<bar>v - q\<bar> = \<bar>of_int (round_half_even (q / p)) - q / p\<bar> * p"
    using p0 by (simp add: abs_mult)
  also have "\<dots> \<le> 1 / 2 * p"
    using round_half_even_close [of "q / p"] p0 by (intro mult_right_mono) simp_all
  also have "\<dots> \<le> q / 2 ^ 24" using pq by simp
  finally have close: "\<bar>v - q\<bar> \<le> q / 2 ^ 24" .
  have "q < 2 ^ 101" using assms(2) by (rule order_le_less_trans) simp
  then have "flog2 q < 101" using flog2_less [OF pos, of 101] by simp
  then have "f32_round q = Fin v"
    using pos by (simp add: f32_round_def Let_def e v_def flip: p_def)
  with close show ?thesis by blast
qed

lemma f32_round_int_exact:
  assumes "\<bar>i\<bar> < 2 ^ 24"
  shows "f32_round (of_int i) = Fin (of_int i)"
proof (cases "i = 0")
  case False
  define e where "e = max (- 149) (flog2 \<bar>of_int i\<bar> - 23)"
  have lt: "\<bar>of_int i :: rat\<bar> < 2 ^ 24"
    using assms by (metis of_int_abs of_int_less_iff of_int_numeral of_int_power)
  with False have "flog2 \<bar>of_int i\<bar> < 24" using flog2_less [of "\<bar>of_int i\<bar>" 24] by simp
  then have "e \<le> 0" by (simp add: e_def)
  then obtain k where e: "e = - int k" by (metis minus_minus neg_0_le_iff_le nonneg_int_cases)
  have "of_int i / 2 powi e = (of_int (i * 2 ^ k) :: rat)"
    by (simp add: e power_int_minus divide_inverse)
  then have "of_int (round_half_even (of_int i / 2 powi e)) * 2 powi e = (of_int i :: rat)"
    by (simp only: round_half_even_int) (simp add: e power_int_minus)
  then show ?thesis
    using False \<open>e \<le> 0\<close> by (simp add: f32_round_def Let_def flip: e_def)
qed simp

lemma f32_of_nat_exact: "n < 2 ^ 24 \<Longrightarrow> f32_of_nat n = Fin (of_nat n)"
  using f32_round_int_exact [of "int n"] by (simp add: f32_of_nat_def)

lemma abs_diff_le: "\<bar>a - b\<bar> \<le> (e :: rat) \<Longrightarrow> a - b \<le> e \<and> b - a \<le> e"
  by (simp only: abs_le_iff minus_diff_eq)

lemma f32_point6: "f32_round (3 / 5) = Fin (10066330 / 16777216)"
proof -
  have q: "quotient_of (3 / 5) = (3, 5)" by code_simp
  have "flog2 (3 / 5) = - 1"
    by (simp add: flog2_def q bits.simps power_int_def power_divide)
  moreover have "round_half_even (3 / 5 / (1 / 2 ^ 24)) = 10066330" by code_simp
  ultimately show ?thesis by (simp add: f32_round_def Let_def power_int_def power_divide)
qed

lemma f32_point4: "f32_round (2 / 5) = Fin (13421773 / 33554432)"
proof -
  have q: "quotient_of (2 / 5) = (2, 5)" by code_simp
  have "flog2 (2 / 5) = - 2"
    by (simp add: flog2_def q bits.simps power_int_def power_divide)
  moreover have "round_half_even (2 / 5 / (1 / 2 ^ 25)) = 13421773" by code_simp
  ultimately show ?thesis by (simp add: f32_round_def Let_def power_int_def power_divide)
qed

lemma f32_point4': "f32_round (1 - 10066330 / 16777216) = Fin (6710886 / 16777216)"
proof -
  have q: "quotient_of (3355443 / 8388608) = (3355443, 8388608)" by code_simp
  have "flog2 (3355443 / 8388608) = - 2"
    by (simp add: flog2_def q bits.simps power_int_def power_divide)
  moreover have "round_half_even (3355443 / 8388608 / (1 / 2 ^ 25)) = 13421772" by code_simp
  ultimately show ?thesis by (simp add: f32_round_def Let_def power_int_def power_divide)
qed


lemma pow2_neg: "(2 :: rat) powi (- numeral k) = 1 / 2 ^ numeral k"
  by (simp add: power_int_def power_divide)

lemma f32_unit_close:
  assumes "1 / 2 ^ 60 \<le> q" and "q \<le> 1"
  shows "\<exists>v. f32_round q = Fin v \<and> \<bar>v - q\<bar> \<le> 1 / 2 ^ 24"
proof -
  have "(2 :: rat) powi (- 100) \<le> 1 / 2 ^ 60" unfolding pow2_neg by simp
  with assms obtain v where v: "f32_round q = Fin v" "\<bar>v - q\<bar> \<le> q / 2 ^ 24"
    using f32_round_close [of q] by force
  have "q / 2 ^ 24 \<le> 1 / 2 ^ 24" using assms(2) by (intro divide_right_mono) simp_all
  with v show ?thesis by force
qed

end
