(* ===== verification/Json.thy ===== *)
theory Json
  imports RustStr
begin

text \<open>
  JSON values as \<open>serde_json::Value\<close> has them, with the accessors the sources use. A number
  is its token, since no modelled code reads one; an object keeps its members in order, with the
  first match winning a lookup.
\<close>

datatype json =
    JNull
  | JBool bool
  | JNum string
  | JStr string
  | JArr "json list"
  | JObj "(string \<times> json) list"

fun json_get :: "string \<Rightarrow> json \<Rightarrow> json option" where
  "json_get k (JObj ms) = map_of ms k"
| "json_get k _ = None"

fun json_as_str :: "json \<Rightarrow> string option" where
  "json_as_str (JStr s) = Some s"
| "json_as_str _ = None"

end
