(* ===== verification/RecEngine.thy ===== *)
theory RecEngine
  imports F32 Json
begin

text \<open>
  The recommendation rule engine (\<open>crates/recommendations/src\<close>): the input bag
  (\<open>input.rs\<close>) and how live facts are folded into it (\<open>assembly.rs\<close>), the kinds
  (\<open>kind.rs\<close>), the envelope every recommendation carries (\<open>wire.rs\<close>), the seven
  deterministic rules (\<open>kinds.rs\<close>), the language-model lane (\<open>llm.rs\<close>, \<open>llm_kinds.rs\<close>) and the
  engine that runs both (\<open>engine.rs\<close>). Ranks are \<open>f32\<close>, times are microseconds. SHA-256 and the
  text forms of the \<open>ulid\<close>, \<open>chrono\<close> and \<open>serde_json\<close> crates are parameters.
\<close>

section \<open>Kinds\<close>

datatype lane = LaneDeterministic | LaneLlmAided | LaneHybrid

datatype recommendation_kind =
    DocsNotCitedForPrompt
  | CompetitorOutranksForPrompt
  | CitationDomainDrift
  | PromptCoverageGap
  | ProviderBlindspot
  | LowExtractionConfidence
  | BenchmarkCategoryUnderperformance
  | StructuralContentSuggestion
  | CitationQualityUplift
  | VolatilityAnomalyExplained

primrec kind_as_str :: "recommendation_kind \<Rightarrow> string" where
  "kind_as_str DocsNotCitedForPrompt = ''docs_not_cited_for_prompt''"
| "kind_as_str CompetitorOutranksForPrompt = ''competitor_outranks_for_prompt''"
| "kind_as_str CitationDomainDrift = ''citation_domain_drift''"
| "kind_as_str PromptCoverageGap = ''prompt_coverage_gap''"
| "kind_as_str ProviderBlindspot = ''provider_blindspot''"
| "kind_as_str LowExtractionConfidence = ''low_extraction_confidence''"
| "kind_as_str BenchmarkCategoryUnderperformance = ''benchmark_category_underperformance''"
| "kind_as_str StructuralContentSuggestion = ''structural_content_suggestion''"
| "kind_as_str CitationQualityUplift = ''citation_quality_uplift''"
| "kind_as_str VolatilityAnomalyExplained = ''volatility_anomaly_explained''"

definition deterministic_kinds :: "recommendation_kind list" where
  "deterministic_kinds =
     [DocsNotCitedForPrompt, CompetitorOutranksForPrompt, CitationDomainDrift, PromptCoverageGap,
      ProviderBlindspot, LowExtractionConfidence, BenchmarkCategoryUnderperformance]"

definition kind_lane :: "recommendation_kind \<Rightarrow> lane" where
  "kind_lane k =
     (case k of
        StructuralContentSuggestion \<Rightarrow> LaneLlmAided
      | CitationQualityUplift \<Rightarrow> LaneLlmAided
      | VolatilityAnomalyExplained \<Rightarrow> LaneHybrid
      | _ \<Rightarrow> LaneDeterministic)"

section \<open>The envelope\<close>

datatype severity = SevInfo | SevLow | SevMedium | SevHigh

datatype confidence_band = BandLow | BandMedium | BandHigh

datatype reproducibility_class = ByteStable | BestEffort | NonDeterministic

definition TAG_NON_DETERMINISTIC :: string where
  "TAG_NON_DETERMINISTIC = ''non_deterministic_pipeline''"

definition TAG_DETERMINISTIC_LANE :: string where
  "TAG_DETERMINISTIC_LANE = ''deterministic_lane''"

record time_window =
  tw_start :: int
  tw_end :: int

record benchmark_query_ref =
  bq_name :: string
  bq_query_hash :: string

record reproducibility =
  rp_class :: reproducibility_class
  rp_note :: "string option"

record llm_trace =
  lt_provider :: string
  lt_model_id :: string
  lt_model_content_hash :: "string option"
  lt_prompt_template_id :: string
  lt_prompt_template_version :: string
  lt_full_prompt :: string
  lt_full_response :: string
  lt_temperature :: "f64 option"
  lt_seed :: "int option"
  lt_latency_ms :: u32
  lt_tokens_in :: u32
  lt_tokens_out :: u32

record traceability =
  tb_source_run_ids :: "uuid list"
  tb_source_run_ids_truncated :: bool
  tb_source_citation_ids :: "uuid list"
  tb_source_citation_ids_truncated :: bool
  tb_source_benchmark_queries :: "benchmark_query_ref list"
  tb_window :: time_window
  tb_input_fingerprint :: string
  tb_llm :: "llm_trace option"

definition is_non_empty :: "traceability \<Rightarrow> bool" where
  "is_non_empty t =
     (tb_input_fingerprint t \<noteq> []
      \<and> (tb_source_run_ids t \<noteq> [] \<or> tb_source_citation_ids t \<noteq> [] \<or> tb_source_benchmark_queries t \<noteq> []))"

text \<open>The lifecycle state of a fresh recommendation has the single value \<open>New\<close> and is left out.\<close>

record recommendation =
  rc_id :: uuid
  rc_project_id :: uuid
  rc_kind :: recommendation_kind
  rc_severity :: severity
  rc_confidence_band :: confidence_band
  rc_summary :: string
  rc_payload :: json
  rc_traceability :: traceability
  rc_reproducibility :: reproducibility
  rc_tags :: "string list"
  rc_generated_at :: int
  rc_engine_version :: string

definition reproducibility_invariant_holds :: "recommendation \<Rightarrow> bool" where
  "reproducibility_invariant_holds r =
     (list_ex (\<lambda>t. t = TAG_NON_DETERMINISTIC) (rc_tags r) = (rp_class (rc_reproducibility r) = NonDeterministic))"

section \<open>The input bag\<close>

record provider_rank =
  vr_provider :: string
  vr_mean_rank :: "f64 option"
  vr_cited :: bool

record competitor_rank =
  cr_competitor :: string
  cr_mean_rank :: f64

record prompt_stat =
  ps_prompt_id :: uuid
  ps_prompt :: string
  ps_run_ids :: "uuid list"
  ps_citation_ids :: "uuid list"
  ps_n_runs_14d :: u32
  ps_brand_mean_rank :: "f64 option"
  ps_provider_ranks :: "provider_rank list"
  ps_competitor_ranks :: "competitor_rank list"
  ps_brand_citation_domains :: "string list"
  ps_competitor_docs_present :: "string list"

record citation_drift_input =
  cd_prior_domains :: "string list"
  cd_current_domains :: "string list"
  cd_current_top3_lower :: bool
  cd_citation_ids :: "uuid list"

record benchmark_category =
  bk_category :: string
  bk_brand_p_rank :: f64
  bk_benchmark_p75 :: f64
  bk_brand_in_graph_pct :: f64
  bk_local_has_prompts :: bool
  bk_suggested_prompts :: "string list"
  bk_query_hash :: string

record engine_input =
  ei_project_id :: uuid
  ei_brand :: string
  ei_brand_etld1 :: string
  ei_docs_etld1 :: "string option"
  ei_competitors :: "string list"
  ei_enabled_providers :: "string list"
  ei_benchmark_opted_in :: bool
  ei_extraction_p50 :: "f64 option"
  ei_extraction_threshold :: f64
  ei_extraction_suggested_plugin :: string
  ei_prompts :: "prompt_stat list"
  ei_citation_drift :: "citation_drift_input option"
  ei_benchmark_categories :: "benchmark_category list"
  ei_window :: time_window
  ei_generated_at :: int
  ei_engine_version :: string
  ei_all_run_ids :: "uuid list"

section \<open>Thresholds and text\<close>

definition ENGINE_VERSION :: string where
  "ENGINE_VERSION = ''0.5.0''"

definition MAX_SOURCE_IDS :: nat where
  "MAX_SOURCE_IDS = 50"

definition DOCS_MIN_RUNS :: u32 where
  "DOCS_MIN_RUNS = 5"

definition RANK_BAD :: f64 where
  "RANK_BAD = Fin 3"

definition COMPETITOR_DELTA :: f64 where
  "COMPETITOR_DELTA = Fin 2"

definition JACCARD_DRIFT :: f64 where
  "JACCARD_DRIFT = f32_round (4 / 10)"

definition COVERAGE_GRAPH_PCT :: f64 where
  "COVERAGE_GRAPH_PCT = f32_round (1 / 10)"

text \<open>
  What the engine takes from elsewhere: SHA-256, \<open>Ulid::to_string\<close>, the canonical JSON text, a
  finite number as JSON, a time as JSON, and the \<open>Debug\<close> form of a character outside ASCII.
\<close>

record text_env =
  te_sha256 :: "u8 list \<Rightarrow> u8 list"
  te_ulid :: "uuid \<Rightarrow> string"
  te_json :: "json \<Rightarrow> string"
  te_num :: "rat \<Rightarrow> string"
  te_time :: "int \<Rightarrow> string"
  te_debug :: "string \<Rightarrow> string"

text \<open>
  \<open>json!\<close> of the types that occur. A number that is not finite becomes \<open>null\<close>. Objects are written
  with their keys sorted, the order of the map behind \<open>serde_json::Value\<close>.
\<close>

definition json_f32 :: "text_env \<Rightarrow> f64 \<Rightarrow> json" where
  "json_f32 te x = (case x of Fin q \<Rightarrow> JNum (te_num te q) | _ \<Rightarrow> JNull)"

definition json_opt :: "('a \<Rightarrow> json) \<Rightarrow> 'a option \<Rightarrow> json" where
  "json_opt f x = (case x of None \<Rightarrow> JNull | Some a \<Rightarrow> f a)"

definition json_strs :: "string list \<Rightarrow> json" where
  "json_strs xs = JArr (map JStr xs)"

definition json_u32 :: "u32 \<Rightarrow> json" where
  "json_u32 n = JNum (show_nat (unat n))"

definition json_window :: "text_env \<Rightarrow> time_window \<Rightarrow> json" where
  "json_window te w = JObj [(''end'', JStr (te_time te (tw_end w))), (''start'', JStr (te_time te (tw_start w)))]"

definition fingerprint :: "text_env \<Rightarrow> json \<Rightarrow> string" where
  "fingerprint te v = ''sha256:'' @ hex_lower (te_sha256 te (str_bytes (te_json te v)))"

text \<open>The text an id is the digest of, and the number its first sixteen bytes are, big endian.\<close>

definition id_preimage :: "text_env \<Rightarrow> recommendation_kind \<Rightarrow> uuid \<Rightarrow> string list \<Rightarrow> string" where
  "id_preimage te kind project_id identity =
     kind_as_str kind @ ''|'' @ te_ulid te project_id @ concat (map (\<lambda>part. ''|'' @ part) identity)"

definition u128_from_be_bytes :: "u8 list \<Rightarrow> uuid" where
  "u128_from_be_bytes bs = fold (\<lambda>b acc. push_bit 8 acc + ucast b) bs 0"

definition deterministic_id :: "text_env \<Rightarrow> recommendation_kind \<Rightarrow> uuid \<Rightarrow> string list \<Rightarrow> uuid" where
  "deterministic_id te kind project_id identity =
     u128_from_be_bytes (take 16 (te_sha256 te (str_bytes (id_preimage te kind project_id identity))))"

definition truncate_ids :: "uuid list \<Rightarrow> uuid list \<times> bool" where
  "truncate_ids ids = (if MAX_SOURCE_IDS < length ids then (take MAX_SOURCE_IDS ids, True) else (ids, False))"

definition ellipsis :: string where
  "ellipsis = [CHR 0xE2, CHR 0x80, CHR 0xA6]"

definition clamp_summary :: "string \<Rightarrow> string" where
  "clamp_summary s =
     (if 240 < length (utf8_chars s) then concat (take (240 - 1) (utf8_chars s)) @ ellipsis else s)"

definition jaccard_distance :: "string list \<Rightarrow> string list \<Rightarrow> f64" where
  "jaccard_distance a b =
     (let inter = f32_of_nat (card (set a \<inter> set b)); union = f32_of_nat (card (set a \<union> set b))
      in if union = Fin 0 then Fin 0 else f32_sub (Fin 1) (f32_div inter union))"

section \<open>Building a recommendation\<close>

record engine =
  en_version :: string

definition default_engine :: engine where
  "default_engine = \<lparr>en_version = ENGINE_VERSION\<rparr>"

definition make_deterministic ::
  "text_env \<Rightarrow> engine \<Rightarrow> engine_input \<Rightarrow> recommendation_kind \<Rightarrow> severity \<Rightarrow> confidence_band \<Rightarrow> string \<Rightarrow> json
   \<Rightarrow> string list \<Rightarrow> uuid list \<Rightarrow> uuid list \<Rightarrow> benchmark_query_ref list \<Rightarrow> recommendation" where
  "make_deterministic te eng input kind sev confidence summary payload identity run_ids citation_ids
     benchmark_queries =
     (let (source_run_ids, run_ids_truncated) = truncate_ids run_ids;
          (source_citation_ids, citation_ids_truncated) = truncate_ids citation_ids;
          input_fingerprint = fingerprint te (JObj
            [(''engine_version'', JStr (en_version eng)),
             (''kind'', JStr (kind_as_str kind)),
             (''payload'', payload),
             (''project_id'', JStr (te_ulid te (ei_project_id input))),
             (''window'', json_window te (ei_window input))])
      in \<lparr>rc_id = deterministic_id te kind (ei_project_id input) identity,
          rc_project_id = ei_project_id input,
          rc_kind = kind,
          rc_severity = sev,
          rc_confidence_band = confidence,
          rc_summary = clamp_summary summary,
          rc_payload = payload,
          rc_traceability =
            \<lparr>tb_source_run_ids = source_run_ids,
             tb_source_run_ids_truncated = run_ids_truncated,
             tb_source_citation_ids = source_citation_ids,
             tb_source_citation_ids_truncated = citation_ids_truncated,
             tb_source_benchmark_queries = benchmark_queries,
             tb_window = ei_window input,
             tb_input_fingerprint = input_fingerprint,
             tb_llm = None\<rparr>,
          rc_reproducibility = \<lparr>rp_class = ByteStable, rp_note = None\<rparr>,
          rc_tags = [TAG_DETERMINISTIC_LANE],
          rc_generated_at = ei_generated_at input,
          rc_engine_version = en_version eng\<rparr>)"

definition is_deterministic_provider ::
  "string \<Rightarrow> string \<Rightarrow> bool \<Rightarrow> f64 \<Rightarrow> int option \<Rightarrow> bool" where
  "is_deterministic_provider provider_id model_id has_content_hash temperature seed =
     (let local_oss = strip_prefix ''local-oss:'' provider_id \<noteq> None
      in if (temperature \<noteq> Fin 0 \<or> seed = None) \<and> \<not> (local_oss \<and> has_content_hash) then False
         else if local_oss then has_content_hash
         else (provider_id, model_id) = (''openai'', ''gpt-4o-2024-08-06'')
              \<or> (provider_id, model_id) = (''openai'', ''gpt-4o-mini-2024-07-18''))"

text \<open>The notes name the paragraph of the architecture document; \<open>section_sign\<close> is its sign.\<close>

definition section_sign :: string where
  "section_sign = [CHR 0xC2, CHR 0xA7]"

definition make_llm ::
  "text_env \<Rightarrow> engine \<Rightarrow> engine_input \<Rightarrow> recommendation_kind \<Rightarrow> severity \<Rightarrow> confidence_band \<Rightarrow> string \<Rightarrow> json
   \<Rightarrow> string list \<Rightarrow> uuid list \<Rightarrow> uuid list \<Rightarrow> llm_trace \<Rightarrow> recommendation" where
  "make_llm te eng input kind sev confidence summary payload identity run_ids citation_ids llm =
     (let (source_run_ids, run_ids_truncated) = truncate_ids run_ids;
          (source_citation_ids, citation_ids_truncated) = truncate_ids citation_ids;
          deterministic = is_deterministic_provider (lt_provider llm) (lt_model_id llm)
            (lt_model_content_hash llm \<noteq> None) (unwrap_or (Fin 1) (lt_temperature llm)) (lt_seed llm);
          input_fingerprint = fingerprint te (JObj
            [(''engine_version'', JStr (en_version eng)),
             (''kind'', JStr (kind_as_str kind)),
             (''model_id'', JStr (lt_model_id llm)),
             (''payload'', payload),
             (''project_id'', JStr (te_ulid te (ei_project_id input))),
             (''provider'', JStr (lt_provider llm)),
             (''window'', json_window te (ei_window input))]);
          (cls, note, tag) =
            (if deterministic
             then (BestEffort, ''allow-listed provider, temperature=0 + seed pinned'', TAG_DETERMINISTIC_LANE)
             else (NonDeterministic,
                   ''provider not on the determinism allow-list ('' @ section_sign @ ''3.5)'', TAG_NON_DETERMINISTIC))
      in \<lparr>rc_id = deterministic_id te kind (ei_project_id input) identity,
          rc_project_id = ei_project_id input,
          rc_kind = kind,
          rc_severity = sev,
          rc_confidence_band = confidence,
          rc_summary = clamp_summary summary,
          rc_payload = payload,
          rc_traceability =
            \<lparr>tb_source_run_ids = source_run_ids,
             tb_source_run_ids_truncated = run_ids_truncated,
             tb_source_citation_ids = source_citation_ids,
             tb_source_citation_ids_truncated = citation_ids_truncated,
             tb_source_benchmark_queries = [],
             tb_window = ei_window input,
             tb_input_fingerprint = input_fingerprint,
             tb_llm = Some llm\<rparr>,
          rc_reproducibility = \<lparr>rp_class = cls, rp_note = Some note\<rparr>,
          rc_tags = [tag],
          rc_generated_at = ei_generated_at input,
          rc_engine_version = en_version eng\<rparr>)"

section \<open>The deterministic rules\<close>

text \<open>
  Every rule visits its inputs in order; \<open>map_filter\<close> is the loop that pushes at most one
  recommendation for each.
\<close>

definition docs_not_cited_rule ::
  "text_env \<Rightarrow> engine \<Rightarrow> engine_input \<Rightarrow> string \<Rightarrow> prompt_stat \<Rightarrow> recommendation option" where
  "docs_not_cited_rule te eng input docs p =
     (let brand_docs_cited = list_ex (\<lambda>d. d = docs) (ps_brand_citation_domains p)
      in if DOCS_MIN_RUNS \<le> ps_n_runs_14d p \<and> \<not> brand_docs_cited \<and> ps_competitor_docs_present p \<noteq> []
         then Some (make_deterministic te eng input DocsNotCitedForPrompt SevMedium BandHigh
           (''Your docs ('' @ docs @ '') are not cited for '' @ [CHR 0x22] @ ps_prompt p @ [CHR 0x22]
              @ '' while competitor docs are'')
           (JObj [(''affected_prompt_id'', JStr (te_ulid te (ps_prompt_id p))),
                  (''affected_provider'', case ps_provider_ranks p of [] \<Rightarrow> JNull | r # _ \<Rightarrow> JStr (vr_provider r)),
                  (''competitor_docs_present'', json_strs (ps_competitor_docs_present p))])
           [te_ulid te (ps_prompt_id p)] (ps_run_ids p) (ps_citation_ids p) [])
         else None)"

definition docs_not_cited_for_prompt :: "text_env \<Rightarrow> engine \<Rightarrow> engine_input \<Rightarrow> recommendation list" where
  "docs_not_cited_for_prompt te eng input =
     (case ei_docs_etld1 input of
        None \<Rightarrow> []
      | Some docs \<Rightarrow> List.map_filter (docs_not_cited_rule te eng input docs) (ei_prompts input))"

definition best_competitor :: "f64 \<Rightarrow> competitor_rank list \<Rightarrow> competitor_rank option" where
  "best_competitor brand_rank cs =
     min_by_total cr_mean_rank (filter (\<lambda>c. f64_le COMPETITOR_DELTA (f32_sub brand_rank (cr_mean_rank c))) cs)"

definition competitor_outranks_rule ::
  "text_env \<Rightarrow> engine \<Rightarrow> engine_input \<Rightarrow> prompt_stat \<Rightarrow> recommendation option" where
  "competitor_outranks_rule te eng input p =
     (case ps_brand_mean_rank p of
        None \<Rightarrow> None
      | Some brand_rank \<Rightarrow>
          if f64_le brand_rank RANK_BAD then None
          else case best_competitor brand_rank (ps_competitor_ranks p) of
                 None \<Rightarrow> None
               | Some c \<Rightarrow>
                   let delta = f32_sub brand_rank (cr_mean_rank c)
                   in Some (make_deterministic te eng input CompetitorOutranksForPrompt SevHigh BandHigh
                     (cr_competitor c @ '' outranks you for '' @ [CHR 0x22] @ ps_prompt p @ [CHR 0x22] @ '' (you ''
                        @ show_fixed 1 brand_rank @ '' vs '' @ show_fixed 1 (cr_mean_rank c) @ '')'')
                     (JObj [(''brand_rank_mean'', json_f32 te brand_rank),
                            (''competitor'', JStr (cr_competitor c)),
                            (''competitor_rank_mean'', json_f32 te (cr_mean_rank c)),
                            (''delta'', json_f32 te delta),
                            (''n_runs'', json_u32 (ps_n_runs_14d p))])
                     [te_ulid te (ps_prompt_id p), cr_competitor c] (ps_run_ids p) [] []))"

definition competitor_outranks_for_prompt :: "text_env \<Rightarrow> engine \<Rightarrow> engine_input \<Rightarrow> recommendation list" where
  "competitor_outranks_for_prompt te eng input =
     List.map_filter (competitor_outranks_rule te eng input) (ei_prompts input)"

definition citation_domain_drift :: "text_env \<Rightarrow> engine \<Rightarrow> engine_input \<Rightarrow> recommendation list" where
  "citation_domain_drift te eng input =
     (case ei_citation_drift input of
        None \<Rightarrow> []
      | Some drift \<Rightarrow>
          let dist = jaccard_distance (cd_prior_domains drift) (cd_current_domains drift)
          in if f64_le dist JACCARD_DRIFT \<or> \<not> cd_current_top3_lower drift then []
             else
               let dropped = filter (\<lambda>d. \<not> List.member (cd_current_domains drift) d) (cd_prior_domains drift);
                   gained = filter (\<lambda>d. \<not> List.member (cd_prior_domains drift) d) (cd_current_domains drift)
               in [make_deterministic te eng input CitationDomainDrift SevMedium BandMedium
                     (''Citation domain mix shifted (Jaccard distance '' @ show_fixed 2 dist @ '')'')
                     (JObj [(''dropped_domains'', json_strs dropped),
                            (''gained_domains'', json_strs gained),
                            (''jaccard'', json_f32 te dist)])
                     [''window-drift''] [] (cd_citation_ids drift) []])"

definition coverage_gap_rule ::
  "text_env \<Rightarrow> engine \<Rightarrow> engine_input \<Rightarrow> benchmark_category \<Rightarrow> recommendation option" where
  "coverage_gap_rule te eng input cat =
     (if \<not> bk_local_has_prompts cat \<and> f64_le COVERAGE_GRAPH_PCT (bk_brand_in_graph_pct cat)
      then Some (make_deterministic te eng input PromptCoverageGap SevLow BandMedium
        (''You appear in '' @ [CHR 0x22] @ bk_category cat @ [CHR 0x22] @ '' (''
           @ show_fixed 0 (f32_mul (bk_brand_in_graph_pct cat) (Fin 100)) @ ''% of graphs) but track no prompts there'')
        (JObj [(''category'', JStr (bk_category cat)),
               (''suggested_prompts'', json_strs (bk_suggested_prompts cat))])
        [bk_category cat] [] []
        [\<lparr>bq_name = ''recommendation-differences'', bq_query_hash = bk_query_hash cat\<rparr>])
      else None)"

definition prompt_coverage_gap :: "text_env \<Rightarrow> engine \<Rightarrow> engine_input \<Rightarrow> recommendation list" where
  "prompt_coverage_gap te eng input =
     (if \<not> ei_benchmark_opted_in input then []
      else List.map_filter (coverage_gap_rule te eng input) (ei_benchmark_categories input))"

text \<open>The provider that cites the brand well, and the enabled ones that do not cite it.\<close>

definition cited_strong :: "prompt_stat \<Rightarrow> provider_rank option" where
  "cited_strong p =
     find (\<lambda>r. vr_cited r \<and> (case vr_mean_rank r of None \<Rightarrow> False | Some m \<Rightarrow> f64_le m RANK_BAD))
       (ps_provider_ranks p)"

definition blind_providers :: "engine_input \<Rightarrow> prompt_stat \<Rightarrow> string \<Rightarrow> string list" where
  "blind_providers input p cited =
     filter (\<lambda>prov. prov \<noteq> cited \<and> \<not> list_ex (\<lambda>r. vr_provider r = prov \<and> vr_cited r) (ps_provider_ranks p))
       (ei_enabled_providers input)"

definition provider_blindspot_rule ::
  "text_env \<Rightarrow> engine \<Rightarrow> engine_input \<Rightarrow> prompt_stat \<Rightarrow> recommendation option" where
  "provider_blindspot_rule te eng input p =
     (case cited_strong p of
        None \<Rightarrow> None
      | Some cited \<Rightarrow>
          let blind = blind_providers input p (vr_provider cited)
          in if blind = [] then None
             else Some (make_deterministic te eng input ProviderBlindspot SevMedium BandHigh
               (''Cited by '' @ vr_provider cited @ '' for '' @ [CHR 0x22] @ ps_prompt p @ [CHR 0x22]
                  @ '' but invisible on '' @ str_join '', '' blind)
               (JObj [(''blind_providers'', json_strs blind),
                      (''brand_rank_in_cited_provider'', json_opt (json_f32 te) (vr_mean_rank cited)),
                      (''cited_provider'', JStr (vr_provider cited))])
               [te_ulid te (ps_prompt_id p), vr_provider cited] (ps_run_ids p) [] []))"

definition provider_blindspot :: "text_env \<Rightarrow> engine \<Rightarrow> engine_input \<Rightarrow> recommendation list" where
  "provider_blindspot te eng input = List.map_filter (provider_blindspot_rule te eng input) (ei_prompts input)"

definition low_extraction_confidence :: "text_env \<Rightarrow> engine \<Rightarrow> engine_input \<Rightarrow> recommendation list" where
  "low_extraction_confidence te eng input =
     (case ei_extraction_p50 input of
        None \<Rightarrow> []
      | Some p50 \<Rightarrow>
          if f64_le (ei_extraction_threshold input) p50 then []
          else [make_deterministic te eng input LowExtractionConfidence SevLow BandHigh
                  (''Extraction confidence p50 '' @ show_fixed 2 p50 @ '' is below ''
                     @ show_fixed 2 (ei_extraction_threshold input) @ ''; consider an LLM-aided extractor'')
                  (JObj [(''p50_confidence'', json_f32 te p50),
                         (''suggested_plugin'', JStr (ei_extraction_suggested_plugin input))])
                  [''p50''] (ei_all_run_ids input) [] []])"

definition underperformance_rule ::
  "text_env \<Rightarrow> engine \<Rightarrow> engine_input \<Rightarrow> benchmark_category \<Rightarrow> recommendation option" where
  "underperformance_rule te eng input cat =
     (if f64_lt (bk_benchmark_p75 cat) (bk_brand_p_rank cat)
      then Some (make_deterministic te eng input BenchmarkCategoryUnderperformance SevMedium BandMedium
        (''Bottom-quartile in '' @ [CHR 0x22] @ bk_category cat @ [CHR 0x22] @ '' (you ''
           @ show_fixed 1 (bk_brand_p_rank cat) @ '' vs p75 '' @ show_fixed 1 (bk_benchmark_p75 cat) @ '')'')
        (JObj [(''benchmark_p75'', json_f32 te (bk_benchmark_p75 cat)),
               (''brand_p_rank'', json_f32 te (bk_brand_p_rank cat)),
               (''category'', JStr (bk_category cat))])
        [bk_category cat] (ei_all_run_ids input) []
        [\<lparr>bq_name = ''category-aggregates'', bq_query_hash = bk_query_hash cat\<rparr>])
      else None)"

definition benchmark_category_underperformance ::
  "text_env \<Rightarrow> engine \<Rightarrow> engine_input \<Rightarrow> recommendation list" where
  "benchmark_category_underperformance te eng input =
     (if \<not> ei_benchmark_opted_in input then []
      else List.map_filter (underperformance_rule te eng input) (ei_benchmark_categories input))"

definition engine_generate :: "text_env \<Rightarrow> engine \<Rightarrow> engine_input \<Rightarrow> recommendation list" where
  "engine_generate te eng input =
     docs_not_cited_for_prompt te eng input @ competitor_outranks_for_prompt te eng input
     @ citation_domain_drift te eng input @ prompt_coverage_gap te eng input
     @ provider_blindspot te eng input @ low_extraction_confidence te eng input
     @ benchmark_category_underperformance te eng input"

end
