(* ===== verification/RecLane.thy ===== *)
theory RecLane
  imports RecEngine
begin

text \<open>
  The language-model lane of the recommendation engine (\<open>llm.rs\<close>, \<open>llm_kinds.rs\<close>), the full run
  of \<open>engine.rs\<close> and the fold of live project facts into the engine's input (\<open>assembly.rs\<close>). A
  provider is a trait object over the network: its answer may differ from call to call, so the
  position of the call is an argument; the requests made so far are the lane's state.
\<close>

section \<open>Providers\<close>

record llm_config =
  lc_enrich :: bool
  lc_max_recs_per_run :: nat
  lc_max_prompt_tokens :: u32
  lc_max_completion_tokens :: u32

definition default_llm_config :: llm_config where
  "default_llm_config =
     \<lparr>lc_enrich = False, lc_max_recs_per_run = 20, lc_max_prompt_tokens = 8000, lc_max_completion_tokens = 1000\<rparr>"

record enrichment_request =
  eq_full_prompt :: string
  eq_temperature :: f64
  eq_seed :: "int option"
  eq_max_completion_tokens :: u32

record enrichment_outcome =
  eo_full_response :: string
  eo_model_content_hash :: "string option"
  eo_latency_ms :: u32
  eo_tokens_in :: u32
  eo_tokens_out :: u32

datatype enrichment_error = Unavailable string | CallFailed string

record enrichment_provider =
  ep_provider_id :: string
  ep_model_id :: string
  ep_template :: "string \<times> string"
  ep_enrich :: "nat \<Rightarrow> enrichment_request \<Rightarrow> enrichment_error + enrichment_outcome"

record engine_warning =
  ew_kind :: string
  ew_reason :: string
  ew_affected_kinds :: "string list"
  ew_engine_version :: string

definition llm_enrichment_skipped :: "string \<Rightarrow> engine_warning" where
  "llm_enrichment_skipped engine_version =
     \<lparr>ew_kind = ''llm_enrichment_skipped'', ew_reason = ''no_provider_configured'',
      ew_affected_kinds = [''structural_content_suggestion'', ''citation_quality_uplift'',
        ''volatility_anomaly_explained''],
      ew_engine_version = engine_version\<rparr>"

section \<open>One call\<close>

type_synonym calls = "enrichment_request list"

definition enrich_request :: "llm_config \<Rightarrow> string \<Rightarrow> enrichment_request" where
  "enrich_request cfg full_prompt =
     \<lparr>eq_full_prompt = full_prompt, eq_temperature = Fin 0, eq_seed = Some 7,
      eq_max_completion_tokens = lc_max_completion_tokens cfg\<rparr>"

definition llm_call ::
  "enrichment_provider \<Rightarrow> llm_config \<Rightarrow> string \<Rightarrow> calls \<Rightarrow> llm_trace option \<times> calls" where
  "llm_call provider cfg full_prompt made =
     (let req = enrich_request cfg full_prompt
      in (case ep_enrich provider (length made) req of
            Inl _ \<Rightarrow> None
          | Inr outcome \<Rightarrow>
              if lc_max_completion_tokens cfg < eo_tokens_out outcome
                 \<or> lc_max_prompt_tokens cfg < eo_tokens_in outcome
              then None
              else Some
                \<lparr>lt_provider = ep_provider_id provider,
                 lt_model_id = ep_model_id provider,
                 lt_model_content_hash = eo_model_content_hash outcome,
                 lt_prompt_template_id = fst (ep_template provider),
                 lt_prompt_template_version = snd (ep_template provider),
                 lt_full_prompt = full_prompt,
                 lt_full_response = eo_full_response outcome,
                 lt_temperature = Some (Fin 0),
                 lt_seed = Some 7,
                 lt_latency_ms = eo_latency_ms outcome,
                 lt_tokens_in = eo_tokens_in outcome,
                 lt_tokens_out = eo_tokens_out outcome\<rparr>,
          made @ [req]))"

text \<open>The loop of a producer: one call for each element, and a recommendation when it answered.\<close>

fun enrich_each ::
  "('a \<Rightarrow> calls \<Rightarrow> llm_trace option \<times> calls) \<Rightarrow> ('a \<Rightarrow> llm_trace \<Rightarrow> recommendation) \<Rightarrow> 'a list \<Rightarrow> calls
   \<Rightarrow> recommendation list \<times> calls" where
  "enrich_each ask build [] made = ([], made)"
| "enrich_each ask build (x # xs) made =
     (case ask x made of (answer, made) \<Rightarrow>
        case enrich_each ask build xs made of (out, made) \<Rightarrow>
          (case answer of None \<Rightarrow> out | Some llm \<Rightarrow> build x llm # out, made))"

section \<open>The producers\<close>

text \<open>\<open>{:?}\<close> of an optional string.\<close>

definition debug_char :: "text_env \<Rightarrow> string \<Rightarrow> string" where
  "debug_char te g =
     (case g of
        [c] \<Rightarrow>
          (let n = (of_char c :: nat); esc = (\<lambda>s. CHR 0x5C # s)
           in if n = 0 then esc ''0'' else if n = 9 then esc ''t'' else if n = 13 then esc ''r''
              else if n = 10 then esc ''n'' else if n = 34 then esc [c] else if n = 92 then esc [c]
              else if n < 16 then esc (''u{'' @ [digit_char n] @ ''}'')
              else if n < 32 \<or> n = 127 then esc (''u{'' @ [digit_char (n div 16), digit_char (n mod 16)] @ ''}'')
              else if n < 128 then [c] else te_debug te g)
      | _ \<Rightarrow> te_debug te g)"

definition debug_opt_str :: "text_env \<Rightarrow> string option \<Rightarrow> string" where
  "debug_opt_str te x =
     (case x of None \<Rightarrow> ''None''
      | Some s \<Rightarrow> ''Some('' @ [CHR 0x22] @ concat (map (debug_char te) (utf8_chars s)) @ [CHR 0x22] @ '')'')"

definition is_enrichable :: "recommendation \<Rightarrow> bool" where
  "is_enrichable r = (rc_kind r = DocsNotCitedForPrompt \<or> rc_kind r = CompetitorOutranksForPrompt)"

definition structural_content_suggestion ::
  "text_env \<Rightarrow> engine \<Rightarrow> engine_input \<Rightarrow> llm_config \<Rightarrow> enrichment_provider \<Rightarrow> recommendation list \<Rightarrow> calls
   \<Rightarrow> recommendation list \<times> calls" where
  "structural_content_suggestion te eng input cfg provider det =
     enrich_each
       (\<lambda>parent. llm_call provider cfg
          (''For brand '' @ ei_brand input @ '' (docs '' @ debug_opt_str te (ei_docs_etld1 input)
             @ ''), suggest a concrete structural content change addressing: '' @ rc_summary parent))
       (\<lambda>parent llm. make_llm te eng input StructuralContentSuggestion SevMedium BandMedium
          (''Structural suggestion for '' @ [CHR 0x22] @ rc_summary parent @ [CHR 0x22])
          (JObj [(''parent_kind'', JStr (kind_as_str (rc_kind parent))),
                 (''parent_recommendation_id'', JStr (te_ulid te (rc_id parent))),
                 (''suggestion'', JStr (lt_full_response llm))])
          [te_ulid te (rc_id parent)]
          (tb_source_run_ids (rc_traceability parent)) (tb_source_citation_ids (rc_traceability parent)) llm)
       (filter is_enrichable det)"

definition citation_quality_uplift ::
  "text_env \<Rightarrow> engine \<Rightarrow> engine_input \<Rightarrow> llm_config \<Rightarrow> enrichment_provider \<Rightarrow> calls
   \<Rightarrow> recommendation list \<times> calls" where
  "citation_quality_uplift te eng input cfg provider =
     enrich_each
       (\<lambda>p. llm_call provider cfg
          (''For brand '' @ ei_brand input @ '' on topic '' @ [CHR 0x22] @ ps_prompt p @ [CHR 0x22]
             @ '', suggest how to improve citation quality.''))
       (\<lambda>p llm. make_llm te eng input CitationQualityUplift SevLow BandMedium
          (''Improve citation quality for '' @ [CHR 0x22] @ ps_prompt p @ [CHR 0x22])
          (JObj [(''affected_prompt_id'', JStr (te_ulid te (ps_prompt_id p))),
                 (''uplift'', JStr (lt_full_response llm))])
          [te_ulid te (ps_prompt_id p)] (ps_run_ids p) (ps_citation_ids p) llm)
       (filter (\<lambda>p. ps_citation_ids p \<noteq> []) (ei_prompts input))"

definition volatility_anomaly_explained ::
  "text_env \<Rightarrow> engine \<Rightarrow> engine_input \<Rightarrow> llm_config \<Rightarrow> enrichment_provider \<Rightarrow> calls
   \<Rightarrow> recommendation list \<times> calls" where
  "volatility_anomaly_explained te eng input cfg provider made =
     (case ei_citation_drift input of
        None \<Rightarrow> ([], made)
      | Some drift \<Rightarrow>
          (case llm_call provider cfg
             (''Brand '' @ ei_brand input @ '' saw a citation-domain shift. Explain the likely cause.'') made of
             (None, made) \<Rightarrow> ([], made)
           | (Some llm, made) \<Rightarrow>
               ([make_llm te eng input VolatilityAnomalyExplained SevMedium BandMedium
                   ''Volatility anomaly explained''
                   (JObj [(''current_domains'', json_strs (cd_current_domains drift)),
                          (''explanation'', JStr (lt_full_response llm)),
                          (''prior_domains'', json_strs (cd_prior_domains drift))])
                   [''window-volatility''] [] (cd_citation_ids drift) llm], made)))"

definition llm_enrich ::
  "text_env \<Rightarrow> engine \<Rightarrow> engine_input \<Rightarrow> llm_config \<Rightarrow> enrichment_provider \<Rightarrow> recommendation list \<Rightarrow> calls
   \<Rightarrow> recommendation list \<times> calls" where
  "llm_enrich te eng input cfg provider det made =
     (let (a, made) = structural_content_suggestion te eng input cfg provider det made;
          (b, made) = citation_quality_uplift te eng input cfg provider made;
          (c, made) = volatility_anomaly_explained te eng input cfg provider made
      in (a @ b @ c, made))"

section \<open>A full run\<close>

record generate_output =
  go_recommendations :: "recommendation list"
  go_warnings :: "engine_warning list"

definition generate_with_llm ::
  "text_env \<Rightarrow> engine \<Rightarrow> engine_input \<Rightarrow> llm_config \<Rightarrow> enrichment_provider option \<Rightarrow> generate_output \<times> calls" where
  "generate_with_llm te eng input cfg provider =
     (let recommendations = engine_generate te eng input
      in if \<not> lc_enrich cfg then (\<lparr>go_recommendations = recommendations, go_warnings = []\<rparr>, [])
         else case provider of
           None \<Rightarrow> (\<lparr>go_recommendations = recommendations,
                     go_warnings = [llm_enrichment_skipped (en_version eng)]\<rparr>, [])
         | Some provider \<Rightarrow>
             (case llm_enrich te eng input cfg provider recommendations [] of (llm, made) \<Rightarrow>
                (\<lparr>go_recommendations = recommendations @ take (lc_max_recs_per_run cfg) llm,
                  go_warnings = []\<rparr>, made)))"

section \<open>Assembling the input from live facts\<close>

record prompt_run_facts =
  rf_run_id :: uuid
  rf_citation_domains :: "string list"
  rf_citation_ids :: "uuid list"

record prompt_facts =
  pf_prompt_id :: uuid
  pf_prompt :: string
  pf_runs :: "prompt_run_facts list"

record project_facts =
  jf_project_id :: uuid
  jf_brand :: string
  jf_brand_etld1 :: string
  jf_docs_etld1 :: "string option"
  jf_competitors :: "string list"
  jf_enabled_providers :: "string list"
  jf_benchmark_opted_in :: bool
  jf_prompts :: "prompt_facts list"
  jf_window :: time_window
  jf_generated_at :: int

definition DEFAULT_EXTRACTION_THRESHOLD :: f64 where
  "DEFAULT_EXTRACTION_THRESHOLD = f32_round (6 / 10)"

definition push_new :: "string list \<Rightarrow> string \<Rightarrow> string list" where
  "push_new seen d = (if List.member seen d then seen else seen @ [d])"

definition prompt_stat_of :: "prompt_facts \<Rightarrow> prompt_stat" where
  "prompt_stat_of p =
     \<lparr>ps_prompt_id = pf_prompt_id p,
      ps_prompt = pf_prompt p,
      ps_run_ids = map rf_run_id (pf_runs p),
      ps_citation_ids = concat (map rf_citation_ids (pf_runs p)),
      ps_n_runs_14d = of_nat (length (pf_runs p)),
      ps_brand_mean_rank = None,
      ps_provider_ranks = [],
      ps_competitor_ranks = [],
      ps_brand_citation_domains = foldl push_new [] (concat (map rf_citation_domains (pf_runs p))),
      ps_competitor_docs_present = []\<rparr>"

definition assemble :: "project_facts \<Rightarrow> engine_input" where
  "assemble facts =
     \<lparr>ei_project_id = jf_project_id facts,
      ei_brand = jf_brand facts,
      ei_brand_etld1 = jf_brand_etld1 facts,
      ei_docs_etld1 = jf_docs_etld1 facts,
      ei_competitors = jf_competitors facts,
      ei_enabled_providers = jf_enabled_providers facts,
      ei_benchmark_opted_in = jf_benchmark_opted_in facts,
      ei_extraction_p50 = None,
      ei_extraction_threshold = DEFAULT_EXTRACTION_THRESHOLD,
      ei_extraction_suggested_plugin = [],
      ei_prompts = map prompt_stat_of (jf_prompts facts),
      ei_citation_drift = None,
      ei_benchmark_categories = [],
      ei_window = jf_window facts,
      ei_generated_at = jf_generated_at facts,
      ei_engine_version = ENGINE_VERSION,
      ei_all_run_ids = concat (map (\<lambda>p. map rf_run_id (pf_runs p)) (jf_prompts facts))\<rparr>"

end
