(* ===== verification/RecRules.thy ===== *)
theory RecRules
  imports RecLane
begin

text \<open>
  What the recommendation engine guarantees: every recommendation it emits is well formed, the
  identifiers of one run differ, the drift rule compares exactly despite its \<open>f32\<close> arithmetic, and
  the language-model lane is capped in what it returns but not in what it asks.
\<close>

section \<open>Well-formed recommendations\<close>

lemma clamp_summary_bound: "length (utf8_chars (clamp_summary s)) \<le> 240"
proof (cases "240 < length (utf8_chars s)")
  case True
  have "\<not> is_cont (hd ellipsis)" "utf8_chars ellipsis = [ellipsis]"
    by (simp_all add: ellipsis_def is_cont_def)
  with True show ?thesis
    by (simp add: clamp_summary_def utf8_chars_take_append)
qed (simp add: clamp_summary_def)

definition recommendation_ok :: "recommendation \<Rightarrow> bool" where
  "recommendation_ok r =
     (let t = rc_traceability r
      in reproducibility_invariant_holds r
         \<and> (tb_llm t = None) = (kind_lane (rc_kind r) = LaneDeterministic)
         \<and> (tb_llm t = None) = (rp_class (rc_reproducibility r) = ByteStable)
         \<and> length (utf8_chars (rc_summary r)) \<le> 240
         \<and> length (tb_source_run_ids t) \<le> MAX_SOURCE_IDS
         \<and> length (tb_source_citation_ids t) \<le> MAX_SOURCE_IDS)"

lemma truncate_ids_bound: "truncate_ids ids = (kept, flag) \<Longrightarrow> length kept \<le> MAX_SOURCE_IDS"
  by (auto simp: truncate_ids_def split: if_splits)

lemma tags_differ: "TAG_DETERMINISTIC_LANE \<noteq> TAG_NON_DETERMINISTIC"
  by (simp add: TAG_DETERMINISTIC_LANE_def TAG_NON_DETERMINISTIC_def)

lemma make_deterministic_fields [simp]:
  "rc_kind (make_deterministic te eng input k sv cf sm pl ident rs cs qs) = k"
  "rc_id (make_deterministic te eng input k sv cf sm pl ident rs cs qs)
     = deterministic_id te k (ei_project_id input) ident"
  "tb_source_benchmark_queries (rc_traceability (make_deterministic te eng input k sv cf sm pl ident rs cs qs)) = qs"
  by (simp_all add: make_deterministic_def split: prod.splits)

lemma make_deterministic_ok:
  "kind_lane k = LaneDeterministic \<Longrightarrow> recommendation_ok (make_deterministic te eng input k sv cf sm pl ident rs cs qs)"
  using tags_differ
  by (auto simp: recommendation_ok_def make_deterministic_def reproducibility_invariant_holds_def
      clamp_summary_bound truncate_ids_bound Let_def split: prod.splits)

lemma make_llm_ok:
  "kind_lane k \<noteq> LaneDeterministic \<Longrightarrow> recommendation_ok (make_llm te eng input k sv cf sm pl ident rs cs llm)"
  using tags_differ
  by (auto simp: recommendation_ok_def make_llm_def reproducibility_invariant_holds_def
      clamp_summary_bound truncate_ids_bound Let_def split: prod.splits)

lemma fingerprint_not_Nil [simp]: "fingerprint te v \<noteq> []"
  by (simp add: fingerprint_def)

lemma truncate_ids_Nil [simp]: "fst (truncate_ids ids) = [] \<longleftrightarrow> ids = []"
  by (simp add: truncate_ids_def MAX_SOURCE_IDS_def)

lemma make_deterministic_evidence [simp]:
  "is_non_empty (rc_traceability (make_deterministic te eng input k sv cf sm pl ident rs cs qs))
     \<longleftrightarrow> rs \<noteq> [] \<or> cs \<noteq> [] \<or> qs \<noteq> []"
  by (simp add: make_deterministic_def is_non_empty_def Let_def case_prod_beta)

definition built ::
  "text_env \<Rightarrow> engine \<Rightarrow> engine_input \<Rightarrow> recommendation_kind \<Rightarrow> string list \<Rightarrow> uuid list \<Rightarrow> uuid list
   \<Rightarrow> benchmark_query_ref list \<Rightarrow> recommendation \<Rightarrow> bool" where
  "built te eng input k ident rs cs qs r =
     (\<exists>sv cf sm pl. r = make_deterministic te eng input k sv cf sm pl ident rs cs qs)"

lemma built_fields:
  assumes "built te eng input k ident rs cs qs r"
  shows "rc_kind r = k" "rc_id r = deterministic_id te k (ei_project_id input) ident"
    "is_non_empty (rc_traceability r) \<longleftrightarrow> rs \<noteq> [] \<or> cs \<noteq> [] \<or> qs \<noteq> []"
    "kind_lane k = LaneDeterministic \<Longrightarrow> recommendation_ok r"
  using assms by (auto simp: built_def make_deterministic_ok)

lemma docs_rule_built:
  "docs_not_cited_rule te eng input docs p = Some r \<Longrightarrow>
     built te eng input DocsNotCitedForPrompt [te_ulid te (ps_prompt_id p)] (ps_run_ids p) (ps_citation_ids p) [] r"
  unfolding docs_not_cited_rule_def built_def Let_def by (auto split: if_splits)

lemma competitor_rule_built:
  "competitor_outranks_rule te eng input p = Some r \<Longrightarrow>
     \<exists>brand_rank c. ps_brand_mean_rank p = Some brand_rank
       \<and> best_competitor brand_rank (ps_competitor_ranks p) = Some c
       \<and> built te eng input CompetitorOutranksForPrompt [te_ulid te (ps_prompt_id p), cr_competitor c]
           (ps_run_ids p) [] [] r"
  unfolding competitor_outranks_rule_def built_def Let_def
  by (cases "ps_brand_mean_rank p"; cases "best_competitor (the (ps_brand_mean_rank p)) (ps_competitor_ranks p)")
    (simp_all split: if_splits, blast)

lemma drift_built:
  "r \<in> set (citation_domain_drift te eng input) \<Longrightarrow>
     \<exists>drift. ei_citation_drift input = Some drift
       \<and> built te eng input CitationDomainDrift [''window-drift''] [] (cd_citation_ids drift) [] r"
  unfolding citation_domain_drift_def built_def Let_def
  by (cases "ei_citation_drift input") (simp_all split: if_splits, blast)

lemma gap_rule_built:
  "coverage_gap_rule te eng input cat = Some r \<Longrightarrow>
     \<exists>q. built te eng input PromptCoverageGap [bk_category cat] [] [] [q] r"
  unfolding coverage_gap_rule_def built_def by (simp split: if_splits) blast

lemma blindspot_rule_built:
  "provider_blindspot_rule te eng input p = Some r \<Longrightarrow>
     \<exists>cited. cited_strong p = Some cited
       \<and> built te eng input ProviderBlindspot [te_ulid te (ps_prompt_id p), vr_provider cited] (ps_run_ids p) [] [] r"
  unfolding provider_blindspot_rule_def built_def Let_def
  by (cases "cited_strong p") (simp_all split: if_splits, blast)

lemma extraction_built:
  "r \<in> set (low_extraction_confidence te eng input) \<Longrightarrow>
     built te eng input LowExtractionConfidence [''p50''] (ei_all_run_ids input) [] [] r"
  unfolding low_extraction_confidence_def built_def
  by (cases "ei_extraction_p50 input") (simp_all split: if_splits, blast)

lemma underperformance_rule_built:
  "underperformance_rule te eng input cat = Some r \<Longrightarrow>
     \<exists>q. built te eng input BenchmarkCategoryUnderperformance [bk_category cat] (ei_all_run_ids input) [] [q] r"
  unfolding underperformance_rule_def built_def by (simp split: if_splits) blast

lemmas rules_built = docs_rule_built competitor_rule_built drift_built gap_rule_built blindspot_rule_built
  extraction_built underperformance_rule_built

lemma engine_generate_built:
  assumes "r \<in> set (engine_generate te eng input)"
  shows "\<exists>k ident rs cs qs. built te eng input k ident rs cs qs r \<and> kind_lane k = LaneDeterministic
    \<and> ((\<exists>p \<in> set (ei_prompts input). rs = ps_run_ids p) \<or> rs = ei_all_run_ids input
        \<or> (\<exists>d. ei_citation_drift input = Some d \<and> cs = cd_citation_ids d) \<or> qs \<noteq> [])"
proof -
  from assms consider
    (docs) docs p where "p \<in> set (ei_prompts input)" "docs_not_cited_rule te eng input docs p = Some r"
  | (comp) p where "p \<in> set (ei_prompts input)" "competitor_outranks_rule te eng input p = Some r"
  | (drift) "r \<in> set (citation_domain_drift te eng input)"
  | (gap) cat where "coverage_gap_rule te eng input cat = Some r"
  | (blind) p where "p \<in> set (ei_prompts input)" "provider_blindspot_rule te eng input p = Some r"
  | (low) "r \<in> set (low_extraction_confidence te eng input)"
  | (under) cat where "underperformance_rule te eng input cat = Some r"
    by (auto simp: engine_generate_def docs_not_cited_for_prompt_def competitor_outranks_for_prompt_def
        prompt_coverage_gap_def provider_blindspot_def benchmark_category_underperformance_def mem_map_filter
        split: option.splits if_splits)
  then show ?thesis
  proof cases
    case docs
    from docs_rule_built [OF this(2)] this(1) show ?thesis by (force simp: kind_lane_def)
  next
    case comp
    from competitor_rule_built [OF this(2)] this(1) show ?thesis by (force simp: kind_lane_def)
  next
    case drift
    from drift_built [OF this] show ?thesis by (force simp: kind_lane_def)
  next
    case gap
    from gap_rule_built [OF this] show ?thesis by (force simp: kind_lane_def)
  next
    case blind
    from blindspot_rule_built [OF this(2)] this(1) show ?thesis by (force simp: kind_lane_def)
  next
    case low
    from extraction_built [OF this] show ?thesis by (force simp: kind_lane_def)
  next
    case under
    from underperformance_rule_built [OF this] show ?thesis by (force simp: kind_lane_def)
  qed
qed

lemma engine_generate_ok: "r \<in> set (engine_generate te eng input) \<Longrightarrow> recommendation_ok r"
  using engine_generate_built built_fields(4) by blast

lemma enrich_each_out:
  "enrich_each ask build xs made = (out, made') \<Longrightarrow> (\<And>x llm. P (build x llm)) \<Longrightarrow> r \<in> set out \<Longrightarrow> P r"
proof (induction xs arbitrary: made out)
  case (Cons x xs)
  then show ?case by (auto split: prod.splits option.splits)
qed simp

lemma llm_enrich_ok:
  assumes "llm_enrich te eng input cfg provider det made = (out, made')" and "r \<in> set out"
  shows "recommendation_ok r"
proof -
  obtain a m1 b m2 c m3 where
    a: "structural_content_suggestion te eng input cfg provider det made = (a, m1)" and
    b: "citation_quality_uplift te eng input cfg provider m1 = (b, m2)" and
    c: "volatility_anomaly_explained te eng input cfg provider m2 = (c, m3)"
    by (metis surj_pair)
  have "recommendation_ok x" if "x \<in> set a" for x
    by (rule enrich_each_out [OF a [unfolded structural_content_suggestion_def] _ that])
      (simp add: make_llm_ok kind_lane_def)
  moreover have "recommendation_ok x" if "x \<in> set b" for x
    by (rule enrich_each_out [OF b [unfolded citation_quality_uplift_def] _ that])
      (simp add: make_llm_ok kind_lane_def)
  moreover have "recommendation_ok x" if "x \<in> set c" for x
    using c that by (auto simp: volatility_anomaly_explained_def make_llm_ok kind_lane_def
        split: option.splits prod.splits)
  ultimately show ?thesis
    using assms by (auto simp: llm_enrich_def a b c)
qed

lemma enrich_each_calls:
  "length (snd (enrich_each (\<lambda>x. llm_call provider cfg (ask x)) build xs made)) = length made + length xs"
  by (induction xs arbitrary: made) (simp_all add: llm_call_def Let_def case_prod_beta)

lemma llm_enrich_calls:
  "length (snd (llm_enrich te eng input cfg provider det made))
     = length made + length (filter is_enrichable det)
       + length (filter (\<lambda>p. ps_citation_ids p \<noteq> []) (ei_prompts input))
       + (case ei_citation_drift input of None \<Rightarrow> 0 | Some d \<Rightarrow> 1)"
proof -
  have "length (snd (volatility_anomaly_explained te eng input cfg provider m))
      = length m + (case ei_citation_drift input of None \<Rightarrow> 0 | Some d \<Rightarrow> 1)" for m
    by (simp add: volatility_anomaly_explained_def llm_call_def Let_def
        split: option.split prod.split sum.split)
  moreover have "length (snd (citation_quality_uplift te eng input cfg provider m))
      = length m + length (filter (\<lambda>p. ps_citation_ids p \<noteq> []) (ei_prompts input))" for m
    unfolding citation_quality_uplift_def by (rule enrich_each_calls)
  moreover have "length (snd (structural_content_suggestion te eng input cfg provider det made))
      = length made + length (filter is_enrichable det)"
    unfolding structural_content_suggestion_def by (rule enrich_each_calls)
  ultimately show ?thesis by (simp add: llm_enrich_def case_prod_beta)
qed

text \<open>
  C20 (type). Every recommendation the engine returns, with or without the language-model lane,
  carries the non-deterministic tag exactly when its class says so, a model trace exactly when
  its kind is not deterministic, a summary of at most 240 characters, and at most 50 runs and
  citations.
\<close>

theorem engine_recommendations_are_well_formed:
  "list_all recommendation_ok (go_recommendations (fst (generate_with_llm te eng input cfg provider)))"
  by (auto simp: list_all_iff generate_with_llm_def engine_generate_ok Let_def
      dest!: in_set_takeD llm_enrich_ok split: option.splits prod.splits)

text \<open>
  C40 (bounds). The cap on recommendations of a run bounds what is returned, but the provider is
  called once for every enrichable finding, for every prompt with citations and for the drift,
  whatever the cap.
\<close>

theorem llm_cap_does_not_bound_calls:
  "length (go_recommendations (fst (generate_with_llm te eng input (cfg\<lparr>lc_enrich := True\<rparr>) (Some provider))))
      \<le> length (engine_generate te eng input) + lc_max_recs_per_run cfg
   \<and> length (snd (generate_with_llm te eng input (cfg\<lparr>lc_enrich := True\<rparr>) (Some provider)))
      = length (filter is_enrichable (engine_generate te eng input))
        + length (filter (\<lambda>p. ps_citation_ids p \<noteq> []) (ei_prompts input))
        + (case ei_citation_drift input of None \<Rightarrow> 0 | Some d \<Rightarrow> 1)"
  using llm_enrich_calls [of te eng input "cfg\<lparr>lc_enrich := True\<rparr>" provider "engine_generate te eng input" "[]"]
  by (simp add: generate_with_llm_def case_prod_beta Let_def)

section \<open>The drift threshold\<close>

lemma jaccard_close:
  assumes "0 < i" and "i < u" and "u < 2 ^ 20"
  shows "\<exists>w. f32_sub (Fin 1) (f32_div (f32_of_nat i) (f32_of_nat u)) = Fin w
    \<and> \<bar>w - (1 - of_nat i / of_nat u)\<bar> \<le> 1 / 2 ^ 23"
proof -
  define x y where "x = (of_nat i :: rat)" and "y = (of_nat u :: rat)"
  have xy: "1 \<le> x" "x + 1 \<le> y" "y \<le> 2 ^ 20"
    using assms unfolding x_def y_def
    using of_nat_le_iff [of 1 i, where 'a = rat] of_nat_le_iff [of "i + 1" u, where 'a = rat]
      of_nat_le_iff [of u "2 ^ 20", where 'a = rat] by simp_all
  define r where "r = x / y"
  have r: "1 / 2 ^ 20 \<le> r" "1 / 2 ^ 20 \<le> 1 - r" "1 / 2 ^ 60 \<le> r"
    using xy unfolding r_def by (simp_all add: field_simps)
  then have "r \<le> 1" by simp
  with r(3) obtain v where v: "f32_round r = Fin v" "\<bar>v - r\<bar> \<le> 1 / 2 ^ 24"
    using f32_unit_close by blast
  have "1 / 2 ^ 60 \<le> 1 - v" "1 - v \<le> 1"
    using v(2) [THEN abs_diff_le] r by simp_all
  then obtain w where w: "f32_round (1 - v) = Fin w" "\<bar>w - (1 - v)\<bar> \<le> 1 / 2 ^ 24"
    using f32_unit_close by blast
  have "\<bar>w - (1 - r)\<bar> \<le> 1 / 2 ^ 23"
    using v(2) [THEN abs_diff_le] w(2) [THEN abs_diff_le] unfolding abs_le_iff by simp
  moreover have "f32_of_nat i = Fin x" "f32_of_nat u = Fin y"
    using assms f32_of_nat_exact [of i] f32_of_nat_exact [of u] by (simp_all add: x_def y_def)
  ultimately show ?thesis
    using xy v(1) w(1) by (simp flip: x_def y_def r_def)
qed

lemma jaccard_threshold:
  assumes "card (set a \<union> set b) < 2 ^ 20"
  shows "f64_le (jaccard_distance a b) JACCARD_DRIFT
    \<longleftrightarrow> 3 * card (set a \<union> set b) \<le> 5 * card (set a \<inter> set b)"
proof -
  define i u where "i = card (set a \<inter> set b)" and "u = card (set a \<union> set b)"
  define t where "t = (13421773 / 33554432 :: rat)"
  have J: "JACCARD_DRIFT = Fin t" by (simp add: JACCARD_DRIFT_def f32_point4 t_def)
  have iu: "i \<le> u" unfolding i_def u_def by (intro card_mono) auto
  have u: "f32_of_nat u = Fin (of_nat u)"
    using assms by (intro f32_of_nat_exact) (simp add: u_def)
  have dist: "jaccard_distance a b
      = (if u = 0 then Fin 0 else f32_sub (Fin 1) (f32_div (f32_of_nat i) (f32_of_nat u)))"
    by (simp add: jaccard_distance_def u flip: i_def u_def)
  consider "u = 0" | "i = 0" "0 < u" | "i = u" "0 < u" | "0 < i" "i < u" using iu by linarith
  then have "f64_le (jaccard_distance a b) JACCARD_DRIFT \<longleftrightarrow> 3 * u \<le> 5 * i"
  proof cases
    case 1
    then show ?thesis by (simp add: dist J f64_le_def t_def)
  next
    case 2
    then have "jaccard_distance a b = Fin 1"
      using f32_round_int_exact [of 1] f32_of_nat_exact [of 0] by (simp add: dist u)
    with 2 show ?thesis by (simp add: J f64_le_def t_def)
  next
    case 3
    then have "jaccard_distance a b = Fin 0"
      using f32_round_int_exact [of 1] by (simp add: dist u)
    with 3 show ?thesis by (simp add: J f64_le_def t_def)
  next
    case 4
    define q where "q = (of_nat i / of_nat u :: rat)"
    obtain w where w: "f32_sub (Fin 1) (f32_div (f32_of_nat i) (f32_of_nat u)) = Fin w"
      and close: "\<bar>w - (1 - q)\<bar> \<le> 1 / 2 ^ 23"
      using jaccard_close [of i u] 4 assms by (auto simp: u_def q_def)
    have le: "f64_le (jaccard_distance a b) JACCARD_DRIFT \<longleftrightarrow> w \<le> t"
      using 4 by (auto simp: dist w J f64_le_def)
    have uq: "q * of_nat u = of_nat i" using 4 by (simp add: q_def)
    have u0: "(0 :: rat) < of_nat u" "(of_nat u :: rat) \<le> 2 ^ 20"
      using 4 assms of_nat_le_iff [of u "2 ^ 20", where 'a = rat] by (simp_all add: u_def)
    have gap: "1 / 2 ^ 20 \<le> 1 / (of_nat u :: rat)" using u0 by (simp add: field_simps)
    consider "5 * i = 3 * u" | "5 * i + 1 \<le> 3 * u" | "3 * u + 1 \<le> 5 * i" by linarith
    then show ?thesis
    proof cases
      case 1
      then have "of_nat (5 * i) = (of_nat (3 * u) :: rat)" by (simp only:)
      then have "q = 3 / 5" using u0 by (simp add: q_def field_simps)
      moreover have "f32_of_nat i = Fin (of_nat i)"
        using 4 assms by (intro f32_of_nat_exact) (simp add: u_def)
      ultimately have "f32_sub (Fin 1) (f32_round (3 / 5)) = Fin w"
        using w u0 by (simp only: u f32_div.simps flip: q_def) simp
      then have "w = 6710886 / 16777216"
        by (simp only: f32_point6 f32_sub.simps f32_point4' f64.inject)
      then have "w \<le> t" by (simp add: t_def)
      with 1 le show ?thesis by simp
    next
      case 2
      then have "of_nat (5 * i + 1) \<le> (of_nat (3 * u) :: rat)" by (simp only: of_nat_le_iff)
      then have "(5 * q + 1 / of_nat u) * of_nat u \<le> 3 * of_nat u"
        using uq u0(1) by (simp add: distrib_right)
      then have "5 * q + 1 / of_nat u \<le> 3" using u0(1) by (rule mult_right_le_imp_le)
      with gap have "2 / 5 + 1 / 5242880 \<le> 1 - q" by simp
      with close [THEN abs_diff_le] have "t < w" by (simp add: t_def)
      with 2 le show ?thesis by simp
    next
      case 3
      then have "of_nat (3 * u + 1) \<le> (of_nat (5 * i) :: rat)" by (simp only: of_nat_le_iff)
      then have "(3 + 1 / of_nat u) * of_nat u \<le> 5 * q * of_nat u"
        using uq u0(1) by (simp add: distrib_right)
      then have "3 + 1 / of_nat u \<le> 5 * q" using u0(1) by (rule mult_right_le_imp_le)
      with gap have "1 - q \<le> 2 / 5 - 1 / 5242880" by simp
      with close [THEN abs_diff_le] have "w \<le> t" by (simp add: t_def)
      with 3 le show ?thesis by simp
    qed
  qed
  then show ?thesis by (simp add: i_def u_def)
qed

text \<open>
  C21 (equivalence). Although the Jaccard distance is computed in single precision, the drift rule
  fires exactly when the brand fell in the current top three and five times the common domains
  are fewer than three times all domains, for fewer than a million domains.
\<close>

theorem drift_threshold_is_exact:
  assumes "card (set (cd_prior_domains drift) \<union> set (cd_current_domains drift)) < 2 ^ 20"
  shows "citation_domain_drift te eng (input\<lparr>ei_citation_drift := Some drift\<rparr>) \<noteq> []
    \<longleftrightarrow> cd_current_top3_lower drift
      \<and> 5 * card (set (cd_prior_domains drift) \<inter> set (cd_current_domains drift))
          < 3 * card (set (cd_prior_domains drift) \<union> set (cd_current_domains drift))"
  using jaccard_threshold [OF assms] by (auto simp: citation_domain_drift_def Let_def)

section \<open>Identifiers\<close>

lemma min_by_total_in: "min_by_total f xs = Some y \<Longrightarrow> y \<in> set xs"
proof (cases xs)
  case (Cons x ys)
  have "fold (\<lambda>y best. if total_less (f y) (f best) then y else best) ys b \<in> set (b # ys)" for b
  proof (induction ys arbitrary: b)
    case (Cons a ys)
    from Cons [of "if total_less (f a) (f b) then a else b"] show ?case by (auto split: if_splits)
  qed simp
  then show "min_by_total f xs = Some y \<Longrightarrow> y \<in> set xs" using Cons by auto
qed simp

lemma best_competitor_in: "best_competitor b cs = Some c \<Longrightarrow> c \<in> set cs"
  by (auto simp: best_competitor_def dest!: min_by_total_in)

lemma cited_strong_in: "cited_strong p = Some r \<Longrightarrow> r \<in> set (ps_provider_ranks p)"
  by (auto simp: cited_strong_def find_Some_iff)

text \<open>Every identity a run over the input could use.\<close>

definition prompt_identities :: "text_env \<Rightarrow> prompt_stat \<Rightarrow> (recommendation_kind \<times> string list) list" where
  "prompt_identities te p =
     (DocsNotCitedForPrompt, [te_ulid te (ps_prompt_id p)])
     # map (\<lambda>c. (CompetitorOutranksForPrompt, [te_ulid te (ps_prompt_id p), cr_competitor c])) (ps_competitor_ranks p)
     @ map (\<lambda>r. (ProviderBlindspot, [te_ulid te (ps_prompt_id p), vr_provider r])) (ps_provider_ranks p)"

definition identities :: "text_env \<Rightarrow> engine_input \<Rightarrow> (recommendation_kind \<times> string list) list" where
  "identities te input =
     [(CitationDomainDrift, [''window-drift'']), (LowExtractionConfidence, [''p50''])]
     @ concat (map (prompt_identities te) (ei_prompts input))
     @ map (\<lambda>c. (PromptCoverageGap, [bk_category c])) (ei_benchmark_categories input)
     @ map (\<lambda>c. (BenchmarkCategoryUnderperformance, [bk_category c])) (ei_benchmark_categories input)"

definition id_text :: "text_env \<Rightarrow> engine_input \<Rightarrow> recommendation_kind \<times> string list \<Rightarrow> string" where
  "id_text te input i = id_preimage te (fst i) (ei_project_id input) (snd i)"

lemma kind_as_str_inj: "kind_as_str k = kind_as_str k' \<Longrightarrow> k = k'"
  by (cases k; cases k') simp_all

lemma kind_as_str_no_bar: "CHR ''|'' \<notin> set (kind_as_str k)"
  by (cases k) simp_all

lemma id_preimage_eqD:
  assumes "id_preimage te k p a = id_preimage te k' p b"
  shows "k = k'" "concat (map (\<lambda>part. ''|'' @ part) a) = concat (map (\<lambda>part. ''|'' @ part) b)"
proof -
  let ?t = "\<lambda>xs. te_ulid te p @ concat (map (\<lambda>part. ''|'' @ part) xs)"
  from assms have "kind_as_str k @ CHR ''|'' # ?t a = kind_as_str k' @ CHR ''|'' # ?t b"
    by (simp add: id_preimage_def)
  from append_sep_eqD [OF this kind_as_str_no_bar kind_as_str_no_bar]
  have "kind_as_str k = kind_as_str k'" "?t a = ?t b" by simp_all
  then show "k = k'" "concat (map (\<lambda>part. ''|'' @ part) a) = concat (map (\<lambda>part. ''|'' @ part) b)"
    by (simp_all add: kind_as_str_inj)
qed

lemma first_part_eq:
  assumes "concat (map (\<lambda>part. ''|'' @ part) (u # a)) = concat (map (\<lambda>part. ''|'' @ part) (v # b))"
    and "CHR ''|'' \<notin> set u" and "CHR ''|'' \<notin> set v"
  shows "u = v"
proof -
  have cut: "takeWhile (\<lambda>c. c \<noteq> CHR ''|'') (w @ concat (map (\<lambda>part. ''|'' @ part) xs)) = w"
    if "CHR ''|'' \<notin> set w" for w xs
    using that by (cases xs) (auto simp: takeWhile_append takeWhile_eq_all_conv)
  from assms(1) have "u @ concat (map (\<lambda>part. ''|'' @ part) a) = v @ concat (map (\<lambda>part. ''|'' @ part) b)"
    by simp
  then show ?thesis using cut [OF assms(2)] cut [OF assms(3)] by metis
qed

definition ids_collision_free :: "text_env \<Rightarrow> engine_input \<Rightarrow> bool" where
  "ids_collision_free te input =
     (distinct (map ps_prompt_id (ei_prompts input)) \<and> distinct (map bk_category (ei_benchmark_categories input))
      \<and> inj_on (te_ulid te) (ps_prompt_id ` set (ei_prompts input))
      \<and> (\<forall>p \<in> set (ei_prompts input). CHR ''|'' \<notin> set (te_ulid te (ps_prompt_id p)))
      \<and> inj_on (\<lambda>s. u128_from_be_bytes (take 16 (te_sha256 te (str_bytes s))))
          (id_text te input ` set (identities te input)))"

lemma same_id:
  assumes "ids_collision_free te input"
    and "(k, a) \<in> set (identities te input)" "(k', b) \<in> set (identities te input)"
    and "deterministic_id te k (ei_project_id input) a = deterministic_id te k' (ei_project_id input) b"
  shows "k = k'" "concat (map (\<lambda>part. ''|'' @ part) a) = concat (map (\<lambda>part. ''|'' @ part) b)"
proof -
  have inj: "inj_on (\<lambda>s. u128_from_be_bytes (take 16 (te_sha256 te (str_bytes s))))
      (id_text te input ` set (identities te input))"
    using assms(1) by (simp only: ids_collision_free_def)
  have "id_text te input (k, a) = id_text te input (k', b)"
    by (rule inj_onD [OF inj _ imageI [OF assms(2)] imageI [OF assms(3)]])
      (use assms(4) in \<open>simp add: deterministic_id_def id_text_def\<close>)
  then show "k = k'" "concat (map (\<lambda>part. ''|'' @ part) a) = concat (map (\<lambda>part. ''|'' @ part) b)"
    by (auto simp: id_text_def dest: id_preimage_eqD)
qed

text \<open>A recommendation of one of the rules, and the identity it was built with.\<close>

definition identified :: "text_env \<Rightarrow> engine_input \<Rightarrow> recommendation_kind \<Rightarrow> string \<Rightarrow> recommendation \<Rightarrow> bool" where
  "identified te input k head r =
     (rc_kind r = k \<and> (\<exists>rest. (k, head # rest) \<in> set (identities te input)
        \<and> rc_id r = deterministic_id te k (ei_project_id input) (head # rest)))"

lemma identified_kind:
  assumes "ids_collision_free te input" and "identified te input k u r" and "identified te input k' v s"
    and "rc_id r = rc_id s"
  shows "k = k'"
  using assms same_id(1) by (fastforce simp: identified_def)

lemma identified_head:
  assumes "ids_collision_free te input" and "identified te input k u r" and "identified te input k' v s"
    and "rc_id r = rc_id s" and "CHR ''|'' \<notin> set u" and "CHR ''|'' \<notin> set v"
  shows "u = v"
proof -
  from assms(2,3) obtain a b where
    "(k, u # a) \<in> set (identities te input)" "rc_id r = deterministic_id te k (ei_project_id input) (u # a)"
    "(k', v # b) \<in> set (identities te input)" "rc_id s = deterministic_id te k' (ei_project_id input) (v # b)"
    by (auto simp: identified_def)
  with assms(4) show ?thesis
    using same_id(2) [OF assms(1), of k "u # a" k' "v # b"] first_part_eq [OF _ assms(5,6)] by simp
qed

lemma prompt_identity_in:
  "p \<in> set (ei_prompts input) \<Longrightarrow> i \<in> set (prompt_identities te p) \<Longrightarrow> i \<in> set (identities te input)"
  by (auto simp: identities_def)

lemma docs_identified:
  "p \<in> set (ei_prompts input) \<Longrightarrow> docs_not_cited_rule te eng input docs p = Some r \<Longrightarrow>
     identified te input DocsNotCitedForPrompt (te_ulid te (ps_prompt_id p)) r"
  by (drule docs_rule_built) (auto simp: identified_def built_fields prompt_identities_def intro!: prompt_identity_in)

lemma competitor_identified:
  assumes "p \<in> set (ei_prompts input)" and "competitor_outranks_rule te eng input p = Some r"
  shows "identified te input CompetitorOutranksForPrompt (te_ulid te (ps_prompt_id p)) r"
proof -
  from competitor_rule_built [OF assms(2)] obtain b c where
    c: "best_competitor b (ps_competitor_ranks p) = Some c" and
    r: "built te eng input CompetitorOutranksForPrompt [te_ulid te (ps_prompt_id p), cr_competitor c]
      (ps_run_ids p) [] [] r" by blast
  have "(CompetitorOutranksForPrompt, [te_ulid te (ps_prompt_id p), cr_competitor c]) \<in> set (prompt_identities te p)"
    using best_competitor_in [OF c] by (auto simp: prompt_identities_def)
  with prompt_identity_in [OF assms(1)] built_fields(1,2) [OF r] show ?thesis
    by (auto simp: identified_def)
qed

lemma blindspot_identified:
  assumes "p \<in> set (ei_prompts input)" and "provider_blindspot_rule te eng input p = Some r"
  shows "identified te input ProviderBlindspot (te_ulid te (ps_prompt_id p)) r"
proof -
  from blindspot_rule_built [OF assms(2)] obtain c where
    c: "cited_strong p = Some c" and
    r: "built te eng input ProviderBlindspot [te_ulid te (ps_prompt_id p), vr_provider c] (ps_run_ids p) [] [] r"
    by blast
  have "(ProviderBlindspot, [te_ulid te (ps_prompt_id p), vr_provider c]) \<in> set (prompt_identities te p)"
    using cited_strong_in [OF c] by (auto simp: prompt_identities_def)
  with prompt_identity_in [OF assms(1)] built_fields(1,2) [OF r] show ?thesis
    by (auto simp: identified_def)
qed

lemma drift_identified:
  "r \<in> set (citation_domain_drift te eng input) \<Longrightarrow> identified te input CitationDomainDrift ''window-drift'' r"
  by (drule drift_built) (auto simp: identified_def built_fields identities_def)

lemma extraction_identified:
  "r \<in> set (low_extraction_confidence te eng input) \<Longrightarrow> identified te input LowExtractionConfidence ''p50'' r"
  by (drule extraction_built) (auto simp: identified_def built_fields identities_def)

lemma gap_identified:
  "cat \<in> set (ei_benchmark_categories input) \<Longrightarrow> coverage_gap_rule te eng input cat = Some r \<Longrightarrow>
     identified te input PromptCoverageGap (bk_category cat) r \<and>
     rc_id r = deterministic_id te PromptCoverageGap (ei_project_id input) [bk_category cat]"
  by (drule gap_rule_built) (auto simp: identified_def built_fields identities_def)

lemma underperformance_identified:
  "cat \<in> set (ei_benchmark_categories input) \<Longrightarrow> underperformance_rule te eng input cat = Some r \<Longrightarrow>
     identified te input BenchmarkCategoryUnderperformance (bk_category cat) r \<and>
     rc_id r = deterministic_id te BenchmarkCategoryUnderperformance (ei_project_id input) [bk_category cat]"
  by (drule underperformance_rule_built) (auto simp: identified_def built_fields identities_def)

text \<open>The output of one rule: ids that differ, all of the rule's kind.\<close>

definition rule_output :: "text_env \<Rightarrow> engine_input \<Rightarrow> recommendation_kind \<Rightarrow> recommendation list \<Rightarrow> bool" where
  "rule_output te input k rs =
     (distinct (map rc_id rs) \<and> (\<forall>r \<in> set rs. \<exists>u. identified te input k u r))"

lemma rule_output_Nil [simp]: "rule_output te input k []"
  by (simp add: rule_output_def)

lemma rule_outputs_distinct:
  assumes "ids_collision_free te input" and "list_all2 (rule_output te input) ks rss" and "distinct ks"
  shows "distinct (map rc_id (concat rss))"
  using assms(2,3)
proof (induction ks rss rule: list_all2_induct)
  case (Cons k ks rs rss)
  have "rc_id r \<noteq> rc_id s" if r: "r \<in> set rs" and s: "s \<in> set (concat rss)" for r s
  proof
    assume eq: "rc_id r = rc_id s"
    from s obtain ss where ss: "s \<in> set ss" "ss \<in> set rss" by auto
    then obtain k' where "k' \<in> set ks" "rule_output te input k' ss"
      using list_all2_set2 [OF Cons.hyps(2)] by blast
    with r ss Cons.hyps(1) obtain u v where "identified te input k u r" "identified te input k' v s"
      unfolding rule_output_def by blast
    from identified_kind [OF assms(1) this eq] \<open>k' \<in> set ks\<close> Cons.prems show False by simp
  qed
  with Cons show ?case by (auto simp: rule_output_def)
qed simp

lemma prompt_rule_output:
  assumes free: "ids_collision_free te input"
    and ident: "\<And>p r. p \<in> set (ei_prompts input) \<Longrightarrow> g p = Some r \<Longrightarrow> identified te input k (te_ulid te (ps_prompt_id p)) r"
  shows "rule_output te input k (List.map_filter g (ei_prompts input))"
proof -
  have "distinct (map rc_id (List.map_filter g (ei_prompts input)))"
  proof (rule distinct_map_of_filter [where key = ps_prompt_id])
    show "distinct (map ps_prompt_id (ei_prompts input))"
      using free by (simp add: ids_collision_free_def)
  next
    fix p q r s
    assume p: "p \<in> set (ei_prompts input)" "g p = Some r" and q: "q \<in> set (ei_prompts input)" "g q = Some s"
      and eq: "rc_id r = rc_id s"
    have "te_ulid te (ps_prompt_id p) = te_ulid te (ps_prompt_id q)"
      using identified_head [OF free ident [OF p] ident [OF q] eq] free p q by (auto simp: ids_collision_free_def)
    then show "ps_prompt_id p = ps_prompt_id q"
      using free p q by (auto simp: ids_collision_free_def dest: inj_onD)
  qed
  moreover have "\<exists>u. identified te input k u r" if "r \<in> set (List.map_filter g (ei_prompts input))" for r
    using that ident by (meson mem_map_filter)
  ultimately show ?thesis by (simp add: rule_output_def)
qed

lemma category_rule_output:
  assumes free: "ids_collision_free te input"
    and ident: "\<And>c r. c \<in> set (ei_benchmark_categories input) \<Longrightarrow> g c = Some r \<Longrightarrow>
      identified te input k (bk_category c) r
      \<and> rc_id r = deterministic_id te k (ei_project_id input) [bk_category c]"
    and k: "k = PromptCoverageGap \<or> k = BenchmarkCategoryUnderperformance"
  shows "rule_output te input k (List.map_filter g (ei_benchmark_categories input))"
proof -
  have mem: "(k, [bk_category c]) \<in> set (identities te input)" if "c \<in> set (ei_benchmark_categories input)" for c
    using k that by (auto simp: identities_def)
  have "distinct (map rc_id (List.map_filter g (ei_benchmark_categories input)))"
  proof (rule distinct_map_of_filter [where key = bk_category])
    show "distinct (map bk_category (ei_benchmark_categories input))"
      using free by (simp add: ids_collision_free_def)
  next
    fix c d r s
    assume c: "c \<in> set (ei_benchmark_categories input)" "g c = Some r"
      and d: "d \<in> set (ei_benchmark_categories input)" "g d = Some s" and eq: "rc_id r = rc_id s"
    show "bk_category c = bk_category d"
      using same_id(2) [OF free mem [OF c(1)] mem [OF d(1)]] eq ident [OF c] ident [OF d] by simp
  qed
  moreover have "\<exists>u. identified te input k u r" if "r \<in> set (List.map_filter g (ei_benchmark_categories input))" for r
    using that ident by (meson mem_map_filter)
  ultimately show ?thesis by (simp add: rule_output_def)
qed

lemma single_rule_output:
  "length rs \<le> 1 \<Longrightarrow> (\<And>r. r \<in> set rs \<Longrightarrow> identified te input k u r) \<Longrightarrow> rule_output te input k rs"
  by (cases rs) (auto simp: rule_output_def)

text \<open>
  (safety). The recommendations of one deterministic run have pairwise distinct identifiers, as
  long as prompts and categories are distinct and the truncated hash does not collide on the
  identities of this input.
\<close>

theorem generated_ids_are_distinct:
  assumes "ids_collision_free te input"
  shows "distinct (map rc_id (engine_generate te eng input))"
proof -
  have "list_all2 (rule_output te input) deterministic_kinds
    [docs_not_cited_for_prompt te eng input, competitor_outranks_for_prompt te eng input,
     citation_domain_drift te eng input, prompt_coverage_gap te eng input, provider_blindspot te eng input,
     low_extraction_confidence te eng input, benchmark_category_underperformance te eng input]"
    unfolding deterministic_kinds_def list.rel_inject
  proof (intro conjI list.rel_intros)
    show "rule_output te input DocsNotCitedForPrompt (docs_not_cited_for_prompt te eng input)"
      unfolding docs_not_cited_for_prompt_def
      by (cases "ei_docs_etld1 input") (simp_all add: prompt_rule_output [OF assms docs_identified])
    show "rule_output te input CompetitorOutranksForPrompt (competitor_outranks_for_prompt te eng input)"
      unfolding competitor_outranks_for_prompt_def by (rule prompt_rule_output [OF assms competitor_identified])
    show "rule_output te input CitationDomainDrift (citation_domain_drift te eng input)"
      by (rule single_rule_output [OF _ drift_identified])
        (simp_all add: citation_domain_drift_def Let_def split: option.split)
    show "rule_output te input PromptCoverageGap (prompt_coverage_gap te eng input)"
      unfolding prompt_coverage_gap_def by (auto intro!: category_rule_output [OF assms gap_identified])
    show "rule_output te input ProviderBlindspot (provider_blindspot te eng input)"
      unfolding provider_blindspot_def by (rule prompt_rule_output [OF assms blindspot_identified])
    show "rule_output te input LowExtractionConfidence (low_extraction_confidence te eng input)"
      by (rule single_rule_output [OF _ extraction_identified])
        (simp_all add: low_extraction_confidence_def split: option.split)
    show "rule_output te input BenchmarkCategoryUnderperformance (benchmark_category_underperformance te eng input)"
      unfolding benchmark_category_underperformance_def
      by (auto intro!: category_rule_output [OF assms underperformance_identified])
  qed
  from rule_outputs_distinct [OF assms this] show ?thesis
    by (simp add: deterministic_kinds_def engine_generate_def)
qed

section \<open>An input on which every rule fires\<close>

definition ex_text :: text_env where
  "ex_text = \<lparr>te_sha256 = (\<lambda>bs. replicate 15 0 @ [of_nat (length bs)]), te_ulid = (\<lambda>_. ''U''), te_json = (\<lambda>_. []),
     te_num = (\<lambda>_. []), te_time = (\<lambda>_. []), te_debug = (\<lambda>g. g)\<rparr>"

definition ex_window :: time_window where
  "ex_window = \<lparr>tw_start = 0, tw_end = 14\<rparr>"

definition ex_prompt :: prompt_stat where
  "ex_prompt = \<lparr>ps_prompt_id = 1, ps_prompt = ''best crm'', ps_run_ids = [2], ps_citation_ids = [3],
     ps_n_runs_14d = 6, ps_brand_mean_rank = Some (Fin 5), ps_provider_ranks =
       [\<lparr>vr_provider = ''x'', vr_mean_rank = Some (Fin 2), vr_cited = True\<rparr>],
     ps_competitor_ranks = [\<lparr>cr_competitor = ''Acme'', cr_mean_rank = Fin 1\<rparr>],
     ps_brand_citation_domains = [], ps_competitor_docs_present = [''d'']\<rparr>"

definition ex_category :: benchmark_category where
  "ex_category = \<lparr>bk_category = ''crm'', bk_brand_p_rank = Fin 5, bk_benchmark_p75 = Fin 4,
     bk_brand_in_graph_pct = Fin 1, bk_local_has_prompts = False, bk_suggested_prompts = [], bk_query_hash = ''h''\<rparr>"

definition ex_drift :: citation_drift_input where
  "ex_drift = \<lparr>cd_prior_domains = [''a'', ''b''], cd_current_domains = [''b'', ''c''],
     cd_current_top3_lower = True, cd_citation_ids = []\<rparr>"

definition ex_input :: engine_input where
  "ex_input = \<lparr>ei_project_id = 9, ei_brand = ''B'', ei_brand_etld1 = [], ei_docs_etld1 = Some ''docs.b'',
     ei_competitors = [], ei_enabled_providers = [''x'', ''y''], ei_benchmark_opted_in = True,
     ei_extraction_p50 = Some (Fin 0), ei_extraction_threshold = Fin 1, ei_extraction_suggested_plugin = [],
     ei_prompts = [ex_prompt], ei_citation_drift = Some ex_drift, ei_benchmark_categories = [ex_category],
     ei_window = ex_window, ei_generated_at = 14, ei_engine_version = [], ei_all_run_ids = [2]\<rparr>"

lemma ex_collision_free: "ids_collision_free ex_text ex_input"
proof -
  have hash: "u128_from_be_bytes (take 16 (te_sha256 ex_text bs)) = ucast (of_nat (length bs) :: u8)" for bs
    by (simp add: ex_text_def u128_from_be_bytes_def)
  have "inj_on (\<lambda>s. u128_from_be_bytes (take 16 (te_sha256 ex_text (str_bytes s))))
      (id_text ex_text ex_input ` set (identities ex_text ex_input))"
    by (simp add: hash str_bytes_def identities_def prompt_identities_def ex_input_def ex_prompt_def ex_category_def
        id_text_def id_preimage_def ex_text_def u128_from_be_bytes_def)
  then show ?thesis
    by (simp add: ids_collision_free_def ex_input_def ex_prompt_def ex_category_def ex_text_def)
qed

lemma ex_coverage: "f64_le COVERAGE_GRAPH_PCT (Fin 1)"
proof -
  obtain v where "f32_round (1 / 10) = Fin v" "\<bar>v - 1 / 10\<bar> \<le> 1 / 2 ^ 24"
    using f32_unit_close [of "1 / 10"] by auto
  moreover from this(2) [THEN abs_diff_le] have "v \<le> 1" by simp
  ultimately show ?thesis by (simp add: COVERAGE_GRAPH_PCT_def f64_le_Fin)
qed

lemma ex_drift_fires: "\<not> f64_le (jaccard_distance [''a'', ''b''] [''b'', ''c'']) JACCARD_DRIFT"
  by (simp add: jaccard_threshold insert_commute)

lemma ex_delta: "f32_sub (Fin 5) (Fin 1) = Fin 4"
  using f32_round_int_exact [of 4] by simp

lemma ex_kinds: "map rc_kind (engine_generate ex_text default_engine ex_input) = deterministic_kinds"
  by (simp add: engine_generate_def docs_not_cited_for_prompt_def docs_not_cited_rule_def
      competitor_outranks_for_prompt_def competitor_outranks_rule_def best_competitor_def ex_delta
      citation_domain_drift_def ex_drift_fires prompt_coverage_gap_def coverage_gap_rule_def ex_coverage
      provider_blindspot_def provider_blindspot_rule_def cited_strong_def blind_providers_def
      low_extraction_confidence_def benchmark_category_underperformance_def underperformance_rule_def
      ex_input_def ex_prompt_def ex_category_def ex_drift_def List.map_filter_simps Let_def
      DOCS_MIN_RUNS_def RANK_BAD_def COMPETITOR_DELTA_def f64_le_Fin deterministic_kinds_def del: f32_sub.simps)

lemma generated_ids_are_distinct_witness:
  "distinct (map rc_id (engine_generate ex_text default_engine ex_input))
   \<and> map rc_kind (engine_generate ex_text default_engine ex_input) = deterministic_kinds"
  using generated_ids_are_distinct [OF ex_collision_free, of default_engine] ex_kinds by simp

lemma drift_threshold_is_exact_witness:
  "citation_domain_drift ex_text default_engine (ex_input\<lparr>ei_citation_drift := Some ex_drift\<rparr>) \<noteq> []"
  by (subst drift_threshold_is_exact) (simp_all add: ex_drift_def insert_commute)

end
