(* ===== verification/Cadence.thy ===== *)
theory Cadence
  imports F64
begin

text \<open>
  Provider names and the projected cost of their runs (\<open>crates/core/src/config.rs\<close>,
  \<open>crates/providers/src/cost.rs\<close>); the schedule grammar with its density caps
  (\<open>crates/scheduler/src/lib.rs\<close>); the next tick of a schedule
  (\<open>crates/scheduler/src/worker.rs\<close>). Times are microseconds since the epoch. The time zone
  database and the calendar arithmetic of the \<open>chrono\<close> crates are the fields of \<open>chrono\<close>.
\<close>

section \<open>Providers and their cost\<close>

datatype provider_name =
    Openai | Anthropic | Gemini | Perplexity | Grok | Mistral | Openrouter | Plugin string

definition provider_parse :: "string \<Rightarrow> provider_name option" where
  "provider_parse s =
     (case strip_prefix ''plugin:'' s of
        Some pid \<Rightarrow> if pid = [] then None else Some (Plugin pid)
      | None \<Rightarrow>
          if s = ''openai'' then Some Openai
          else if s = ''anthropic'' then Some Anthropic
          else if s = ''gemini'' then Some Gemini
          else if s = ''perplexity'' then Some Perplexity
          else if s = ''grok'' then Some Grok
          else if s = ''mistral'' then Some Mistral
          else if s = ''openrouter'' then Some Openrouter
          else None)"

primrec as_wire_str :: "provider_name \<Rightarrow> string" where
  "as_wire_str Openai = ''openai''"
| "as_wire_str Anthropic = ''anthropic''"
| "as_wire_str Gemini = ''gemini''"
| "as_wire_str Perplexity = ''perplexity''"
| "as_wire_str Grok = ''grok''"
| "as_wire_str Mistral = ''mistral''"
| "as_wire_str Openrouter = ''openrouter''"
| "as_wire_str (Plugin pid) = ''plugin:'' @ pid"

primrec is_plugin :: "provider_name \<Rightarrow> bool" where
  "is_plugin Openai = False"
| "is_plugin Anthropic = False"
| "is_plugin Gemini = False"
| "is_plugin Perplexity = False"
| "is_plugin Grok = False"
| "is_plugin Mistral = False"
| "is_plugin Openrouter = False"
| "is_plugin (Plugin pid) = True"

definition all_wire_names :: "string list" where
  "all_wire_names =
     [''openai'', ''anthropic'', ''gemini'', ''perplexity'', ''grok'', ''mistral'', ''openrouter'']"

definition DEFAULT_ESTIMATED_TOKENS_PER_RUN :: nat where
  "DEFAULT_ESTIMATED_TOKENS_PER_RUN = 2000"

definition DEFAULT_PROJECT_MONTHLY_CAP_USD :: f64 where
  "DEFAULT_PROJECT_MONTHLY_CAP_USD = Fin 50"

definition AVERAGE_DAYS_PER_MONTH :: f64 where
  "AVERAGE_DAYS_PER_MONTH = Fin (487 / 16)"

primrec usd_per_million_tokens :: "provider_name \<Rightarrow> f64" where
  "usd_per_million_tokens Openai = Fin (15 / 2)"
| "usd_per_million_tokens Anthropic = Fin 9"
| "usd_per_million_tokens Gemini = Fin (21 / 4)"
| "usd_per_million_tokens Perplexity = Fin 5"
| "usd_per_million_tokens Grok = Fin 7"
| "usd_per_million_tokens Mistral = Fin 4"
| "usd_per_million_tokens Openrouter = Fin (15 / 2)"
| "usd_per_million_tokens (Plugin pid) = Fin 0"

definition estimate_run_cost_usd :: "provider_name \<Rightarrow> nat \<Rightarrow> f64" where
  "estimate_run_cost_usd p tokens =
     f64_mul (f64_div (f64_of_nat tokens) (Fin 1000000)) (usd_per_million_tokens p)"

record cost_projection =
  runs_per_month :: f64
  estimated_tokens_per_run :: nat
  usd_per_run :: f64
  projected_monthly_usd :: f64

definition f64_sum :: "f64 list \<Rightarrow> f64" where
  "f64_sum xs = foldl f64_add (Fin 0) xs"

definition project_monthly_cost :: "provider_name list \<Rightarrow> nat \<Rightarrow> f64 \<Rightarrow> cost_projection" where
  "project_monthly_cost providers prompt_count ticks_per_day =
     (let runs = f64_mul (f64_mul ticks_per_day AVERAGE_DAYS_PER_MONTH) (f64_of_nat prompt_count);
          per_run = f64_sum (map (\<lambda>p. estimate_run_cost_usd p DEFAULT_ESTIMATED_TOKENS_PER_RUN) providers);
          usd_per_tick = f64_mul per_run (f64_of_nat prompt_count)
      in \<lparr>runs_per_month = f64_mul runs (f64_of_nat (length providers)),
          estimated_tokens_per_run = DEFAULT_ESTIMATED_TOKENS_PER_RUN,
          usd_per_run = per_run,
          projected_monthly_usd = f64_mul (f64_mul usd_per_tick AVERAGE_DAYS_PER_MONTH) ticks_per_day\<rparr>)"

section \<open>Recurrences\<close>

text \<open>A \<open>Cadence\<close> is its one field, the ticks per day.\<close>

type_synonym cadence = f64

datatype calendar_cadence = CDaily | CWeekly "nat list" | CEveryNDays nat

record calendar_spec =
  cs_tz :: string
  cs_hour :: nat
  cs_minute :: nat
  cs_cadence :: calendar_cadence

datatype recurrence = Frequency cadence | Calendar calendar_spec

definition recurrence_cadence :: "recurrence \<Rightarrow> cadence" where
  "recurrence_cadence r =
     (case r of
        Frequency c \<Rightarrow> c
      | Calendar spec \<Rightarrow>
          (case cs_cadence spec of
             CDaily \<Rightarrow> Fin 1
           | CWeekly days \<Rightarrow> f64_div (f64_of_nat (max (length days) 1)) (Fin 7)
           | CEveryNDays n \<Rightarrow> f64_div (Fin 1) (f64_of_nat (max n 1))))"

datatype schedule_error =
    UnsupportedCadence string
  | PerScheduleHourlyCap string f64 f64
  | ProviderDailyCap string provider_name f64 f64

record density_caps =
  max_ticks_per_hour_per_schedule :: f64
  max_ticks_per_day_per_provider :: f64

definition default_caps :: density_caps where
  "default_caps = \<lparr>max_ticks_per_hour_per_schedule = Fin 12, max_ticks_per_day_per_provider = Fin 96\<rparr>"

section \<open>The grammar\<close>

definition parse_hh_mm :: "string \<Rightarrow> (nat \<times> nat) option" where
  "parse_hh_mm s =
     Option.bind (split_once (CHR '':'') s) (\<lambda>(h, m).
     Option.bind (parse_uint 32 10 h) (\<lambda>hour.
     Option.bind (parse_uint 32 10 m) (\<lambda>minute.
       if hour < 24 \<and> minute < 60 then Some (hour, minute) else None)))"

definition weekday_index :: "string \<Rightarrow> nat option" where
  "weekday_index t =
     (if t = ''sun'' then Some 0
      else if t = ''mon'' then Some 1
      else if t = ''tue'' then Some 2
      else if t = ''wed'' then Some 3
      else if t = ''thu'' then Some 4
      else if t = ''fri'' then Some 5
      else if t = ''sat'' then Some 6
      else None)"

fun collect_weekdays :: "nat list \<Rightarrow> string list \<Rightarrow> nat list option" where
  "collect_weekdays out [] = Some out"
| "collect_weekdays out (token # tokens) =
     (case weekday_index (str_trim token) of
        None \<Rightarrow> None
      | Some idx \<Rightarrow> collect_weekdays (if idx \<in> set out then out else out @ [idx]) tokens)"

definition parse_weekdays :: "string \<Rightarrow> nat list option" where
  "parse_weekdays s =
     Option.bind (collect_weekdays [] (split_on (CHR '','') s)) (\<lambda>out.
       if out = [] then None else Some (sort out))"

definition parse_calendar_cadence :: "string list \<Rightarrow> calendar_cadence option" where
  "parse_calendar_cadence head =
     (if hd head = ''daily'' \<and> length head = 1 then Some CDaily
      else if hd head = ''weekly'' \<and> length head = 3 \<and> head ! 1 = ''on''
      then map_option CWeekly (parse_weekdays (head ! 2))
      else if hd head = ''every'' \<and> length head = 3 \<and> head ! 2 = ''days''
      then Option.bind (parse_uint 32 10 (head ! 1)) (\<lambda>n. if 0 < n then Some (CEveryNDays n) else None)
      else None)"

text \<open>\<open>tz_token.get(3..)\<close> is \<open>None\<close> past the end or off a character boundary.\<close>

definition str_get_from :: "nat \<Rightarrow> string \<Rightarrow> string option" where
  "str_get_from n s =
     (if length s < n \<or> (n < length s \<and> is_cont (s ! n)) then None else Some (drop n s))"

definition parse_calendar :: "string \<Rightarrow> schedule_error + recurrence" where
  "parse_calendar expr =
     ok_or (UnsupportedCadence expr)
       (case split_whitespace expr of
          [] \<Rightarrow> None
        | tz_token # tokens \<Rightarrow>
            Option.bind (str_get_from 3 tz_token) (\<lambda>tz.
              if tz = [] then None
              else let rest = map to_ascii_lowercase tokens; at_idx = length rest - 2
                   in if length rest < 3 \<or> rest ! at_idx \<noteq> ''at'' then None
                      else Option.bind (parse_hh_mm (rest ! (at_idx + 1))) (\<lambda>(hour, minute).
                        Option.bind (parse_calendar_cadence (take at_idx rest)) (\<lambda>cadence.
                          Some (Calendar \<lparr>cs_tz = tz, cs_hour = hour, cs_minute = minute,
                            cs_cadence = cadence\<rparr>)))))"

definition field_ticks :: "string \<Rightarrow> f64 \<Rightarrow> f64 option" where
  "field_ticks field rng =
     (if field = ''*'' then Some rng
      else case strip_prefix ''*/'' field of
             Some step \<Rightarrow>
               Option.bind (parse_f64 step) (\<lambda>n. if f64_lt (Fin 0) n then Some (f64_ceil (f64_div rng n)) else None)
           | None \<Rightarrow> if parse_uint 32 10 field \<noteq> None then Some (Fin 1) else None)"

definition parse_simple_cron :: "string \<Rightarrow> cadence option" where
  "parse_simple_cron expr =
     (case split_whitespace expr of
        [f0, f1, f2, f3, f4] \<Rightarrow>
          Option.bind (field_ticks f0 (Fin 60)) (\<lambda>minute_ticks.
          Option.bind (field_ticks f1 (Fin 24)) (\<lambda>hour_ticks.
            if f2 = ''*'' \<and> f3 = ''*''
            then (if f4 = ''*'' then Some (f64_mul minute_ticks hour_ticks)
                  else if parse_uint 32 10 f4 \<noteq> None
                  then Some (f64_div (f64_mul minute_ticks hour_ticks) (Fin 7))
                  else None)
            else None))
      | _ \<Rightarrow> None)"

definition parse_every :: "string \<Rightarrow> cadence option" where
  "parse_every rest =
     (case split_whitespace rest of
        [] \<Rightarrow> None
      | t # ts \<Rightarrow>
          Option.bind (parse_f64 t) (\<lambda>n.
            case ts of
              [] \<Rightarrow> None
            | u # us \<Rightarrow>
                if f64_le n (Fin 0) \<or> us \<noteq> [] then None
                else if u = ''minute'' \<or> u = ''minutes'' then Some (f64_div (Fin 1440) n)
                else if u = ''hour'' \<or> u = ''hours'' then Some (f64_div (Fin 24) n)
                else None))"

definition parse_frequency :: "string \<Rightarrow> schedule_error + cadence" where
  "parse_frequency expr =
     (let normalized = to_ascii_lowercase (str_trim expr)
      in if normalized = ''hourly'' then Inr (Fin 24)
         else if normalized = ''daily'' then Inr (Fin 1)
         else if normalized = ''weekly'' then Inr (f64_div (Fin 1) (Fin 7))
         else case strip_prefix ''every '' normalized of
                Some rest \<Rightarrow> ok_or (UnsupportedCadence expr) (parse_every rest)
              | None \<Rightarrow> ok_or (UnsupportedCadence expr) (parse_simple_cron normalized))"

text \<open>
  \<open>trimmed[..3]\<close> panics when byte 3 is inside a character; a panic is \<open>None\<close>.
\<close>

definition parse_recurrence :: "string \<Rightarrow> (schedule_error + recurrence) option" where
  "parse_recurrence expr =
     (let trimmed = str_trim expr
      in if 3 \<le> length trimmed
         then if 3 < length trimmed \<and> is_cont (trimmed ! 3) then None
              else if to_ascii_lowercase (take 3 trimmed) = ''tz='' then Some (parse_calendar trimmed)
              else Some (rbind (parse_frequency expr) (\<lambda>c. Inr (Frequency c)))
         else Some (rbind (parse_frequency expr) (\<lambda>c. Inr (Frequency c))))"

definition parse_cadence :: "string \<Rightarrow> (schedule_error + cadence) option" where
  "parse_cadence expr =
     map_option (\<lambda>r. rbind r (\<lambda>rec. Inr (recurrence_cadence rec))) (parse_recurrence expr)"

section \<open>Density caps and cost projection\<close>

record schedule_config =
  sc_name :: string
  sc_cron :: string
  sc_prompts :: "string list"
  sc_providers :: "provider_name list"
  sc_debounce_minutes :: u32
  sc_projection_acknowledged_at :: "string option"

definition validate_schedule_density ::
  "schedule_config \<Rightarrow> density_caps \<Rightarrow> (schedule_error + cadence) option" where
  "validate_schedule_density schedule caps =
     map_option (\<lambda>r. rbind r (\<lambda>cadence.
       let ticks_per_hour = f64_div cadence (Fin 24)
       in if f64_lt (max_ticks_per_hour_per_schedule caps) ticks_per_hour
          then Inl (PerScheduleHourlyCap (sc_name schedule) ticks_per_hour (max_ticks_per_hour_per_schedule caps))
          else case find (\<lambda>p. f64_lt (max_ticks_per_day_per_provider caps) cadence) (sc_providers schedule) of
                 Some provider \<Rightarrow> Inl (ProviderDailyCap (sc_name schedule) provider cadence
                   (max_ticks_per_day_per_provider caps))
               | None \<Rightarrow> Inr cadence))
       (parse_cadence (sc_cron schedule))"

record schedule_projection =
  sp_cadence :: cadence
  sp_cost :: cost_projection

definition project_schedule_cost :: "schedule_config \<Rightarrow> (schedule_error + schedule_projection) option" where
  "project_schedule_cost schedule =
     map_option (\<lambda>r. rbind r (\<lambda>cadence.
       Inr \<lparr>sp_cadence = cadence,
            sp_cost = project_monthly_cost (sc_providers schedule) (length (sc_prompts schedule)) cadence\<rparr>))
       (validate_schedule_density schedule default_caps)"

fun validate_config_schedules :: "schedule_config list \<Rightarrow> (schedule_error + schedule_projection list) option" where
  "validate_config_schedules [] = Some (Inr [])"
| "validate_config_schedules (s # ss) =
     (case project_schedule_cost s of
        None \<Rightarrow> None
      | Some (Inl e) \<Rightarrow> Some (Inl e)
      | Some (Inr p) \<Rightarrow> map_option (\<lambda>r. rbind r (\<lambda>ps. Inr (p # ps))) (validate_config_schedules ss))"

section \<open>The next tick\<close>

text \<open>
  \<open>from_timestamp\<close> takes seconds and is \<open>None\<close> out of chrono's range; \<open>local_day\<close> is the
  day number (days since the epoch) of an instant in a zone, \<open>day_add\<close> steps it while it stays
  representable, \<open>from_local\<close> is the earliest instant with a given local day, hour and minute,
  \<open>None\<close> in a gap of the local clock.
\<close>

record 'tz chrono =
  from_timestamp :: "int \<Rightarrow> int option"
  tz_parse :: "string \<Rightarrow> 'tz option"
  local_day :: "'tz \<Rightarrow> int \<Rightarrow> int"
  day_add :: "int \<Rightarrow> nat \<Rightarrow> int option"
  from_local :: "'tz \<Rightarrow> int \<Rightarrow> nat \<Rightarrow> nat \<Rightarrow> int option"

definition minutes_us :: "int \<Rightarrow> int" where
  "minutes_us n = n * 60000000"

text \<open>Products wrap, as in a release build.\<close>

definition anchor_next_tick :: "'tz chrono \<Rightarrow> cadence \<Rightarrow> int \<Rightarrow> int" where
  "anchor_next_tick ch cadence last_run =
     (let interval_minutes = f64_as_i64 (f64_round_int (f64_div (Fin 1440) cadence))
      in if interval_minutes \<le> 0 then last_run + minutes_us 1
         else let epoch_minutes = (last_run div 1000000) div 60;
                  next_slot = wrap_i64 (min (2 ^ 63 - 1) (epoch_minutes div interval_minutes + 1) * interval_minutes)
              in unwrap_or (last_run + minutes_us interval_minutes)
                   (from_timestamp ch (wrap_i64 (next_slot * 60))))"

definition weekday_of :: "int \<Rightarrow> nat" where
  "weekday_of date = nat ((date + 4) mod 7)"

definition day_matches :: "calendar_cadence \<Rightarrow> int \<Rightarrow> int \<Rightarrow> bool" where
  "day_matches cadence anchor date =
     (case cadence of
        CDaily \<Rightarrow> True
      | CWeekly days \<Rightarrow> weekday_of date \<in> set days
      | CEveryNDays n \<Rightarrow> 0 \<le> date - anchor \<and> (date - anchor) mod int n = 0)"

definition HORIZON_DAYS :: nat where
  "HORIZON_DAYS = 800"

fun search_days :: "'tz chrono \<Rightarrow> 'tz \<Rightarrow> calendar_spec \<Rightarrow> int \<Rightarrow> int \<Rightarrow> nat list \<Rightarrow> int option" where
  "search_days ch tz spec anchor_date last_run [] = None"
| "search_days ch tz spec anchor_date last_run (offset # offsets) =
     (case day_add ch anchor_date offset of
        None \<Rightarrow> None
      | Some date \<Rightarrow>
          if \<not> day_matches (cs_cadence spec) anchor_date date
          then search_days ch tz spec anchor_date last_run offsets
          else if \<not> (cs_hour spec < 24 \<and> cs_minute spec < 60) then None
          else (case from_local ch tz date (cs_hour spec) (cs_minute spec) of
                  None \<Rightarrow> search_days ch tz spec anchor_date last_run offsets
                | Some instant \<Rightarrow>
                    if last_run < instant then Some instant
                    else search_days ch tz spec anchor_date last_run offsets))"

definition next_calendar_tick :: "'tz chrono \<Rightarrow> calendar_spec \<Rightarrow> int \<Rightarrow> int option" where
  "next_calendar_tick ch spec last_run =
     Option.bind (tz_parse ch (cs_tz spec)) (\<lambda>tz.
       search_days ch tz spec (local_day ch tz last_run) last_run [0..<HORIZON_DAYS])"

definition next_tick_for :: "'tz chrono \<Rightarrow> string \<Rightarrow> int \<Rightarrow> (schedule_error + int) option" where
  "next_tick_for ch cadence_expr last_run =
     map_option (\<lambda>r. rbind r (\<lambda>rec.
       case rec of
         Frequency cadence \<Rightarrow> Inr (anchor_next_tick ch cadence last_run)
       | Calendar spec \<Rightarrow> ok_or (UnsupportedCadence cadence_expr) (next_calendar_tick ch spec last_run)))
       (parse_recurrence cadence_expr)"

definition is_debounced :: "int option \<Rightarrow> int \<Rightarrow> int \<Rightarrow> bool" where
  "is_debounced last_manual_run now debounce_minutes =
     (case last_manual_run of None \<Rightarrow> False | Some prev \<Rightarrow> now - prev < minutes_us debounce_minutes)"

section \<open>What a calendar recurrence means\<close>

text \<open>The instant of a recurrence on the local day \<open>k\<close> days after the last run's, if it falls on it.\<close>

definition occurrence :: "'tz chrono \<Rightarrow> 'tz \<Rightarrow> calendar_spec \<Rightarrow> int \<Rightarrow> nat \<Rightarrow> int option" where
  "occurrence ch tz spec last_run k =
     (let anchor = local_day ch tz last_run
      in if day_matches (cs_cadence spec) anchor (anchor + int k)
         then from_local ch tz (anchor + int k) (cs_hour spec) (cs_minute spec) else None)"

section \<open>Lemmas\<close>

lemma provider_roundtrip_basic: "p \<noteq> Plugin [] \<Longrightarrow> provider_parse (as_wire_str p) = Some p"
  by (cases p) (simp_all add: provider_parse_def strip_prefix_def)

lemma provider_parse_SomeD: "provider_parse s = Some p \<Longrightarrow> as_wire_str p = s \<and> p \<noteq> Plugin []"
  by (auto simp: provider_parse_def dest: strip_prefix_SomeD split: option.splits if_splits)

lemma search_days_SomeD:
  "search_days ch tz spec a prev offs = Some t \<Longrightarrow>
    \<exists>xs k ys. offs = xs @ k # ys
      \<and> (\<exists>d. day_add ch a k = Some d \<and> day_matches (cs_cadence spec) a d
           \<and> from_local ch tz d (cs_hour spec) (cs_minute spec) = Some t \<and> prev < t)
      \<and> (\<forall>j \<in> set xs. \<forall>d t'. day_add ch a j = Some d \<and> day_matches (cs_cadence spec) a d
           \<and> from_local ch tz d (cs_hour spec) (cs_minute spec) = Some t' \<longrightarrow> t' \<le> prev)"
proof (induction offs)
  case (Cons k offs)
  then obtain d where d: "day_add ch a k = Some d" by (auto split: option.splits)
  show ?case
  proof (cases "day_matches (cs_cadence spec) a d
      \<and> (\<exists>t'. from_local ch tz d (cs_hour spec) (cs_minute spec) = Some t' \<and> prev < t')")
    case True
    with Cons.prems d have "from_local ch tz d (cs_hour spec) (cs_minute spec) = Some t" "prev < t"
      by (auto split: if_splits)
    with True d show ?thesis by (intro exI [of _ "[]"]) auto
  next
    case False
    with Cons.prems d have "search_days ch tz spec a prev offs = Some t"
      by (auto split: if_splits option.splits)
    from Cons.IH [OF this] obtain xs m ys where "offs = xs @ m # ys" and *:
      "\<exists>d. day_add ch a m = Some d \<and> day_matches (cs_cadence spec) a d
           \<and> from_local ch tz d (cs_hour spec) (cs_minute spec) = Some t \<and> prev < t"
      "\<forall>j \<in> set xs. \<forall>d t'. day_add ch a j = Some d \<and> day_matches (cs_cadence spec) a d
           \<and> from_local ch tz d (cs_hour spec) (cs_minute spec) = Some t' \<longrightarrow> t' \<le> prev"
      by blast
    moreover have "\<forall>d' t'. day_add ch a k = Some d' \<and> day_matches (cs_cadence spec) a d'
           \<and> from_local ch tz d' (cs_hour spec) (cs_minute spec) = Some t' \<longrightarrow> t' \<le> prev"
      using False d by auto
    ultimately show ?thesis by (intro exI [of _ "k # xs"] exI [of _ m] exI [of _ ys]) auto
  qed
qed simp

lemma search_days_None:
  assumes "\<forall>k \<in> set offs. day_add ch a k \<noteq> None" and "cs_hour spec < 24" and "cs_minute spec < 60"
  shows "search_days ch tz spec a prev offs = None \<longleftrightarrow>
    (\<forall>k \<in> set offs. \<forall>d t'. day_add ch a k = Some d \<and> day_matches (cs_cadence spec) a d
       \<and> from_local ch tz d (cs_hour spec) (cs_minute spec) = Some t' \<longrightarrow> t' \<le> prev)"
  using assms by (induction offs) (auto split: option.splits)

lemma slot_bounds:
  fixes t m s :: int
  assumes "0 < m" and "s = (t div m + 1) * m"
  shows "t < s \<and> s \<le> t + m \<and> m dvd s \<and> (\<forall>u. t < u \<and> m dvd u \<longrightarrow> s \<le> u)"
proof -
  have eq: "t = t div m * m + t mod m" by simp
  have "0 \<le> t mod m" "t mod m < m" using assms(1) by simp_all
  moreover have "s = t div m * m + m" by (simp add: assms(2) algebra_simps)
  ultimately have "t < s" "s \<le> t + m" using eq by linarith+
  moreover have "m dvd s" by (simp add: assms(2))
  moreover have "s \<le> u" if "t < u" "m dvd u" for u
  proof -
    from that(2) obtain k where u: "u = k * m" by (metis dvd_def mult.commute)
    with that(1) eq \<open>0 \<le> t mod m\<close> have "t div m * m < k * m" by linarith
    then have "t div m + 1 \<le> k" using assms(1) by simp
    then show ?thesis unfolding u assms(2) using assms(1) by (intro mult_right_mono) simp_all
  qed
  ultimately show ?thesis by blast
qed

lemma anchor_next_tick_interval:
  assumes "1 \<le> m" and "m \<le> 10 ^ 7" and "f64_as_i64 (f64_round_int (f64_div (Fin 1440) c)) = m"
    and "\<bar>last_run\<bar> < 10 ^ 16"
    and "\<forall>t. \<bar>t\<bar> < 2 ^ 38 \<longrightarrow> from_timestamp ch t = Some (t * 1000000)"
  shows "anchor_next_tick ch c last_run = (last_run div minutes_us m + 1) * minutes_us m"
proof -
  define e where "e = last_run div 60000000"
  define s where "s = (e div m + 1) * m"
  have "last_run div 1000000 div 60 = e" by (simp add: e_def flip: zdiv_zmult2_eq)
  moreover have e: "\<bar>e\<bar> \<le> 170000000" using assms(4) by (simp add: e_def)
  have "e < s" "s \<le> e + m" using slot_bounds [of m s e] assms(1) s_def by simp_all
  with e assms(2) have s: "\<bar>s\<bar> \<le> 180000000" by simp
  have "e div m + 1 \<le> 2 ^ 63 - 1"
  proof (rule ccontr)
    assume "\<not> ?thesis"
    then have "e div m + 1 \<le> s" using assms(1) unfolding s_def by (simp add: mult_le_cancel_left1)
    with s \<open>\<not> ?thesis\<close> show False by simp
  qed
  then have "min (2 ^ 63 - 1) (e div m + 1) * m = s" by (simp only: min_absorb2 s_def)
  moreover have "wrap_i64 s = s" "wrap_i64 (s * 60) = s * 60" using s by (simp_all add: wrap_i64_id)
  moreover have "\<bar>s * 60\<bar> < 2 ^ 38" using s by simp
  then have "from_timestamp ch (s * 60) = Some (s * 60 * 1000000)" using assms(5) by blast
  moreover have "last_run div minutes_us m = e div m"
    using assms(1) by (simp add: minutes_us_def e_def mult.commute [of m] zdiv_zmult2_eq)
  ultimately show ?thesis
    using assms(1,3) by (simp add: anchor_next_tick_def Let_def s_def minutes_us_def)
qed

text \<open>Words of plain ASCII, as the schedule texts are made of.\<close>

definition plain :: "char \<Rightarrow> bool" where
  "plain c = (\<not> is_cont c \<and> \<not> is_ws [c] \<and> ascii_lower_char c = c)"

lemma plain_lower: "\<forall>c \<in> set s. plain c \<Longrightarrow> to_ascii_lowercase s = s"
  by (simp add: to_ascii_lowercase_def plain_def map_idI)

lemma split_ws_word:
  "\<forall>g \<in> set gs. \<not> is_ws g \<Longrightarrow> split_ws (gs @ w # rest) = (if is_ws w then gs # split_ws rest else
    (case split_ws (w # rest) of [] \<Rightarrow> [] | y # ys \<Rightarrow> (gs @ y) # ys))"
  by (induction gs) (auto split: list.splits)

lemma split_ws_last: "\<forall>g \<in> set gs. \<not> is_ws g \<Longrightarrow> split_ws gs = [gs]"
  by (induction gs) auto

lemma space_ws [simp]: "is_ws '' ''"
  by (simp add: is_ws_def unicode_ws_def)

lemma space_not_cont [simp]: "\<not> is_cont (CHR '' '')"
  by (simp add: is_cont_def)

lemma split_whitespace_word:
  assumes "\<forall>c \<in> set (a @ s). \<not> is_cont c" "\<forall>c \<in> set a. \<not> is_ws [c]" "a \<noteq> []"
  shows "split_whitespace (a @ CHR '' '' # s) = a # split_whitespace s"
proof -
  have "utf8_chars (a @ CHR '' '' # s) = map (\<lambda>c. [c]) a @ [CHR '' ''] # utf8_chars s"
    using assms(1) by (simp add: utf8_chars_ascii ball_Un)
  moreover have "split_ws (map (\<lambda>c. [c]) a @ [CHR '' ''] # utf8_chars s) = map (\<lambda>c. [c]) a # split_ws (utf8_chars s)"
    using assms(2) by (simp add: split_ws_word)
  ultimately show ?thesis
    using assms(3) by (simp add: split_whitespace_def)
qed

lemma split_whitespace_last:
  "\<forall>c \<in> set a. \<not> is_cont c \<and> \<not> is_ws [c] \<Longrightarrow> a \<noteq> [] \<Longrightarrow> split_whitespace a = [a]"
  by (simp add: split_whitespace_def utf8_chars_ascii split_ws_last)

lemma split_whitespace_two:
  assumes "\<forall>c \<in> set a. plain c" "\<forall>c \<in> set b. plain c" "a \<noteq> []" "b \<noteq> []"
  shows "split_whitespace (a @ CHR '' '' # b) = [a, b]"
  using assms by (subst split_whitespace_word) (auto simp: plain_def split_whitespace_last)

lemma upt_split: "[0..<n] = xs @ k # ys \<Longrightarrow> k < n \<and> set xs = {0..<k}"
proof -
  assume eq: "[0..<n] = xs @ k # ys"
  then have "length [0..<n] = length (xs @ k # ys)" by (rule arg_cong)
  then have len: "length xs < n" by simp
  have "[0..<n] ! length xs = k" "take (length xs) [0..<n] = xs" unfolding eq by simp_all
  with len have "k = length xs" "xs = [0..<length xs]" by (simp_all add: take_upt)
  with len show ?thesis by (metis set_upt)
qed

lemma str_trim_ends:
  assumes "\<forall>c \<in> set s. \<not> is_cont c" "s \<noteq> []" "\<not> is_ws [hd s]" "\<not> is_ws [last s]"
  shows "str_trim s = s"
proof -
  have "utf8_chars s = map (\<lambda>c. [c]) s" using assms(1) by (rule utf8_chars_ascii)
  moreover have "dropWhile is_ws (map (\<lambda>c. [c]) s) = map (\<lambda>c. [c]) s"
    using assms(2,3) by (cases s) simp_all
  moreover have "dropWhile is_ws (rev (map (\<lambda>c. [c]) s)) = rev (map (\<lambda>c. [c]) s)"
    using assms(2,4) by (cases s rule: rev_cases) simp_all
  ultimately show ?thesis by (simp add: str_trim_def)
qed

lemma digit_plain: "digit_val 10 c \<noteq> None \<Longrightarrow> plain c \<and> is_ascii_digit c"
  by (auto simp: digit_val_def plain_def ascii_lower_char_def is_ascii_digit_def Let_def
      dest: cont_byte ws_byte split: if_splits)

lemma show_nat_plain: "c \<in> set (show_nat n) \<Longrightarrow> plain c \<and> is_ascii_digit c"
  using show_nat_digits digit_plain by blast

lemma parse_f64_show_nat: "n < 2 ^ 53 \<Longrightarrow> parse_f64 (show_nat n) = Some (Fin (of_nat n))"
proof -
  assume n: "n < 2 ^ 53"
  have low: "to_ascii_lowercase (show_nat n) = show_nat n" using show_nat_plain by (simp add: plain_lower)
  obtain c cs where s: "show_nat n = c # cs" by (cases "show_nat n") auto
  have d: "\<forall>x \<in> set (show_nat n). digit_val 10 x \<noteq> None" by (rule show_nat_digits)
  with s have c: "digit_val 10 c \<noteq> None" by simp
  have sg: "strip_sign (show_nat n) = (False, show_nat n)"
    using digit_not_sign(1,2) [OF c] by (simp add: strip_sign_def s)
  have ne: "show_nat n \<noteq> ''nan''" "show_nat n \<noteq> ''inf''" "show_nat n \<noteq> ''infinity''"
    using c by (auto simp: s digit_val_def)
  have "CHR ''e'' \<notin> set (show_nat n)" "CHR ''.'' \<notin> set (show_nat n)"
    using d by (auto simp: digit_val_def)
  then have "parse_number (show_nat n) = Some (of_nat n)"
    using show_nat_plain
    by (auto simp: parse_number_def parse_decimal_def split_once_def all_digits_def list_all_iff
        digits_nat_def digits_val_show_nat)
  then show ?thesis
    using f64_of_nat_exact [OF n] by (simp add: parse_f64_def low sg ne f64_of_nat_def)
qed

text \<open>What \<open>every N minutes\<close> and \<open>every N hours\<close> parse to.\<close>

lemma parse_every_word:
  assumes "w \<noteq> []" "\<forall>c \<in> set w. plain c" "parse_f64 w = Some x" "\<not> f64_le x (Fin 0)"
    and "(unit_word, per_day) \<in> {(''minutes'', 1440), (''hours'', 24)}"
  shows "parse_recurrence (''every '' @ w @ CHR '' '' # unit_word) = Some (Inr (Frequency (f64_div (Fin per_day) x)))"
proof -
  let ?s = "w @ CHR '' '' # unit_word"
  have u: "\<forall>c \<in> set unit_word. plain c" "unit_word \<noteq> []" "plain (last unit_word)"
    using assms(5) by (auto simp: plain_def is_cont_def is_ws_def unicode_ws_def ascii_lower_char_def)
  have nc: "\<forall>c \<in> set (''every '' @ ?s). \<not> is_cont c"
    using u assms(2) by (auto simp: plain_def is_cont_def)
  have trim: "str_trim (''every '' @ ?s) = ''every '' @ ?s"
    using u nc by (intro str_trim_ends) (auto simp: plain_def is_ws_def unicode_ws_def)
  have low: "to_ascii_lowercase (''every '' @ ?s) = ''every '' @ ?s"
    using u assms(2) plain_lower [of unit_word] plain_lower [of w]
    by (simp add: to_ascii_lowercase_def ascii_lower_char_def)
  have "split_whitespace ?s = [w, unit_word]"
    using u assms(1,2) by (intro split_whitespace_two) auto
  then have "parse_every ?s = Some (f64_div (Fin per_day) x)"
    using assms(3-5) by (auto simp: parse_every_def)
  then have "parse_frequency (''every '' @ ?s) = Inr (f64_div (Fin per_day) x)"
    using strip_prefix_append [of "''every ''" ?s]
    by (simp add: parse_frequency_def trim low Let_def del: append_Cons append.simps)
  then show ?thesis
    unfolding parse_recurrence_def trim Let_def
    by (simp add: to_ascii_lowercase_def ascii_lower_char_def is_cont_def)
qed

lemma parse_every_number:
  assumes "1 \<le> n" "n \<le> 10 ^ 5" "(unit_word, per_day) \<in> {(''minutes'', 1440), (''hours'', 24)}"
  shows "parse_recurrence (''every '' @ show_nat n @ CHR '' '' # unit_word) =
      Some (Inr (Frequency (f64_round (per_day / of_nat n))))"
proof -
  have "parse_f64 (show_nat n) = Some (Fin (of_nat n))"
    using assms(2) by (intro parse_f64_show_nat) simp
  from parse_every_word [OF _ _ this _ assms(3)] show ?thesis
    using assms(1) show_nat_plain by simp
qed

text \<open>The two numbers that are not numbers.\<close>

lemma parse_every_nan: "parse_recurrence ''every nan hours'' = Some (Inr (Frequency NaN))"
proof -
  have "parse_f64 ''nan'' = Some NaN"
    by (simp add: parse_f64_def strip_sign_def to_ascii_lowercase_def ascii_lower_char_def)
  from parse_every_word [OF _ _ this, of "''hours''" 24] show ?thesis
    by (simp add: f64_le_def plain_def is_cont_def is_ws_def unicode_ws_def ascii_lower_char_def)
qed

lemma parse_every_inf: "parse_recurrence ''every inf hours'' = Some (Inr (Frequency (Fin 0)))"
proof -
  have "parse_f64 ''inf'' = Some (FInf False)"
    by (simp add: parse_f64_def strip_sign_def to_ascii_lowercase_def ascii_lower_char_def)
  from parse_every_word [OF _ _ this, of "''hours''" 24] show ?thesis
    by (simp add: f64_le_def plain_def is_cont_def is_ws_def unicode_ws_def ascii_lower_char_def)
qed

lemma f64_nan_absorbs [simp]:
  "f64_mul NaN x = NaN" "f64_mul x NaN = NaN" "f64_div NaN x = NaN" "f64_div x NaN = NaN"
  "f64_lt NaN x = False" "f64_lt x NaN = False"
  by (cases x; simp)+

section \<open>Properties\<close>

text \<open>
  C37 (functional). A schedule declared to run every N minutes or hours ticks on the slots of that
  length counted from the epoch: the next tick after any run is the first slot strictly after it,
  at most one interval away. The floating point ticks-per-day in between lose nothing.
\<close>

theorem interval_cadence_is_aligned:
  assumes "1 \<le> n" and "n \<le> 10 ^ 5"
    and "(unit_word, k) \<in> {(''minutes'', 1), (''hours'', 60 :: int)}"
    and "\<bar>last_run\<bar> < 10 ^ 16"
    and "\<forall>t. \<bar>t\<bar> < 2 ^ 38 \<longrightarrow> from_timestamp ch t = Some (t * 1000000)"
  shows "\<exists>t. next_tick_for ch (''every '' @ show_nat n @ CHR '' '' # unit_word) last_run = Some (Inr t)
    \<and> last_run < t \<and> t \<le> last_run + minutes_us (k * int n) \<and> minutes_us (k * int n) dvd t
    \<and> (\<forall>u. last_run < u \<and> minutes_us (k * int n) dvd u \<longrightarrow> t \<le> u)"
proof -
  define m where "m = k * int n"
  have m: "1 \<le> m" "m \<le> 10 ^ 7" "m \<le> 2 ^ 40" using assms(1-3) by (auto simp: m_def)
  obtain per_day where pd: "(unit_word, per_day) \<in> {(''minutes'', 1440), (''hours'', 24 :: rat)}"
    and q: "per_day / of_nat n = 1440 / of_int m"
    using assms(1,3) by (auto simp: m_def)
  from day_quotient_roundtrip [OF m(1,3)] obtain v where v: "f64_round (1440 / of_int m) = Fin v"
    "f64_as_i64 (f64_round_int (f64_div (Fin 1440) (Fin v))) = m" by blast
  have "parse_recurrence (''every '' @ show_nat n @ CHR '' '' # unit_word) = Some (Inr (Frequency (Fin v)))"
    using parse_every_number [OF assms(1,2)] pd q v(1) by metis
  then have "next_tick_for ch (''every '' @ show_nat n @ CHR '' '' # unit_word) last_run =
      Some (Inr ((last_run div minutes_us m + 1) * minutes_us m))"
    using anchor_next_tick_interval [OF m(1,2) v(2) assms(4,5)] by (simp add: next_tick_for_def)
  moreover have "0 < minutes_us m" using m(1) by (simp add: minutes_us_def)
  ultimately show ?thesis
    using slot_bounds [OF _ refl, of "minutes_us m" last_run] by (auto simp flip: m_def)
qed

theorem interval_cadence_is_aligned_witness:
  "\<exists>t. next_tick_for \<lparr>from_timestamp = (\<lambda>t. Some (t * 1000000)), tz_parse = (\<lambda>z. Some ()), local_day = (\<lambda>z t. 0),
      day_add = (\<lambda>d k. None), from_local = (\<lambda>z d h m. None)\<rparr> (''every '' @ show_nat 6 @ CHR '' '' # ''hours'') 30000000000
      = Some (Inr t) \<and> 30000000000 < t"
proof -
  let ?ch = "\<lparr>from_timestamp = (\<lambda>t. Some (t * 1000000)), tz_parse = (\<lambda>z. Some ()), local_day = (\<lambda>z t. 0),
      day_add = (\<lambda>d k. None), from_local = (\<lambda>z d h m. None)\<rparr>"
  from interval_cadence_is_aligned [of 6 "''hours''" 60 30000000000 ?ch] show ?thesis by auto
qed



text \<open>
  C16 (functional). The next tick of a calendar schedule is the first occurrence after the last
  run: a day within 800 days of the last run's local day on which the recurrence falls, whose
  clock time exists, with no earlier such day whose instant is after the last run. There is none
  exactly when no such day exists.
\<close>

theorem calendar_tick_is_next:
  assumes "cs_hour spec < 24" and "cs_minute spec < 60" and "tz_parse ch (cs_tz spec) = Some tz"
    and "\<forall>d k. day_add ch d k = Some (d + int k)"
  shows "case next_calendar_tick ch spec last_run of
      Some t \<Rightarrow> last_run < t \<and> (\<exists>k < 800. occurrence ch tz spec last_run k = Some t \<and> (\<forall>j < k. \<forall>u. occurrence ch tz spec last_run j = Some u \<longrightarrow> u \<le> last_run))
    | None \<Rightarrow> \<forall>k < 800. \<forall>u. occurrence ch tz spec last_run k = Some u \<longrightarrow> u \<le> last_run"
proof (cases "next_calendar_tick ch spec last_run")
  case None
  then have "search_days ch tz spec (local_day ch tz last_run) last_run [0..<800] = None"
    by (simp add: next_calendar_tick_def assms(3) HORIZON_DAYS_def)
  with None show ?thesis
    using assms(1,2,4) by (auto simp: search_days_None occurrence_def Let_def split: if_splits)
next
  case (Some t)
  then have "search_days ch tz spec (local_day ch tz last_run) last_run [0..<800] = Some t"
    by (simp add: next_calendar_tick_def assms(3) HORIZON_DAYS_def)
  from search_days_SomeD [OF this] obtain xs k ys where split: "[0..<800] = xs @ k # ys"
    and hit: "occurrence ch tz spec last_run k = Some t" "last_run < t" and before: "\<forall>j \<in> set xs. \<forall>u. occurrence ch tz spec last_run j = Some u \<longrightarrow> u \<le> last_run"
    using assms(4) by (auto simp: occurrence_def Let_def split: if_splits)
  from upt_split [OF split] before
  have "k < 800" "\<forall>j < k. \<forall>u. occurrence ch tz spec last_run j = Some u \<longrightarrow> u \<le> last_run" by auto
  with Some hit show ?thesis by auto
qed

theorem calendar_tick_is_next_witness:
  "next_calendar_tick \<lparr>from_timestamp = Some, tz_parse = Some, local_day = (\<lambda>z t. t div 86400000000),
      day_add = (\<lambda>d k. Some (d + int k)), from_local = (\<lambda>z d h m. Some ((d * 1440 + int h * 60 + int m) * 60000000))\<rparr>
    \<lparr>cs_tz = ''UTC'', cs_hour = 9, cs_minute = 30, cs_cadence = CDaily\<rparr> 0 \<noteq> None"
proof -
  let ?ch = "\<lparr>from_timestamp = Some, tz_parse = Some, local_day = (\<lambda>z t. t div 86400000000),
      day_add = (\<lambda>d k. Some (d + int k)), from_local = (\<lambda>z d h m. Some ((d * 1440 + int h * 60 + int m) * 60000000))\<rparr>"
  let ?spec = "\<lparr>cs_tz = ''UTC'', cs_hour = 9, cs_minute = 30, cs_cadence = CDaily\<rparr>"
  have "\<not> (\<forall>k < 800. \<forall>u. occurrence ?ch ''UTC'' ?spec 0 k = Some u \<longrightarrow> u \<le> 0)"
    by (auto simp: occurrence_def day_matches_def intro!: exI [of _ 0])
  with calendar_tick_is_next [of ?spec ?ch "''UTC''" 0] show ?thesis
    by (cases "next_calendar_tick ?ch ?spec 0") (simp_all del: not_all)
qed

lemma char_of_lower_tz: "char_of (116 :: nat) = CHR ''t''" "char_of (122 :: nat) = CHR ''z''"
proof -
  have "of_char (CHR ''t'') = (116 :: nat)" "of_char (CHR ''z'') = (122 :: nat)" by simp_all
  then show "char_of (116 :: nat) = CHR ''t''" "char_of (122 :: nat) = CHR ''z''" by (metis char_of_char)+
qed

lemma parse_every_days:
  assumes "0 < n" "n < 2 ^ 32"
  shows "parse_recurrence (''TZ=UTC every '' @ show_nat n @ '' days at 09:00'') =
    Some (Inr (Calendar \<lparr>cs_tz = ''UTC'', cs_hour = 9, cs_minute = 0, cs_cadence = CEveryNDays n\<rparr>))"
proof -
  let ?s = "''TZ=UTC every '' @ show_nat n @ '' days at 09:00''"
  have nc: "\<forall>c \<in> set ?s. \<not> is_cont c" using show_nat_plain by (auto simp: plain_def is_cont_def)
  then have trim: "str_trim ?s = ?s"
    by (intro str_trim_ends) (auto simp: is_ws_def unicode_ws_def)
  have p: "\<forall>c \<in> set (show_nat n). \<not> is_cont c \<and> \<not> is_ws [c]" using show_nat_plain by (auto simp: plain_def)
  have "split_whitespace ?s = [''TZ=UTC'', ''every'', show_nat n, ''days'', ''at'', ''09:00'']"
    using p split_whitespace_word [of "''TZ=UTC''" "''every '' @ show_nat n @ '' days at 09:00''"]
      split_whitespace_word [of "''every''" "show_nat n @ '' days at 09:00''"]
      split_whitespace_word [of "show_nat n" "''days at 09:00''"]
      split_whitespace_word [of "''days''" "''at 09:00''"]
      split_whitespace_word [of "''at''" "''09:00''"] split_whitespace_last [of "''09:00''"]
    by (simp add: is_cont_def is_ws_def unicode_ws_def)
  moreover have "to_ascii_lowercase (show_nat n) = show_nat n" using show_nat_plain by (simp add: plain_lower)
  moreover have "parse_hh_mm ''09:00'' = Some (9, 0)"
    using split_once_append [of "CHR '':''" "''09''" "''00''"]
    by (simp add: parse_hh_mm_def parse_uint_def digit_val_def)
  ultimately have "parse_calendar ?s =
      Inr (Calendar \<lparr>cs_tz = ''UTC'', cs_hour = 9, cs_minute = 0, cs_cadence = CEveryNDays n\<rparr>)"
    using assms by (simp add: parse_calendar_def str_get_from_def is_cont_def to_ascii_lowercase_def
        ascii_lower_char_def parse_calendar_cadence_def parse_uint_show_nat Let_def)
  then show ?thesis
    unfolding parse_recurrence_def trim Let_def
    by (simp add: to_ascii_lowercase_def ascii_lower_char_def is_cont_def char_of_lower_tz)
qed

text \<open>
  A schedule declared to run every N days with N of 800 or more is accepted and
  runs once: after a run at its own clock time there is no next tick within the horizon, and the
  worker skips the schedule as if its cadence did not parse.
\<close>

theorem long_interval_never_fires_again:
  assumes "800 \<le> n" and "n < 2 ^ 32"
    and "tz_parse ch ''UTC'' = Some tz" and "\<forall>d k. day_add ch d k = Some (d + int k)"
    and "from_local ch tz (local_day ch tz last_run) 9 0 = Some last_run"
  shows "(\<exists>spec. parse_recurrence (''TZ=UTC every '' @ show_nat n @ '' days at 09:00'') = Some (Inr (Calendar spec))
      \<and> cs_cadence spec = CEveryNDays n)
    \<and> (\<exists>e. next_tick_for ch (''TZ=UTC every '' @ show_nat n @ '' days at 09:00'') last_run = Some (Inl e))"
proof -
  let ?spec = "\<lparr>cs_tz = ''UTC'', cs_hour = 9, cs_minute = 0, cs_cadence = CEveryNDays n\<rparr>"
  have parse: "parse_recurrence (''TZ=UTC every '' @ show_nat n @ '' days at 09:00'') = Some (Inr (Calendar ?spec))"
    using assms(1,2) by (intro parse_every_days) simp_all
  have "n dvd k \<Longrightarrow> k = 0" if "k < 800" for k
    using assms(1) that by (cases k) (auto dest: dvd_imp_le)
  then have day: "day_matches (CEveryNDays n) a (a + int k) \<Longrightarrow> k = 0" if "k < 800" for a k
    using that by (simp add: day_matches_def flip: of_nat_mod dvd_eq_mod_eq_0)
  have "search_days ch tz ?spec (local_day ch tz last_run) last_run [0..<800] = None"
  proof (subst search_days_None)
    show "\<forall>k \<in> set [0..<800]. \<forall>d t'. day_add ch (local_day ch tz last_run) k = Some d
        \<and> day_matches (cs_cadence ?spec) (local_day ch tz last_run) d
        \<and> from_local ch tz d (cs_hour ?spec) (cs_minute ?spec) = Some t' \<longrightarrow> t' \<le> last_run"
    proof (intro ballI allI impI)
      fix k d t'
      assume k: "k \<in> set [0..<800]" and h: "day_add ch (local_day ch tz last_run) k = Some d
        \<and> day_matches (cs_cadence ?spec) (local_day ch tz last_run) d
        \<and> from_local ch tz d (cs_hour ?spec) (cs_minute ?spec) = Some t'"
      then have "k = 0" using day [of k "local_day ch tz last_run"] assms(4) by auto
      with h assms(4,5) show "t' \<le> last_run" by simp
    qed
  qed (simp_all add: assms(4))
  then have "next_calendar_tick ch ?spec last_run = None"
    by (simp add: next_calendar_tick_def HORIZON_DAYS_def assms(3))
  then show ?thesis unfolding next_tick_for_def parse by simp
qed

theorem long_interval_never_fires_again_witness:
  "\<exists>e. next_tick_for \<lparr>from_timestamp = Some, tz_parse = Some, local_day = (\<lambda>z t. t div 86400000000),
      day_add = (\<lambda>d k. Some (d + int k)), from_local = (\<lambda>z d h m. Some ((d * 1440 + int h * 60 + int m) * 60000000))\<rparr>
    (''TZ=UTC every '' @ show_nat 1000 @ '' days at 09:00'') 32400000000 = Some (Inl e)"
  using long_interval_never_fires_again [of 1000 "\<lparr>from_timestamp = Some, tz_parse = Some,
      local_day = (\<lambda>z t. t div 86400000000), day_add = (\<lambda>d k. Some (d + int k)),
      from_local = (\<lambda>z d h m. Some ((d * 1440 + int h * 60 + int m) * 60000000))\<rparr>" "''UTC''" 32400000000]
  by simp

end
