(* ===== verification/Config.thy ===== *)
theory Config
  imports Cadence Json
begin

text \<open>
  The configuration file \<open>anseo.yaml\<close> (\<open>crates/core/src/config.rs\<close>): its document, the semantic
  validation that collects every problem, and the project and prompt identifiers derived from
  names. The YAML parser, SHA-256 and Unicode lower-casing are parameters; the texts of the
  validation messages are replaced by the cases and the values they print.
\<close>

section \<open>The document\<close>

record brand_config =
  bc_name :: string
  bc_variants :: "string list"
  bc_site_url :: "string option"

record competitor_config =
  cc_name :: string
  cc_variants :: "string list"

record prompt_config =
  pc_name :: string
  pc_text :: string
  pc_description :: "string option"

record provider_config =
  vc_name :: provider_name
  vc_model :: "string option"
  vc_models :: "string list option"
  vc_timeout_seconds :: nat

record anomaly_sensitivity =
  zscore_threshold :: f64
  window_samples :: u32
  citation_min_frequency :: u32

record clickhouse_endpoint =
  ch_endpoint :: string
  ch_database :: "string option"
  ch_username :: "string option"
  ch_preset :: "string option"

record config =
  cfg_schema_version :: string
  cfg_brand :: brand_config
  cfg_competitors :: "competitor_config list"
  cfg_prompts :: "prompt_config list"
  cfg_providers :: "provider_config list"
  cfg_schedules :: "schedule_config list"
  cfg_concurrency :: u32
  cfg_anomaly_sensitivity :: anomaly_sensitivity
  cfg_analytics :: "clickhouse_endpoint option option"
  cfg_tier :: u8

definition DEFAULT_PROVIDER_TIMEOUT_SECONDS :: nat where
  "DEFAULT_PROVIDER_TIMEOUT_SECONDS = 60"

definition default_sensitivity :: anomaly_sensitivity where
  "default_sensitivity = \<lparr>zscore_threshold = Fin (5 / 2), window_samples = 14, citation_min_frequency = 2\<rparr>"

section \<open>Identifiers and lookups\<close>

primrec default_model :: "provider_name \<Rightarrow> string" where
  "default_model Openai = ''gpt-4o-2024-08-06''"
| "default_model Anthropic = ''claude-3-5-sonnet-20241022''"
| "default_model Gemini = ''gemini-1.5-pro-002''"
| "default_model Perplexity = ''sonar-large-online-128k''"
| "default_model Grok = ''grok-2-1212''"
| "default_model Mistral = ''mistral-large-2411''"
| "default_model Openrouter = ''openrouter/auto''"
| "default_model (Plugin pid) = ''plugin''"

text \<open>\<open>to_lowercase\<close> and the first 16 bytes of SHA-256, as a number.\<close>

record digest =
  lower :: "string \<Rightarrow> string"
  sha256_first_16 :: "string \<Rightarrow> uuid"

definition canonical_project_input :: "digest \<Rightarrow> string \<Rightarrow> string" where
  "canonical_project_input dg brand_name = ''opengeo:v0.1:project:'' @ lower dg (str_trim brand_name)"

definition canonical_prompt_input :: "digest \<Rightarrow> string \<Rightarrow> string \<Rightarrow> string" where
  "canonical_prompt_input dg brand_name prompt_name =
     ''opengeo:v0.1:prompt:'' @ lower dg (str_trim brand_name) @ ''::'' @ lower dg (str_trim prompt_name)"

definition project_id_for_name :: "digest \<Rightarrow> string \<Rightarrow> uuid" where
  "project_id_for_name dg brand_name = sha256_first_16 dg (canonical_project_input dg brand_name)"

definition prompt_id_for :: "digest \<Rightarrow> string \<Rightarrow> string \<Rightarrow> uuid" where
  "prompt_id_for dg brand_name prompt_name = sha256_first_16 dg (canonical_prompt_input dg brand_name prompt_name)"

definition config_project_id :: "digest \<Rightarrow> config \<Rightarrow> uuid" where
  "config_project_id dg cfg = project_id_for_name dg (bc_name (cfg_brand cfg))"

definition config_prompt_id :: "digest \<Rightarrow> config \<Rightarrow> string \<Rightarrow> uuid option" where
  "config_prompt_id dg cfg name =
     (if \<not> list_ex (\<lambda>p. pc_name p = name) (cfg_prompts cfg) then None
      else Some (prompt_id_for dg (bc_name (cfg_brand cfg)) name))"

definition prompt_ids :: "digest \<Rightarrow> config \<Rightarrow> (string \<times> uuid) list" where
  "prompt_ids dg cfg = map (\<lambda>p. (pc_name p, prompt_id_for dg (bc_name (cfg_brand cfg)) (pc_name p))) (cfg_prompts cfg)"

definition provider_entry :: "config \<Rightarrow> provider_name \<Rightarrow> provider_config option" where
  "provider_entry cfg name = find (\<lambda>p. vc_name p = name) (cfg_providers cfg)"

definition schedule_entry :: "config \<Rightarrow> string \<Rightarrow> schedule_config option" where
  "schedule_entry cfg name = find (\<lambda>s. sc_name s = name) (cfg_schedules cfg)"

text \<open>
  \<open>serde_json::from_value::<Vec<CompetitorConfig>>(v).unwrap_or_default()\<close>: an array of objects
  with a \<open>name\<close>, perhaps \<open>variants\<close>, and no other member.
\<close>

definition json_string_list :: "json \<Rightarrow> string list option" where
  "json_string_list v =
     (case v of
        JArr xs \<Rightarrow> if list_all (\<lambda>x. json_as_str x \<noteq> None) xs then Some (map (\<lambda>x. the (json_as_str x)) xs) else None
      | _ \<Rightarrow> None)"

definition json_competitor :: "json \<Rightarrow> competitor_config option" where
  "json_competitor v =
     (case v of
        JObj ms \<Rightarrow>
          if \<not> list_all (\<lambda>m. fst m \<in> {''name'', ''variants''}) ms then None
          else Option.bind (Option.bind (json_get ''name'' v) json_as_str) (\<lambda>name.
            map_option (\<lambda>vs. \<lparr>cc_name = name, cc_variants = vs\<rparr>)
              (case json_get ''variants'' v of None \<Rightarrow> Some [] | Some vs \<Rightarrow> json_string_list vs))
      | _ \<Rightarrow> None)"

definition json_competitors :: "json \<Rightarrow> competitor_config list" where
  "json_competitors v =
     (case v of
        JArr xs \<Rightarrow> if list_all (\<lambda>x. json_competitor x \<noteq> None) xs then map (\<lambda>x. the (json_competitor x)) xs else []
      | _ \<Rightarrow> [])"

section \<open>Validation\<close>

datatype config_problem =
    SchedulesNeedV02
  | BadTier u8
  | EmptyBrandName
  | EmptyPromptName nat
  | BadPromptSlug nat string
  | DuplicatePrompt string
  | EmptyPromptText nat
  | DuplicateProvider provider_name nat
  | ZeroTimeout nat
  | ModelsNotOpenrouter nat provider_name
  | ModelAndModels nat
  | EmptyModels nat
  | ModelWithoutVendor nat nat string
  | EmptyScheduleName nat
  | BadScheduleSlug nat string
  | DuplicateSchedule string
  | EmptyCron nat
  | NoSchedulePrompts nat
  | NoScheduleProviders nat
  | ZeroDebounce nat
  | UnknownPrompt nat string
  | UnknownProvider nat provider_name

datatype config_error =
    ConfigIo string
  | ConfigParse string string
  | UnsupportedSchemaVersion string
  | Validation "config_problem list"

definition is_valid_prompt_slug :: "string \<Rightarrow> bool" where
  "is_valid_prompt_slug s =
     (case s of
        [] \<Rightarrow> False
      | first # _ \<Rightarrow> is_ascii_lowercase first
          \<and> list_all (\<lambda>c. is_ascii_lowercase c \<or> is_ascii_digit c \<or> c = CHR ''-'') s)"

text \<open>\<open>seen\<close> holds the names inserted so far: those that were neither empty nor badly shaped.\<close>

fun check_prompts :: "nat \<Rightarrow> string list \<Rightarrow> prompt_config list \<Rightarrow> config_problem list" where
  "check_prompts idx seen [] = []"
| "check_prompts idx seen (p # ps) =
     (if str_trim (pc_name p) = [] then [EmptyPromptName idx]
      else if \<not> is_valid_prompt_slug (pc_name p) then [BadPromptSlug idx (pc_name p)]
      else if pc_name p \<in> set seen then [DuplicatePrompt (pc_name p)] else [])
     @ (if str_trim (pc_text p) = [] then [EmptyPromptText idx] else [])
     @ check_prompts (Suc idx)
         (if str_trim (pc_name p) \<noteq> [] \<and> is_valid_prompt_slug (pc_name p) then pc_name p # seen else seen) ps"

definition check_models :: "nat \<Rightarrow> provider_config \<Rightarrow> config_problem list" where
  "check_models idx p =
     (case vc_models p of
        None \<Rightarrow> []
      | Some models \<Rightarrow>
          (if vc_name p \<noteq> Openrouter then [ModelsNotOpenrouter idx (vc_name p)] else [])
          @ (if vc_model p \<noteq> None then [ModelAndModels idx] else [])
          @ (if models = [] then [EmptyModels idx] else [])
          @ concat (map (\<lambda>(mdx, m). if CHR ''/'' \<in> set m then [] else [ModelWithoutVendor idx mdx m]) (enumerate 0 models)))"

fun check_providers :: "nat \<Rightarrow> provider_name list \<Rightarrow> provider_config list \<Rightarrow> config_problem list" where
  "check_providers idx seen [] = []"
| "check_providers idx seen (p # ps) =
     (if vc_name p \<in> set seen then [DuplicateProvider (vc_name p) idx] else [])
     @ (if vc_timeout_seconds p = 0 then [ZeroTimeout idx] else [])
     @ check_models idx p @ check_providers (Suc idx) (vc_name p # seen) ps"

definition check_schedule :: "nat \<Rightarrow> string list \<Rightarrow> provider_name list \<Rightarrow> schedule_config \<Rightarrow> config_problem list" where
  "check_schedule idx declared_prompts declared_providers s =
     (if str_trim (sc_cron s) = [] then [EmptyCron idx] else [])
     @ (if sc_prompts s = [] then [NoSchedulePrompts idx] else [])
     @ (if sc_providers s = [] then [NoScheduleProviders idx] else [])
     @ (if sc_debounce_minutes s = 0 then [ZeroDebounce idx] else [])
     @ map (UnknownPrompt idx) (filter (\<lambda>n. n \<notin> set declared_prompts) (sc_prompts s))
     @ map (UnknownProvider idx) (filter (\<lambda>n. n \<notin> set declared_providers) (sc_providers s))"

fun check_schedules ::
  "nat \<Rightarrow> string list \<Rightarrow> string list \<Rightarrow> provider_name list \<Rightarrow> schedule_config list \<Rightarrow> config_problem list" where
  "check_schedules idx seen dps dvs [] = []"
| "check_schedules idx seen dps dvs (s # ss) =
     (if str_trim (sc_name s) = [] then [EmptyScheduleName idx]
      else if \<not> is_valid_prompt_slug (sc_name s) then [BadScheduleSlug idx (sc_name s)]
      else if sc_name s \<in> set seen then [DuplicateSchedule (sc_name s)] else [])
     @ check_schedule idx dps dvs s
     @ check_schedules (Suc idx)
         (if str_trim (sc_name s) \<noteq> [] \<and> is_valid_prompt_slug (sc_name s) then sc_name s # seen else seen) dps dvs ss"

definition config_problems :: "config \<Rightarrow> config_problem list" where
  "config_problems cfg =
     (if cfg_schema_version cfg = ''0.1'' \<and> cfg_schedules cfg \<noteq> [] then [SchedulesNeedV02] else [])
     @ (if 2 < cfg_tier cfg then [BadTier (cfg_tier cfg)] else [])
     @ (if str_trim (bc_name (cfg_brand cfg)) = [] then [EmptyBrandName] else [])
     @ check_prompts 0 [] (cfg_prompts cfg) @ check_providers 0 [] (cfg_providers cfg)
     @ check_schedules 0 [] (map pc_name (cfg_prompts cfg)) (map vc_name (cfg_providers cfg)) (cfg_schedules cfg)"

definition validate :: "config \<Rightarrow> config_error + unit" where
  "validate cfg =
     (if cfg_schema_version cfg \<noteq> ''0.1'' \<and> cfg_schema_version cfg \<noteq> ''0.2''
      then Inl (UnsupportedSchemaVersion (cfg_schema_version cfg))
      else if config_problems cfg = [] then Inr () else Inl (Validation (config_problems cfg)))"

text \<open>The YAML parser's error has a message and perhaps a line and a column.\<close>

type_synonym yaml_parser = "string \<Rightarrow> ((nat \<times> nat) option \<times> string) + config"

definition parse_and_validate :: "yaml_parser \<Rightarrow> string \<Rightarrow> string option \<Rightarrow> config_error + config" where
  "parse_and_validate from_yaml yaml path =
     (let path_label = unwrap_or ''<input>'' path
      in case from_yaml yaml of
           Inl (loc, message) \<Rightarrow>
             Inl (ConfigParse (case loc of
                 Some (l, c) \<Rightarrow> path_label @ '':'' @ show_nat l @ '':'' @ show_nat c
               | None \<Rightarrow> path_label) message)
         | Inr cfg \<Rightarrow> rbind (validate cfg) (\<lambda>_. Inr cfg))"

definition from_yaml_str :: "yaml_parser \<Rightarrow> string \<Rightarrow> config_error + config" where
  "from_yaml_str from_yaml yaml = parse_and_validate from_yaml yaml None"

text \<open>A file system is a map from paths to contents; whether a rename succeeds is a parameter.\<close>

definition from_path :: "yaml_parser \<Rightarrow> (string \<Rightarrow> string option) \<Rightarrow> string \<Rightarrow> config_error + config" where
  "from_path from_yaml fs path =
     (case fs path of
        None \<Rightarrow> Inl (ConfigIo path)
      | Some yaml \<Rightarrow> parse_and_validate from_yaml yaml (Some path))"

definition auto_migrate_config_filename ::
  "bool \<Rightarrow> string \<Rightarrow> string \<Rightarrow> (string \<Rightarrow> string option) \<Rightarrow> string \<times> (string \<Rightarrow> string option)" where
  "auto_migrate_config_filename rename_ok target legacy fs =
     (target, if fs target = None \<and> fs legacy \<noteq> None \<and> rename_ok then fs(target := fs legacy, legacy := None) else fs)"

section \<open>What validation accepts\<close>

definition well_formed_schedule :: "config \<Rightarrow> schedule_config \<Rightarrow> bool" where
  "well_formed_schedule cfg s =
     (is_valid_prompt_slug (sc_name s) \<and> str_trim (sc_cron s) \<noteq> [] \<and> sc_debounce_minutes s \<noteq> 0
      \<and> sc_prompts s \<noteq> [] \<and> set (sc_prompts s) \<subseteq> pc_name ` set (cfg_prompts cfg)
      \<and> sc_providers s \<noteq> [] \<and> set (sc_providers s) \<subseteq> vc_name ` set (cfg_providers cfg))"

definition well_formed_provider :: "provider_config \<Rightarrow> bool" where
  "well_formed_provider p =
     (vc_timeout_seconds p \<noteq> 0 \<and> (case vc_models p of None \<Rightarrow> True | Some ms \<Rightarrow>
        vc_name p = Openrouter \<and> vc_model p = None \<and> ms \<noteq> [] \<and> (\<forall>m \<in> set ms. CHR ''/'' \<in> set m)))"

definition well_formed :: "config \<Rightarrow> bool" where
  "well_formed cfg =
     (cfg_schema_version cfg \<in> {''0.1'', ''0.2''} \<and> (cfg_schema_version cfg = ''0.1'' \<longrightarrow> cfg_schedules cfg = [])
      \<and> cfg_tier cfg \<le> 2 \<and> str_trim (bc_name (cfg_brand cfg)) \<noteq> []
      \<and> distinct (map pc_name (cfg_prompts cfg))
      \<and> (\<forall>p \<in> set (cfg_prompts cfg). is_valid_prompt_slug (pc_name p) \<and> str_trim (pc_text p) \<noteq> [])
      \<and> distinct (map vc_name (cfg_providers cfg)) \<and> (\<forall>p \<in> set (cfg_providers cfg). well_formed_provider p)
      \<and> distinct (map sc_name (cfg_schedules cfg)) \<and> (\<forall>s \<in> set (cfg_schedules cfg). well_formed_schedule cfg s))"

lemma slug_char_plain:
  assumes "is_ascii_lowercase c \<or> is_ascii_digit c \<or> c = CHR ''-''"
  shows "\<not> is_cont c \<and> \<not> is_ws [c]"
  using assms by (auto simp: is_ascii_lowercase_def is_ascii_digit_def Let_def dest: cont_byte ws_byte)

lemma slug_trim: "is_valid_prompt_slug s \<Longrightarrow> str_trim s = s \<and> s \<noteq> []"
  by (rule conjI, rule str_trim_id)
    (auto simp: is_valid_prompt_slug_def list_all_iff slug_char_plain split: list.splits)

lemma check_prompts_Nil:
  "check_prompts idx seen ps = [] \<longleftrightarrow>
    distinct (map pc_name ps) \<and> set (map pc_name ps) \<inter> set seen = {}
    \<and> (\<forall>p \<in> set ps. is_valid_prompt_slug (pc_name p) \<and> str_trim (pc_text p) \<noteq> [])"
  by (induction idx seen ps rule: check_prompts.induct) (auto simp: slug_trim)

lemma ball_enumerate: "(\<forall>x \<in> set (enumerate n xs). P (snd x)) \<longleftrightarrow> (\<forall>x \<in> set xs. P x)"
  by (metis (no_types, lifting) image_iff list.set_map map_snd_enumerate)

lemma check_models_Nil:
  "check_models idx p = [] \<longleftrightarrow> (case vc_models p of None \<Rightarrow> True | Some ms \<Rightarrow>
        vc_name p = Openrouter \<and> vc_model p = None \<and> ms \<noteq> [] \<and> (\<forall>m \<in> set ms. CHR ''/'' \<in> set m))"
proof -
  have "concat (map (\<lambda>(mdx, m). if CHR ''/'' \<in> set m then [] else [ModelWithoutVendor idx mdx m]) (enumerate 0 ms)) = []
      \<longleftrightarrow> (\<forall>m \<in> set ms. CHR ''/'' \<in> set m)" for ms
    by (simp add: split_def flip: ball_enumerate [of 0 ms]) auto
  then show ?thesis by (simp add: check_models_def split: option.splits)
qed

lemma check_providers_Nil:
  "check_providers idx seen ps = [] \<longleftrightarrow>
    distinct (map vc_name ps) \<and> set (map vc_name ps) \<inter> set seen = {} \<and> (\<forall>p \<in> set ps. well_formed_provider p)"
  by (induction idx seen ps rule: check_providers.induct) (auto simp: well_formed_provider_def check_models_Nil)

lemma check_schedules_Nil:
  "check_schedules idx seen (map pc_name (cfg_prompts cfg)) (map vc_name (cfg_providers cfg)) ss = [] \<longleftrightarrow>
    distinct (map sc_name ss) \<and> set (map sc_name ss) \<inter> set seen = {} \<and> (\<forall>s \<in> set ss. well_formed_schedule cfg s)"
proof (induction ss arbitrary: idx seen)
  case (Cons s ss)
  then show ?case
    by (auto simp: well_formed_schedule_def check_schedule_def slug_trim filter_empty_conv)
qed simp

lemma validate_iff: "(validate cfg = Inr ()) = well_formed cfg"
  by (auto simp: validate_def config_problems_def well_formed_def check_prompts_Nil check_providers_Nil
      check_schedules_Nil not_less)

text \<open>
  C13 (equivalence). A configuration is accepted exactly when it is well formed: known version,
  tier and brand, unique slugs for prompts and schedules, unique providers whose model lists are
  OpenRouter's and name a vendor, and schedules that refer to declared prompts and providers only.
\<close>

theorem validate_accepts_well_formed:
  "(validate cfg = Inr ()) = well_formed cfg"
  by (fact validate_iff)

section \<open>Prompt identifiers\<close>

lemma split_slug:
  assumes "a @ ''::'' @ x = b @ ''::'' @ y" and "CHR '':'' \<notin> set x" and "CHR '':'' \<notin> set y"
  shows "a = b \<and> x = y"
proof -
  have split: "rev (takeWhile (\<lambda>c. c \<noteq> CHR '':'') (rev (a @ ''::'' @ x))) = x" if "CHR '':'' \<notin> set x" for a x :: string
  proof -
    have "\<forall>c \<in> set (rev x). c \<noteq> CHR '':''" using that by auto
    then show ?thesis by (simp add: takeWhile_append)
  qed
  have "x = y" using split [OF assms(2)] split [OF assms(3)] assms(1) by metis
  with assms(1) show ?thesis by simp
qed

lemma slug_lower:
  assumes "is_valid_prompt_slug s" 
  shows "CHR '':'' \<notin> set s"
  using assms by (auto simp: is_valid_prompt_slug_def list_all_iff is_ascii_lowercase_def is_ascii_digit_def split: list.splits)

text \<open>
  Prompt identifiers do not collide: two prompts of validated configurations have
  the same identifier only when they have the same name and their brands are the same up to case
  and surrounding space, as long as the digest does not collide on the two and lower-casing leaves
  slugs alone.
\<close>

theorem prompt_ids_are_distinct:
  assumes "validate cfg1 = Inr ()" and "validate cfg2 = Inr ()"
    and "\<forall>s. is_valid_prompt_slug s \<longrightarrow> lower dg s = s"
    and "config_prompt_id dg cfg1 n1 = Some i" and "config_prompt_id dg cfg2 n2 = Some i"
    and "inj_on (sha256_first_16 dg) {canonical_prompt_input dg (bc_name (cfg_brand cfg1)) n1,
      canonical_prompt_input dg (bc_name (cfg_brand cfg2)) n2}"
  shows "n1 = n2 \<and> lower dg (str_trim (bc_name (cfg_brand cfg1))) = lower dg (str_trim (bc_name (cfg_brand cfg2)))"
proof -
  have slug: "is_valid_prompt_slug n" if "validate cfg = Inr ()" "config_prompt_id dg cfg n = Some i" for cfg n
    using that unfolding validate_iff
    by (auto simp: config_prompt_id_def well_formed_def list_ex_iff split: if_splits)
  note s1 = slug [OF assms(1,4)] and s2 = slug [OF assms(2,5)]
  from assms(4,5) have "canonical_prompt_input dg (bc_name (cfg_brand cfg1)) n1 = canonical_prompt_input dg (bc_name (cfg_brand cfg2)) n2"
    by (intro inj_onD [OF assms(6)]) (auto simp: config_prompt_id_def prompt_id_for_def split: if_splits)
  then have "lower dg (str_trim (bc_name (cfg_brand cfg1))) @ ''::'' @ n1 = lower dg (str_trim (bc_name (cfg_brand cfg2))) @ ''::'' @ n2"
    using s1 s2 assms(3) by (simp add: canonical_prompt_input_def slug_trim)
  from split_slug [OF this] show ?thesis using s1 s2 slug_lower by blast
qed

definition ex_config :: "string \<Rightarrow> config" where
  "ex_config brand = \<lparr>cfg_schema_version = ''0.2'', cfg_brand = \<lparr>bc_name = brand, bc_variants = [], bc_site_url = None\<rparr>,
     cfg_competitors = [], cfg_prompts = [\<lparr>pc_name = ''p'', pc_text = ''q'', pc_description = None\<rparr>],
     cfg_providers = [\<lparr>vc_name = Grok, vc_model = None, vc_models = None, vc_timeout_seconds = 60\<rparr>],
     cfg_schedules = [], cfg_concurrency = 4, cfg_anomaly_sensitivity = default_sensitivity, cfg_analytics = None,
     cfg_tier = 0\<rparr>"

lemma ex_config_valid: "brand \<in> {''Acme'', ''acme''} \<Longrightarrow> validate (ex_config brand) = Inr ()"
  by (auto simp: validate_iff ex_config_def well_formed_def is_valid_prompt_slug_def is_ascii_lowercase_def
      well_formed_provider_def str_trim_def is_cont_def is_ws_def unicode_ws_def)

theorem prompt_ids_are_distinct_witness:
  "(''p'' :: string) = ''p'' \<and> to_ascii_lowercase (str_trim ''Acme'') = to_ascii_lowercase (str_trim ''acme'')"
proof -
  let ?dg = "\<lparr>lower = to_ascii_lowercase, sha256_first_16 = (\<lambda>s. of_nat (length s))\<rparr>"
  have slugs: "to_ascii_lowercase s = s" if "is_valid_prompt_slug s" for s
    using that by (auto simp: is_valid_prompt_slug_def to_ascii_lowercase_def list_all_iff ascii_lower_char_def
        is_ascii_lowercase_def is_ascii_digit_def Let_def intro!: map_idI split: list.splits)
  have trim: "str_trim ''Acme'' = ''Acme''" "str_trim ''acme'' = ''acme''" "str_trim ''p'' = ''p''"
    by (simp_all add: str_trim_def is_cont_def is_ws_def unicode_ws_def)
  have "to_ascii_lowercase ''Acme'' = ''acme''" "to_ascii_lowercase ''acme'' = ''acme''"
    by code_simp+
  with prompt_ids_are_distinct [of "ex_config ''Acme''" "ex_config ''acme''" ?dg "''p''" _ "''p''"] slugs trim ex_config_valid
  show ?thesis by (simp add: config_prompt_id_def ex_config_def prompt_id_for_def canonical_prompt_input_def)
qed

end
