(* ===== verification/Mentions.thy ===== *)
theory Mentions
  imports Config
begin

text \<open>
  What is read out of a provider's answer (\<open>crates/extractors/src\<close>): tone (\<open>sentiment.rs\<close>), the
  mentions of the brand and its competitors with their ranking (\<open>mentions.rs\<close>), the sentences that
  claim something about the brand (\<open>claims.rs\<close>) and the difference of two runs (\<open>diff.rs\<close>).
  Offsets count bytes, as in Rust. Lower-casing and the class of alphanumeric characters are
  Unicode tables of the standard library and parameters here.
\<close>

section \<open>Positions in a string\<close>

text \<open>\<open>char_indices()\<close>.\<close>

fun indices_from :: "nat \<Rightarrow> string list \<Rightarrow> (nat \<times> string) list" where
  "indices_from i [] = []"
| "indices_from i (g # gs) = (i, g) # indices_from (i + length g) gs"

definition char_indices :: "string \<Rightarrow> (nat \<times> string) list" where
  "char_indices s = indices_from 0 (utf8_chars s)"

text \<open>\<open>split(p)\<close> for a predicate on characters.\<close>

fun split_where :: "(string \<Rightarrow> bool) \<Rightarrow> string list \<Rightarrow> string list list" where
  "split_where p [] = [[]]"
| "split_where p (g # gs) =
     (if p g then [] # split_where p gs
      else (case split_where p gs of [] \<Rightarrow> [[g]] | w # ws \<Rightarrow> (g # w) # ws))"

section \<open>Tone\<close>

datatype sentiment_label = Positive | Neutral | Negative

primrec label_as_str :: "sentiment_label \<Rightarrow> string" where
  "label_as_str Positive = ''positive''"
| "label_as_str Neutral = ''neutral''"
| "label_as_str Negative = ''negative''"

record sentiment =
  se_label :: sentiment_label
  se_score :: u8
  se_lane :: string

definition neutral_sentiment :: sentiment where
  "neutral_sentiment = \<lparr>se_label = Neutral, se_score = 50, se_lane = ''deterministic_lexicon''\<rparr>"

definition POSITIVE_TERMS :: "string list" where
  "POSITIVE_TERMS = [''accurate'', ''best'', ''fast'', ''good'', ''great'', ''leading'', ''recommended'',
     ''reliable'', ''robust'', ''strong'']"

definition NEGATIVE_TERMS :: "string list" where
  "NEGATIVE_TERMS = [''bad'', ''buggy'', ''expensive'', ''fails'', ''limited'', ''poor'', ''slow'',
     ''unreliable'', ''weak'', ''worse'']"

definition nth_opt :: "'a list \<Rightarrow> nat \<Rightarrow> 'a option" where
  "nth_opt xs i = (if i < length xs then Some (xs ! i) else None)"

fun position :: "('a \<Rightarrow> bool) \<Rightarrow> 'a list \<Rightarrow> nat option" where
  "position p [] = None"
| "position p (x # xs) = (if p x then Some 0 else map_option Suc (position p xs))"

definition context_window :: "string \<Rightarrow> nat \<Rightarrow> nat \<Rightarrow> string" where
  "context_window message char_offset radius =
     (let indices = map fst (char_indices message);
          mention_char_idx = unwrap_or (length indices - 1) (position (\<lambda>i. char_offset \<le> i) indices);
          start = unwrap_or 0 (nth_opt indices (mention_char_idx - radius));
          stop = unwrap_or (length message) (nth_opt indices (min (mention_char_idx + radius) (length indices)))
      in slice message start stop)"

definition count_terms :: "unicode \<Rightarrow> string \<Rightarrow> string list \<Rightarrow> nat" where
  "count_terms u ctxt terms =
     length (filter (List.member terms)
       (map concat (split_where (\<lambda>g. \<not> alphanumeric u g) (utf8_chars ctxt))))"

definition classify_sentiment :: "unicode \<Rightarrow> string \<Rightarrow> nat \<Rightarrow> sentiment" where
  "classify_sentiment u message char_offset =
     (let ctxt = lowercase u (context_window message char_offset 160);
          positive = count_terms u ctxt POSITIVE_TERMS;
          negative = count_terms u ctxt NEGATIVE_TERMS
      in if negative < positive
         then \<lparr>se_label = Positive, se_score = of_nat (60 + min (positive - negative) 4 * 10),
               se_lane = ''deterministic_lexicon''\<rparr>
         else if positive < negative
         then \<lparr>se_label = Negative, se_score = of_int (max (40 - int (min (negative - positive) 4) * 10) 0),
               se_lane = ''deterministic_lexicon''\<rparr>
         else neutral_sentiment)"

section \<open>Mentions\<close>

record mention =
  me_entity :: string
  me_char_offset :: nat
  me_rank :: nat
  me_matched_text :: string
  me_is_brand :: bool
  me_sentiment :: sentiment

text \<open>The candidates, longest first, and the better of the best so far and the next one.\<close>

definition candidates :: "string \<Rightarrow> string list \<Rightarrow> string list" where
  "candidates canonical variants =
     sort_key (\<lambda>s. - int (length s)) (filter (\<lambda>s. s \<noteq> []) (canonical # variants))"

definition better ::
  "unicode \<Rightarrow> string \<Rightarrow> (nat \<times> string) option \<Rightarrow> string \<Rightarrow> (nat \<times> string) option" where
  "better u haystack_lower best needle =
     (case str_find (lowercase u needle) haystack_lower of
        None \<Rightarrow> best
      | Some pos \<Rightarrow>
          (case best of
             Some (cur, prev) \<Rightarrow>
               if cur < pos then best
               else if cur = pos \<and> length needle \<le> length prev then best
               else Some (pos, needle)
           | None \<Rightarrow> Some (pos, needle)))"

definition first_match :: "unicode \<Rightarrow> string \<Rightarrow> string \<Rightarrow> string list \<Rightarrow> (nat \<times> string) option" where
  "first_match u haystack canonical variants =
     (let haystack_lower = lowercase u haystack
      in map_option
           (\<lambda>(pos, needle). (pos, unwrap_or needle (str_get haystack pos (pos + length needle))))
           (foldl (better u haystack_lower) None (candidates canonical variants)))"

definition hit :: "unicode \<Rightarrow> string \<Rightarrow> bool \<Rightarrow> string \<Rightarrow> string list \<Rightarrow> mention list" where
  "hit u message is_brand name variants =
     (case first_match u message name variants of
        None \<Rightarrow> []
      | Some (offset, matched) \<Rightarrow>
          [\<lparr>me_entity = name, me_char_offset = offset, me_rank = 0, me_matched_text = matched,
            me_is_brand = is_brand, me_sentiment = classify_sentiment u message offset\<rparr>])"

fun assign_ranks :: "nat \<Rightarrow> mention list \<Rightarrow> mention list" where
  "assign_ranks idx [] = []"
| "assign_ranks idx (m # ms) = m\<lparr>me_rank := idx + 1\<rparr> # assign_ranks (Suc idx) ms"

definition extract_mentions :: "unicode \<Rightarrow> string \<Rightarrow> config \<Rightarrow> mention list" where
  "extract_mentions u message cfg =
     (let hits = hit u message True (bc_name (cfg_brand cfg)) (bc_variants (cfg_brand cfg))
                 @ concat (map (\<lambda>comp. hit u message False (cc_name comp) (cc_variants comp)) (cfg_competitors cfg))
      in assign_ranks 0 (sort_key me_char_offset hits))"

definition compute_ranking :: "mention list \<Rightarrow> nat option" where
  "compute_ranking mentions = map_option me_rank (find me_is_brand mentions)"

section \<open>Claims\<close>

record claim =
  cl_entity :: string
  cl_claim_text :: string
  cl_claim_kind :: string
  cl_char_offset :: "nat option"
  cl_confidence :: u8
  cl_extractor_lane :: string

definition push_nonempty_span :: "string \<Rightarrow> nat \<Rightarrow> nat \<Rightarrow> (nat \<times> string) list" where
  "push_nonempty_span message start stop =
     (let span = slice message start stop;
          leading = length span - length (str_trim_start span);
          trimmed = str_trim span
      in if trimmed = [] then [] else [(start + leading, trimmed)])"

definition ends_sentence :: "string \<Rightarrow> bool" where
  "ends_sentence g = (g = ''.'' \<or> g = ''!'' \<or> g = ''?'' \<or> g = [CHR 0x0A])"

fun span_loop :: "string \<Rightarrow> nat \<Rightarrow> (nat \<times> string) list \<Rightarrow> (nat \<times> string) list" where
  "span_loop message start [] =
     (if start < length message then push_nonempty_span message start (length message) else [])"
| "span_loop message start ((idx, ch) # cs) =
     (if ends_sentence ch
      then push_nonempty_span message start (idx + length ch) @ span_loop message (idx + length ch) cs
      else span_loop message start cs)"

definition sentence_spans :: "string \<Rightarrow> (nat \<times> string) list" where
  "sentence_spans message = span_loop message 0 (char_indices message)"

definition mentions_brand :: "unicode \<Rightarrow> string \<Rightarrow> config \<Rightarrow> bool" where
  "mentions_brand u sentence cfg =
     list_ex (\<lambda>c. str_contains (lowercase u sentence) (lowercase u c))
       (filter (\<lambda>c. str_trim c \<noteq> []) (bc_name (cfg_brand cfg) # bc_variants (cfg_brand cfg)))"

definition extract_claims :: "unicode \<Rightarrow> string \<Rightarrow> config \<Rightarrow> claim list" where
  "extract_claims u message cfg =
     map (\<lambda>(offset, sentence).
        \<lparr>cl_entity = bc_name (cfg_brand cfg), cl_claim_text = str_trim sentence,
         cl_claim_kind = ''factual_statement'', cl_char_offset = Some offset, cl_confidence = 80,
         cl_extractor_lane = ''deterministic_sentence''\<rparr>)
       (filter (\<lambda>(offset, sentence). mentions_brand u sentence cfg) (sentence_spans message))"

section \<open>Ranking\<close>

lemma assign_ranks_fields:
  "map me_char_offset (assign_ranks i ms) = map me_char_offset ms"
  "map me_rank (assign_ranks i ms) = [Suc i ..< Suc i + length ms]"
  by (induction ms arbitrary: i) (simp_all add: upt_conv_Cons del: upt_Suc)

lemma compute_ranking_assigned:
  assumes "\<forall>m \<in> set pre. \<not> me_is_brand m" and "me_is_brand b"
  shows "compute_ranking (assign_ranks i (pre @ b # post)) = Some (i + length pre + 1)"
  using assms(1)
proof (induction pre arbitrary: i)
  case Nil
  then show ?case using assms(2) by (simp add: compute_ranking_def)
next
  case (Cons m pre)
  then show ?case using Cons.IH [of "Suc i"] by (simp add: compute_ranking_def)
qed

lemma compute_ranking_none:
  "\<forall>m \<in> set ms. \<not> me_is_brand m \<Longrightarrow> compute_ranking (assign_ranks i ms) = None"
proof (induction ms arbitrary: i)
  case (Cons m ms)
  then show ?case using Cons.IH [of "Suc i"] by (simp add: compute_ranking_def)
qed (simp add: compute_ranking_def)

definition competitor_hits :: "unicode \<Rightarrow> string \<Rightarrow> config \<Rightarrow> mention list" where
  "competitor_hits u message cfg =
     concat (map (\<lambda>comp. hit u message False (cc_name comp) (cc_variants comp)) (cfg_competitors cfg))"

lemma extract_mentions_hits:
  "extract_mentions u message cfg = assign_ranks 0 (sort_key me_char_offset
     (hit u message True (bc_name (cfg_brand cfg)) (bc_variants (cfg_brand cfg)) @ competitor_hits u message cfg))"
  by (simp add: extract_mentions_def competitor_hits_def)

lemma competitor_hits_not_brand: "\<forall>m \<in> set (competitor_hits u message cfg). \<not> me_is_brand m"
  by (auto simp: competitor_hits_def hit_def split: option.splits)

lemma count_competitor_hits:
  "length (filter (\<lambda>m. me_char_offset m < t) (competitor_hits u message cfg))
     = length (filter (\<lambda>comp. case first_match u message (cc_name comp) (cc_variants comp) of
           None \<Rightarrow> False | Some (offset, _) \<Rightarrow> offset < t) (cfg_competitors cfg))"
proof -
  have "length (filter (\<lambda>m. me_char_offset m < t)
        (concat (map (\<lambda>comp. hit u message False (cc_name comp) (cc_variants comp)) comps)))
     = length (filter (\<lambda>comp. case first_match u message (cc_name comp) (cc_variants comp) of
           None \<Rightarrow> False | Some (offset, _) \<Rightarrow> offset < t) comps)" for comps
    by (induction comps) (auto simp: hit_def split: option.splits)
  then show ?thesis by (simp add: competitor_hits_def)
qed

text \<open>
  C35 (functional). The ranking of the brand is absent without a mention, and otherwise one more
  than the number of competitors first found strictly before it.
\<close>

theorem brand_ranking_counts_earlier_competitors:
  "compute_ranking (extract_mentions u message cfg)
     = (case first_match u message (bc_name (cfg_brand cfg)) (bc_variants (cfg_brand cfg)) of
          None \<Rightarrow> None
        | Some (offset, _) \<Rightarrow>
            Some (1 + length (filter (\<lambda>comp.
              case first_match u message (cc_name comp) (cc_variants comp) of
                None \<Rightarrow> False | Some (other, _) \<Rightarrow> other < offset) (cfg_competitors cfg))))"
proof (cases "first_match u message (bc_name (cfg_brand cfg)) (bc_variants (cfg_brand cfg))")
  case None
  then show ?thesis
    using competitor_hits_not_brand [of u message cfg]
    by (simp add: extract_mentions_hits hit_def compute_ranking_none)
next
  case (Some p)
  then obtain offset matched where first: "first_match u message (bc_name (cfg_brand cfg)) (bc_variants (cfg_brand cfg))
      = Some (offset, matched)" by (cases p) simp
  define others where "others = sort_key me_char_offset (competitor_hits u message cfg)"
  define earlier where "earlier = takeWhile (\<lambda>m. me_char_offset m < offset) others"
  have "\<forall>m \<in> set earlier. \<not> me_is_brand m"
    using competitor_hits_not_brand [of u message cfg] set_takeWhileD by (fastforce simp: earlier_def others_def)
  moreover have "length earlier = length (filter (\<lambda>m. me_char_offset m < offset) (competitor_hits u message cfg))"
    unfolding earlier_def others_def by (subst takeWhile_sorted) (simp_all add: length_filter_sort_key)
  ultimately show ?thesis
    by (simp add: extract_mentions_hits hit_def first insort_key_split compute_ranking_assigned
        count_competitor_hits flip: others_def earlier_def)
qed

section \<open>The earliest match\<close>

text \<open>Where a name occurs: the positions of its candidates in the lower-cased message.\<close>

definition occurs_at :: "unicode \<Rightarrow> string \<Rightarrow> string \<Rightarrow> string list \<Rightarrow> nat \<Rightarrow> bool" where
  "occurs_at u message name variants pos =
     (\<exists>c \<in> set (candidates name variants). str_find (lowercase u c) (lowercase u message) = Some pos)"

lemma fold_better:
  assumes "foldl (better u h) best cs = r"
  shows "(r = None \<longleftrightarrow> best = None \<and> (\<forall>c \<in> set cs. str_find (lowercase u c) h = None))
    \<and> (\<forall>pos n. r = Some (pos, n) \<longrightarrow>
         (best = Some (pos, n) \<or> (n \<in> set cs \<and> str_find (lowercase u n) h = Some pos))
         \<and> (\<forall>q m. best = Some (q, m) \<longrightarrow> pos \<le> q)
         \<and> (\<forall>c \<in> set cs. \<forall>q. str_find (lowercase u c) h = Some q \<longrightarrow> pos \<le> q))"
  using assms
proof (induction cs arbitrary: best)
  case Nil
  then show ?case by auto
next
  case (Cons c cs)
  have "(better u h best c = None \<longleftrightarrow> best = None \<and> str_find (lowercase u c) h = None)
    \<and> (\<forall>pos n. better u h best c = Some (pos, n) \<longrightarrow>
         (best = Some (pos, n) \<or> (n = c \<and> str_find (lowercase u c) h = Some pos))
         \<and> (\<forall>q m. best = Some (q, m) \<longrightarrow> pos \<le> q)
         \<and> (\<forall>q. str_find (lowercase u c) h = Some q \<longrightarrow> pos \<le> q))"
    by (auto simp: better_def split: option.splits if_splits)
  moreover note Cons.IH [of "better u h best c"] Cons.prems
  ultimately show ?case
    by (cases r; cases "better u h best c"; simp; elim conjE; (force | meson order_trans)?)
qed


lemma first_match_NoneD:
  "first_match u message name variants = None \<longleftrightarrow> (\<forall>pos. \<not> occurs_at u message name variants pos)"
  using fold_better [OF refl, of u "lowercase u message" None "candidates name variants"]
  by (auto simp: first_match_def occurs_at_def Let_def)

lemma first_match_SomeD:
  assumes "first_match u message name variants = Some (pos, matched)"
  shows "occurs_at u message name variants pos \<and> (\<forall>q < pos. \<not> occurs_at u message name variants q)"
proof -
  from assms obtain n where
    "foldl (better u (lowercase u message)) None (candidates name variants) = Some (pos, n)"
    by (auto simp: first_match_def Let_def)
  with fold_better [OF refl, of u "lowercase u message" None "candidates name variants"] show ?thesis
    unfolding occurs_at_def by (fastforce dest: leD)
qed

text \<open>
  A mention stands at the first occurrence of the name it was looked up by: the brand's, or that of
  one of the competitors.
\<close>

definition at_first_occurrence :: "unicode \<Rightarrow> string \<Rightarrow> config \<Rightarrow> mention \<Rightarrow> bool" where
  "at_first_occurrence u message cfg m =
     (\<exists>variants. (if me_is_brand m then (me_entity m, variants) = (bc_name (cfg_brand cfg), bc_variants (cfg_brand cfg))
        else (me_entity m, variants) \<in> (\<lambda>c. (cc_name c, cc_variants c)) ` set (cfg_competitors cfg))
      \<and> occurs_at u message (me_entity m) variants (me_char_offset m)
      \<and> (\<forall>q < me_char_offset m. \<not> occurs_at u message (me_entity m) variants q))"

lemma hit_first:
  "m \<in> set (hit u message b name variants) \<Longrightarrow> me_entity m = name \<and> me_is_brand m = b
     \<and> occurs_at u message name variants (me_char_offset m)
     \<and> (\<forall>q < me_char_offset m. \<not> occurs_at u message name variants q)"
  by (cases "first_match u message name variants")
    (auto simp: hit_def dest: first_match_SomeD split: prod.splits)

text \<open>
  C19 (functional). The mentions of an answer come in order of position, are ranked from one without
  gaps, and each stands where its brand or competitor first occurs in the lower-cased text.
\<close>

theorem mentions_are_earliest_and_ranked:
  "sorted (map me_char_offset (extract_mentions u message cfg))
   \<and> map me_rank (extract_mentions u message cfg) = [1 ..< Suc (length (extract_mentions u message cfg))]
   \<and> list_all (at_first_occurrence u message cfg) (extract_mentions u message cfg)"
proof (intro conjI)
  let ?brand = "hit u message True (bc_name (cfg_brand cfg)) (bc_variants (cfg_brand cfg))"
  show "sorted (map me_char_offset (extract_mentions u message cfg))"
    by (simp add: extract_mentions_hits assign_ranks_fields)
  have len: "length (assign_ranks i ms) = length ms" for i ms
    using arg_cong [OF assign_ranks_fields(1), of length i ms] by simp
  show "map me_rank (extract_mentions u message cfg) = [1 ..< Suc (length (extract_mentions u message cfg))]"
    by (simp add: extract_mentions_hits assign_ranks_fields len del: upt_Suc)
  have keep: "list_all (at_first_occurrence u message cfg) (assign_ranks i ms)"
    if "list_all (at_first_occurrence u message cfg) ms" for i ms
    using that by (induction ms arbitrary: i) (auto simp: at_first_occurrence_def)
  have "at_first_occurrence u message cfg m" if "m \<in> set ?brand" for m
    using hit_first [OF that] by (auto simp: at_first_occurrence_def)
  moreover have "at_first_occurrence u message cfg m" if m: "m \<in> set (competitor_hits u message cfg)" for m
  proof -
    from m obtain c where c: "c \<in> set (cfg_competitors cfg)"
      and h: "m \<in> set (hit u message False (cc_name c) (cc_variants c))"
      by (auto simp: competitor_hits_def)
    from hit_first [OF h] imageI [OF c, of "\<lambda>c. (cc_name c, cc_variants c)"] show ?thesis
      unfolding at_first_occurrence_def by auto
  qed
  ultimately have "list_all (at_first_occurrence u message cfg)
      (sort_key me_char_offset (?brand @ competitor_hits u message cfg))"
    by (auto simp: list_all_iff)
  from keep [OF this] show "list_all (at_first_occurrence u message cfg) (extract_mentions u message cfg)"
    by (simp only: extract_mentions_hits)
qed

section \<open>Claims are slices of the message\<close>

definition is_span :: "string \<Rightarrow> nat \<times> string \<Rightarrow> bool" where
  "is_span message p =
     (slice message (fst p) (fst p + length (snd p)) = snd p \<and> snd p \<noteq> [] \<and> str_trim (snd p) = snd p)"

lemma push_is_span:
  assumes "a \<le> b" and "b \<le> length message" and "p \<in> set (push_nonempty_span message a b)"
  shows "is_span message p"
proof -
  define span where "span = slice message a b"
  define k where "k = length span - length (str_trim_start span)"
  define t where "t = str_trim span"
  from assms(3) have p: "p = (a + k, t)" and ne: "t \<noteq> []"
    by (auto simp: push_nonempty_span_def Let_def span_def k_def t_def split: if_splits)
  have "take (length t) (drop k span) = t"
    unfolding t_def k_def drop_leading by (rule trim_is_prefix)
  moreover have "drop k span = take (b - a - k) (drop (a + k) message)"
    by (simp add: span_def slice_def drop_take add.commute)
  ultimately have t: "take (min (length t) (b - a - k)) (drop (a + k) message) = t" by simp
  then have "length t \<le> b - a - k" by (metis length_take min.bounded_iff min.cobounded1 min.commute)
  with t have "take (length t) (drop (a + k) message) = t" by (simp add: min_absorb1)
  with p ne show ?thesis by (simp add: is_span_def slice_def t_def str_trim_idem)
qed

lemma span_loop_spans:
  assumes "start \<le> i" and "i + length (concat gs) = length message"
    and "p \<in> set (span_loop message start (indices_from i gs))"
  shows "is_span message p"
  using assms
proof (induction gs arbitrary: start i)
  case Nil
  then show ?case by (auto intro: push_is_span [where a = start and b = "length message"] split: if_splits)
next
  case (Cons g gs)
  show ?case
  proof (cases "ends_sentence g")
    case True
    with Cons.prems consider "p \<in> set (push_nonempty_span message start (i + length g))"
      | "p \<in> set (span_loop message (i + length g) (indices_from (i + length g) gs))" by auto
    then show ?thesis
    proof cases
      case 1
      then show ?thesis by (rule push_is_span [rotated 2]) (use Cons.prems in auto)
    next
      case 2
      then show ?thesis by (rule Cons.IH [rotated 2]) (use Cons.prems in auto)
    qed
  next
    case False
    with Cons.prems show ?thesis by (intro Cons.IH [of start "i + length g"]) auto
  qed
qed

text \<open>
  (roundtrip). The offset and text of every extracted claim locate it in the answer: the message
  sliced there is the claim, which is not empty and mentions the brand.
\<close>

theorem claims_are_slices_of_the_message:
  "list_all (\<lambda>c. \<exists>offset. cl_char_offset c = Some offset
       \<and> slice message offset (offset + length (cl_claim_text c)) = cl_claim_text c
       \<and> cl_claim_text c \<noteq> [] \<and> mentions_brand u (cl_claim_text c) cfg)
     (extract_claims u message cfg)"
proof -
  have "is_span message p" if "p \<in> set (sentence_spans message)" for p
    using that span_loop_spans [of 0 0 "utf8_chars message" message p]
    by (simp add: sentence_spans_def char_indices_def)
  then show ?thesis
    by (fastforce simp: list_all_iff extract_claims_def is_span_def)
qed

end
