(* ===== verification/Db.thy ===== *)
theory Db
  imports Prelude
begin

text \<open>
  The storage layer's view of PostgreSQL. The repositories issue SQL statements over a pool;
  each statement either fails (\<open>sqlx::Error\<close>) and changes nothing, or takes effect as a whole.
  A connection is the schedule of outcomes of the statements to come (\<open>True\<close> fails; a schedule
  that has run out never fails) and the tables; a theorem about every schedule is a theorem about
  every way the database can fail. A transaction whose body or commit fails leaves the tables as
  they were at its start.
\<close>

datatype storage_error = Sqlx | NotFound

type_synonym 't conn = "bool list \<times> 't"

type_synonym ('t, 'e, 'a) rm = "'t conn \<Rightarrow> ('e + 'a) \<times> 't conn"

type_synonym ('t, 'a) dbm = "('t, storage_error, 'a) rm"

definition ret :: "'a \<Rightarrow> ('t, 'e, 'a) rm" where
  "ret a s = (Inr a, s)"

definition raise :: "'e \<Rightarrow> ('t, 'e, 'a) rm" where
  "raise e s = (Inl e, s)"

definition dbind :: "('t, 'e, 'a) rm \<Rightarrow> ('a \<Rightarrow> ('t, 'e, 'b) rm) \<Rightarrow> ('t, 'e, 'b) rm" where
  "dbind m f s = (case m s of (Inl e, s') \<Rightarrow> (Inl e, s') | (Inr a, s') \<Rightarrow> f a s')"

definition stmt :: "('t \<Rightarrow> 'a \<times> 't) \<Rightarrow> ('t, 'a) dbm" where
  "stmt f s =
     (case fst s of
        [] \<Rightarrow> (Inr (fst (f (snd s))), ([], snd (f (snd s))))
      | x # r \<Rightarrow> if x then (Inl Sqlx, (r, snd s))
                 else (Inr (fst (f (snd s))), (r, snd (f (snd s)))))"

definition query :: "('t \<Rightarrow> 'a) \<Rightarrow> ('t, 'a) dbm" where
  "query f = stmt (\<lambda>t. (f t, t))"

definition exec :: "('t \<Rightarrow> 't) \<Rightarrow> ('t, unit) dbm" where
  "exec f = stmt (\<lambda>t. ((), f t))"

text \<open>
  A statement that the table's constraints may reject (\<open>None\<close>), an effect outside the database,
  which no fault of the database concerns, and \<open>let _ = m\<close>, which drops the outcome.
\<close>

definition cstmt :: "('t \<Rightarrow> ('a \<times> 't) option) \<Rightarrow> ('t, 'a) dbm" where
  "cstmt g s =
     (case stmt (\<lambda>t. case g t of None \<Rightarrow> (None, t) | Some (a, t') \<Rightarrow> (Some a, t')) s of
        (Inl e, s') \<Rightarrow> (Inl e, s')
      | (Inr None, s') \<Rightarrow> (Inl Sqlx, s')
      | (Inr (Some a), s') \<Rightarrow> (Inr a, s'))"

definition act :: "('t \<Rightarrow> 'a \<times> 't) \<Rightarrow> ('t, 'e, 'a) rm" where
  "act f s = (Inr (fst (f (snd s))), (fst s, snd (f (snd s))))"

definition ignore :: "('t, 'e, 'a) rm \<Rightarrow> ('t, 'f, unit) rm" where
  "ignore m s = (Inr (), snd (m s))"

text \<open>
  A request handler maps storage errors to responses (\<open>map_err\<close>) and turns a missing value into
  one (\<open>ok_or_raise\<close>). \<open>zoom\<close> runs a program of one component on its part of a larger state.
\<close>

definition map_err :: "('e \<Rightarrow> 'f) \<Rightarrow> ('t, 'e, 'a) rm \<Rightarrow> ('t, 'f, 'a) rm" where
  "map_err f m s = (case m s of (Inl e, s') \<Rightarrow> (Inl (f e), s') | (Inr a, s') \<Rightarrow> (Inr a, s'))"

definition ok_or_raise :: "'e \<Rightarrow> 'a option \<Rightarrow> ('t, 'e, 'a) rm" where
  "ok_or_raise e x = (case x of None \<Rightarrow> raise e | Some a \<Rightarrow> ret a)"

definition from_result :: "'e + 'a \<Rightarrow> ('t, 'e, 'a) rm" where
  "from_result x = (case x of Inl e \<Rightarrow> raise e | Inr a \<Rightarrow> ret a)"

definition zoom :: "('s \<Rightarrow> 't) \<Rightarrow> ('t \<Rightarrow> 's \<Rightarrow> 's) \<Rightarrow> ('t, 'e, 'a) rm \<Rightarrow> ('s, 'e, 'a) rm" where
  "zoom get_part put_part m s =
     (case m (fst s, get_part (snd s)) of (r, (fs, t)) \<Rightarrow> (r, (fs, put_part t (snd s))))"

definition tx :: "('t, 'a) dbm \<Rightarrow> ('t, 'a) dbm" where
  "tx m s =
     (case exec (\<lambda>t. t) s of
        (Inl e, s1) \<Rightarrow> (Inl e, s1)
      | (Inr _, s1) \<Rightarrow>
          (case m s1 of
             (Inl e, s2) \<Rightarrow> (Inl e, (fst s2, snd s))
           | (Inr a, s2) \<Rightarrow>
               (case exec (\<lambda>t. t) s2 of
                  (Inl e, s3) \<Rightarrow> (Inl e, (fst s3, snd s))
                | (Inr _, s3) \<Rightarrow> (Inr a, s3))))"

section \<open>Running a program without faults\<close>

lemma stmt_ok [simp]: "stmt f ([], t) = (Inr (fst (f t)), ([], snd (f t)))"
  by (simp add: stmt_def)

lemma query_ok [simp]: "query f ([], t) = (Inr (f t), ([], t))"
  by (simp add: query_def)

lemma exec_ok [simp]: "exec f ([], t) = (Inr (), ([], f t))"
  by (simp add: exec_def)

lemma ok_or_raise_simps [simp]:
  "ok_or_raise e (Some a) = ret a"
  "ok_or_raise e None = raise e"
  by (simp_all add: ok_or_raise_def)

lemma from_result_simps [simp]:
  "from_result (Inr a) = ret a"
  "from_result (Inl e) = raise e"
  by (simp_all add: from_result_def)

lemma cstmt_ok [simp]:
  "cstmt g ([], t) = (case g t of None \<Rightarrow> (Inl Sqlx, ([], t)) | Some (a, t') \<Rightarrow> (Inr a, ([], t')))"
  by (auto simp: cstmt_def split: option.splits)

lemma act_ok [simp]: "act f ([], t) = (Inr (fst (f t)), ([], snd (f t)))"
  by (simp add: act_def)

lemma ignore_apply [simp]: "ignore m s = (Inr (), snd (m s))"
  by (simp add: ignore_def)

lemma ret_apply [simp]: "ret a s = (Inr a, s)"
  by (simp add: ret_def)

lemma raise_apply [simp]: "raise e s = (Inl e, s)"
  by (simp add: raise_def)

lemma tx_ok_Inr: "m ([], t) = (Inr a, ([], t')) \<Longrightarrow> tx m ([], t) = (Inr a, ([], t'))"
  by (simp add: tx_def)

lemma tx_ok_Inl: "m ([], t) = (Inl e, ([], t')) \<Longrightarrow> tx m ([], t) = (Inl e, ([], t))"
  by (simp add: tx_def)

lemma dbind_ok_Inr: "m s = (Inr a, s') \<Longrightarrow> dbind m f s = f a s'"
  by (simp add: dbind_def)

lemma dbind_Inl_run: "m s = (Inl e, s') \<Longrightarrow> dbind m f s = (Inl e, s')"
  by (simp add: dbind_def)

lemma dbind_Inr: "dbind m f s = (Inr b, s'') \<longleftrightarrow>
  (\<exists>a s'. m s = (Inr a, s') \<and> f a s' = (Inr b, s''))"
  by (auto simp: dbind_def split: prod.splits sum.splits)

lemma stmt_InrD: "stmt f (fs, t) = (Inr a, (fs', t')) \<Longrightarrow> a = fst (f t) \<and> t' = snd (f t)"
  by (auto simp: stmt_def split: list.splits if_splits)

lemma stmt_InlD: "stmt f (fs, t) = (Inl e, (fs', t')) \<Longrightarrow> t' = t \<and> e = Sqlx"
  by (auto simp: stmt_def split: list.splits if_splits)

lemma tx_abort: "tx m (fs, t) = (Inl e, (fs', t')) \<Longrightarrow> t' = t"
  by (auto simp: tx_def exec_def stmt_def split: prod.splits sum.splits list.splits if_splits)

lemma tx_commitD:
  assumes "tx m (fs, t) = (Inr a, (fs', t'))"
  shows "\<exists>fs1 fs2. m (fs1, t) = (Inr a, (fs2, t'))"
  using assms
  by (auto simp: tx_def exec_def stmt_def split: prod.splits sum.splits list.splits if_splits) blast+

section \<open>What a program may do to the tables\<close>

text \<open>
  \<open>steps R m\<close>: whatever fails, the tables before and after a run of \<open>m\<close> are related by
  \<open>R\<close>. For a reflexive and transitive \<open>R\<close> it follows from the same property of the
  statements \<open>m\<close> is made of.
\<close>

definition steps :: "('t \<Rightarrow> 't \<Rightarrow> bool) \<Rightarrow> ('t, 'e, 'a) rm \<Rightarrow> bool" where
  "steps R m = (\<forall>fs t r fs' t'. m (fs, t) = (r, (fs', t')) \<longrightarrow> R t t')"

lemma stepsI: "(\<And>fs t r fs' t'. m (fs, t) = (r, (fs', t')) \<Longrightarrow> R t t') \<Longrightarrow> steps R m"
  by (simp add: steps_def)

lemma stepsD: "steps R m \<Longrightarrow> m (fs, t) = (r, (fs', t')) \<Longrightarrow> R t t'"
  by (simp add: steps_def)

lemma steps_ret: "reflp R \<Longrightarrow> steps R (ret a)"
  by (auto simp: steps_def dest: reflpD)

lemma steps_raise: "reflp R \<Longrightarrow> steps R (raise e)"
  by (auto simp: steps_def dest: reflpD)

lemma steps_stmt: "reflp R \<Longrightarrow> (\<And>t. R t (snd (f t))) \<Longrightarrow> steps R (stmt f)"
  by (auto simp: steps_def stmt_def split: list.splits if_splits dest: reflpD)

lemma steps_query: "reflp R \<Longrightarrow> steps R (query f)"
  unfolding query_def by (rule steps_stmt) (auto dest: reflpD)

lemma steps_exec: "reflp R \<Longrightarrow> (\<And>t. R t (f t)) \<Longrightarrow> steps R (exec f)"
  unfolding exec_def by (rule steps_stmt) auto

lemma steps_cstmt:
  assumes "reflp R" and "\<And>t a t'. g t = Some (a, t') \<Longrightarrow> R t t'"
  shows "steps R (cstmt g)"
proof (rule stepsI)
  fix fs t r fs' t'
  assume run: "cstmt g (fs, t) = (r, (fs', t'))"
  have "R t (snd (case g t of None \<Rightarrow> (None, t) | Some (a, t') \<Rightarrow> (Some a, t')))" for t
    using assms by (auto split: option.splits dest: reflpD)
  then have "steps R (stmt (\<lambda>t. case g t of None \<Rightarrow> (None, t) | Some (a, t') \<Rightarrow> (Some a, t')))"
    by (rule steps_stmt [OF assms(1)])
  with run show "R t t'"
    by (auto simp: cstmt_def split: prod.splits sum.splits option.splits dest: stepsD)
qed

lemma steps_act: "(\<And>t. R t (snd (f t))) \<Longrightarrow> steps R (act f)"
  by (auto simp: steps_def act_def)

lemma steps_ignore: "steps R m \<Longrightarrow> steps R (ignore m)"
  by (rule stepsI) (metis ignore_apply prod.exhaust_sel snd_conv stepsD)

lemma steps_dbind:
  assumes "transp R" and "steps R m" and "\<And>a. steps R (f a)"
  shows "steps R (dbind m f)"
proof (rule stepsI)
  fix fs t r fs' t'
  assume run: "dbind m f (fs, t) = (r, (fs', t'))"
  obtain x fs1 t1 where m: "m (fs, t) = (x, (fs1, t1))"
    by (metis surj_pair)
  then have R1: "R t t1" using assms(2) by (rule stepsD [rotated])
  show "R t t'"
  proof (cases x)
    case (Inl e)
    with run m R1 show ?thesis by (simp add: dbind_def)
  next
    case (Inr a)
    with run m have "f a (fs1, t1) = (r, (fs', t'))" by (simp add: dbind_def)
    then have "R t1 t'" using assms(3) stepsD by metis
    with R1 assms(1) show ?thesis by (meson transpD)
  qed
qed

lemma steps_tx:
  assumes "reflp R" and "steps R m"
  shows "steps R (tx m)"
proof (rule stepsI)
  fix fs t r fs' t'
  assume run: "tx m (fs, t) = (r, (fs', t'))"
  show "R t t'"
  proof (cases r)
    case (Inl e)
    with run have "t' = t" by (auto dest: tx_abort)
    with assms(1) show ?thesis by (auto dest: reflpD)
  next
    case (Inr a)
    with run assms(2) show ?thesis by (auto dest: tx_commitD stepsD)
  qed
qed

lemma steps_map_err: "steps R m \<Longrightarrow> steps R (map_err f m)"
  by (rule stepsI) (auto simp: map_err_def split: prod.splits sum.splits dest: stepsD)

lemma steps_ok_or_raise: "reflp R \<Longrightarrow> steps R (ok_or_raise e x)"
  by (cases x) (simp_all add: ok_or_raise_def steps_ret steps_raise)

lemma steps_from_result: "reflp R \<Longrightarrow> steps R (from_result x)"
  by (cases x) (simp_all add: from_result_def steps_ret steps_raise)

lemma steps_zoom:
  assumes "steps R m" and "\<And>s t. R (get_part s) t \<Longrightarrow> R' s (put_part t s)"
  shows "steps R' (zoom get_part put_part m)"
  by (rule stepsI) (auto simp: zoom_def split: prod.splits intro: assms(2) dest: stepsD [OF assms(1)])

lemma steps_if: "(c \<Longrightarrow> steps R m) \<Longrightarrow> (\<not> c \<Longrightarrow> steps R n) \<Longrightarrow> steps R (if c then m else n)"
  by simp

lemma steps_case_option:
  "(x = None \<Longrightarrow> steps R m) \<Longrightarrow> (\<And>a. x = Some a \<Longrightarrow> steps R (f a)) \<Longrightarrow>
    steps R (case x of None \<Rightarrow> m | Some a \<Rightarrow> f a)"
  by (cases x) simp_all

lemma steps_case_prod: "(\<And>a b. x = (a, b) \<Longrightarrow> steps R (f a b)) \<Longrightarrow> steps R (case x of (a, b) \<Rightarrow> f a b)"
  by (cases x) simp

lemmas steps_split = steps_if steps_case_option steps_case_prod

lemmas steps_rules = steps_ret steps_raise steps_query steps_exec steps_stmt steps_cstmt
  steps_act steps_ignore steps_map_err steps_ok_or_raise steps_from_result steps_dbind steps_tx

text \<open>\<open>dry m\<close>: a run that starts without faults to come ends without any.\<close>

definition dry :: "('t, 'e, 'a) rm \<Rightarrow> bool" where
  "dry m = (\<forall>t. fst (snd (m ([], t))) = [])"

lemma dryD: "dry m \<Longrightarrow> m ([], t) = (r, (fs, t')) \<Longrightarrow> fs = []"
  by (metis dry_def fst_conv snd_conv)

lemma dry_basic [simp]:
  "dry (ret a)" "dry (raise e)" "dry (stmt f)" "dry (query q)" "dry (exec x)" "dry (cstmt g)" "dry (act h)"
  "dry (ok_or_raise e o')" "dry (from_result res)"
  by (auto simp: dry_def ok_or_raise_def from_result_def split: option.splits sum.splits)

lemma dry_dbind:
  assumes "dry m" and "\<And>a. dry (f a)"
  shows "dry (dbind m f)"
  unfolding dry_def
proof
  fix t
  obtain x fs t1 where run: "m ([], t) = (x, (fs, t1))" by (metis surj_pair)
  with assms(1) have "fs = []" by (rule dryD)
  with run assms(2) show "fst (snd (dbind m f ([], t))) = []"
    by (cases x) (auto simp: dbind_def dry_def)
qed

lemma dry_map_err: "dry m \<Longrightarrow> dry (map_err f m)"
  by (auto simp: dry_def map_err_def split: sum.splits prod.splits) (metis fst_conv snd_conv)+

lemma dry_ignore: "dry m \<Longrightarrow> dry (ignore m)"
  by (simp add: dry_def)

lemma dry_zoom: "dry m \<Longrightarrow> dry (zoom g p m)"
  by (auto simp: dry_def zoom_def split: prod.splits) (metis fst_conv snd_conv)

lemma dry_case_option: "dry m \<Longrightarrow> (\<And>a. dry (f a)) \<Longrightarrow> dry (case x of None \<Rightarrow> m | Some a \<Rightarrow> f a)"
  by (cases x) simp_all

lemma dry_if: "dry m \<Longrightarrow> dry n \<Longrightarrow> dry (if c then m else n)"
  by simp

lemmas dry_rules = dry_dbind dry_map_err dry_ignore dry_zoom dry_case_option dry_if

text \<open>
  \<open>pads m\<close>: any run without faults may be followed by a fault. From each tables, \<open>m\<close> issues
  some number of statements if none fails, and behaves the same when just those succeed.
\<close>

definition pads :: "('t, 'e, 'a) rm \<Rightarrow> bool" where
  "pads m = (\<forall>t. \<exists>k r t'. m ([], t) = (r, ([], t')) \<and> (\<forall>fs. m (replicate k False @ fs, t) = (r, (fs, t'))))"

lemma padsI:
  "(\<And>t. \<exists>k r t'. m ([], t) = (r, ([], t')) \<and> (\<forall>fs. m (replicate k False @ fs, t) = (r, (fs, t')))) \<Longrightarrow> pads m"
  by (simp add: pads_def)

lemma padsD:
  assumes "pads m" and "m ([], t) = (r, ([], t'))"
  shows "\<exists>k. \<forall>fs. m (replicate k False @ fs, t) = (r, (fs, t'))"
  using assms by (auto simp: pads_def) (metis prod.inject)

lemma pads_basic: "pads (ret a)" "pads (raise e)" "pads (act h)" "pads (ok_or_raise e' x)" "pads (from_result y)"
  by (auto simp: pads_def act_def ok_or_raise_def from_result_def split: option.splits sum.splits
      intro!: exI [of _ 0])

lemma pads_stmt: "pads (stmt f)"
  by (rule padsI, rule exI [of _ 1]) (simp add: stmt_def)

lemma pads_sql: "pads (query q)" "pads (exec x)" "pads (cstmt g)"
  unfolding query_def exec_def
  by (rule pads_stmt)+ (rule padsI, rule exI [of _ 1], auto simp: cstmt_def stmt_def split: option.splits)

lemma pads_dbind:
  assumes "pads m" and "\<And>a. pads (f a)"
  shows "pads (dbind m f)"
proof (rule padsI)
  fix t
  from assms(1) obtain k r t1 where m: "m ([], t) = (r, ([], t1))"
    "\<forall>fs. m (replicate k False @ fs, t) = (r, (fs, t1))" unfolding pads_def by metis
  show "\<exists>k r t'. dbind m f ([], t) = (r, ([], t')) \<and> (\<forall>fs. dbind m f (replicate k False @ fs, t) = (r, (fs, t')))"
  proof (cases r)
    case (Inl e)
    with m show ?thesis by (intro exI [of _ k]) (auto simp: dbind_def)
  next
    case (Inr a)
    from assms(2) obtain j q t2 where f: "f a ([], t1) = (q, ([], t2))"
      "\<forall>fs. f a (replicate j False @ fs, t1) = (q, (fs, t2))" unfolding pads_def by metis
    with m Inr show ?thesis
      by (intro exI [of _ "k + j"] exI [of _ q] exI [of _ t2]) (auto simp: dbind_def replicate_add)
  qed
qed

lemma pads_map_err: "pads m \<Longrightarrow> pads (map_err f m)"
proof (rule padsI)
  fix t
  assume "pads m"
  then obtain k r t1 where m: "m ([], t) = (r, ([], t1))"
    "\<forall>fs. m (replicate k False @ fs, t) = (r, (fs, t1))" unfolding pads_def by metis
  then show "\<exists>k r t'. map_err f m ([], t) = (r, ([], t'))
      \<and> (\<forall>fs. map_err f m (replicate k False @ fs, t) = (r, (fs, t')))"
    by (intro exI [of _ k]) (cases r; simp add: map_err_def)
qed

lemma pads_ignore: "pads m \<Longrightarrow> pads (ignore m)"
  by (auto simp: pads_def) (metis snd_conv)

lemma pads_if: "pads m \<Longrightarrow> pads n \<Longrightarrow> pads (if c then m else n)"
  by simp

lemma pads_case_option:
  "(x = None \<Longrightarrow> pads m) \<Longrightarrow> (\<And>a. x = Some a \<Longrightarrow> pads (f a)) \<Longrightarrow>
    pads (case x of None \<Rightarrow> m | Some a \<Rightarrow> f a)"
  by (cases x) simp_all

lemma pads_case_prod: "(\<And>a b. pads (f a b)) \<Longrightarrow> pads (case x of (a, b) \<Rightarrow> f a b)"
  by (cases x) simp

lemmas pads_rules = pads_basic pads_stmt pads_sql pads_dbind pads_map_err pads_ignore pads_if
  pads_case_option pads_case_prod

text \<open>A sequence of calls, each on its own, whatever the ones before it returned.\<close>

fun run_seq :: "('t, 'e, unit) rm list \<Rightarrow> 't conn \<Rightarrow> 't conn" where
  "run_seq [] s = s"
| "run_seq (m # ms) s = run_seq ms (snd (m s))"

lemma run_seq_steps:
  assumes "reflp R" and "transp R" and "\<forall>m \<in> set ms. steps R m"
  shows "R (snd s) (snd (run_seq ms s))"
  using assms(3)
proof (induction ms arbitrary: s)
  case Nil
  with assms(1) show ?case by (simp add: reflpD)
next
  case (Cons m ms)
  obtain r fs' t' where run: "m (fst s, snd s) = (r, (fs', t'))"
    by (metis surj_pair)
  from Cons.prems have "steps R m" by simp
  from this run have "R (snd s) t'" by (rule stepsD)
  moreover from Cons.IH [of "(fs', t')"] Cons.prems
  have "R t' (snd (run_seq ms (fs', t')))" by simp
  ultimately show ?case
    using run assms(2) by (auto dest: transpD)
qed

text \<open>An invariant of the tables is the case \<open>R t t' = (I t \<longrightarrow> I t')\<close>.\<close>

definition preserve :: "('t \<Rightarrow> bool) \<Rightarrow> 't \<Rightarrow> 't \<Rightarrow> bool" where
  "preserve I t t' = (I t \<longrightarrow> I t')"

lemma reflp_preserve [simp, intro]: "reflp (preserve I)"
  by (auto simp: reflp_def preserve_def)

lemma transp_preserve [simp, intro]: "transp (preserve I)"
  by (auto simp: transp_def preserve_def)

lemma cstmt_InrD: "cstmt g (fs, t) = (Inr a, (fs', t')) \<Longrightarrow> g t = Some (a, t')"
  by (auto simp: cstmt_def stmt_def split: list.splits if_splits option.splits prod.splits)

lemma found_InrD: "dbind (query f) (ok_or_raise e) (fs, t) = (Inr r, (fs', t')) \<Longrightarrow> t' = t \<and> f t = Some r"
  by (cases "f t") (auto simp: query_def dbind_Inr dest!: stmt_InrD)

lemma steps_committed:
  assumes "\<And>t. R t t" and "\<And>fs t a fs' t'. m (fs, t) = (Inr a, (fs', t')) \<Longrightarrow> R t t'"
  shows "steps R (tx m)"
proof (rule stepsI)
  fix fs t r fs' t'
  assume run: "tx m (fs, t) = (r, (fs', t'))"
  show "R t t'"
    using run assms by (cases r) (auto dest: tx_abort tx_commitD)
qed

lemma steps_then_read:
  assumes "steps R m" and "\<And>x. steps (=) (f x)"
  shows "steps R (dbind m f)"
proof (rule stepsI)
  fix fs t r fs' t'
  assume "dbind m f (fs, t) = (r, (fs', t'))"
  with assms show "R t t'"
    by (auto simp: steps_def dbind_def split: prod.splits sum.splits) (metis surj_pair)
qed

lemma steps_weaker: "steps R m \<Longrightarrow> (\<And>t t'. R t t' \<Longrightarrow> S t t') \<Longrightarrow> steps S m"
  by (auto simp: steps_def)

lemma steps_drop_value: "reflp R \<Longrightarrow> transp R \<Longrightarrow> steps R m \<Longrightarrow> steps R (dbind m (\<lambda>_. ret ()))"
  by (intro steps_dbind steps_ret)

text \<open>\<open>steps_at R t m\<close>: the same from the tables \<open>t\<close> only, for a step that what was read before decides.\<close>

definition steps_at :: "('t \<Rightarrow> 't \<Rightarrow> bool) \<Rightarrow> 't \<Rightarrow> ('t, 'e, 'a) rm \<Rightarrow> bool" where
  "steps_at R t m = (\<forall>fs r fs' t'. m (fs, t) = (r, (fs', t')) \<longrightarrow> R t t')"

lemma steps_steps_at: "steps R m \<longleftrightarrow> (\<forall>t. steps_at R t m)"
  by (auto simp: steps_def steps_at_def)

lemma steps_at_query:
  assumes "reflp R" and "steps_at R t (f (q t))"
  shows "steps_at R t (dbind (query q) f)"
  using assms unfolding steps_at_def
  by (auto simp: dbind_def query_def stmt_def split: list.splits if_splits dest: reflpD)

lemma steps_at_if: "(c \<Longrightarrow> steps_at R s m) \<Longrightarrow> (\<not> c \<Longrightarrow> steps_at R s n) \<Longrightarrow> steps_at R s (if c then m else n)"
  by simp

lemma steps_at_then:
  assumes "steps_at R s m" and "\<And>x. steps S (f x)" and "\<And>b c. R s b \<Longrightarrow> S b c \<Longrightarrow> R s c"
  shows "steps_at R s (dbind m f)"
  unfolding steps_at_def
proof (intro allI impI)
  fix fs r fs' s'
  assume run: "dbind m f (fs, s) = (r, (fs', s'))"
  obtain x fs1 s1 where m: "m (fs, s) = (x, (fs1, s1))" by (metis surj_pair)
  with assms(1) have "R s s1" by (simp add: steps_at_def)
  with run m show "R s s'"
    by (cases x) (auto simp: dbind_def dest: stepsD [OF assms(2)] assms(3))
qed

lemma steps_at_zoom:
  assumes "steps_at R (g s) m" and "\<And>t. R (g s) t \<Longrightarrow> R' s (p t s)"
  shows "steps_at R' s (zoom g p m)"
  using assms by (fastforce simp: steps_at_def zoom_def split: prod.splits)

section \<open>Components seen through their calls\<close>

text \<open>
  The calls of a component, each of which moves its tables along a preorder. Any sequence of them
  does too, whatever the calls answer.
\<close>

locale guarded_calls =
  fixes perform :: "'c \<Rightarrow> ('t, 'e, unit) rm"
    and R :: "'t \<Rightarrow> 't \<Rightarrow> bool"
  assumes stays: "reflp R"
    and chains: "transp R"
    and each: "steps R (perform c)"
begin

lemma run_calls: "R t (snd (run_seq (map perform calls) (fs, t)))"
  using run_seq_steps [OF stays chains, of "map perform calls" "(fs, t)"] each by simp

lemma run_calls_at: "R (snd s) (snd (run_seq (map perform calls) s))"
  using run_calls [of "snd s" calls "fst s"] by simp

end

locale invariant_calls =
  fixes perform :: "'c \<Rightarrow> ('t, 'e, unit) rm"
    and I :: "'t \<Rightarrow> bool"
  assumes keeps: "steps (preserve I) (perform c)"

sublocale invariant_calls \<subseteq> guarded_calls perform "preserve I"
  by unfold_locales (auto intro: keeps)

context invariant_calls
begin

lemma run_keeps: "I (snd s) \<Longrightarrow> I (snd (run_seq (map perform calls) s))"
  using run_calls_at [of s calls] by (simp add: preserve_def)

end

end
