(* ===== verification/Citations.thy ===== *)
theory Citations
  imports Mentions Db "HOL-Library.Option_ord" "HOL-Library.Char_ord" "HOL-Library.List_Lexorder"
    "HOL-Library.Product_Lexorder" "HOL-Library.Multiset"
begin

text \<open>
  The sources a provider's answer cites (\<open>crates/extractors/src/citations.rs\<close>), from the text and
  from the response's annotations, the difference of two runs (\<open>diff.rs\<close>), and how everything
  extracted is stored (\<open>persist.rs\<close> with the repositories \<open>mentions.rs\<close>, \<open>citations.rs\<close> and
  \<open>brand_accuracy.rs\<close>). The regular-expression engine and the URL parser are parameters: the
  matches of the two patterns as byte ranges, and the host and path of a URL.
\<close>

section \<open>Citations\<close>

datatype source_type = Docs | Reddit | Wikipedia | Youtube | GeneralWeb

primrec source_wire_str :: "source_type \<Rightarrow> string" where
  "source_wire_str Docs = ''docs''"
| "source_wire_str Reddit = ''reddit''"
| "source_wire_str Wikipedia = ''wikipedia''"
| "source_wire_str Youtube = ''youtube''"
| "source_wire_str GeneralWeb = ''general_web''"

record citation =
  ct_url :: "string option"
  ct_domain :: string
  ct_frequency :: u32
  ct_source_type :: "source_type option"

record web_tools =
  url_matches :: "string \<Rightarrow> (nat \<times> nat) list"
  domain_matches :: "string \<Rightarrow> (nat \<times> nat) list"
  url_parse :: "string \<Rightarrow> (string option \<times> string) option"
  web_unicode :: unicode

definition infer_source_type :: "web_tools \<Rightarrow> string \<Rightarrow> string \<Rightarrow> source_type option" where
  "infer_source_type wt domain path =
     (let d = lowercase (web_unicode wt) domain
      in if str_contains d ''reddit.com'' then Some Reddit
         else if ends_with ''wikipedia.org'' d then Some Wikipedia
         else if d = ''youtube.com'' \<or> ends_with ''.youtube.com'' d \<or> d = ''youtu.be'' then Some Youtube
         else if starts_with ''docs.'' d \<or> starts_with ''/docs'' path \<or> ends_with ''.readthedocs.io'' d then Some Docs
         else Some GeneralWeb)"

definition is_trailing_punct :: "char \<Rightarrow> bool" where
  "is_trailing_punct c = List.member [CHR ''.'', CHR '','', CHR '';'', CHR '':'', CHR '')''] c"

definition trim_trailing :: "string \<Rightarrow> string" where
  "trim_trailing s = rev (dropWhile is_trailing_punct (rev s))"

text \<open>
  The map from \<open>(domain, url)\<close> to the citation, as the list of its values: an entry is bumped in
  place or added. The order of a hash map is never seen, since the output is sorted on the key.
\<close>

definition same_citation :: "citation \<Rightarrow> citation \<Rightarrow> bool" where
  "same_citation a b = (ct_domain a = ct_domain b \<and> ct_url a = ct_url b)"

fun tally :: "citation \<Rightarrow> citation list \<Rightarrow> citation list" where
  "tally c [] = [c]"
| "tally c (e # es) =
     (if same_citation e c then e\<lparr>ct_frequency := ct_frequency e + ct_frequency c\<rparr> # es else e # tally c es)"

definition in_order :: "citation list \<Rightarrow> citation list" where
  "in_order cs = sort_key ct_domain (rev (sort_key ct_url cs))"

text \<open>A URL that parses to a host, as one occurrence.\<close>

definition url_citation :: "web_tools \<Rightarrow> string \<Rightarrow> citation option" where
  "url_citation wt raw =
     (case url_parse wt raw of
        None \<Rightarrow> None
      | Some (host, path) \<Rightarrow>
          let domain = lowercase (web_unicode wt) (unwrap_or [] host)
          in if domain = [] then None
             else Some \<lparr>ct_url = Some raw, ct_domain = domain, ct_frequency = 1,
                        ct_source_type = infer_source_type wt domain path\<rparr>)"

definition url_hits :: "web_tools \<Rightarrow> string \<Rightarrow> ((nat \<times> nat) \<times> citation) list" where
  "url_hits wt message =
     List.map_filter
       (\<lambda>(a, b). map_option (\<lambda>c. ((a, b), c)) (url_citation wt (trim_trailing (slice message a b))))
       (url_matches wt message)"

definition domain_hit :: "web_tools \<Rightarrow> string \<Rightarrow> (nat \<times> nat) list \<Rightarrow> nat \<times> nat \<Rightarrow> citation option" where
  "domain_hit wt message seen_offsets m =
     (if list_ex (\<lambda>(s, e). s \<le> fst m \<and> snd m \<le> e) seen_offsets then None
      else let token = slice message (fst m) (snd m)
           in if \<not> List.member token (CHR ''.'') then None
              else let domain = lowercase (web_unicode wt) token
                   in Some \<lparr>ct_url = None, ct_domain = domain, ct_frequency = 1,
                            ct_source_type = infer_source_type wt domain ''/''\<rparr>)"

definition text_hits :: "web_tools \<Rightarrow> string \<Rightarrow> citation list" where
  "text_hits wt message =
     (let urls = url_hits wt message
      in map snd urls @ List.map_filter (domain_hit wt message (map fst urls)) (domain_matches wt message))"

definition extract_citations :: "web_tools \<Rightarrow> string \<Rightarrow> citation list" where
  "extract_citations wt message = in_order (fold tally (text_hits wt message) [])"

definition json_arr :: "json \<Rightarrow> json list option" where
  "json_arr j = (case j of JArr xs \<Rightarrow> Some xs | _ \<Rightarrow> None)"

definition annotation_hit :: "web_tools \<Rightarrow> json \<Rightarrow> citation option" where
  "annotation_hit wt ann =
     Option.bind (json_get ''url_citation'' ann) (\<lambda>u.
     Option.bind (json_get ''url'' u) (\<lambda>v.
     Option.bind (json_as_str v) (\<lambda>url_str. url_citation wt (trim_trailing url_str))))"

definition choice_annotations :: "json \<Rightarrow> json list" where
  "choice_annotations choice =
     unwrap_or []
       (Option.bind (json_get ''message'' choice) (\<lambda>m. Option.bind (json_get ''annotations'' m) json_arr))"

definition annotation_hits :: "web_tools \<Rightarrow> json \<Rightarrow> citation list" where
  "annotation_hits wt raw_response =
     (case Option.bind (json_get ''choices'' raw_response) json_arr of
        None \<Rightarrow> []
      | Some choices \<Rightarrow> List.map_filter (annotation_hit wt) (concat (map choice_annotations choices)))"

definition extract_citations_from_annotations :: "web_tools \<Rightarrow> json \<Rightarrow> citation list" where
  "extract_citations_from_annotations wt raw_response = in_order (fold tally (annotation_hits wt raw_response) [])"

definition merge_citations :: "citation list \<Rightarrow> citation list \<Rightarrow> citation list" where
  "merge_citations a b = in_order (fold tally (a @ b) [])"

section \<open>The difference of two runs\<close>

record run_extraction_diff =
  rd_added_mentions :: "mention list"
  rd_dropped_mentions :: "mention list"
  rd_added_citations :: "citation list"
  rd_dropped_citations :: "citation list"

definition same_entity :: "mention \<Rightarrow> mention \<Rightarrow> bool" where
  "same_entity a b =
     (to_ascii_lowercase (me_entity a) = to_ascii_lowercase (me_entity b) \<and> me_is_brand a = me_is_brand b)"

definition diff_extractions ::
  "mention list \<Rightarrow> mention list \<Rightarrow> citation list \<Rightarrow> citation list \<Rightarrow> run_extraction_diff" where
  "diff_extractions prior_mentions current_mentions prior_citations current_citations =
     \<lparr>rd_added_mentions = filter (\<lambda>m. \<not> list_ex (\<lambda>p. same_entity p m) prior_mentions) current_mentions,
      rd_dropped_mentions = filter (\<lambda>m. \<not> list_ex (\<lambda>c. same_entity c m) current_mentions) prior_mentions,
      rd_added_citations = filter (\<lambda>c. \<not> list_ex (\<lambda>p. same_citation p c) prior_citations) current_citations,
      rd_dropped_citations = filter (\<lambda>c. \<not> list_ex (\<lambda>n. same_citation n c) current_citations) prior_citations\<rparr>"

section \<open>The tables\<close>

record mention_row =
  mr_id :: uuid
  mr_prompt_run_id :: uuid
  mr_entity :: string
  mr_char_offset :: int
  mr_rank :: int
  mr_matched_text :: string
  mr_sentiment_label :: "string option"
  mr_sentiment_score :: "int option"
  mr_sentiment_lane :: "string option"
  mr_created_at :: int

record citation_row =
  ci_id :: uuid
  ci_prompt_run_id :: uuid
  ci_url :: "string option"
  ci_domain :: string
  ci_frequency :: int
  ci_source_type :: "string option"
  ci_created_at :: int

record claim_row =
  ec_id :: uuid
  ec_prompt_run_id :: uuid
  ec_entity :: string
  ec_claim_text :: string
  ec_claim_kind :: string
  ec_char_offset :: "int option"
  ec_confidence :: int
  ec_extractor_lane :: string
  ec_created_at :: int

text \<open>\<open>known_runs\<close> are the rows of \<open>prompt_runs\<close> that the three foreign keys point to.\<close>

record extract_db =
  known_runs :: "uuid list"
  mention_rows :: "mention_row list"
  citation_rows :: "citation_row list"
  claim_rows :: "claim_row list"

definition mention_row_ok :: "mention_row \<Rightarrow> bool" where
  "mention_row_ok r =
     ((case mr_sentiment_label r of None \<Rightarrow> True | Some l \<Rightarrow> l \<in> set [''positive'', ''neutral'', ''negative''])
      \<and> (case mr_sentiment_score r of None \<Rightarrow> True | Some s \<Rightarrow> 0 \<le> s \<and> s \<le> 100)
      \<and> (case mr_sentiment_lane r of None \<Rightarrow> True
         | Some l \<Rightarrow> l \<in> set [''deterministic_lexicon'', ''non_deterministic'']))"

definition claim_row_ok :: "claim_row \<Rightarrow> bool" where
  "claim_row_ok r =
     (ec_claim_kind r = ''factual_statement'' \<and> 0 \<le> ec_confidence r \<and> ec_confidence r \<le> 100
      \<and> ec_extractor_lane r \<in> set [''deterministic_sentence'', ''non_deterministic''])"

definition insert_mention :: "mention_row \<Rightarrow> (extract_db, uuid) dbm" where
  "insert_mention r = cstmt (\<lambda>d.
     if mr_id r \<in> mr_id ` set (mention_rows d) \<or> \<not> List.member (known_runs d) (mr_prompt_run_id r)
        \<or> \<not> mention_row_ok r then None
     else Some (mr_id r, d\<lparr>mention_rows := mention_rows d @ [r]\<rparr>))"

definition insert_citation :: "citation_row \<Rightarrow> (extract_db, uuid) dbm" where
  "insert_citation r = cstmt (\<lambda>d.
     if ci_id r \<in> ci_id ` set (citation_rows d) \<or> \<not> List.member (known_runs d) (ci_prompt_run_id r) then None
     else Some (ci_id r, d\<lparr>citation_rows := citation_rows d @ [r]\<rparr>))"

definition insert_claim :: "claim_row \<Rightarrow> (extract_db, uuid) dbm" where
  "insert_claim r = cstmt (\<lambda>d.
     if ec_id r \<in> ec_id ` set (claim_rows d) \<or> \<not> List.member (known_runs d) (ec_prompt_run_id r)
        \<or> \<not> claim_row_ok r then None
     else Some (ec_id r, d\<lparr>claim_rows := claim_rows d @ [r]\<rparr>))"

definition mentions_list_by_run :: "uuid \<Rightarrow> (extract_db, mention_row list) dbm" where
  "mentions_list_by_run rid =
     query (\<lambda>d. sort_key (\<lambda>r. (mr_rank r, mr_id r)) (filter (\<lambda>r. mr_prompt_run_id r = rid) (mention_rows d)))"

definition citations_list_by_run :: "uuid \<Rightarrow> (extract_db, citation_row list) dbm" where
  "citations_list_by_run rid =
     query (\<lambda>d. sort_key ci_id (filter (\<lambda>r. ci_prompt_run_id r = rid) (citation_rows d)))"

definition list_claims_by_run :: "uuid \<Rightarrow> (extract_db, claim_row list) dbm" where
  "list_claims_by_run rid =
     query (\<lambda>d. sort_key (\<lambda>r. (unwrap_or 2147483647 (ec_char_offset r), ec_id r))
                  (filter (\<lambda>r. ec_prompt_run_id r = rid) (claim_rows d)))"

definition mentions_get :: "uuid \<Rightarrow> (extract_db, mention_row option) dbm" where
  "mentions_get rid = query (\<lambda>d. find (\<lambda>r. mr_id r = rid) (mention_rows d))"

definition citations_get :: "uuid \<Rightarrow> (extract_db, citation_row option) dbm" where
  "citations_get rid = query (\<lambda>d. find (\<lambda>r. ci_id r = rid) (citation_rows d))"

definition get_claim :: "uuid \<Rightarrow> (extract_db, claim_row option) dbm" where
  "get_claim rid = query (\<lambda>d. find (\<lambda>r. ec_id r = rid) (claim_rows d))"

section \<open>Persisting\<close>

text \<open>\<open>as i32\<close> of a \<open>usize\<close> or a \<open>u32\<close> keeps the low 32 bits, read as signed.\<close>

definition wrap_i32 :: "nat \<Rightarrow> int" where
  "wrap_i32 n = (int n + 2 ^ 31) mod 2 ^ 32 - 2 ^ 31"

text \<open>The rows; the identifiers are drawn from outside, one for each row.\<close>

definition row_of_mention :: "(nat \<Rightarrow> uuid) \<Rightarrow> uuid \<Rightarrow> int \<Rightarrow> nat \<Rightarrow> mention \<Rightarrow> mention_row" where
  "row_of_mention ulid rid now i m =
     \<lparr>mr_id = ulid i, mr_prompt_run_id = rid, mr_entity = me_entity m, mr_char_offset = wrap_i32 (me_char_offset m),
      mr_rank = wrap_i32 (me_rank m), mr_matched_text = me_matched_text m,
      mr_sentiment_label = Some (label_as_str (se_label (me_sentiment m))),
      mr_sentiment_score = Some (uint (se_score (me_sentiment m))),
      mr_sentiment_lane = Some (se_lane (me_sentiment m)), mr_created_at = now\<rparr>"

definition row_of_citation :: "(nat \<Rightarrow> uuid) \<Rightarrow> uuid \<Rightarrow> int \<Rightarrow> nat \<Rightarrow> citation \<Rightarrow> citation_row" where
  "row_of_citation ulid rid now i c =
     \<lparr>ci_id = ulid i, ci_prompt_run_id = rid, ci_url = ct_url c, ci_domain = ct_domain c,
      ci_frequency = wrap_i32 (unat (ct_frequency c)),
      ci_source_type = map_option source_wire_str (ct_source_type c), ci_created_at = now\<rparr>"

definition row_of_claim :: "(nat \<Rightarrow> uuid) \<Rightarrow> uuid \<Rightarrow> int \<Rightarrow> nat \<Rightarrow> claim \<Rightarrow> claim_row" where
  "row_of_claim ulid rid now i c =
     \<lparr>ec_id = ulid i, ec_prompt_run_id = rid, ec_entity = cl_entity c, ec_claim_text = cl_claim_text c,
      ec_claim_kind = cl_claim_kind c, ec_char_offset = map_option wrap_i32 (cl_char_offset c),
      ec_confidence = uint (cl_confidence c), ec_extractor_lane = cl_extractor_lane c, ec_created_at = now\<rparr>"

fun insert_rows :: "('r \<Rightarrow> (extract_db, uuid) dbm) \<Rightarrow> 'r list \<Rightarrow> (extract_db, unit) dbm" where
  "insert_rows ins [] = ret ()"
| "insert_rows ins (r # rs) = dbind (ins r) (\<lambda>_. insert_rows ins rs)"

record id_draws =
  id_mention :: "nat \<Rightarrow> uuid"
  id_citation :: "nat \<Rightarrow> uuid"
  id_claim :: "nat \<Rightarrow> uuid"

definition extract_and_persist ::
  "web_tools \<Rightarrow> id_draws \<Rightarrow> config \<Rightarrow> uuid \<Rightarrow> string \<Rightarrow> json \<Rightarrow> int \<Rightarrow> (extract_db, nat \<times> nat \<times> nat) dbm" where
  "extract_and_persist wt ids cfg prompt_run_id message_text raw_response now =
     (let mentions = extract_mentions (web_unicode wt) message_text cfg;
          citations = merge_citations (extract_citations wt message_text)
            (extract_citations_from_annotations wt raw_response);
          claims = extract_claims (web_unicode wt) message_text cfg
      in dbind (insert_rows insert_mention
                  (map2 (row_of_mention (id_mention ids) prompt_run_id now) [0 ..< length mentions] mentions)) (\<lambda>_.
         dbind (insert_rows insert_citation
                  (map2 (row_of_citation (id_citation ids) prompt_run_id now) [0 ..< length citations] citations)) (\<lambda>_.
         dbind (insert_rows insert_claim
                  (map2 (row_of_claim (id_claim ids) prompt_run_id now) [0 ..< length claims] claims)) (\<lambda>_.
           ret (length mentions, length citations, length claims)))))"

section \<open>Every occurrence is counted\<close>

abbreviation citation_key :: "citation \<Rightarrow> string \<times> string option" where
  "citation_key c \<equiv> (ct_domain c, ct_url c)"

text \<open>How often a key was counted.\<close>

definition counted :: "string \<times> string option \<Rightarrow> citation list \<Rightarrow> u32" where
  "counted k cs = sum_list (map ct_frequency (filter (\<lambda>c. citation_key c = k) cs))"

lemma counted_append [simp]: "counted k (xs @ ys) = counted k xs + counted k ys"
  by (simp add: counted_def)

lemma counted_Nil [simp]: "counted k [] = 0"
  by (simp add: counted_def)

lemma same_citation_key: "same_citation a b \<longleftrightarrow> citation_key a = citation_key b"
  by (auto simp: same_citation_def)

lemma tally_counted: "counted k (tally c es) = counted k es + (if citation_key c = k then ct_frequency c else 0)"
  by (induction es) (auto simp: counted_def same_citation_key)

lemma tally_keys: "citation_key ` set (tally c es) = insert (citation_key c) (citation_key ` set es)"
  by (induction es) (auto simp: same_citation_key image_iff)

lemma tally_distinct: "distinct (map citation_key es) \<Longrightarrow> distinct (map citation_key (tally c es))"
proof (induction es)
  case (Cons e es)
  then show ?case using tally_keys [of c es] by (auto simp: same_citation_key image_iff)
qed simp

lemma fold_tally:
  "counted k (fold tally cs es) = counted k es + counted k cs"
  "citation_key ` set (fold tally cs es) = citation_key ` set es \<union> citation_key ` set cs"
  "distinct (map citation_key es) \<Longrightarrow> distinct (map citation_key (fold tally cs es))"
proof (induction cs arbitrary: es)
  case (Cons c cs)
  { case 1 show ?case using Cons.IH(1) [of "tally c es"] by (simp add: tally_counted) (simp add: counted_def) }
  { case 2 show ?case using Cons.IH(2) [of "tally c es"] by (simp add: tally_keys) }
  { case 3 then show ?case using Cons.IH(3) [of "tally c es"] by (simp add: tally_distinct) }
qed (simp_all add: counted_def)

lemma counted_mset: "mset xs = mset ys \<Longrightarrow> counted k xs = counted k ys"
proof -
  have "counted k zs = sum_mset (image_mset ct_frequency (filter_mset (\<lambda>c. citation_key c = k) (mset zs)))" for zs
    by (simp add: counted_def sum_mset_sum_list flip: mset_filter mset_map)
  then show "mset xs = mset ys \<Longrightarrow> counted k xs = counted k ys" by simp
qed

lemma in_order_mset [simp]: "mset (in_order cs) = mset cs"
  by (simp add: in_order_def)

text \<open>The order of the output: by domain, and with the URL first among the citations of one domain.\<close>

definition citation_le :: "citation \<Rightarrow> citation \<Rightarrow> bool" where
  "citation_le a b = (ct_domain a < ct_domain b \<or> (ct_domain a = ct_domain b \<and> ct_url b \<le> ct_url a))"

lemma sorted_wrt_insort:
  assumes "sorted_wrt citation_le ys" and "\<forall>y \<in> set ys. ct_url y \<le> ct_url x"
  shows "sorted_wrt citation_le (insort_key ct_domain x ys)"
  using assms
proof (induction ys)
  case (Cons y ys)
  then show ?case
    by (auto simp: citation_le_def set_insort_key not_le dest: order_trans less_imp_le)
qed simp

lemma sorted_in_order: "sorted_wrt citation_le (in_order cs)"
proof -
  have "sorted_wrt citation_le (sort_key ct_domain xs)" if "sorted_wrt (\<lambda>a b. ct_url b \<le> ct_url a) xs" for xs
    using that
  proof (induction xs)
    case (Cons x xs)
    then show ?case by (simp add: sorted_wrt_insort)
  qed simp
  moreover have "sorted_wrt (\<lambda>a b. ct_url b \<le> ct_url a) (rev (sort_key ct_url cs))"
    using sorted_sort_key [of ct_url cs] by (simp add: sorted_wrt_rev sorted_map)
  ultimately show ?thesis by (simp add: in_order_def)
qed

text \<open>What a list of occurrences becomes.\<close>

definition tallied :: "citation list \<Rightarrow> citation list \<Rightarrow> bool" where
  "tallied hits out =
     (sorted_wrt citation_le out \<and> distinct (map citation_key out)
      \<and> citation_key ` set out = citation_key ` set hits \<and> (\<forall>k. counted k out = counted k hits))"

lemma tallied_in_order: "tallied hits (in_order (fold tally hits []))"
proof -
  let ?t = "fold tally hits []"
  have "set (in_order ?t) = set ?t" by (rule mset_eq_setD) simp
  moreover have "distinct (map citation_key (in_order ?t)) = distinct (map citation_key ?t)"
    by (intro mset_eq_imp_distinct_iff) (simp add: mset_map)
  ultimately show ?thesis
    using fold_tally [where cs = hits and es = "[]"] counted_mset [OF in_order_mset]
    by (simp add: tallied_def sorted_in_order)
qed

text \<open>
  C7 (equivalence). The citations of a text, of the annotations, and of both merged are sorted by
  domain and address, hold each pair of domain and address once, and count all its occurrences.
\<close>

theorem citations_count_every_occurrence:
  "tallied (text_hits wt message) (extract_citations wt message)
   \<and> tallied (annotation_hits wt raw) (extract_citations_from_annotations wt raw)
   \<and> tallied (text_hits wt message @ annotation_hits wt raw)
       (merge_citations (extract_citations wt message) (extract_citations_from_annotations wt raw))"
proof (intro conjI)
  show t: "tallied (text_hits wt message) (extract_citations wt message)"
    unfolding extract_citations_def by (rule tallied_in_order)
  show a: "tallied (annotation_hits wt raw) (extract_citations_from_annotations wt raw)"
    unfolding extract_citations_from_annotations_def by (rule tallied_in_order)
  let ?parts = "extract_citations wt message @ extract_citations_from_annotations wt raw"
  have "tallied ?parts (in_order (fold tally ?parts []))" by (rule tallied_in_order)
  moreover have "citation_key ` set ?parts = citation_key ` set (text_hits wt message @ annotation_hits wt raw)"
    using t a by (simp add: tallied_def image_Un)
  moreover have "counted k ?parts = counted k (text_hits wt message @ annotation_hits wt raw)" for k
    using t a by (cases k) (simp add: tallied_def)
  ultimately show "tallied (text_hits wt message @ annotation_hits wt raw)
       (merge_citations (extract_citations wt message) (extract_citations_from_annotations wt raw))"
    by (simp add: tallied_def merge_citations_def)
qed

section \<open>What is stored\<close>

text \<open>The rows one extraction writes, table by table.\<close>

definition extracted_mention_rows :: "web_tools \<Rightarrow> id_draws \<Rightarrow> config \<Rightarrow> uuid \<Rightarrow> string \<Rightarrow> int \<Rightarrow> mention_row list" where
  "extracted_mention_rows wt ids cfg rid message now =
     (let ms = extract_mentions (web_unicode wt) message cfg
      in map2 (row_of_mention (id_mention ids) rid now) [0 ..< length ms] ms)"

definition extracted_citation_rows :: "web_tools \<Rightarrow> id_draws \<Rightarrow> uuid \<Rightarrow> string \<Rightarrow> json \<Rightarrow> int \<Rightarrow> citation_row list" where
  "extracted_citation_rows wt ids rid message raw now =
     (let cs = merge_citations (extract_citations wt message) (extract_citations_from_annotations wt raw)
      in map2 (row_of_citation (id_citation ids) rid now) [0 ..< length cs] cs)"

definition extracted_claim_rows :: "web_tools \<Rightarrow> id_draws \<Rightarrow> config \<Rightarrow> uuid \<Rightarrow> string \<Rightarrow> int \<Rightarrow> claim_row list" where
  "extracted_claim_rows wt ids cfg rid message now =
     (let cs = extract_claims (web_unicode wt) message cfg
      in map2 (row_of_claim (id_claim ids) rid now) [0 ..< length cs] cs)"

lemma classified_ok: "se_lane (classify_sentiment u m off) = ''deterministic_lexicon''"
    "0 \<le> uint (se_score (classify_sentiment u m off))" "uint (se_score (classify_sentiment u m off)) \<le> 100"
proof -
  show "se_lane (classify_sentiment u m off) = ''deterministic_lexicon''"
    by (simp add: classify_sentiment_def neutral_sentiment_def Let_def)
  have small: "n \<le> 100 \<Longrightarrow> uint (word_of_nat n :: u8) \<le> 100" for n :: nat
    by (simp add: uint_nat unat_of_nat)
  have pos: "uint (word_of_nat (60 + min d 4 * 10) :: u8) \<le> 100" for d
    by (rule small) simp
  have neg: "uint (word_of_int (max (40 - int (min d 4) * 10) 0) :: u8) \<le> 100" for d
  proof -
    define k where "k = nat (max (40 - int (min d 4) * 10) 0)"
    have "k \<le> 100" "max (40 - int (min d 4) * 10) 0 = int k" by (simp_all add: k_def)
    with small [of k] show ?thesis by (simp only: of_int_of_nat_eq)
  qed
  show "uint (se_score (classify_sentiment u m off)) \<le> 100"
    using pos neg by (simp add: classify_sentiment_def neutral_sentiment_def Let_def)
qed simp

lemma mention_sentiment:
  "m \<in> set (extract_mentions u message cfg) \<Longrightarrow> \<exists>off. me_sentiment m = classify_sentiment u message off"
proof -
  have keep: "m \<in> set (assign_ranks i ms) \<Longrightarrow> \<exists>m' \<in> set ms. me_sentiment m = me_sentiment m'" for i ms
    by (induction ms arbitrary: i) auto
  assume "m \<in> set (extract_mentions u message cfg)"
  then obtain m' name variants b where "me_sentiment m = me_sentiment m'"
    and "m' \<in> set (hit u message b name variants)"
    unfolding extract_mentions_def Let_def by (fastforce dest!: keep)
  then show ?thesis by (auto simp: hit_def split: option.splits)
qed

text \<open>
  (bounds). Every mention and claim row extracted from an answer passes the checks of its table:
  a score of at most 100, a known tone, and a confidence of at most 100.
\<close>

theorem extracted_rows_satisfy_checks:
  "list_all mention_row_ok (extracted_mention_rows wt ids cfg rid message now)
   \<and> list_all claim_row_ok (extracted_claim_rows wt ids cfg rid message now)"
proof (intro conjI)
  have "mention_row_ok (row_of_mention ulid rid now i m)"
    if m: "m \<in> set (extract_mentions (web_unicode wt) message cfg)" for ulid i m
  proof -
    obtain off where off: "me_sentiment m = classify_sentiment (web_unicode wt) message off"
      using mention_sentiment [OF m] by blast
    show ?thesis
      using classified_ok [of "web_unicode wt" message off]
      by (cases "se_label (classify_sentiment (web_unicode wt) message off)")
        (simp_all add: mention_row_ok_def row_of_mention_def off)
  qed
  then show "list_all mention_row_ok (extracted_mention_rows wt ids cfg rid message now)"
    by (auto simp: list_all_iff extracted_mention_rows_def Let_def dest!: set_zip_rightD)
  have "claim_row_ok (row_of_claim ulid rid now i c)"
    if "c \<in> set (extract_claims (web_unicode wt) message cfg)" for ulid i c
    using that by (auto simp: extract_claims_def row_of_claim_def claim_row_ok_def)
  then show "list_all claim_row_ok (extracted_claim_rows wt ids cfg rid message now)"
    by (auto simp: list_all_iff extracted_claim_rows_def Let_def dest!: set_zip_rightD)
qed


text \<open>An insert either fails and changes nothing, or adds its row.\<close>

definition appends :: "('r \<Rightarrow> (extract_db, uuid) dbm) \<Rightarrow> ('r \<Rightarrow> extract_db \<Rightarrow> extract_db) \<Rightarrow> bool" where
  "appends ins add =
     (\<forall>r s. snd (snd (ins r s)) = (if is_ok (fst (ins r s)) then add r (snd s) else snd s))"

lemma appends_inserts:
  "appends insert_mention (\<lambda>r d. d\<lparr>mention_rows := mention_rows d @ [r]\<rparr>)"
  "appends insert_citation (\<lambda>r d. d\<lparr>citation_rows := citation_rows d @ [r]\<rparr>)"
  "appends insert_claim (\<lambda>r d. d\<lparr>claim_rows := claim_rows d @ [r]\<rparr>)"
  by (auto simp: appends_def insert_mention_def insert_citation_def insert_claim_def cstmt_def stmt_def
      split: list.splits if_splits)

lemma insert_rows_prefix:
  assumes "appends ins add"
  shows "\<exists>i \<le> length rs. snd (snd (insert_rows ins rs s)) = fold add (take i rs) (snd s)
    \<and> is_ok (fst (insert_rows ins rs s)) = (i = length rs)"
proof (induction rs arbitrary: s)
  case Nil
  then show ?case by (simp add: ret_def)
next
  case (Cons r rs)
  obtain res s' where ins: "ins r s = (res, s')" by (cases "ins r s")
  with assms have s': "snd s' = (if is_ok res then add r (snd s) else snd s)"
    unfolding appends_def by (metis fst_conv snd_conv)
  show ?case
  proof (cases res)
    case (Inl e)
    with s' show ?thesis by (intro exI [of _ 0]) (simp add: dbind_def ins)
  next
    case (Inr x)
    obtain i where "i \<le> length rs" "snd (snd (insert_rows ins rs s')) = fold add (take i rs) (snd s')"
      "is_ok (fst (insert_rows ins rs s')) = (i = length rs)" using Cons.IH [of s'] by blast
    with Inr s' show ?thesis by (intro exI [of _ "Suc i"]) (simp add: dbind_def ins)
  qed
qed

lemma fold_appends:
  "fold (\<lambda>r d. d\<lparr>mention_rows := mention_rows d @ [r]\<rparr>) ms d = d\<lparr>mention_rows := mention_rows d @ ms\<rparr>"
  "fold (\<lambda>r d. d\<lparr>citation_rows := citation_rows d @ [r]\<rparr>) cs d = d\<lparr>citation_rows := citation_rows d @ cs\<rparr>"
  "fold (\<lambda>r d. d\<lparr>claim_rows := claim_rows d @ [r]\<rparr>) ls d = d\<lparr>claim_rows := claim_rows d @ ls\<rparr>"
proof -
  show "fold (\<lambda>r d. d\<lparr>mention_rows := mention_rows d @ [r]\<rparr>) ms d = d\<lparr>mention_rows := mention_rows d @ ms\<rparr>"
    by (induction ms arbitrary: d) simp_all
  show "fold (\<lambda>r d. d\<lparr>citation_rows := citation_rows d @ [r]\<rparr>) cs d = d\<lparr>citation_rows := citation_rows d @ cs\<rparr>"
    by (induction cs arbitrary: d) simp_all
  show "fold (\<lambda>r d. d\<lparr>claim_rows := claim_rows d @ [r]\<rparr>) ls d = d\<lparr>claim_rows := claim_rows d @ ls\<rparr>"
    by (induction ls arbitrary: d) simp_all
qed

text \<open>
  C28 (error). Whatever statement fails, extraction leaves the rows it inserted before: a prefix of
  the mentions, of the citations only after all mentions, of the claims only after all
  citations, and it succeeds exactly when all of them are in.
\<close>

theorem interrupted_extraction_keeps_a_prefix:
  "\<exists>i j k. i \<le> length (extracted_mention_rows wt ids cfg rid message now)
     \<and> j \<le> length (extracted_citation_rows wt ids rid message raw now)
     \<and> k \<le> length (extracted_claim_rows wt ids cfg rid message now)
     \<and> snd (snd (extract_and_persist wt ids cfg rid message raw now (fs, d))) = d
       \<lparr>mention_rows := mention_rows d @ take i (extracted_mention_rows wt ids cfg rid message now),
        citation_rows := citation_rows d @ take j (extracted_citation_rows wt ids rid message raw now),
        claim_rows := claim_rows d @ take k (extracted_claim_rows wt ids cfg rid message now)\<rparr>
     \<and> (j = 0 \<or> i = length (extracted_mention_rows wt ids cfg rid message now))
     \<and> (k = 0 \<or> j = length (extracted_citation_rows wt ids rid message raw now))
     \<and> is_ok (fst (extract_and_persist wt ids cfg rid message raw now (fs, d)))
         = (i = length (extracted_mention_rows wt ids cfg rid message now)
            \<and> j = length (extracted_citation_rows wt ids rid message raw now)
            \<and> k = length (extracted_claim_rows wt ids cfg rid message now))"
proof -
  let ?out = "extract_and_persist wt ids cfg rid message raw now (fs, d)"
  define ms where "ms = extracted_mention_rows wt ids cfg rid message now"
  define cs where "cs = extracted_citation_rows wt ids rid message raw now"
  define ls where "ls = extracted_claim_rows wt ids cfg rid message now"
  have out: "?out = dbind (insert_rows insert_mention ms) (\<lambda>_. dbind (insert_rows insert_citation cs) (\<lambda>_.
      dbind (insert_rows insert_claim ls) (\<lambda>_. ret (length ms, length cs, length ls)))) (fs, d)"
    by (simp add: ms_def cs_def ls_def extract_and_persist_def extracted_mention_rows_def
        extracted_citation_rows_def extracted_claim_rows_def Let_def)
  obtain r1 s1 where 1: "insert_rows insert_mention ms (fs, d) = (r1, s1)"
    by (cases "insert_rows insert_mention ms (fs, d)")
  obtain r2 s2 where 2: "insert_rows insert_citation cs s1 = (r2, s2)"
    by (cases "insert_rows insert_citation cs s1")
  obtain r3 s3 where 3: "insert_rows insert_claim ls s2 = (r3, s3)"
    by (cases "insert_rows insert_claim ls s2")
  obtain i where i: "i \<le> length ms" "snd s1 = d\<lparr>mention_rows := mention_rows d @ take i ms\<rparr>"
    "is_ok r1 = (i = length ms)"
    using insert_rows_prefix [OF appends_inserts(1), of ms "(fs, d)"] by (auto simp: 1 fold_appends)
  obtain j where j: "j \<le> length cs" "snd s2 = (snd s1)\<lparr>citation_rows := citation_rows (snd s1) @ take j cs\<rparr>"
    "is_ok r2 = (j = length cs)"
    using insert_rows_prefix [OF appends_inserts(2), of cs s1] by (auto simp: 2 fold_appends)
  obtain k where k: "k \<le> length ls" "snd s3 = (snd s2)\<lparr>claim_rows := claim_rows (snd s2) @ take k ls\<rparr>"
    "is_ok r3 = (k = length ls)"
    using insert_rows_prefix [OF appends_inserts(3), of ls s2] by (auto simp: 3 fold_appends)
  have "\<exists>i j k. i \<le> length ms \<and> j \<le> length cs \<and> k \<le> length ls
     \<and> snd (snd ?out) = d\<lparr>mention_rows := mention_rows d @ take i ms, citation_rows := citation_rows d @ take j cs,
                          claim_rows := claim_rows d @ take k ls\<rparr>
     \<and> (j = 0 \<or> i = length ms) \<and> (k = 0 \<or> j = length cs)
     \<and> is_ok (fst ?out) = (i = length ms \<and> j = length cs \<and> k = length ls)"
  proof (cases r1)
    case (Inl e)
    with i show ?thesis
      by (intro exI [of _ i] exI [of _ 0]) (simp add: out dbind_def 1)
  next
    case r1: (Inr x)
    show ?thesis
    proof (cases r2)
      case (Inl e)
      with i j r1 show ?thesis
        by (intro exI [of _ i] exI [of _ j] exI [of _ 0]) (simp add: out dbind_def 1 2)
    next
      case (Inr y)
      with i j k r1 show ?thesis
        by (intro exI [of _ i] exI [of _ j] exI [of _ k]) (cases r3; simp add: out dbind_def 1 2 3 ret_def)
    qed
  qed
  then show ?thesis by (simp only: ms_def cs_def ls_def)
qed

end
