(* ===== verification/Egress.thy ===== *)
theory Egress
  imports RustNum
begin

unbundle bit_operations_syntax

text \<open>
  Outbound destination guardrails: the address classification and the literal parser of
  \<open>crates/core/src/egress.rs\<close>, and the webhook guard built on them in
  \<open>crates/scheduler/src/webhooks/ssrf.rs\<close>. The standard library's \<open>IpAddr\<close> predicates and
  its text parser are written out; the URL parser, the resolver and the HTTP client builder are
  parameters.
\<close>

section \<open>Addresses\<close>

text \<open>The four octets of an \<open>Ipv4Addr\<close>; the eight segments of an \<open>Ipv6Addr\<close>.\<close>

datatype ip_addr = V4 u8 u8 u8 u8 | V6 "u16 list"

definition v4_of_u32 :: "u32 \<Rightarrow> ip_addr" where
  "v4_of_u32 w = V4 (ucast (drop_bit 24 w)) (ucast (drop_bit 16 w)) (ucast (drop_bit 8 w)) (ucast w)"

text \<open>\<open>is_private\<close>, \<open>is_loopback\<close>, \<open>is_link_local\<close>, \<open>is_multicast\<close> and \<open>is_unspecified\<close>.\<close>

definition v4_is_private :: "u8 \<Rightarrow> u8 \<Rightarrow> bool" where
  "v4_is_private a b = (a = 10 \<or> a = 172 \<and> 16 \<le> b \<and> b \<le> 31 \<or> a = 192 \<and> b = 168)"

definition v4_is_multicast :: "u8 \<Rightarrow> bool" where
  "v4_is_multicast a = (224 \<le> a \<and> a \<le> 239)"

definition is_forbidden_ipv4 :: "u8 \<Rightarrow> u8 \<Rightarrow> u8 \<Rightarrow> u8 \<Rightarrow> bool" where
  "is_forbidden_ipv4 a b c d =
     (v4_is_private a b \<or> a = 127 \<or> (a = 169 \<and> b = 254) \<or> v4_is_multicast a
      \<or> (a = 0 \<and> b = 0 \<and> c = 0 \<and> d = 0) \<or> [a, b, c, d] = [169, 254, 169, 254] \<or> a = 0)"

definition is_ipv6_unique_local :: "u16 list \<Rightarrow> bool" where
  "is_ipv6_unique_local s = (hd s AND 0xfe00 = 0xfc00)"

definition is_ipv6_unicast_link_local :: "u16 list \<Rightarrow> bool" where
  "is_ipv6_unicast_link_local s = (hd s AND 0xffc0 = 0xfe80)"

definition is_forbidden_ipv6 :: "u16 list \<Rightarrow> bool" where
  "is_forbidden_ipv6 s =
     (s = [0, 0, 0, 0, 0, 0, 0, 1] \<or> s = [0, 0, 0, 0, 0, 0, 0, 0] \<or> hd s AND 0xff00 = 0xff00
      \<or> is_ipv6_unique_local s \<or> is_ipv6_unicast_link_local s)"

definition is_forbidden_ip :: "ip_addr \<Rightarrow> bool" where
  "is_forbidden_ip ip =
     (case ip of V4 a b c d \<Rightarrow> is_forbidden_ipv4 a b c d | V6 s \<Rightarrow> is_forbidden_ipv6 s)"

section \<open>The address parser of the standard library\<close>

text \<open>
  \<open>read_number\<close>: at most \<open>m\<close> digits (one more is an error), a value below \<open>bound\<close>, and
  a leading zero only where \<open>zero_prefix\<close> allows it. A reader returns the value and the rest
  of the input.
\<close>

fun read_digits :: "nat \<Rightarrow> nat \<Rightarrow> nat \<Rightarrow> nat \<Rightarrow> nat \<Rightarrow> string \<Rightarrow> (nat \<times> nat \<times> string) option" where
  "read_digits radix bound m acc cnt [] = Some (acc, cnt, [])"
| "read_digits radix bound m acc cnt (c # cs) =
     (case digit_val radix c of
        None \<Rightarrow> Some (acc, cnt, c # cs)
      | Some d \<Rightarrow>
          if bound \<le> acc * radix + d then None
          else if m < cnt + 1 then None
          else read_digits radix bound m (acc * radix + d) (cnt + 1) cs)"

definition read_number :: "nat \<Rightarrow> nat \<Rightarrow> nat \<Rightarrow> bool \<Rightarrow> string \<Rightarrow> (nat \<times> string) option" where
  "read_number radix bound m zero_prefix s =
     (case read_digits radix bound m 0 0 s of
        None \<Rightarrow> None
      | Some (n, cnt, r) \<Rightarrow>
          if cnt = 0 then None
          else if \<not> zero_prefix \<and> hd s = CHR ''0'' \<and> 1 < cnt then None
          else Some (n, r))"

definition read_char :: "char \<Rightarrow> string \<Rightarrow> string option" where
  "read_char c s = (case s of [] \<Rightarrow> None | x # xs \<Rightarrow> if x = c then Some xs else None)"

definition read_sep :: "char \<Rightarrow> nat \<Rightarrow> (string \<Rightarrow> ('a \<times> string) option) \<Rightarrow> string \<Rightarrow> ('a \<times> string) option" where
  "read_sep c i inner s = (if 0 < i then Option.bind (read_char c s) inner else inner s)"

definition read_octet :: "nat \<Rightarrow> string \<Rightarrow> (u8 \<times> string) option" where
  "read_octet i s =
     map_option (\<lambda>(n, r). (of_nat n, r)) (read_sep (CHR ''.'') i (read_number 10 256 3 False) s)"

definition read_ipv4 :: "string \<Rightarrow> ((u8 \<times> u8 \<times> u8 \<times> u8) \<times> string) option" where
  "read_ipv4 s =
     Option.bind (read_octet 0 s) (\<lambda>(a, s1).
     Option.bind (read_octet 1 s1) (\<lambda>(b, s2).
     Option.bind (read_octet 2 s2) (\<lambda>(c, s3).
     Option.bind (read_octet 3 s3) (\<lambda>(d, s4). Some ((a, b, c, d), s4)))))"

definition u16_be :: "u8 \<Rightarrow> u8 \<Rightarrow> u16" where
  "u16_be hi lo = push_bit 8 (ucast hi) OR ucast lo"

text \<open>
  \<open>read_groups\<close> from group \<open>i\<close> of \<open>limit\<close>: the groups read, whether they end in an
  embedded IPv4 address, and the rest of the input.
\<close>

function read_groups :: "nat \<Rightarrow> nat \<Rightarrow> string \<Rightarrow> u16 list \<times> bool \<times> string" where
  "read_groups i limit s =
     (if limit \<le> i then ([], False, s)
      else case (if i < limit - 1 then read_sep (CHR '':'') i read_ipv4 s else None) of
             Some ((a, b, c, d), r) \<Rightarrow> ([u16_be a b, u16_be c d], True, r)
           | None \<Rightarrow>
               (case read_sep (CHR '':'') i (read_number 16 65536 4 True) s of
                  None \<Rightarrow> ([], False, s)
                | Some (n, r) \<Rightarrow>
                    (case read_groups (i + 1) limit r of
                       (gs, v4, r') \<Rightarrow> (of_nat n # gs, v4, r'))))"
  by pat_completeness auto
termination
  by (relation "measure (\<lambda>(i, limit, s). limit - i)") auto

declare read_groups.simps [simp del]

definition read_ipv6 :: "string \<Rightarrow> (u16 list \<times> string) option" where
  "read_ipv6 s =
     (case read_groups 0 8 s of
        (hs, v4, r) \<Rightarrow>
          if length hs = 8 then Some (hs, r)
          else if v4 then None
          else Option.bind (read_char (CHR '':'') r) (\<lambda>r1.
               Option.bind (read_char (CHR '':'') r1) (\<lambda>r2.
                 (case read_groups 0 (8 - (length hs + 1)) r2 of
                    (ts, _, r3) \<Rightarrow> Some (hs @ replicate (8 - length hs - length ts) 0 @ ts, r3)))))"

definition parse_ip_addr :: "string \<Rightarrow> ip_addr option" where
  "parse_ip_addr s =
     (case or_else (map_option (\<lambda>((a, b, c, d), r). (V4 a b c d, r)) (read_ipv4 s))
                   (map_option (\<lambda>(g, r). (V6 g, r)) (read_ipv6 s)) of
        None \<Rightarrow> None
      | Some (ip, r) \<Rightarrow> if r = [] then Some ip else None)"

section \<open>Legacy literals and the host check\<close>

definition parse_legacy_int :: "string \<Rightarrow> nat option" where
  "parse_legacy_int s =
     (let (radix, digits) =
        (case or_else (strip_prefix ''0x'' s) (strip_prefix ''0X'' s) of
           Some rest \<Rightarrow> (16, rest)
         | None \<Rightarrow> if 1 < length s \<and> hd s = CHR ''0'' then (8, tl s) else (10, s))
      in if digits = [] then Some 0 else parse_uint 64 radix digits)"

text \<open>\<open>u64\<close> values after the range checks of the arms, so that the shifts lose no bit.\<close>

definition parse_ipv4_legacy_literal :: "string \<Rightarrow> ip_addr option" where
  "parse_ipv4_legacy_literal host =
     (if host = [] \<or> hd host = CHR ''-'' then None
      else let parts = split_on (CHR ''.'') host in
        if List.member parts [] \<or> 4 < length parts then None
        else Option.bind (those (map parse_legacy_int parts)) (\<lambda>nums.
          map_option (\<lambda>v. v4_of_u32 (of_nat v))
            (case nums of
               [a] \<Rightarrow> if a \<le> 0xffffffff then Some a else None
             | [a, b] \<Rightarrow> if a \<le> 0xff \<and> b \<le> 0xffffff then Some (push_bit 24 a OR b) else None
             | [a, b, c] \<Rightarrow>
                 if a \<le> 0xff \<and> b \<le> 0xff \<and> c \<le> 0xffff
                 then Some (push_bit 24 a OR push_bit 16 b OR c) else None
             | [a, b, c, d] \<Rightarrow>
                 if a \<le> 0xff \<and> b \<le> 0xff \<and> c \<le> 0xff \<and> d \<le> 0xff
                 then Some (push_bit 24 a OR push_bit 16 b OR push_bit 8 c OR d) else None
             | _ \<Rightarrow> None)))"

definition parse_ip_literal :: "string \<Rightarrow> ip_addr option" where
  "parse_ip_literal host = or_else (parse_ip_addr host) (parse_ipv4_legacy_literal host)"

datatype egress_error = EmptyHost | ForbiddenAddress string ip_addr

definition validate_resolved_ip :: "string \<Rightarrow> ip_addr \<Rightarrow> egress_error + unit" where
  "validate_resolved_ip host ip =
     (if is_forbidden_ip ip then Inl (ForbiddenAddress host ip) else Inr ())"

definition validate_host_literal :: "string \<Rightarrow> egress_error + unit" where
  "validate_host_literal host =
     (let normalized = trim_matches (CHR '']'') (trim_matches (CHR ''['') (str_trim host)) in
      if normalized = [] then Inl EmptyHost
      else case parse_ip_literal normalized of
             None \<Rightarrow> Inr ()
           | Some ip \<Rightarrow> validate_resolved_ip normalized ip)"

section \<open>The webhook guard\<close>

text \<open>
  What the guard reads of a parsed \<open>Url\<close>: scheme, \<open>host_str()\<close>,
  \<open>port_or_known_default()\<close> and its text. A pinned client only connects to its addresses.
\<close>

record url =
  u_scheme :: string
  u_host_str :: "string option"
  u_port :: "u16 option"
  u_text :: string

record pinned_client =
  pc_host :: string
  pc_addrs :: "ip_addr list"

datatype webhook_ssrf_error =
    InvalidUrl string string
  | InvalidScheme string
  | MissingHost string
  | ForbiddenTarget string egress_error
  | EmptyResolution string
  | ResolveFailed string string
  | ClientBuild string

definition is_loopback_dev_host :: "string \<Rightarrow> bool" where
  "is_loopback_dev_host host =
     (to_ascii_lowercase host = ''localhost'' \<or> host = ''127.0.0.1'' \<or> host = ''::1'')"

definition host_for_policy :: "url \<Rightarrow> webhook_ssrf_error + string" where
  "host_for_policy u =
     ok_or (MissingHost (u_text u))
       (map_option (\<lambda>h. trim_matches (CHR '']'') (trim_matches (CHR ''['') h)) (u_host_str u))"

definition validate_url_shape :: "url \<Rightarrow> webhook_ssrf_error + unit" where
  "validate_url_shape u =
     rbind (host_for_policy u) (\<lambda>host.
       if u_scheme u = ''https'' then Inr ()
       else if u_scheme u = ''http'' \<and> is_loopback_dev_host host then Inr ()
       else Inl (InvalidScheme (u_text u)))"

definition parse_url :: "(string \<Rightarrow> string + url) \<Rightarrow> string \<Rightarrow> webhook_ssrf_error + url" where
  "parse_url url_parse raw = map_sum (InvalidUrl raw) id (url_parse raw)"

definition validate_webhook_declaration_url ::
  "(string \<Rightarrow> string + url) \<Rightarrow> string \<Rightarrow> webhook_ssrf_error + url" where
  "validate_webhook_declaration_url url_parse raw =
     rbind (parse_url url_parse raw) (\<lambda>parsed.
     rbind (validate_url_shape parsed) (\<lambda>_.
     rbind (host_for_policy parsed) (\<lambda>host.
       if u_scheme parsed = ''http'' \<and> is_loopback_dev_host host then Inr parsed
       else rbind (map_sum (ForbiddenTarget raw) id (validate_host_literal host)) (\<lambda>_. Inr parsed))))"

fun validate_all :: "string \<Rightarrow> string \<Rightarrow> ip_addr list \<Rightarrow> webhook_ssrf_error + unit" where
  "validate_all raw host [] = Inr ()"
| "validate_all raw host (ip # ips) =
     rbind (map_sum (ForbiddenTarget raw) id (validate_resolved_ip host ip))
       (\<lambda>_. validate_all raw host ips)"

definition pinned_client_for_delivery ::
  "(string \<Rightarrow> string + url) \<Rightarrow> (string \<Rightarrow> u16 \<Rightarrow> string + ip_addr list)
     \<Rightarrow> (string \<Rightarrow> ip_addr list \<Rightarrow> string + unit) \<Rightarrow> string
     \<Rightarrow> webhook_ssrf_error + (pinned_client \<times> url)" where
  "pinned_client_for_delivery url_parse lookup_host client_build raw =
     rbind (validate_webhook_declaration_url url_parse raw) (\<lambda>parsed.
     rbind (host_for_policy parsed) (\<lambda>host.
     rbind (ok_or (InvalidUrl raw ''unknown port for scheme'') (u_port parsed)) (\<lambda>port.
     rbind (map_sum (ResolveFailed raw) id (lookup_host host port)) (\<lambda>resolved.
       if resolved = [] then Inl (EmptyResolution raw)
       else
         rbind (if is_loopback_dev_host host then Inr () else validate_all raw host resolved) (\<lambda>_.
         rbind (map_sum ClientBuild id (client_build host resolved)) (\<lambda>_.
           Inr (\<lparr>pc_host = host, pc_addrs = resolved\<rparr>, parsed)))))))"

section \<open>Lemmas\<close>

lemma map_sum_eq_Inr [res_simps]: "map_sum f id x = Inr b \<longleftrightarrow> x = Inr b"
  by (cases x) simp_all

lemma validate_all_ok: "validate_all raw host ips = Inr () \<longleftrightarrow> (\<forall>ip \<in> set ips. \<not> is_forbidden_ip ip)"
  by (induction ips) (auto simp: res_simps validate_resolved_ip_def)

lemmas ip_parser_simps =
  parse_ip_literal_def parse_ip_addr_def read_ipv4_def read_octet_def read_sep_def read_number_def
  read_ipv6_def read_groups.simps read_char_def digit_val_def u16_be_def

lemma parse_loopback_literals:
  "parse_ip_literal ''127.0.0.1'' = Some (V4 127 0 0 1)"
  "parse_ip_literal ''::1'' = Some (V6 [0, 0, 0, 0, 0, 0, 0, 1])"
  by (simp_all add: ip_parser_simps)

lemma parse_mapped_metadata:
  "parse_ip_literal ''::ffff:169.254.169.254'' = Some (V6 [0, 0, 0, 0, 0, 0xffff, 0xa9fe, 0xa9fe])"
  by (simp add: ip_parser_simps)

lemma digit_cases:
  assumes "digit_val 10 c \<noteq> None"
  shows "c \<in> set ''0123456789''"
proof -
  define n where "n = (of_char c :: nat)"
  from assms have "48 \<le> n" and "n \<le> 57"
    by (auto simp: digit_val_def Let_def n_def split: if_splits)
  then have "n = 48 \<or> n = 49 \<or> n = 50 \<or> n = 51 \<or> n = 52 \<or> n = 53 \<or> n = 54 \<or> n = 55 \<or> n = 56 \<or> n = 57"
    by presburger
  then have "\<exists>d \<in> set ''0123456789''. n = (of_char d :: nat)" by auto
  then obtain d where "d \<in> set ''0123456789''" and "n = (of_char d :: nat)" by blast
  then show ?thesis by (simp add: n_def)
qed

lemma decimal_chars:
  assumes "digit_val 10 c \<noteq> None"
  shows "digit_val 16 c \<noteq> None" and "\<not> is_cont c" and "\<not> is_ws [c]" and "c \<noteq> CHR '':''"
    and "c \<noteq> CHR ''[''" and "c \<noteq> CHR '']''" and "c \<noteq> CHR ''.''" and "c \<noteq> CHR ''-''"
    and "c \<noteq> CHR ''x''" and "c \<noteq> CHR ''X''"
  using digit_cases [OF assms]
  by (auto simp: digit_val_def is_cont_def is_ws_def unicode_ws_def)

lemma read_digits_all:
  "\<forall>c \<in> set s. digit_val radix c \<noteq> None \<Longrightarrow>
    read_digits radix bound m acc cnt s = None
    \<or> (\<exists>n k. read_digits radix bound m acc cnt s = Some (n, k, []))"
  by (induction s arbitrary: acc cnt) (auto split: option.splits)

lemma read_number_all:
  assumes "\<forall>c \<in> set s. digit_val radix c \<noteq> None"
  shows "read_number radix bound m z s = None \<or> (\<exists>n. read_number radix bound m z s = Some (n, []))"
  using read_digits_all [OF assms, of bound m 0 0]
  by (auto simp: read_number_def split: if_splits)

lemma read_ipv4_digits:
  assumes "\<forall>c \<in> set s. digit_val 10 c \<noteq> None"
  shows "read_ipv4 s = None"
  using read_number_all [OF assms, of 256 3 False]
  by (auto simp: read_ipv4_def read_octet_def read_sep_def read_char_def)

lemma read_ipv6_digits:
  assumes "\<forall>c \<in> set s. digit_val 10 c \<noteq> None"
  shows "read_ipv6 s = None"
proof -
  have hex: "\<forall>c \<in> set s. digit_val 16 c \<noteq> None" and colon: "CHR '':'' \<notin> set s"
    using assms decimal_chars(1,4) by blast+
  have nil: "read_groups 1 8 [] = ([], False, [])"
    by (simp add: read_groups.simps [of "Suc 0"] read_sep_def read_char_def)
  consider "read_groups 0 8 s = ([], False, s)" | g where "read_groups 0 8 s = ([g], False, [])"
    using read_number_all [OF hex, of 65536 4 True] read_ipv4_digits [OF assms] nil
    by (auto simp: read_groups.simps [of 0] read_sep_def)
  then show ?thesis
  proof cases
    case 1
    with colon show ?thesis
      by (cases s) (auto simp: read_ipv6_def read_char_def)
  next
    case 2
    then show ?thesis by (simp add: read_ipv6_def read_char_def)
  qed
qed

lemma show_nat_hd: "1 < length (show_nat n) \<Longrightarrow> hd (show_nat n) \<noteq> CHR ''0''"
proof (induction n rule: show_nat.induct)
  case (1 n)
  show ?case
  proof (cases "n < 10")
    case True
    with 1(2) show ?thesis by (simp add: show_nat.simps [of n])
  next
    case False
    have ne: "show_nat (n div 10) \<noteq> []" by simp
    show ?thesis
    proof (cases "1 < length (show_nat (n div 10))")
      case True
      with False 1(1) ne show ?thesis by (simp add: show_nat.simps [of n])
    next
      case one: False
      then have lt: "n div 10 < 10"
        using ne by (auto simp: show_nat.simps [of "n div 10"] split: if_splits)
      moreover have "0 < n div 10" using False by (simp add: div_greater_zero_iff)
      ultimately have "digit_char (n div 10) \<noteq> CHR ''0''"
        using digit_char_inj [of "n div 10" 0] by auto
      with False lt show ?thesis
        by (simp add: show_nat.simps [of n] show_nat.simps [of "n div 10"])
    qed
  qed
qed

lemma parse_legacy_show_nat:
  assumes "n < 2 ^ 64"
  shows "parse_legacy_int (show_nat n) = Some n"
proof -
  have none: "strip_prefix (CHR ''0'' # [x]) (show_nat n) = None"
    if "x = CHR ''x'' \<or> x = CHR ''X''" for x
  proof (rule strip_prefix_missing)
    show "x \<in> set (CHR ''0'' # [x])" by simp
    show "x \<notin> set (show_nat n)"
    proof
      assume "x \<in> set (show_nat n)"
      then have "digit_val 10 x \<noteq> None" by (rule bspec [OF show_nat_digits])
      with that decimal_chars(9,10) [of x] show False by simp
    qed
  qed
  show ?thesis
    using assms show_nat_hd [of n] parse_uint_show_nat [of n 64]
    by (auto simp: parse_legacy_int_def none)
qed

lemma show_nat_chars:
  assumes "c \<in> set (show_nat n)"
  shows "digit_val 10 c \<noteq> None"
  using assms by (rule bspec [OF show_nat_digits])

lemma parse_decimal_literal:
  assumes "n < 2 ^ 32"
  shows "parse_ip_literal (show_nat n) = Some (v4_of_u32 (of_nat n))"
proof -
  have "CHR ''.'' \<notin> set (show_nat n)" and "CHR ''-'' \<notin> set (show_nat n)"
    using show_nat_chars decimal_chars(7,8) by blast+
  moreover from this(2) have "hd (show_nat n) \<noteq> CHR ''-''"
    using hd_in_set [OF show_nat_not_Nil, of n] by metis
  ultimately have "parse_ipv4_legacy_literal (show_nat n) = Some (v4_of_u32 (of_nat n))"
    using assms parse_legacy_show_nat [of n]
    using not_sym [OF show_nat_not_Nil [of n]] by (simp add: parse_ipv4_legacy_literal_def split_on_none)
  then show ?thesis
    using show_nat_digits [of n]
    by (simp add: parse_ip_literal_def parse_ip_addr_def read_ipv4_digits read_ipv6_digits)
qed

lemma validate_show_nat:
  "validate_host_literal (show_nat n) =
     (case parse_ip_literal (show_nat n) of None \<Rightarrow> Inr () | Some ip \<Rightarrow> validate_resolved_ip (show_nat n) ip)"
proof -
  have "CHR ''['' \<notin> set (show_nat n)" and "CHR '']'' \<notin> set (show_nat n)"
    using show_nat_chars decimal_chars(5,6) by blast+
  moreover have "str_trim (show_nat n) = show_nat n"
    using show_nat_chars decimal_chars(2,3) by (intro str_trim_id) blast
  ultimately show ?thesis
    by (simp add: validate_host_literal_def trim_matches_id Let_def)
qed

section \<open>Properties\<close>

text \<open>
  C4 (safety). Delivery pins the client to the addresses it has vetted: the connection is https
  or a loopback fixture over http, goes to at least one address, exactly those the resolver gave
  for the URL's host, and none of them is forbidden unless the host is a development host, which
  over https can only be the name \<open>localhost\<close>.
\<close>

theorem pinned_client_is_vetted:
  assumes "pinned_client_for_delivery url_parse lookup_host client_build raw = Inr (client, u)"
  shows "url_parse raw = Inr u \<and> host_for_policy u = Inr (pc_host client)
    \<and> (\<exists>port. u_port u = Some port \<and> lookup_host (pc_host client) port = Inr (pc_addrs client))
    \<and> pc_addrs client \<noteq> []
    \<and> (u_scheme u = ''https'' \<or> u_scheme u = ''http'' \<and> is_loopback_dev_host (pc_host client))
    \<and> (\<forall>ip \<in> set (pc_addrs client). is_forbidden_ip ip \<longrightarrow>
         u_scheme u = ''http'' \<and> is_loopback_dev_host (pc_host client)
         \<or> to_ascii_lowercase (pc_host client) = ''localhost'')"
proof -
  have lit: "validate_host_literal ''127.0.0.1'' \<noteq> Inr ()" "validate_host_literal ''::1'' \<noteq> Inr ()"
    by (simp_all add: validate_host_literal_def str_trim_def is_cont_def is_ws_def unicode_ws_def
        trim_matches_def parse_loopback_literals validate_resolved_ip_def is_forbidden_ip_def
        is_forbidden_ipv4_def is_forbidden_ipv6_def)
  show ?thesis
    using assms lit
    by (auto simp: pinned_client_for_delivery_def validate_webhook_declaration_url_def
        validate_url_shape_def parse_url_def res_simps validate_all_ok is_loopback_dev_host_def
        split: if_splits)
qed

theorem pinned_client_is_vetted_witness:
  "\<not> is_forbidden_ip (V4 8 8 8 8)"
proof -
  let ?u = "\<lparr>u_scheme = ''https'', u_host_str = Some ''h'', u_port = Some 443, u_text = ''https://h/''\<rparr>"
  let ?c = "\<lparr>pc_host = ''h'', pc_addrs = [V4 8 8 8 8]\<rparr>"
  have "pinned_client_for_delivery (\<lambda>raw. Inr ?u) (\<lambda>h p. Inr [V4 8 8 8 8]) (\<lambda>h a. Inr ()) ''https://h/''
      = Inr (?c, ?u)"
    by (simp add: pinned_client_for_delivery_def validate_webhook_declaration_url_def parse_url_def
        validate_url_shape_def host_for_policy_def trim_matches_def validate_host_literal_def str_trim_def
        is_cont_def is_ws_def unicode_ws_def ip_parser_simps parse_ipv4_legacy_literal_def
        parse_legacy_int_def strip_prefix_def parse_uint_def is_loopback_dev_host_def
        to_ascii_lowercase_def ascii_lower_char_def validate_resolved_ip_def is_forbidden_ip_def
        is_forbidden_ipv4_def v4_is_private_def v4_is_multicast_def)
  from pinned_client_is_vetted [OF this] show ?thesis
    by (simp add: to_ascii_lowercase_def ascii_lower_char_def)
qed

text \<open>
  The undotted decimal spelling of an IPv4 address is read as that address, so
  the host check refuses it exactly when the address is forbidden: no 32-bit number spells a
  forbidden address past the guard.
\<close>

theorem decimal_spelling_is_vetted:
  assumes "n < 2 ^ 32"
  shows "validate_host_literal (show_nat n) =
    (if is_forbidden_ip (v4_of_u32 (of_nat n))
     then Inl (ForbiddenAddress (show_nat n) (v4_of_u32 (of_nat n))) else Inr ())"
  by (simp add: validate_show_nat parse_decimal_literal [OF assms] validate_resolved_ip_def)

theorem decimal_spelling_is_vetted_witness:
  "validate_host_literal ''2852039166'' = Inl (ForbiddenAddress ''2852039166'' (V4 169 254 169 254))"
proof -
  have "show_nat 2852039166 = ''2852039166''"
    by (simp add: show_nat.simps)
  with decimal_spelling_is_vetted [of 2852039166] show ?thesis
    by (simp add: v4_of_u32_def is_forbidden_ip_def is_forbidden_ipv4_def)
qed

text \<open>
  The IPv6 classification does not look inside IPv4-mapped addresses: the mapped
  form of every IPv4 address passes it, the metadata service and loopback included, and the host
  check accepts the literal.
\<close>

theorem mapped_ipv4_is_not_blocked:
  "\<not> is_forbidden_ip (V6 [0, 0, 0, 0, 0, 0xffff, u16_be a b, u16_be c d])
   \<and> validate_host_literal ''::ffff:169.254.169.254'' = Inr ()
   \<and> is_forbidden_ip (V4 169 254 169 254)"
proof (intro conjI)
  show "\<not> is_forbidden_ip (V6 [0, 0, 0, 0, 0, 0xffff, u16_be a b, u16_be c d])"
    by (simp add: is_forbidden_ip_def is_forbidden_ipv6_def is_ipv6_unique_local_def
        is_ipv6_unicast_link_local_def)
  show "validate_host_literal ''::ffff:169.254.169.254'' = Inr ()"
    by (simp add: validate_host_literal_def str_trim_def is_cont_def is_ws_def unicode_ws_def
        trim_matches_def parse_mapped_metadata validate_resolved_ip_def is_forbidden_ip_def
        is_forbidden_ipv6_def is_ipv6_unique_local_def is_ipv6_unicast_link_local_def)
  show "is_forbidden_ip (V4 169 254 169 254)"
    by (simp add: is_forbidden_ip_def is_forbidden_ipv4_def)
qed

end
