(* ===== verification/Signer.thy ===== *)
theory Signer
  imports RustNum
begin

unbundle bit_operations_syntax

text \<open>
  Webhook signatures (\<open>crates/scheduler/src/webhooks/signer.rs\<close>) and the secret's transport
  form: the base64 encoder of the command line (\<open>apps/cli/src/commands/webhook.rs\<close>), which
  stores the secret, and the decoder of the dispatcher
  (\<open>crates/scheduler/src/webhooks/poller.rs\<close>), which reads it back. HMAC-SHA256 is the
  parameter \<open>hmac\<close> (key, message).
\<close>

section \<open>Signing and verification\<close>

datatype verify_error =
    MissingHeader
  | MalformedHeader
  | Stale int int int
  | FutureTimestamp int int
  | BadSignature

definition DEFAULT_REPLAY_WINDOW_SECONDS :: int where
  "DEFAULT_REPLAY_WINDOW_SECONDS = 300"

text \<open>The bytes the MAC is computed over: timestamp, a dot, the body.\<close>

definition signed_message :: "int \<Rightarrow> u8 list \<Rightarrow> u8 list" where
  "signed_message ts body = str_bytes (show_int ts) @ str_bytes ''.'' @ body"

definition sign :: "(u8 list \<Rightarrow> u8 list \<Rightarrow> u8 list) \<Rightarrow> u8 list \<Rightarrow> u8 list \<Rightarrow> int \<Rightarrow> string" where
  "sign hmac secret body ts =
     (let signature = hmac secret (signed_message ts body)
      in ''v1=t='' @ show_int ts @ '',s='' @ hex_lower signature)"

definition parse_signature :: "string \<Rightarrow> verify_error + (int \<times> string)" where
  "parse_signature raw =
     rbind (ok_or MalformedHeader (strip_prefix ''v1='' raw)) (\<lambda>rest.
     rbind (ok_or MalformedHeader (split_once (CHR '','') rest)) (\<lambda>(t_part, s_part).
     rbind (ok_or MalformedHeader (strip_prefix ''t='' t_part)) (\<lambda>ts_str.
     rbind (ok_or MalformedHeader (strip_prefix ''s='' s_part)) (\<lambda>sig_hex.
     rbind (ok_or MalformedHeader (parse_i64 ts_str)) (\<lambda>timestamp.
       if sig_hex = [] \<or> \<not> list_all is_ascii_hexdigit sig_hex then Inl MalformedHeader
       else Inr (timestamp, sig_hex))))))"

text \<open>The subtraction is on \<open>i64\<close>.\<close>

definition verify ::
  "(u8 list \<Rightarrow> u8 list \<Rightarrow> u8 list) \<Rightarrow> u8 list \<Rightarrow> u8 list \<Rightarrow> string option \<Rightarrow> int \<Rightarrow> int
     \<Rightarrow> verify_error + unit" where
  "verify hmac secret body signature_header now_unix window_seconds =
     rbind (case map_option str_trim signature_header of
              None \<Rightarrow> Inl MissingHeader
            | Some s \<Rightarrow> if s = [] then Inl MissingHeader else Inr s) (\<lambda>raw.
     rbind (parse_signature raw) (\<lambda>(timestamp, expected_sig_hex).
       if now_unix < timestamp then Inl (FutureTimestamp timestamp now_unix)
       else if window_seconds < wrap_i64 (now_unix - timestamp)
       then Inl (Stale timestamp now_unix window_seconds)
       else if hex_lower (hmac secret (signed_message timestamp body)) = expected_sig_hex
       then Inr () else Inl BadSignature))"

section \<open>The stored secret\<close>

definition ALPHABET :: string where
  "ALPHABET = ''ABCDEFGHIJKLMNOPQRSTUVWXYZabcdefghijklmnopqrstuvwxyz0123456789+/''"

definition b64_char :: "u8 \<Rightarrow> char" where
  "b64_char w = ALPHABET ! unat w"

text \<open>One step per chunk of three bytes.\<close>

fun base64_encode :: "u8 list \<Rightarrow> string" where
  "base64_encode [] = []"
| "base64_encode [b0] =
     [b64_char (drop_bit 2 b0), b64_char (push_bit 4 (b0 AND 3) OR drop_bit 4 0), CHR ''='', CHR ''='']"
| "base64_encode [b0, b1] =
     [b64_char (drop_bit 2 b0), b64_char (push_bit 4 (b0 AND 3) OR drop_bit 4 b1),
      b64_char (push_bit 2 (b1 AND 15) OR drop_bit 6 0), CHR ''='']"
| "base64_encode (b0 # b1 # b2 # rest) =
     [b64_char (drop_bit 2 b0), b64_char (push_bit 4 (b0 AND 3) OR drop_bit 4 b1),
      b64_char (push_bit 2 (b1 AND 15) OR drop_bit 6 b2), b64_char (b2 AND 63)] @ base64_encode rest"

text \<open>\<open>build_reverse\<close>: the table maps an alphabet byte to its index, every other byte to -1.\<close>

fun index_of :: "char \<Rightarrow> string \<Rightarrow> nat \<Rightarrow> nat option" where
  "index_of c [] i = None"
| "index_of c (x # xs) i = (if x = c then Some i else index_of c xs (i + 1))"

definition b64_reverse :: "char \<Rightarrow> u32 option" where
  "b64_reverse c = map_option of_nat (index_of c ALPHABET 0)"

text \<open>One slot of a quadruple: its six bits and whether it is padding.\<close>

definition b64_slot :: "char \<Rightarrow> (u32 \<times> bool) option" where
  "b64_slot c =
     (if c = CHR ''='' then Some (0, True)
      else map_option (\<lambda>v. (v, False)) (b64_reverse c))"

definition b64_pad :: "bool \<Rightarrow> nat" where
  "b64_pad p = (if p then 1 else 0)"

definition decode_quad :: "u32 \<times> bool \<Rightarrow> u32 \<times> bool \<Rightarrow> u32 \<times> bool \<Rightarrow> u32 \<times> bool \<Rightarrow> u8 list" where
  "decode_quad s0 s1 s2 s3 =
     (let n0 = push_bit 2 (fst s0) OR drop_bit 4 (fst s1);
          n1 = push_bit 4 (fst s1 AND 15) OR drop_bit 2 (fst s2);
          n2 = push_bit 6 (fst s2 AND 3) OR fst s3;
          padding = b64_pad (snd s0) + b64_pad (snd s1) + b64_pad (snd s2) + b64_pad (snd s3)
      in [ucast n0] @ (if padding < 2 then [ucast n1] else []) @ (if padding < 1 then [ucast n2] else []))"

fun base64_decode :: "string \<Rightarrow> u8 list option" where
  "base64_decode [] = Some []"
| "base64_decode (a # b # c # d # rest) =
     Option.bind (b64_slot a) (\<lambda>s0. Option.bind (b64_slot b) (\<lambda>s1.
     Option.bind (b64_slot c) (\<lambda>s2. Option.bind (b64_slot d) (\<lambda>s3.
     Option.bind (base64_decode rest) (\<lambda>out. Some (decode_quad s0 s1 s2 s3 @ out))))))"
| "base64_decode _ = None"

definition decode_secret :: "string \<Rightarrow> u8 list" where
  "decode_secret ciphertext = unwrap_or [] (base64_decode ciphertext)"

section \<open>Lemmas\<close>

lemma index_of_nth:
  "distinct xs \<Longrightarrow> k < length xs \<Longrightarrow> index_of (xs ! k) xs i = Some (i + k)"
proof (induction xs arbitrary: k i)
  case Nil
  then show ?case by simp
next
  case (Cons x xs)
  then show ?case by (cases k) (auto simp: nth_eq_iff_index_eq)
qed

lemma distinct_ALPHABET: "distinct ALPHABET" and length_ALPHABET: "length ALPHABET = 64"
  by (simp_all add: ALPHABET_def)

lemma pad_not_in_ALPHABET: "CHR ''='' \<notin> set ALPHABET"
  by (simp add: ALPHABET_def)

lemma b64_slot_char:
  assumes "unat w < 64"
  shows "b64_slot (b64_char w) = Some (ucast w, False)"
proof -
  have "b64_char w \<noteq> CHR ''=''"
    using assms pad_not_in_ALPHABET nth_mem [of "unat w" ALPHABET]
    by (metis b64_char_def length_ALPHABET)
  with assms index_of_nth [OF distinct_ALPHABET, of "unat w" 0] show ?thesis
    by (simp add: b64_slot_def b64_char_def b64_reverse_def length_ALPHABET)
qed

lemma six_bits:
  fixes w :: u8
  assumes "\<And>n. bit w n \<Longrightarrow> n < 6"
  shows "unat w < 64"
proof -
  have "take_bit 6 w = w"
    using assms by (intro bit_eqI) (auto simp: bit_take_bit_iff)
  then have "unat w = take_bit 6 (unat w)"
    by (metis unsigned_take_bit_eq)
  also have "\<dots> < 2 ^ 6" by (rule take_bit_nat_less_exp)
  finally show ?thesis by simp
qed

lemma masks: "(3 :: 'a :: len word) = mask 2" "(15 :: 'a :: len word) = mask 4" "(63 :: 'a :: len word) = mask 6"
  by (simp_all add: mask_eq_exp_minus_1)

lemma enc_bits:
  fixes b0 b1 b2 :: u8
  shows "unat (drop_bit 2 b0) < 64" "unat (push_bit 4 (b0 AND 3) OR drop_bit 4 b1) < 64"
    "unat (push_bit 2 (b1 AND 15) OR drop_bit 6 b2) < 64" "unat (b2 AND 63) < 64"
  by (rule six_bits; auto simp: bit_simps masks dest: bit_imp_le_length)+

lemma u8_bitsI:
  fixes x y :: u8
  assumes "bit x 0 = bit y 0" "bit x 1 = bit y 1" "bit x 2 = bit y 2" "bit x 3 = bit y 3"
    "bit x 4 = bit y 4" "bit x 5 = bit y 5" "bit x 6 = bit y 6" "bit x 7 = bit y 7"
  shows "x = y"
proof (rule bit_word_eqI)
  fix n assume "n < LENGTH(8)"
  then have "n = 0 \<or> n = 1 \<or> n = 2 \<or> n = 3 \<or> n = 4 \<or> n = 5 \<or> n = 6 \<or> n = 7"
    by (simp; presburger)
  with assms show "bit x n = bit y n" by blast
qed

lemma dec_bits:
  fixes b0 b1 b2 :: u8
  shows "(ucast (push_bit 2 (ucast (drop_bit 2 b0) :: u32)
      OR drop_bit 4 (ucast (push_bit 4 (b0 AND 3) OR drop_bit 4 b1))) :: u8) = b0" (is "?n0 = _")
    and "(ucast (push_bit 4 ((ucast (push_bit 4 (b0 AND 3) OR drop_bit 4 b1) :: u32) AND 15)
      OR drop_bit 2 (ucast (push_bit 2 (b1 AND 15) OR drop_bit 6 b2))) :: u8) = b1" (is "?n1 = _")
    and "(ucast (push_bit 6 ((ucast (push_bit 2 (b1 AND 15) OR drop_bit 6 b2) :: u32) AND 3)
      OR ucast (b2 AND 63)) :: u8) = b2" (is "?n2 = _")
proof -
  show "?n0 = b0"
    by (rule u8_bitsI) (auto simp: bit_simps masks dest: bit_imp_le_length)
  show "?n1 = b1"
    by (rule u8_bitsI) (auto simp: bit_simps masks dest: bit_imp_le_length)
  show "?n2 = b2"
    by (rule u8_bitsI) (auto simp: bit_simps masks dest: bit_imp_le_length)
qed

lemma zero_bits [simp]: "drop_bit 4 (0 :: u8) = 0" "drop_bit 6 (0 :: u8) = 0"
  by simp_all

lemma decode_secret_encode: "base64_decode (base64_encode bs) = Some bs"
proof (induction bs rule: base64_encode.induct)
  case 1
  then show ?case by simp
next
  case (2 b0)
  have "b64_slot (CHR ''='') = Some (0, True)" by (simp add: b64_slot_def)
  with enc_bits(1) [of b0] enc_bits(2) [of b0 0] dec_bits(1) [of b0 0] show ?case
    by (simp add: b64_slot_char decode_quad_def b64_pad_def)
next
  case (3 b0 b1)
  have "b64_slot (CHR ''='') = Some (0, True)" by (simp add: b64_slot_def)
  with enc_bits(1) [of b0] enc_bits(2) [of b0 b1] enc_bits(3) [of b1 0] dec_bits(1) [of b0 b1] dec_bits(2) [of b0 b1 0]
  show ?case
    by (simp add: b64_slot_char decode_quad_def b64_pad_def)
next
  case (4 b0 b1 b2 rest)
  with enc_bits(1) [of b0] enc_bits(2) [of b0 b1] enc_bits(3) [of b1 b2] enc_bits(4) [of b2]
    dec_bits(1) [of b0 b1] dec_bits(2) [of b0 b1 b2] dec_bits(3) [of b1 b2]
  show ?case
    by (simp add: b64_slot_char decode_quad_def b64_pad_def)
qed

lemma show_int_chars:
  assumes "c \<in> set (show_int i)"
  shows "c = CHR ''-'' \<or> digit_val 10 c \<noteq> None"
  using assms bspec [OF show_nat_digits] by (auto simp: show_int_def split: if_splits)

lemma show_int_no_dot: "CHR ''.'' \<notin> set (show_int i)"
  using show_int_chars [of "CHR ''.''" i] by (auto simp: digit_val_def)

lemma signed_message_inj:
  assumes "signed_message ts body = signed_message ts' body'"
    and "- (2 ^ 63) \<le> ts" "ts < 2 ^ 63" "- (2 ^ 63) \<le> ts'" "ts' < 2 ^ 63"
  shows "ts = ts' \<and> body = body'"
proof -
  let ?dot = "of_char (CHR ''.'') :: u8"
  have nodot: "?dot \<notin> set (str_bytes (show_int i))" for i
  proof
    assume "?dot \<in> set (str_bytes (show_int i))"
    then obtain c where c: "c \<in> set (show_int i)" and eq: "?dot = of_char c"
      by (auto simp: str_bytes_def)
    from eq have "unat ?dot = unat (of_char c :: u8)" by simp
    then have "c = CHR ''.''" by (simp only: unat_of_char_u8 of_char_eq_iff)
    with c show_int_no_dot show False by blast
  qed
  from assms(1) have "str_bytes (show_int ts) @ ?dot # body = str_bytes (show_int ts') @ ?dot # body'"
    by (simp add: signed_message_def str_bytes_def)
  from append_sep_eqD [OF this nodot nodot]
  have eq: "str_bytes (show_int ts) = str_bytes (show_int ts')" and "body = body'"
    by simp_all
  moreover have "show_int ts = show_int ts'"
    using eq by (rule str_bytes_inj)
  then have "ts = ts'"
    using parse_i64_show_int [OF assms(2,3)] parse_i64_show_int [OF assms(4,5)]
    by (metis option.inject)
  ultimately show ?thesis by simp
qed

lemma hexdigit_plain:
  assumes "is_ascii_hexdigit c"
  shows "\<not> is_cont c" and "\<not> is_ws [c]"
proof -
  have "(of_char c :: nat) < 128" and "32 < (of_char c :: nat)"
    using assms by (auto simp: is_ascii_hexdigit_def digit_val_def Let_def split: if_splits)
  then show "\<not> is_cont c" and "\<not> is_ws [c]"
    by (auto simp: is_ws_def unicode_ws_def is_cont_def of_char_def horner_sum_simps)
qed

lemma sign_trim: "str_trim (sign hmac secret body ts) = sign hmac secret body ts"
proof (rule str_trim_id, rule ballI)
  fix c assume "c \<in> set (sign hmac secret body ts)"
  then consider "c \<in> set ''v1=t=,s=''" | "c \<in> set (show_int ts)"
    | "c \<in> set (hex_lower (hmac secret (signed_message ts body)))"
    by (auto simp: sign_def Let_def)
  then show "\<not> is_cont c \<and> \<not> is_ws [c]"
  proof cases
    case 1
    then show ?thesis by (auto simp: is_cont_def is_ws_def unicode_ws_def)
  next
    case 2
    then consider "c = CHR ''-''" | "digit_val 10 c \<noteq> None" using show_int_chars by blast
    then show ?thesis
    proof cases
      case 1
      then show ?thesis by (simp add: is_cont_def is_ws_def unicode_ws_def)
    next
      case 2
      then have "is_ascii_hexdigit c"
        by (auto simp: is_ascii_hexdigit_def digit_val_def Let_def split: if_splits)
      then show ?thesis using hexdigit_plain by blast
    qed
  next
    case 3
    then show ?thesis using hex_lower_hexdigits hexdigit_plain by blast
  qed
qed

lemma parse_signature_sign:
  assumes "- (2 ^ 63) \<le> ts" "ts < 2 ^ 63" and "hmac secret (signed_message ts body) \<noteq> []"
  shows "parse_signature (sign hmac secret body ts)
    = Inr (ts, hex_lower (hmac secret (signed_message ts body)))"
proof -
  let ?h = "hex_lower (hmac secret (signed_message ts body))"
  have s: "sign hmac secret body ts = ''v1='' @ ((''t='' @ show_int ts) @ CHR '','' # (''s='' @ ?h))"
    by (simp add: sign_def)
  have "CHR '','' \<notin> set (''t='' @ show_int ts)" using show_int_no_comma by simp
  moreover have "?h \<noteq> []"
    using assms(3) length_hex_lower [of "hmac secret (signed_message ts body)"] by (metis length_0_conv mult_eq_0_iff zero_neq_numeral)
  moreover have "list_all is_ascii_hexdigit ?h"
    using hex_lower_hexdigits by (simp add: list_all_iff)
  moreover from calculation(1) have "split_once (CHR '','') ((''t='' @ show_int ts) @ CHR '','' # (''s='' @ ?h))
      = Some (''t='' @ show_int ts, ''s='' @ ?h)"
    by (rule split_once_append)
  ultimately show ?thesis
    unfolding s parse_signature_def
    by (simp only: strip_prefix_append ok_or_simps rbind_simps prod.case
        parse_i64_show_int [OF assms(1,2)]) simp
qed

lemma verify_sign:
  assumes "0 \<le> ts" "ts < 2 ^ 63" "now < 2 ^ 63"
    and "hmac secret (signed_message ts body') \<noteq> []"
  shows "verify hmac secret body (Some (sign hmac secret body' ts)) now window = Inr () \<longleftrightarrow>
    ts \<le> now \<and> now - ts \<le> window
    \<and> hmac secret (signed_message ts body) = hmac secret (signed_message ts body')"
proof -
  have "sign hmac secret body' ts \<noteq> []" by (simp add: sign_def)
  moreover have "parse_signature (sign hmac secret body' ts)
    = Inr (ts, hex_lower (hmac secret (signed_message ts body')))"
    using assms by (intro parse_signature_sign) simp_all
  moreover have "wrap_i64 (now - ts) = now - ts" if "ts \<le> now"
    using that assms by (intro wrap_i64_id) simp_all
  ultimately show ?thesis
    by (auto simp: verify_def sign_trim dest: hex_lower_inj)
qed

section \<open>Properties\<close>

text \<open>
  C5 (functional). A header made by \<open>sign\<close> at time \<open>ts\<close> is accepted for a body exactly
  when \<open>ts\<close> lies in the replay window before the receiver's clock and the body is the one that
  was signed. (HMAC is taken to give output and not to collide on the two messages compared.)
\<close>

theorem signature_accepts_exactly_signed_body:
  assumes "0 \<le> ts" "ts < 2 ^ 63" "now < 2 ^ 63"
    and "hmac secret (signed_message ts body') \<noteq> []"
    and "hmac secret (signed_message ts body) = hmac secret (signed_message ts body') \<Longrightarrow>
      signed_message ts body = signed_message ts body'"
  shows "verify hmac secret body (Some (sign hmac secret body' ts)) now window = Inr () \<longleftrightarrow>
    ts \<le> now \<and> now - ts \<le> window \<and> body = body'"
  using verify_sign [OF assms(1-3), of hmac secret body' body window] assms
    signed_message_inj [of ts body ts body']
  by auto

theorem signature_accepts_exactly_signed_body_witness:
  "verify (\<lambda>k m. k @ m) [7] [1, 2] (Some (sign (\<lambda>k m. k @ m) [7] [1, 2] 1000)) 1300 300 = Inr ()
   \<and> verify (\<lambda>k m. k @ m) [7] [1, 2] (Some (sign (\<lambda>k m. k @ m) [7] [1, 2] 1000)) 1301 300 \<noteq> Inr ()
   \<and> verify (\<lambda>k m. k @ m) [7] [9] (Some (sign (\<lambda>k m. k @ m) [7] [1, 2] 1000)) 1300 300 \<noteq> Inr ()"
  using signature_accepts_exactly_signed_body [of 1000 1300 "\<lambda>k m. k @ m" "[7]" "[1, 2]" "[1, 2]" 300]
    signature_accepts_exactly_signed_body [of 1000 1301 "\<lambda>k m. k @ m" "[7]" "[1, 2]" "[1, 2]" 300]
    signature_accepts_exactly_signed_body [of 1000 1300 "\<lambda>k m. k @ m" "[7]" "[1, 2]" "[9]" 300]
  by simp

text \<open>
  Whatever header is presented, acceptance means it carries the MAC of this body
  under some timestamp that is not in the future and, for a non-negative one, within the window.
\<close>

theorem accepted_signature_is_fresh:
  assumes "verify hmac secret body header now window = Inr ()" and "now < 2 ^ 63"
  shows "\<exists>raw ts. header = Some raw
    \<and> parse_signature (str_trim raw) = Inr (ts, hex_lower (hmac secret (signed_message ts body)))
    \<and> ts \<le> now \<and> (0 \<le> ts \<longrightarrow> now - ts \<le> window)"
proof -
  have wrap: "wrap_i64 (now - ts) = now - ts" if "0 \<le> ts" "ts \<le> now" for ts
    using that assms(2) by (intro wrap_i64_id) simp_all
  from assms(1) show ?thesis
    by (auto simp: verify_def res_simps not_less wrap split: option.splits if_splits)
qed

theorem accepted_signature_is_fresh_witness:
  "\<exists>ts. parse_signature (str_trim (sign (\<lambda>k m. k @ m) [7] [1, 2] 1000))
      = Inr (ts, hex_lower ([7] @ signed_message ts [1, 2])) \<and> ts \<le> 1100"
proof -
  have "verify (\<lambda>k m. k @ m) [7] [1, 2] (Some (sign (\<lambda>k m. k @ m) [7] [1, 2] 1000)) 1100 300 = Inr ()"
    by (simp add: verify_sign)
  from accepted_signature_is_fresh [OF this] show ?thesis by auto
qed

text \<open>
  C31 (roundtrip). The dispatcher recovers exactly the secret the command line generated: base64
  decoding inverts encoding for every byte string, so stored secrets sign and verify as issued.
\<close>

theorem stored_secret_roundtrip: "decode_secret (base64_encode secret) = secret"
  by (simp add: decode_secret_def decode_secret_encode)

end
