(* ===== verification/Delivery.thy ===== *)
theory Delivery
  imports Egress Signer
begin

text \<open>
  One webhook delivery attempt: the retry ladder (\<open>crates/scheduler/src/webhooks/retry.rs\<close>),
  the classification of responses and the signed POST
  (\<open>crates/scheduler/src/webhooks/dispatcher.rs\<close>).
\<close>

section \<open>The retry ladder\<close>

text \<open>Durations in seconds.\<close>

definition LADDER :: "nat list" where
  "LADDER = [1, 30, 5 * 60, 60 * 60, 6 * 60 * 60]"

definition MAX_ATTEMPTS :: nat where
  "MAX_ATTEMPTS = 5"

definition AUTO_DISABLE_THRESHOLD :: nat where
  "AUTO_DISABLE_THRESHOLD = 5"

definition next_delay :: "nat \<Rightarrow> nat option" where
  "next_delay attempts_so_far =
     (if attempts_so_far = 0 then Some 0
      else if MAX_ATTEMPTS \<le> attempts_so_far then None
      else if attempts_so_far - 1 < length LADDER then Some (LADDER ! (attempts_so_far - 1)) else None)"

definition is_exhausted :: "nat \<Rightarrow> bool" where
  "is_exhausted attempts_so_far = (MAX_ATTEMPTS \<le> attempts_so_far)"

definition should_auto_disable :: "nat \<Rightarrow> bool" where
  "should_auto_disable consecutive = (AUTO_DISABLE_THRESHOLD \<le> consecutive)"

section \<open>Classification\<close>

definition RESPONSE_SNIPPET_BYTES :: nat where
  "RESPONSE_SNIPPET_BYTES = 1024"

datatype delivery_outcome =
    Delivered u16
  | RetryableFailure "u16 option" string
  | PermanentFailure u16 string

definition is_retryable :: "delivery_outcome \<Rightarrow> bool" where
  "is_retryable x = (case x of RetryableFailure _ _ \<Rightarrow> True | _ \<Rightarrow> False)"

text \<open>The loop over \<open>s.chars()\<close>, with the output so far.\<close>

fun push_chars :: "string \<Rightarrow> string list \<Rightarrow> string" where
  "push_chars out [] = out"
| "push_chars out (c # cs) =
     (if RESPONSE_SNIPPET_BYTES < length out + length c then out else push_chars (out @ c) cs)"

definition truncate_for_audit :: "string \<Rightarrow> string" where
  "truncate_for_audit s =
     (if length s \<le> RESPONSE_SNIPPET_BYTES then s else push_chars [] (utf8_chars s))"

definition http_reason :: "u16 \<Rightarrow> string \<Rightarrow> string" where
  "http_reason status body = ''HTTP '' @ show_nat (unat status) @ '': '' @ truncate_for_audit body"

definition classify_response :: "u16 \<Rightarrow> string \<Rightarrow> delivery_outcome" where
  "classify_response status body_snippet =
     (if 200 \<le> status \<and> status < 300 then Delivered status
      else if status = 408 \<or> status = 429 \<or> (500 \<le> status \<and> status < 600)
      then RetryableFailure (Some status) (http_reason status body_snippet)
      else PermanentFailure status (http_reason status body_snippet))"

section \<open>The attempt\<close>

text \<open>
  What the attempt calls outside the repository: HMAC, the URL parser, the resolver, the client
  builder, the text of an SSRF error, the JSON serializer, and the POST itself. The POST is given
  the number of requests sent before it, so that equal requests may be answered differently; its
  result is a transport error or a status and the response's text (\<open>None\<close> when the body cannot
  be read).
\<close>

record request_line =
  rq_client :: pinned_client
  rq_url :: url
  rq_signature :: string
  rq_body :: "u8 list"

record delivery_env =
  e_hmac :: "u8 list \<Rightarrow> u8 list \<Rightarrow> u8 list"
  e_url_parse :: "string \<Rightarrow> string + url"
  e_lookup_host :: "string \<Rightarrow> u16 \<Rightarrow> string + ip_addr list"
  e_client_build :: "string \<Rightarrow> ip_addr list \<Rightarrow> string + unit"
  e_show_ssrf :: "webhook_ssrf_error \<Rightarrow> string"
  e_post :: "nat \<Rightarrow> request_line \<Rightarrow> string + (u16 \<times> string option)"

text \<open>The log is the list of requests sent so far, the last one at its end.\<close>

definition deliver_one ::
  "delivery_env \<Rightarrow> string \<Rightarrow> u8 list \<Rightarrow> u8 list \<Rightarrow> int \<Rightarrow> request_line list
     \<Rightarrow> (delivery_outcome \<times> string) \<times> request_line list" where
  "deliver_one env target_url secret body timestamp_unix log =
     (let signature = sign (e_hmac env) secret body timestamp_unix in
      case pinned_client_for_delivery (e_url_parse env) (e_lookup_host env) (e_client_build env) target_url of
        Inl err \<Rightarrow>
          let reason = ''webhook target blocked by egress policy: '' @ e_show_ssrf env err
          in ((PermanentFailure 403 reason, truncate_for_audit reason), log)
      | Inr (client, pinned_url) \<Rightarrow>
          let rq = \<lparr>rq_client = client, rq_url = pinned_url, rq_signature = signature, rq_body = body\<rparr> in
          (case e_post env (length log) rq of
             Inr (status, txt) \<Rightarrow>
               let snippet = unwrap_or [] txt
               in ((classify_response status snippet, truncate_for_audit snippet), log @ [rq])
           | Inl reason \<Rightarrow>
               ((RetryableFailure None reason, truncate_for_audit reason), log @ [rq])))"

section \<open>Lemmas\<close>

lemma next_delay_cases:
  "next_delay n = (if n = 0 then Some 0 else if n = 1 then Some 1 else if n = 2 then Some 30
     else if n = 3 then Some 300 else if n = 4 then Some 3600 else None)"
proof -
  have "n = 0 \<or> n = 1 \<or> n = 2 \<or> n = 3 \<or> n = 4 \<or> 5 \<le> n" by arith
  then show ?thesis by (auto simp: next_delay_def MAX_ATTEMPTS_def LADDER_def)
qed

lemma utf8_chars_not_Nil: "c \<in> set (utf8_chars s) \<Longrightarrow> c \<noteq> []"
  by (induction s rule: utf8_chars.induct) auto

lemma push_chars_prefix:
  "\<exists>cs1 cs2. cs = cs1 @ cs2 \<and> push_chars out cs = out @ concat cs1
     \<and> (length out \<le> RESPONSE_SNIPPET_BYTES \<longrightarrow> length (push_chars out cs) \<le> RESPONSE_SNIPPET_BYTES)
     \<and> (case cs2 of [] \<Rightarrow> True
        | c # _ \<Rightarrow> RESPONSE_SNIPPET_BYTES < length (push_chars out cs) + length c)"
proof (induction cs arbitrary: out)
  case Nil
  show ?case by (intro exI [of _ "[]"]) simp
next
  case (Cons c cs)
  show ?case
  proof (cases "RESPONSE_SNIPPET_BYTES < length out + length c")
    case True
    then show ?thesis by (intro exI [of _ "[]"] exI [of _ "c # cs"]) simp
  next
    case False
    from Cons.IH [of "out @ c"] obtain cs1 cs2 where
      "cs = cs1 @ cs2" "push_chars (out @ c) cs = out @ c @ concat cs1"
      "length (push_chars (out @ c) cs) \<le> RESPONSE_SNIPPET_BYTES"
      "case cs2 of [] \<Rightarrow> True
        | c' # _ \<Rightarrow> RESPONSE_SNIPPET_BYTES < length (push_chars (out @ c) cs) + length c'"
      using False by (auto simp: not_less)
    with False show ?thesis
      by - (rule exI [of _ "c # cs1"], rule exI [of _ cs2], cases cs2, simp_all)
  qed
qed

lemma deliver_one_log:
  "snd (deliver_one env target secret body ts log) =
     (case pinned_client_for_delivery (e_url_parse env) (e_lookup_host env) (e_client_build env) target of
        Inl _ \<Rightarrow> log
      | Inr (client, u) \<Rightarrow>
          log @ [\<lparr>rq_client = client, rq_url = u, rq_signature = sign (e_hmac env) secret body ts,
                  rq_body = body\<rparr>])"
  by (auto simp: deliver_one_def Let_def split: sum.splits prod.splits)

section \<open>Properties\<close>

text \<open>
  The audit snippet is at most 1024 bytes, is cut at a character boundary, and is the
  longest such prefix: the text itself when it fits, and otherwise the next character would not.
\<close>

theorem audit_snippet_is_longest_prefix:
  "length (truncate_for_audit s) \<le> 1024
   \<and> (\<exists>kept dropped. utf8_chars s = kept @ dropped \<and> truncate_for_audit s = concat kept
        \<and> (case dropped of [] \<Rightarrow> True | c # _ \<Rightarrow> 1024 < length (truncate_for_audit s) + length c))"
proof (cases "length s \<le> RESPONSE_SNIPPET_BYTES")
  case True
  then show ?thesis
    by (intro conjI exI [of _ "utf8_chars s"] exI [of _ "[]"])
      (simp_all add: truncate_for_audit_def RESPONSE_SNIPPET_BYTES_def)
next
  case False
  then have t: "truncate_for_audit s = push_chars [] (utf8_chars s)"
    by (simp add: truncate_for_audit_def)
  obtain cs1 cs2 where "utf8_chars s = cs1 @ cs2" "push_chars [] (utf8_chars s) = concat cs1"
    "length (push_chars [] (utf8_chars s)) \<le> 1024"
    "case cs2 of [] \<Rightarrow> True | c # _ \<Rightarrow> 1024 < length (push_chars [] (utf8_chars s)) + length c"
    using push_chars_prefix [of "utf8_chars s" "[]"] unfolding RESPONSE_SNIPPET_BYTES_def by force
  then show ?thesis unfolding t by blast
qed

text \<open>
  The retry schedule as the dispatcher can use it: four waits, 3931 seconds in
  all, after which the delivery is exhausted; the ladder's six-hour entry is never a delay.
\<close>

theorem retry_schedule_never_reaches_last_step:
  "(next_delay n = None \<longleftrightarrow> is_exhausted n) \<and> next_delay n \<noteq> Some (6 * 60 * 60)
   \<and> sum_list (map (\<lambda>k. unwrap_or 0 (next_delay k)) [1 ..< MAX_ATTEMPTS]) = 3931"
  by (simp add: next_delay_cases is_exhausted_def MAX_ATTEMPTS_def upt_rec)


end
