(* ===== verification/Webhooks.thy ===== *)
theory Webhooks
  imports Delivery Db Json
begin

text \<open>
  The webhook pipeline: the tables and their repositories
  (\<open>crates/storage/src/repositories/webhooks.rs\<close>, \<open>webhook_deliveries.rs\<close>), the fan-out of
  events into deliveries (\<open>crates/scheduler/src/webhooks/fanout.rs\<close>, \<open>events.rs\<close>) and the
  sweep that sends them (\<open>tick.rs\<close>, \<open>poller.rs\<close>). The world is the two tables and the
  requests sent so far. Times are nanoseconds since the epoch.
\<close>

section \<open>Lifecycle events\<close>

record schedule_payload =
  sp_event_id :: uuid
  sp_project_id :: uuid
  sp_schedule_id :: uuid
  sp_schedule_name :: string
  sp_tick_id :: uuid
  sp_tick_ts :: int
  sp_emitted_at :: int

record completed_payload =
  cp_base :: schedule_payload
  cp_prompt_run_count :: u32
  cp_failed_run_count :: u32

record failed_payload =
  fp_base :: schedule_payload
  fp_error_message :: string

text \<open>\<open>f64\<close> values are only carried, never computed with: a type parameter.\<close>

record 'f capped_payload =
  kp_base :: schedule_payload
  kp_cap_name :: string
  kp_cap_threshold :: 'f
  kp_projected_value :: 'f

record anomaly_payload =
  ap_event_id :: uuid
  ap_project_id :: uuid
  ap_provider :: string
  ap_observed_at :: int
  ap_summary :: string
  ap_detail :: json
  ap_emitted_at :: int

record recommendation_payload =
  rp_event_id :: uuid
  rp_project_id :: uuid
  rp_recommendation_id :: uuid
  rp_recommendation_kind :: string
  rp_state :: string
  rp_summary :: string
  rp_emitted_at :: int

datatype 'f lifecycle_event =
    TickPlanned schedule_payload
  | TickClaimed schedule_payload
  | TickCompleted completed_payload
  | TickFailed failed_payload
  | TickCapped "'f capped_payload"
  | TickRolledForward schedule_payload
  | Missed schedule_payload
  | Debounced schedule_payload
  | VisibilityAnomaly anomaly_payload
  | CitationAnomaly anomaly_payload
  | RecommendationGenerated recommendation_payload
  | RecommendationSurfaced recommendation_payload
  | RecommendationActed recommendation_payload
  | RecommendationMeasured recommendation_payload

primrec event_kind :: "'f lifecycle_event \<Rightarrow> string" where
  "event_kind (TickPlanned p) = ''schedule.tick_planned''"
| "event_kind (TickClaimed p) = ''schedule.tick_claimed''"
| "event_kind (TickCompleted p) = ''schedule.tick_completed''"
| "event_kind (TickFailed p) = ''schedule.tick_failed''"
| "event_kind (TickCapped p) = ''schedule.tick_capped''"
| "event_kind (TickRolledForward p) = ''schedule.tick_rolled_forward''"
| "event_kind (Missed p) = ''schedule.missed''"
| "event_kind (Debounced p) = ''schedule.debounced''"
| "event_kind (VisibilityAnomaly p) = ''visibility.anomaly''"
| "event_kind (CitationAnomaly p) = ''citation.anomaly''"
| "event_kind (RecommendationGenerated p) = ''recommendation.generated''"
| "event_kind (RecommendationSurfaced p) = ''recommendation.surfaced''"
| "event_kind (RecommendationActed p) = ''recommendation.acted''"
| "event_kind (RecommendationMeasured p) = ''recommendation.measured''"

primrec event_project_id :: "'f lifecycle_event \<Rightarrow> uuid" where
  "event_project_id (TickPlanned p) = sp_project_id p"
| "event_project_id (TickClaimed p) = sp_project_id p"
| "event_project_id (TickCompleted p) = sp_project_id (cp_base p)"
| "event_project_id (TickFailed p) = sp_project_id (fp_base p)"
| "event_project_id (TickCapped p) = sp_project_id (kp_base p)"
| "event_project_id (TickRolledForward p) = sp_project_id p"
| "event_project_id (Missed p) = sp_project_id p"
| "event_project_id (Debounced p) = sp_project_id p"
| "event_project_id (VisibilityAnomaly p) = ap_project_id p"
| "event_project_id (CitationAnomaly p) = ap_project_id p"
| "event_project_id (RecommendationGenerated p) = rp_project_id p"
| "event_project_id (RecommendationSurfaced p) = rp_project_id p"
| "event_project_id (RecommendationActed p) = rp_project_id p"
| "event_project_id (RecommendationMeasured p) = rp_project_id p"

primrec event_event_id :: "'f lifecycle_event \<Rightarrow> uuid" where
  "event_event_id (TickPlanned p) = sp_event_id p"
| "event_event_id (TickClaimed p) = sp_event_id p"
| "event_event_id (TickCompleted p) = sp_event_id (cp_base p)"
| "event_event_id (TickFailed p) = sp_event_id (fp_base p)"
| "event_event_id (TickCapped p) = sp_event_id (kp_base p)"
| "event_event_id (TickRolledForward p) = sp_event_id p"
| "event_event_id (Missed p) = sp_event_id p"
| "event_event_id (Debounced p) = sp_event_id p"
| "event_event_id (VisibilityAnomaly p) = ap_event_id p"
| "event_event_id (CitationAnomaly p) = ap_event_id p"
| "event_event_id (RecommendationGenerated p) = rp_event_id p"
| "event_event_id (RecommendationSurfaced p) = rp_event_id p"
| "event_event_id (RecommendationActed p) = rp_event_id p"
| "event_event_id (RecommendationMeasured p) = rp_event_id p"

section \<open>The tables\<close>

datatype delivery_status = StPending | StDelivered | StFailed | StDropped

record delivery =
  d_id :: uuid
  d_webhook_id :: uuid
  d_event_id :: uuid
  d_event_kind :: string
  d_attempt :: int
  d_status :: delivery_status
  d_response_status :: "int option"
  d_snippet :: "string option"
  d_next_attempt_at :: "int option"
  d_payload :: json
  d_created_at :: int

record webhook_row =
  w_id :: uuid
  w_project_id :: uuid
  w_name :: string
  w_target_url :: string
  w_secret :: string
  w_event_kinds :: json
  w_disabled :: bool
  w_disabled_reason :: "string option"
  w_created_at :: int

record world =
  deliveries :: "delivery list"
  webhooks :: "webhook_row list"
  requests :: "request_line list"

type_synonym 'a whm = "(world, 'a) dbm"

definition upd_deliveries :: "(delivery list \<Rightarrow> delivery list) \<Rightarrow> world \<Rightarrow> world" where
  "upd_deliveries f w = w\<lparr>deliveries := f (deliveries w)\<rparr>"

definition upd_webhooks :: "(webhook_row list \<Rightarrow> webhook_row list) \<Rightarrow> world \<Rightarrow> world" where
  "upd_webhooks f w = w\<lparr>webhooks := f (webhooks w)\<rparr>"

section \<open>The delivery repository\<close>

text \<open>
  The id comes from \<open>Ulid::new()\<close> and \<open>created_at\<close> from the database clock: arguments here. A
  taken rid or an unknown webhook violates a constraint.
\<close>

definition insert_pending ::
  "uuid \<Rightarrow> int \<Rightarrow> uuid \<Rightarrow> uuid \<Rightarrow> string \<Rightarrow> int \<Rightarrow> int option \<Rightarrow> json \<Rightarrow> uuid whm" where
  "insert_pending rid now webhook_id event_id kind attempt next_attempt_at payload =
     cstmt (\<lambda>w.
       if rid \<in> d_id ` set (deliveries w) \<or> webhook_id \<notin> w_id ` set (webhooks w) then None
       else Some (rid, upd_deliveries (\<lambda>ds. ds @
         [\<lparr>d_id = rid, d_webhook_id = webhook_id, d_event_id = event_id, d_event_kind = kind,
           d_attempt = attempt, d_status = StPending, d_response_status = None, d_snippet = None,
           d_next_attempt_at = next_attempt_at, d_payload = payload, d_created_at = now\<rparr>]) w))"

definition is_pending :: "uuid \<Rightarrow> delivery \<Rightarrow> bool" where
  "is_pending rid d = (d_id d = rid \<and> d_status d = StPending)"

definition mark_delivered :: "uuid \<Rightarrow> int \<Rightarrow> string option \<Rightarrow> unit whm" where
  "mark_delivered rid response_status snippet =
     exec (upd_deliveries (update_where (is_pending rid)
       (\<lambda>d. d\<lparr>d_status := StDelivered, d_response_status := Some response_status, d_snippet := snippet,
              d_next_attempt_at := None\<rparr>)))"

definition mark_failed_retryable :: "uuid \<Rightarrow> int option \<Rightarrow> string option \<Rightarrow> int \<Rightarrow> unit whm" where
  "mark_failed_retryable rid response_status snippet next_attempt_at =
     exec (upd_deliveries (update_where (is_pending rid)
       (\<lambda>d. d\<lparr>d_status := StFailed, d_response_status := response_status, d_snippet := snippet,
              d_next_attempt_at := Some next_attempt_at\<rparr>)))"

definition mark_dropped :: "uuid \<Rightarrow> int option \<Rightarrow> string option \<Rightarrow> unit whm" where
  "mark_dropped rid response_status snippet =
     exec (upd_deliveries (update_where (is_pending rid)
       (\<lambda>d. d\<lparr>d_status := StDropped, d_response_status := response_status, d_snippet := snippet,
              d_next_attempt_at := None\<rparr>)))"

text \<open>\<open>ORDER BY next_attempt_at NULLS FIRST, created_at\<close>; rows that tie keep the table's order.\<close>

definition due :: "int \<Rightarrow> delivery \<Rightarrow> bool" where
  "due now d = (d_status d = StPending
     \<and> (case d_next_attempt_at d of None \<Rightarrow> True | Some t \<Rightarrow> t \<le> now))"

definition order_due :: "delivery list \<Rightarrow> delivery list" where
  "order_due ds =
     (let by_age = sort_key d_created_at ds
      in filter (\<lambda>d. d_next_attempt_at d = None) by_age
         @ sort_key (\<lambda>d. unwrap_or 0 (d_next_attempt_at d))
             (filter (\<lambda>d. d_next_attempt_at d \<noteq> None) by_age))"

definition list_due :: "int \<Rightarrow> nat \<Rightarrow> delivery list whm" where
  "list_due now limit = query (\<lambda>w. take limit (order_due (filter (due now) (deliveries w))))"

text \<open>The 50 most recent deliveries of a webhook, and the row number of the first not dropped.\<close>

definition recent :: "uuid \<Rightarrow> delivery list \<Rightarrow> delivery list" where
  "recent webhook_id ds = take 50 (rev (sort_key d_created_at (filter (\<lambda>d. d_webhook_id d = webhook_id) ds)))"

fun first_not_dropped :: "nat \<Rightarrow> delivery list \<Rightarrow> nat option" where
  "first_not_dropped rn [] = None"
| "first_not_dropped rn (d # ds) =
     (if d_status d \<noteq> StDropped then Some rn else first_not_dropped (rn + 1) ds)"

definition count_consecutive_dropped :: "uuid \<Rightarrow> int whm" where
  "count_consecutive_dropped webhook_id =
     query (\<lambda>w. let r = recent webhook_id (deliveries w)
                in case first_not_dropped 1 r of Some rn \<Rightarrow> int rn - 1 | None \<Rightarrow> int (length r))"

section \<open>The webhook repository\<close>

definition webhook_insert ::
  "uuid \<Rightarrow> int \<Rightarrow> uuid \<Rightarrow> string \<Rightarrow> string \<Rightarrow> string \<Rightarrow> json \<Rightarrow> uuid whm" where
  "webhook_insert rid now project_id name target_url secret_ciphertext event_kinds =
     cstmt (\<lambda>w.
       if rid \<in> w_id ` set (webhooks w)
          \<or> (\<exists>r \<in> set (webhooks w). w_project_id r = project_id \<and> w_name r = name) then None
       else Some (rid, upd_webhooks (\<lambda>ws. ws @
         [\<lparr>w_id = rid, w_project_id = project_id, w_name = name, w_target_url = target_url,
           w_secret = secret_ciphertext, w_event_kinds = event_kinds, w_disabled = False,
           w_disabled_reason = None, w_created_at = now\<rparr>]) w))"

definition get_by_id :: "uuid \<Rightarrow> webhook_row option whm" where
  "get_by_id rid = query (\<lambda>w. find (\<lambda>r. w_id r = rid) (webhooks w))"

definition get_by_project_name :: "uuid \<Rightarrow> string \<Rightarrow> webhook_row option whm" where
  "get_by_project_name project_id name =
     query (\<lambda>w. find (\<lambda>r. w_project_id r = project_id \<and> w_name r = name) (webhooks w))"

definition list_for_project :: "uuid \<Rightarrow> webhook_row list whm" where
  "list_for_project project_id =
     query (\<lambda>w. rev (sort_key w_created_at (filter (\<lambda>r. w_project_id r = project_id) (webhooks w))))"

definition named :: "uuid \<Rightarrow> string \<Rightarrow> bool \<Rightarrow> webhook_row \<Rightarrow> bool" where
  "named project_id name dis r = (w_project_id r = project_id \<and> w_name r = name \<and> w_disabled r = dis)"

definition disable :: "uuid \<Rightarrow> string \<Rightarrow> string \<Rightarrow> bool whm" where
  "disable project_id name reason =
     stmt (\<lambda>w. (0 < rows_affected (named project_id name False) (webhooks w),
       upd_webhooks (update_where (named project_id name False)
         (\<lambda>r. r\<lparr>w_disabled := True, w_disabled_reason := Some reason\<rparr>)) w))"

definition reenable :: "uuid \<Rightarrow> string \<Rightarrow> bool whm" where
  "reenable project_id name =
     stmt (\<lambda>w. (0 < rows_affected (named project_id name True) (webhooks w),
       upd_webhooks (update_where (named project_id name True)
         (\<lambda>r. r\<lparr>w_disabled := False, w_disabled_reason := None\<rparr>)) w))"

definition rotate_secret :: "uuid \<Rightarrow> string \<Rightarrow> string \<Rightarrow> bool whm" where
  "rotate_secret project_id name new_secret =
     stmt (\<lambda>w. (0 < rows_affected (\<lambda>r. w_project_id r = project_id \<and> w_name r = name) (webhooks w),
       upd_webhooks (update_where (\<lambda>r. w_project_id r = project_id \<and> w_name r = name)
         (\<lambda>r. r\<lparr>w_secret := new_secret\<rparr>)) w))"

section \<open>Fan-out\<close>

definition subscribes :: "json \<Rightarrow> string \<Rightarrow> bool" where
  "subscribes event_kinds kind =
     (case event_kinds of JArr arr \<Rightarrow> list_ex (\<lambda>v. json_as_str v = Some kind) arr | _ \<Rightarrow> False)"

definition is_webhook_eligible :: "string \<Rightarrow> bool" where
  "is_webhook_eligible kind =
     (kind = ''prompt_run.completed'' \<or> kind = ''visibility.regression'' \<or> kind = ''schedule.missed''
      \<or> kind = ''visibility.anomaly'' \<or> kind = ''citation.anomaly''
      \<or> kind = ''recommendation.generated'' \<or> kind = ''recommendation.surfaced''
      \<or> kind = ''recommendation.acted'' \<or> kind = ''recommendation.measured'')"

text \<open>The insertion loop: the ids come from \<open>ulid\<close>, one per row, and are returned in order.\<close>

fun insert_all ::
  "(nat \<Rightarrow> uuid) \<Rightarrow> int \<Rightarrow> uuid \<Rightarrow> string \<Rightarrow> json \<Rightarrow> uuid list \<Rightarrow> webhook_row list \<Rightarrow> uuid list whm" where
  "insert_all ulid now event_id kind payload issued [] = ret issued"
| "insert_all ulid now event_id kind payload issued (w # ws) =
     dbind (insert_pending (ulid (length issued)) now (w_id w) event_id kind 1 None payload)
       (\<lambda>delivery_id. insert_all ulid now event_id kind payload (issued @ [delivery_id]) ws)"

definition enqueue_event ::
  "(nat \<Rightarrow> uuid) \<Rightarrow> int \<Rightarrow> uuid \<Rightarrow> string \<Rightarrow> uuid \<Rightarrow> json \<Rightarrow> uuid list whm" where
  "enqueue_event ulid now project_id kind event_id payload =
     dbind (list_for_project project_id) (\<lambda>ws.
       let matching = filter (\<lambda>w. \<not> w_disabled w \<and> subscribes (w_event_kinds w) kind) ws
       in if matching = [] then ret [] else insert_all ulid now event_id kind payload [] matching)"

text \<open>\<open>to_json\<close> is the serializer serde derives for the event.\<close>

definition enqueue_lifecycle_event ::
  "('f lifecycle_event \<Rightarrow> json option) \<Rightarrow> (nat \<Rightarrow> uuid) \<Rightarrow> int \<Rightarrow> 'f lifecycle_event \<Rightarrow> uuid list whm" where
  "enqueue_lifecycle_event to_json ulid now event =
     (let kind = event_kind event in
      if \<not> is_webhook_eligible kind then ret []
      else case to_json event of
             None \<Rightarrow> raise Sqlx
           | Some payload \<Rightarrow>
               enqueue_event ulid now (event_project_id event) kind (event_event_id event) payload)"

section \<open>Processing one due delivery\<close>

datatype dispatch_result =
    RDelivered
  | RRetrying
  | RDroppedPermanent
  | RDroppedAndWebhookAutoDisabled

definition auto_disable_reason :: "int \<Rightarrow> string" where
  "auto_disable_reason consecutive =
     ''auto-disabled after '' @ show_int consecutive @ '' consecutive permanent-failed deliveries''"

definition drop_and_maybe_disable ::
  "uuid \<Rightarrow> int option \<Rightarrow> string \<Rightarrow> uuid \<Rightarrow> dispatch_result whm" where
  "drop_and_maybe_disable delivery_id response_status snippet webhook_id =
     dbind (mark_dropped delivery_id response_status (Some snippet)) (\<lambda>_.
     dbind (count_consecutive_dropped webhook_id) (\<lambda>consecutive.
       if should_auto_disable (nat (max consecutive 0)) then
         dbind (ignore (exec (upd_webhooks (update_where (\<lambda>r. w_id r = webhook_id \<and> \<not> w_disabled r)
             (\<lambda>r. r\<lparr>w_disabled := True, w_disabled_reason := Some (auto_disable_reason consecutive)\<rparr>)))))
           (\<lambda>_. ret RDroppedAndWebhookAutoDisabled)
       else ret RDroppedPermanent))"

definition send :: "delivery_env \<Rightarrow> string \<Rightarrow> u8 list \<Rightarrow> u8 list \<Rightarrow> int \<Rightarrow> (delivery_outcome \<times> string) whm" where
  "send env target_url secret body timestamp_unix =
     act (\<lambda>w. case deliver_one env target_url secret body timestamp_unix (requests w) of
                (res, log) \<Rightarrow> (res, w\<lparr>requests := log\<rparr>))"

definition process_one_due ::
  "delivery_env \<Rightarrow> int \<Rightarrow> delivery \<Rightarrow> string \<Rightarrow> u8 list \<Rightarrow> u8 list \<Rightarrow> uuid \<Rightarrow> dispatch_result whm" where
  "process_one_due env now d target_url secret body webhook_id =
     dbind (send env target_url secret body (now div 10 ^ 9)) (\<lambda>(outcome, snippet).
       case outcome of
         Delivered status \<Rightarrow>
           dbind (mark_delivered (d_id d) (uint status) (Some snippet)) (\<lambda>_. ret RDelivered)
       | RetryableFailure status _ \<Rightarrow>
           (case next_delay (nat (max (d_attempt d) 0)) of
              Some wait \<Rightarrow>
                dbind (mark_failed_retryable (d_id d) (map_option uint status) (Some snippet)
                    (now + int wait * 10 ^ 9)) (\<lambda>_. ret RRetrying)
            | None \<Rightarrow> drop_and_maybe_disable (d_id d) (map_option uint status) snippet webhook_id)
       | PermanentFailure status _ \<Rightarrow>
           drop_and_maybe_disable (d_id d) (Some (uint status)) snippet webhook_id)"

section \<open>The sweep\<close>

definition DEFAULT_BATCH_LIMIT :: nat where
  "DEFAULT_BATCH_LIMIT = 64"

text \<open>\<open>to_bytes\<close> serializes the stored payload; \<open>clock\<close> is the time a delivery's task reads.\<close>

definition spawn_one ::
  "delivery_env \<Rightarrow> (json \<Rightarrow> u8 list) \<Rightarrow> (uuid \<Rightarrow> int) \<Rightarrow> delivery \<times> webhook_row \<Rightarrow> dispatch_result whm" where
  "spawn_one env to_bytes clock task =
     (case task of (d, w) \<Rightarrow>
        process_one_due env (clock (d_id d)) d (w_target_url w) (decode_secret (w_secret w)) (to_bytes (d_payload d)) (w_id w))"

text \<open>
  The loop over the due rows looks up each webhook and spawns a task for every live one; a failing
  lookup ends it, with the tasks spawned before it.
\<close>

fun collect_tasks ::
  "(delivery \<times> webhook_row) list \<Rightarrow> delivery list
     \<Rightarrow> world conn \<Rightarrow> (storage_error option \<times> (delivery \<times> webhook_row) list) \<times> world conn" where
  "collect_tasks tasks [] s = ((None, tasks), s)"
| "collect_tasks tasks (d # ds) s =
     (case get_by_id (d_webhook_id d) s of
        (Inl e, s') \<Rightarrow> ((Some e, tasks), s')
      | (Inr None, s') \<Rightarrow> collect_tasks tasks ds s'
      | (Inr (Some w), s') \<Rightarrow>
          if w_disabled w then collect_tasks tasks ds s' else collect_tasks (tasks @ [(d, w)]) ds s')"

text \<open>Tasks that fail are logged and leave no result.\<close>

fun run_tasks ::
  "delivery_env \<Rightarrow> (json \<Rightarrow> u8 list) \<Rightarrow> (uuid \<Rightarrow> int) \<Rightarrow> (delivery \<times> webhook_row) list
     \<Rightarrow> world conn \<Rightarrow> dispatch_result list \<times> world conn" where
  "run_tasks env to_bytes clock [] s = ([], s)"
| "run_tasks env to_bytes clock (x # xs) s =
     (case spawn_one env to_bytes clock x s of
        (Inl _, s') \<Rightarrow> run_tasks env to_bytes clock xs s'
      | (Inr r, s') \<Rightarrow> (case run_tasks env to_bytes clock xs s' of (rs, s'') \<Rightarrow> (r # rs, s'')))"

text \<open>
  Tasks run concurrently: \<open>order\<close> says which of the spawned ones run and in which order. When
  the loop fails the set is dropped, which aborts the tasks at any point: \<open>order\<close> may then leave
  tasks out, and a task stopped half way is one whose remaining statements fail.
\<close>

definition poll_once ::
  "delivery_env \<Rightarrow> (json \<Rightarrow> u8 list) \<Rightarrow> ((delivery \<times> webhook_row) list \<Rightarrow> (delivery \<times> webhook_row) list)
     \<Rightarrow> (uuid \<Rightarrow> int) \<Rightarrow> int \<Rightarrow> nat \<Rightarrow> dispatch_result list whm" where
  "poll_once env to_bytes order clock now batch_limit =
     dbind (list_due now batch_limit) (\<lambda>ds s.
       if ds = [] then (Inr [], s)
       else case collect_tasks [] ds s of
              ((err, tasks), s1) \<Rightarrow>
                (case run_tasks env to_bytes clock (order tasks) s1 of
                   (results, s2) \<Rightarrow> (case err of Some e \<Rightarrow> (Inl e, s2) | None \<Rightarrow> (Inr results, s2))))"

section \<open>What the pipeline may do to the world\<close>

text \<open>
  Every call of the pipeline, by the workers or by an operator, and a run of them: each stands
  alone, whatever the last one returned.
\<close>

datatype 'f webhook_op =
    Poll delivery_env "json \<Rightarrow> u8 list" "(delivery \<times> webhook_row) list \<Rightarrow> (delivery \<times> webhook_row) list"
      "uuid \<Rightarrow> int" int nat
  | Enqueue "'f lifecycle_event \<Rightarrow> json option" "nat \<Rightarrow> uuid" int "'f lifecycle_event"
  | Declare uuid int uuid string string string json
  | Disable uuid string string
  | Reenable uuid string
  | RotateSecret uuid string string

primrec webhook_op_run :: "'f webhook_op \<Rightarrow> unit whm" where
  "webhook_op_run (Poll env to_bytes order clock now limit) =
     ignore (poll_once env to_bytes order clock now limit)"
| "webhook_op_run (Enqueue to_json ulid now event) = ignore (enqueue_lifecycle_event to_json ulid now event)"
| "webhook_op_run (Declare rid now project_id name url secret kinds) =
     ignore (webhook_insert rid now project_id name url secret kinds)"
| "webhook_op_run (Disable project_id name reason) = ignore (disable project_id name reason)"
| "webhook_op_run (Reenable project_id name) = ignore (reenable project_id name)"
| "webhook_op_run (RotateSecret project_id name secret) = ignore (rotate_secret project_id name secret)"

definition webhook_run :: "'f webhook_op list \<Rightarrow> world conn \<Rightarrow> world conn" where
  "webhook_run ops = run_seq (map webhook_op_run ops)"

text \<open>
  A delivery row either stays as it is or leaves \<open>pending\<close>, once, keeping what was frozen at its
  insertion; rows are only ever added.
\<close>

definition delivery_step :: "delivery \<Rightarrow> delivery \<Rightarrow> bool" where
  "delivery_step d d' =
     (d' = d \<or> d_status d = StPending \<and> d_status d' \<noteq> StPending \<and> d_id d' = d_id d
        \<and> d_webhook_id d' = d_webhook_id d \<and> d_event_id d' = d_event_id d
        \<and> d_event_kind d' = d_event_kind d \<and> d_attempt d' = d_attempt d
        \<and> d_payload d' = d_payload d \<and> d_created_at d' = d_created_at d)"

definition history :: "world \<Rightarrow> world \<Rightarrow> bool" where
  "history w w' =
     ((\<forall>i < length (deliveries w). i < length (deliveries w')
         \<and> delivery_step (deliveries w ! i) (deliveries w' ! i))
      \<and> (distinct (map d_id (deliveries w)) \<longrightarrow> distinct (map d_id (deliveries w'))))"

lemma delivery_step_refl [simp]: "delivery_step d d"
  by (simp add: delivery_step_def)

lemma delivery_step_trans: "delivery_step a b \<Longrightarrow> delivery_step b c \<Longrightarrow> delivery_step a c"
  by (auto simp: delivery_step_def)

lemma reflp_history [simp, intro]: "reflp history"
  by (simp add: reflp_def history_def)

lemma transp_history [simp, intro]: "transp history"
  unfolding transp_def history_def using delivery_step_trans by blast

lemma history_update:
  assumes "\<And>d. d_status d = StPending \<Longrightarrow> delivery_step d (f d)" and "\<And>d. d_id (f d) = d_id d"
  shows "history w (upd_deliveries (update_where (is_pending rid) f) w)"
proof -
  have "map d_id (update_where (is_pending rid) f (deliveries w)) = map d_id (deliveries w)"
    by (rule map_update_where) (rule assms(2))
  moreover have "\<forall>i < length (deliveries w).
      delivery_step (deliveries w ! i) (update_where (is_pending rid) f (deliveries w) ! i)"
    using assms(1) by (simp add: update_where_def is_pending_def)
  ultimately show ?thesis
    by (simp add: history_def upd_deliveries_def)
qed

lemma history_same: "deliveries w' = deliveries w \<Longrightarrow> history w w'"
  by (simp add: history_def)

lemma history_append:
  assumes "d_id d \<notin> d_id ` set (deliveries w)"
  shows "history w (upd_deliveries (\<lambda>ds. ds @ [d]) w)"
  using assms by (auto simp: history_def upd_deliveries_def nth_append)

lemma history_upd_webhooks [simp]: "history w (upd_webhooks f w)"
  by (rule history_same) (simp add: upd_webhooks_def)

lemma steps_marks:
  "steps history (mark_delivered rid st sn)" "steps history (mark_failed_retryable rid st' sn na)"
  "steps history (mark_dropped rid st' sn)"
  unfolding mark_delivered_def mark_failed_retryable_def mark_dropped_def
  by (intro steps_exec reflp_history history_update; simp add: delivery_step_def)+

lemma steps_insert_pending: "steps history (insert_pending rid now wid eid kind att na payload)"
  unfolding insert_pending_def
  by (rule steps_cstmt) (auto intro!: history_append split: if_splits)

lemma steps_drop: "steps history (drop_and_maybe_disable rid st sn wid)"
  unfolding drop_and_maybe_disable_def count_consecutive_dropped_def
  by (intro steps_rules steps_split steps_marks reflp_history transp_history history_upd_webhooks)

lemma steps_send: "steps history (send env url secret body ts)"
  unfolding send_def by (rule steps_act) (auto intro: history_same split: prod.splits)

lemma steps_process_one_due: "steps history (process_one_due env now d url secret body wid)"
proof -
  have "steps history (case x of (outcome, snippet) \<Rightarrow>
       (case outcome of
         Delivered status \<Rightarrow>
           dbind (mark_delivered (d_id d) (uint status) (Some snippet)) (\<lambda>_. ret RDelivered)
       | RetryableFailure status _ \<Rightarrow>
           (case next_delay (nat (max (d_attempt d) 0)) of
              Some wait \<Rightarrow>
                dbind (mark_failed_retryable (d_id d) (map_option uint status) (Some snippet)
                    (now + int wait * 10 ^ 9)) (\<lambda>_. ret RRetrying)
            | None \<Rightarrow> drop_and_maybe_disable (d_id d) (map_option uint status) snippet wid)
       | PermanentFailure status _ \<Rightarrow>
           drop_and_maybe_disable (d_id d) (Some (uint status)) snippet wid))" for x
    by (cases x; cases "fst x")
      (auto intro!: steps_rules steps_split steps_marks steps_drop)
  then show ?thesis
    unfolding process_one_due_def by (intro steps_dbind transp_history steps_send)
qed

lemma run_tasks_history: "history (snd s) (snd (snd (run_tasks env to_bytes clock xs s)))"
proof (induction xs arbitrary: s)
  case Nil
  show ?case by (simp add: history_same)
next
  case (Cons x xs)
  obtain d w where x: "x = (d, w)" by (cases x)
  obtain r s' where run: "spawn_one env to_bytes clock x s = (r, s')" by (metis surj_pair)
  then have "process_one_due env (clock (d_id d)) d (w_target_url w) (decode_secret (w_secret w))
      (to_bytes (d_payload d)) (w_id w) (fst s, snd s) = (r, (fst s', snd s'))"
    by (simp add: x spawn_one_def)
  then have "history (snd s) (snd s')"
    by (rule stepsD [OF steps_process_one_due])
  moreover have "history (snd s') (snd (snd (run_tasks env to_bytes clock xs s')))"
    by (rule Cons.IH)
  ultimately have "history (snd s) (snd (snd (run_tasks env to_bytes clock xs s')))"
    by (rule transpD [OF transp_history])
  with run show ?case by (cases r) (auto split: prod.splits)
qed

lemma collect_tasks_world: "snd (snd (collect_tasks tasks ds s)) = snd s"
proof (induction ds arbitrary: tasks s)
  case Nil
  show ?case by simp
next
  case (Cons d ds)
  have "snd (snd (get_by_id (d_webhook_id d) s)) = snd s"
    by (cases s) (auto simp: get_by_id_def query_def stmt_def split: list.splits)
  with Cons.IH show ?case
    by (auto split: prod.splits sum.splits option.splits)
qed

lemma steps_poll_once: "steps history (poll_once env to_bytes order clock now limit)"
proof -
  have "steps history (\<lambda>s. if ds = [] then (Inr [], s)
       else case collect_tasks [] ds s of
              ((err, tasks), s1) \<Rightarrow>
                (case run_tasks env to_bytes clock (order tasks) s1 of
                   (results, s2) \<Rightarrow> (case err of Some e \<Rightarrow> (Inl e, s2) | None \<Rightarrow> (Inr results, s2))))"
    for ds :: "delivery list"
  proof (rule stepsI, goal_cases)
    case (1 fs t r fs' t')
    obtain err tasks s1 where c: "collect_tasks [] ds (fs, t) = ((err, tasks), s1)"
      by (metis surj_pair)
    with collect_tasks_world [of "[]" ds "(fs, t)"] have "snd s1 = t" by simp
    with 1 c run_tasks_history [of s1 env to_bytes clock "order tasks"] show ?case
      by (auto simp: history_same split: if_splits prod.splits option.splits)
  qed
  then show ?thesis
    unfolding poll_once_def list_due_def by (intro steps_dbind steps_query transp_history reflp_history)
qed

lemma steps_insert_all: "steps history (insert_all ulid now eid kind payload issued ws)"
  by (induction ws arbitrary: issued)
    (auto intro!: steps_rules steps_insert_pending)

lemma steps_enqueue: "steps history (enqueue_lifecycle_event to_json ulid now event)"
  unfolding enqueue_lifecycle_event_def enqueue_event_def list_for_project_def Let_def
  by (intro steps_rules steps_split steps_insert_all reflp_history transp_history)

lemma steps_webhook_op: "steps history (webhook_op_run x)"
  by (cases x)
    (auto simp: webhook_insert_def disable_def reenable_def rotate_secret_def
      intro!: steps_rules steps_poll_once steps_enqueue split: if_splits)

lemma webhook_run_history: "history (snd s) (snd (webhook_run ops s))"
  unfolding webhook_run_def
  by (rule run_seq_steps) (auto intro: steps_webhook_op)

text \<open>A row that has left \<open>pending\<close> is final, and only pending rows are ever due.\<close>

lemma settled_is_final:
  assumes "history w w'" and "d \<in> set (deliveries w)" and "d_status d \<noteq> StPending"
  shows "d \<in> set (deliveries w')"
proof -
  from assms(2) obtain i where "i < length (deliveries w)" and "deliveries w ! i = d"
    by (auto simp: in_set_conv_nth)
  with assms(1,3) have "i < length (deliveries w')" and "deliveries w' ! i = d"
    by (auto simp: history_def delivery_step_def)
  then show ?thesis by (auto simp: in_set_conv_nth)
qed

lemma set_order_due [simp]: "set (order_due ds) = set ds"
  by (auto simp: order_due_def Let_def)

lemma list_due_pending:
  assumes "list_due now limit (fs, w) = (Inr ds, s)" and "x \<in> set ds"
  shows "x \<in> set (deliveries w) \<and> due now x"
proof -
  have "ds = take limit (order_due (filter (due now) (deliveries w)))"
    using assms(1) by (auto simp: list_due_def query_def stmt_def split: list.splits if_splits)
  with assms(2) have "x \<in> set (order_due (filter (due now) (deliveries w)))"
    by (auto dest: in_set_takeD)
  then show ?thesis by simp
qed

lemma distinct_ids_inj:
  "distinct (map d_id ds) \<Longrightarrow> x \<in> set ds \<Longrightarrow> y \<in> set ds \<Longrightarrow> d_id x = d_id y \<Longrightarrow> x = y"
  by (induction ds) (auto simp: rev_image_eqI)

lemma first_not_dropped_eq:
  "first_not_dropped rn ds =
     (if \<forall>d \<in> set ds. d_status d = StDropped then None
      else Some (rn + length (takeWhile (\<lambda>d. d_status d = StDropped) ds)))"
  by (induction ds arbitrary: rn) auto

lemma count_consecutive_dropped_ok:
  "count_consecutive_dropped wid ([], w) =
     (Inr (int (length (takeWhile (\<lambda>d. d_status d = StDropped) (recent wid (deliveries w))))), ([], w))"
proof (cases "\<forall>d \<in> set (recent wid (deliveries w)). d_status d = StDropped")
  case True
  then have "takeWhile (\<lambda>d. d_status d = StDropped) (recent wid (deliveries w)) = recent wid (deliveries w)"
    by (simp only: takeWhile_eq_all_conv)
  then have "length (takeWhile (\<lambda>d. d_status d = StDropped) (recent wid (deliveries w)))
      = length (recent wid (deliveries w))"
    by (rule arg_cong)
  with True show ?thesis
    by (simp add: count_consecutive_dropped_def first_not_dropped_eq Let_def)
next
  case False
  then show ?thesis
    by (auto simp: count_consecutive_dropped_def first_not_dropped_eq Let_def)
qed

lemma should_auto_disable_recent:
  "should_auto_disable (length (takeWhile P xs)) \<longleftrightarrow> 5 \<le> length xs \<and> (\<forall>x \<in> set (take 5 xs). P x)"
  by (simp add: should_auto_disable_def AUTO_DISABLE_THRESHOLD_def le_length_takeWhile)

lemma deliveries_upd [simp]:
  "deliveries (upd_deliveries f w) = f (deliveries w)" "webhooks (upd_deliveries f w) = webhooks w"
  "requests (upd_deliveries f w) = requests w" "deliveries (upd_webhooks g w) = deliveries w"
  "webhooks (upd_webhooks g w) = g (webhooks w)" "requests (upd_webhooks g w) = requests w"
  by (simp_all add: upd_deliveries_def upd_webhooks_def)

lemma update_pending_row:
  "x \<in> set ds \<Longrightarrow> d_id x = rid \<Longrightarrow> d_status x = StPending \<Longrightarrow>
    f x \<in> set (update_where (is_pending rid) f ds)"
  by (auto simp: set_update_where is_pending_def image_iff)

lemma update_pending_others:
  assumes "\<And>y. d_id (f y) = d_id y"
  shows "filter (\<lambda>y. d_id y \<noteq> rid) (update_where (is_pending rid) f ds) = filter (\<lambda>y. d_id y \<noteq> rid) ds"
  using assms by (induction ds) (auto simp: is_pending_def)

definition all_recent_dropped :: "uuid \<Rightarrow> delivery list \<Rightarrow> bool" where
  "all_recent_dropped wid ds =
     (5 \<le> length (recent wid ds) \<and> (\<forall>y \<in> set (take 5 (recent wid ds)). d_status y = StDropped))"

lemma drop_and_maybe_disable_ok:
  "\<exists>w'. drop_and_maybe_disable rid st sn wid ([], w) =
      (Inr (if all_recent_dropped wid (deliveries w') then RDroppedAndWebhookAutoDisabled
            else RDroppedPermanent), ([], w'))
    \<and> deliveries w' = update_where (is_pending rid)
        (\<lambda>d. d\<lparr>d_status := StDropped, d_response_status := st, d_snippet := Some sn,
               d_next_attempt_at := None\<rparr>) (deliveries w)
    \<and> requests w' = requests w"
  by (auto simp: drop_and_maybe_disable_def mark_dropped_def count_consecutive_dropped_ok dbind_def
      should_auto_disable_recent all_recent_dropped_def)

lemma send_ok:
  "send env url secret body ts ([], w) =
     (Inr (fst (deliver_one env url secret body ts (requests w))),
      ([], w\<lparr>requests := snd (deliver_one env url secret body ts (requests w))\<rparr>))"
  by (simp add: send_def split: prod.splits)

section \<open>Properties\<close>

text \<open>
  C11 (liveness). A delivery marked for retry is never retried: once a row is \<open>failed\<close>, no run of
  the pipeline, whatever it polls, enqueues or re-enables and whatever the database does, changes
  the row or lists it as due again.
\<close>

theorem failed_delivery_is_never_retried:
  assumes "distinct (map d_id (deliveries w))" and "d \<in> set (deliveries w)" and "d_status d = StFailed"
  shows "d \<in> set (deliveries (snd (webhook_run ops (faults, w))))
    \<and> (list_due now limit (fs, snd (webhook_run ops (faults, w))) = (Inr ds, s) \<longrightarrow>
         d_id d \<notin> d_id ` set ds)"
proof -
  let ?w = "snd (webhook_run ops (faults, w))"
  from webhook_run_history [of "(faults, w)" ops] have h: "history w ?w" by simp
  with assms have d: "d \<in> set (deliveries ?w)" by (auto intro: settled_is_final)
  from h assms(1) have ids: "distinct (map d_id (deliveries ?w))" by (simp add: history_def)
  have "d_id d \<notin> d_id ` set ds" if "list_due now limit (fs, ?w) = (Inr ds, s)"
  proof
    assume "d_id d \<in> d_id ` set ds"
    then obtain x where "x \<in> set ds" and "d_id x = d_id d" by auto
    with list_due_pending [OF that] distinct_ids_inj [OF ids, of x d] d have "due now d" by auto
    with assms(3) show False by (simp add: due_def)
  qed
  with d show ?thesis by blast
qed

theorem failed_delivery_is_never_retried_witness:
  "(\<lparr>d_id = 1, d_webhook_id = 2, d_event_id = 3, d_event_kind = ''schedule.missed'', d_attempt = 1,
     d_status = StFailed, d_response_status = Some 503, d_snippet = None, d_next_attempt_at = Some 5,
     d_payload = JNull, d_created_at = 0\<rparr> :: delivery)
   \<in> set (deliveries (snd (webhook_run [Reenable 7 ''hook'' :: unit webhook_op] ([],
       \<lparr>deliveries = [\<lparr>d_id = 1, d_webhook_id = 2, d_event_id = 3, d_event_kind = ''schedule.missed'',
          d_attempt = 1, d_status = StFailed, d_response_status = Some 503, d_snippet = None,
          d_next_attempt_at = Some 5, d_payload = JNull, d_created_at = 0\<rparr>],
        webhooks = [], requests = []\<rparr>))))"
  by (rule failed_delivery_is_never_retried [THEN conjunct1]) simp_all

text \<open>
  How a delivery is settled: its new status and next attempt, by the outcome of the attempt.
\<close>

definition settled_as :: "int \<Rightarrow> delivery \<Rightarrow> delivery_outcome \<Rightarrow> delivery_status \<times> int option" where
  "settled_as now d outcome =
     (case outcome of
        Delivered _ \<Rightarrow> (StDelivered, None)
      | RetryableFailure _ _ \<Rightarrow>
          (case next_delay (nat (max (d_attempt d) 0)) of
             Some wait \<Rightarrow> (StFailed, Some (now + int wait * 10 ^ 9))
           | None \<Rightarrow> (StDropped, None))
      | PermanentFailure _ _ \<Rightarrow> (StDropped, None))"

text \<open>
  C3 (functional). Without database faults, processing a due delivery always settles it by its
  outcome: its row gets the status, the next attempt and the bounded snippet of the attempt; no
  other delivery changes, and the answer says that the webhook was auto-disabled exactly when the
  row was dropped and the webhook's five most recent deliveries now all are.
\<close>

theorem due_delivery_is_settled:
  assumes "process_one_due env now d url secret body wid ([], w) = (res, (fs, w'))"
    and "x \<in> set (deliveries w)" and "d_id x = d_id d" and "d_status x = StPending"
    and "deliver_one env url secret body (now div 10 ^ 9) (requests w) = ((outcome, snippet), log)"
  shows "requests w' = log
    \<and> (\<exists>x' \<in> set (deliveries w'). d_id x' = d_id d \<and> d_attempt x' = d_attempt x
         \<and> (d_status x', d_next_attempt_at x') = settled_as now d outcome \<and> d_snippet x' = Some snippet)
    \<and> filter (\<lambda>y. d_id y \<noteq> d_id d) (deliveries w') = filter (\<lambda>y. d_id y \<noteq> d_id d) (deliveries w)
    \<and> (res = Inr RDroppedAndWebhookAutoDisabled \<longleftrightarrow>
         fst (settled_as now d outcome) = StDropped \<and> all_recent_dropped wid (deliveries w'))"
proof -
  let ?w = "w\<lparr>requests := log\<rparr>"
  have row: "\<exists>x' \<in> set (update_where (is_pending (d_id d)) f (deliveries w)). d_id x' = d_id d
      \<and> d_attempt x' = d_attempt x \<and> d_status x' = s0 \<and> d_next_attempt_at x' = n0 \<and> d_snippet x' = Some snippet"
    if "d_id (f x) = d_id x" "d_attempt (f x) = d_attempt x" "d_status (f x) = s0"
      "d_next_attempt_at (f x) = n0" "d_snippet (f x) = Some snippet" for f s0 n0
    by (rule bexI [OF _ update_pending_row [OF assms(2-4), of f]]) (simp only: that assms(3) simp_thms)
  have "process_one_due env now d url secret body wid ([], w) =
      (case outcome of
         Delivered status \<Rightarrow> dbind (mark_delivered (d_id d) (uint status) (Some snippet)) (\<lambda>_. ret RDelivered)
       | RetryableFailure status _ \<Rightarrow>
           (case next_delay (nat (max (d_attempt d) 0)) of
              Some wait \<Rightarrow>
                dbind (mark_failed_retryable (d_id d) (map_option uint status) (Some snippet)
                    (now + int wait * 10 ^ 9)) (\<lambda>_. ret RRetrying)
            | None \<Rightarrow> drop_and_maybe_disable (d_id d) (map_option uint status) snippet wid)
       | PermanentFailure status _ \<Rightarrow>
           drop_and_maybe_disable (d_id d) (Some (uint status)) snippet wid) ([], ?w)"
    using assms(5) by (simp add: process_one_due_def dbind_def send_ok)
  note run = this [unfolded assms(1)]
  have drop: ?thesis if "(res, (fs, w')) = drop_and_maybe_disable (d_id d) st snippet wid ([], ?w)"
    and "settled_as now d outcome = (StDropped, None)" for st
    using drop_and_maybe_disable_ok [of "d_id d" st snippet wid ?w] that
    by (auto intro!: row simp: update_pending_others split: if_splits)
  show ?thesis
  proof (cases outcome)
    case (Delivered st)
    with run show ?thesis
      by (auto intro!: row simp: update_pending_others mark_delivered_def dbind_def settled_as_def)
  next
    case (RetryableFailure st reason)
    show ?thesis
    proof (cases "next_delay (nat (max (d_attempt d) 0))")
      case None
      with run RetryableFailure show ?thesis
        by (intro drop [of "map_option uint st"]) (simp_all add: settled_as_def)
    next
      case (Some wait)
      with run RetryableFailure show ?thesis
        by (auto intro!: row simp: update_pending_others mark_failed_retryable_def dbind_def settled_as_def)
    qed
  next
    case (PermanentFailure st reason)
    with run show ?thesis
      by (intro drop [of "Some (uint st)"]) (simp_all add: settled_as_def)
  qed
qed

theorem due_delivery_is_settled_witness:
  fixes env d w
  defines "env \<equiv> \<lparr>e_hmac = (\<lambda>k m. m), e_url_parse = (\<lambda>u. Inl ''relative URL''),
      e_lookup_host = (\<lambda>h p. Inr []), e_client_build = (\<lambda>h a. Inr ()), e_show_ssrf = (\<lambda>e. ''invalid''),
      e_post = (\<lambda>n r. Inl ''refused'')\<rparr>"
    and "d \<equiv> \<lparr>d_id = 1, d_webhook_id = 2, d_event_id = 3, d_event_kind = ''schedule.missed'', d_attempt = 1,
      d_status = StPending, d_response_status = None, d_snippet = None, d_next_attempt_at = None,
      d_payload = JNull, d_created_at = 0\<rparr>"
    and "w \<equiv> \<lparr>deliveries = [d], webhooks = [], requests = []\<rparr>"
  shows "\<exists>x' \<in> set (deliveries (snd (snd (process_one_due env 10 d ''x'' [] [] 2 ([], w))))).
    d_status x' = StDropped"
proof -
  obtain res fs w' where eq: "process_one_due env 10 d ''x'' [] [] 2 ([], w) = (res, (fs, w'))"
    by (metis surj_pair)
  let ?r = "''webhook target blocked by egress policy: invalid''"
  have del: "deliver_one env ''x'' [] [] (10 div 10 ^ 9) (requests w)
      = ((PermanentFailure 403 ?r, truncate_for_audit ?r), [])"
    by (simp add: deliver_one_def env_def w_def pinned_client_for_delivery_def
        validate_webhook_declaration_url_def parse_url_def Let_def)
  have "d \<in> set (deliveries w)" and "d_status d = StPending" by (simp_all add: w_def d_def)
  from due_delivery_is_settled [OF eq this(1) refl this(2) del]
  have "\<exists>x' \<in> set (deliveries w'). d_status x' = StDropped"
    by (auto simp: settled_as_def)
  with eq show ?thesis by simp
qed

text \<open>The rows one fan-out adds.\<close>

definition pending_row :: "int \<Rightarrow> uuid \<Rightarrow> string \<Rightarrow> json \<Rightarrow> uuid \<Rightarrow> uuid \<Rightarrow> delivery" where
  "pending_row now event_id kind payload rid wid =
     \<lparr>d_id = rid, d_webhook_id = wid, d_event_id = event_id, d_event_kind = kind, d_attempt = 1,
      d_status = StPending, d_response_status = None, d_snippet = None, d_next_attempt_at = None,
      d_payload = payload, d_created_at = now\<rparr>"

lemma insert_all_ok:
  assumes "inj_on ulid {..< n}" and "\<forall>i < n. length issued \<le> i \<longrightarrow> ulid i \<notin> d_id ` set (deliveries w)"
    and "set ws \<subseteq> set (webhooks w)" and "length issued + length ws \<le> n"
  shows "\<exists>w'. insert_all ulid now eid kind payload issued ws ([], w) =
      (Inr (issued @ map ulid [length issued ..< length issued + length ws]), ([], w'))
    \<and> deliveries w' = deliveries w
        @ map2 (pending_row now eid kind payload)
            (map ulid [length issued ..< length issued + length ws]) (map w_id ws)
    \<and> webhooks w' = webhooks w \<and> requests w' = requests w"
  using assms(2-4)
proof (induction ws arbitrary: issued w)
  case Nil
  then show ?case by simp
next
  case (Cons x ws)
  let ?k = "length issued"
  let ?w = "upd_deliveries (\<lambda>ds. ds @ [pending_row now eid kind payload (ulid ?k) (w_id x)]) w"
  have ins: "insert_pending (ulid ?k) now (w_id x) eid kind 1 None payload ([], w) = (Inr (ulid ?k), ([], ?w))"
    using Cons.prems by (auto simp: insert_pending_def pending_row_def)
  have fresh: "\<forall>i < n. length (issued @ [ulid ?k]) \<le> i \<longrightarrow> ulid i \<notin> d_id ` set (deliveries ?w)"
    using Cons.prems assms(1) by (auto simp: pending_row_def dest!: inj_onD)
  have upt: "[?k ..< ?k + length (x # ws)] = ?k # [Suc ?k ..< Suc (?k + length ws)]"
    by (simp add: upt_conv_Cons del: upt_Suc)
  have ws: "set ws \<subseteq> set (webhooks ?w)" and len: "length (issued @ [ulid ?k]) + length ws \<le> n"
    using Cons.prems by simp_all
  from Cons.IH [OF fresh ws len] ins show ?case
    unfolding upt by (auto simp: dbind_def simp del: upt_Suc)
qed

text \<open>
  C14 (functional). Without database faults, an event of an eligible kind becomes exactly one
  delivery for each enabled webhook of its project that subscribes to the kind: pending, attempt
  one, due at once, with the event's id and the same payload; the ids returned are those rows.
\<close>

theorem event_fans_out_to_subscribers:
  assumes "is_webhook_eligible (event_kind event)" and "to_json event = Some payload"
    and "inj_on ulid {..< length (webhooks w)}"
    and "\<forall>i < length (webhooks w). ulid i \<notin> d_id ` set (deliveries w)"
    and "distinct (map w_id (webhooks w))"
  shows "\<exists>w' new. enqueue_lifecycle_event to_json ulid now event ([], w) = (Inr (map d_id new), ([], w'))
    \<and> deliveries w' = deliveries w @ new \<and> webhooks w' = webhooks w
    \<and> distinct (map d_webhook_id new)
    \<and> set (map d_webhook_id new) = w_id ` {r \<in> set (webhooks w). w_project_id r = event_project_id event
          \<and> \<not> w_disabled r \<and> subscribes (w_event_kinds r) (event_kind event)}
    \<and> set new \<subseteq> {pending_row now (event_event_id event) (event_kind event) payload i j | i j. True}"
proof -
  define ms where "ms = filter (\<lambda>r. \<not> w_disabled r \<and> subscribes (w_event_kinds r) (event_kind event))
    (rev (sort_key w_created_at (filter (\<lambda>r. w_project_id r = event_project_id event) (webhooks w))))"
  define new where "new = map2 (pending_row now (event_event_id event) (event_kind event) payload)
    (map ulid [0 ..< length ms]) (map w_id ms)"
  have ids: "map d_id new = map ulid [0 ..< length ms]" and wids: "map d_webhook_id new = map w_id ms"
    unfolding new_def by (rule map_map2_fst map_map2_snd; simp add: pending_row_def)+
  have rows: "set new \<subseteq> {pending_row now (event_event_id event) (event_kind event) payload i j | i j. True}"
    by (auto simp: new_def set_zip)
  have "distinct ms" and "inj_on w_id (set ms)"
    using assms(5) by (auto simp: ms_def distinct_map inj_on_def)
  then have dist: "distinct (map d_webhook_id new)"
    by (simp add: wids distinct_map)
  have set_wids: "set (map d_webhook_id new) = w_id ` set ms"
    by (simp add: wids)
  have set_ms: "set ms = {r \<in> set (webhooks w). w_project_id r = event_project_id event
      \<and> \<not> w_disabled r \<and> subscribes (w_event_kinds r) (event_kind event)}"
    by (auto simp: ms_def)
  have "\<exists>w'. enqueue_event ulid now (event_project_id event) (event_kind event) (event_event_id event) payload
      ([], w) = (Inr (map d_id new), ([], w'))
    \<and> deliveries w' = deliveries w @ new \<and> webhooks w' = webhooks w"
  proof (cases "ms = []")
    case True
    then show ?thesis
      by (simp add: enqueue_event_def list_for_project_def dbind_def ids new_def flip: ms_def)
  next
    case False
    have "set ms \<subseteq> set (webhooks w)" by (auto simp: set_ms)
    moreover have "length ms \<le> length (webhooks w)"
      unfolding ms_def by (rule order_trans [OF length_filter_le]) simp
    ultimately show ?thesis
      using insert_all_ok [of ulid "length (webhooks w)" "[]" w ms now "event_event_id event"
          "event_kind event" payload] assms(3,4) False
      unfolding ids unfolding new_def
      by (auto simp: enqueue_event_def list_for_project_def dbind_def simp flip: ms_def)
  qed
  then show ?thesis
    using assms(1,2) dist rows set_wids unfolding set_ms
    by (auto simp only: enqueue_lifecycle_event_def Let_def option.case if_False simp_thms)
qed

theorem event_fans_out_to_subscribers_witness:
  fixes ev r0 w
  defines "ev \<equiv> Missed \<lparr>sp_event_id = 3, sp_project_id = 4, sp_schedule_id = 5, sp_schedule_name = ''s'',
      sp_tick_id = 6, sp_tick_ts = 0, sp_emitted_at = 0\<rparr> :: unit lifecycle_event"
    and "r0 \<equiv> \<lparr>w_id = 9, w_project_id = 4, w_name = ''n'', w_target_url = ''u'',
      w_secret = ''k'', w_event_kinds = JArr [JStr ''schedule.missed''], w_disabled = False,
      w_disabled_reason = None, w_created_at = 0\<rparr>"
    and "w \<equiv> \<lparr>deliveries = [], webhooks = [r0], requests = []\<rparr>"
  shows "\<exists>w' (new :: delivery list). enqueue_lifecycle_event (\<lambda>e. Some JNull) (\<lambda>i. 100) 10 ev ([], w) = (Inr (map d_id new), ([], w'))
    \<and> set (map d_webhook_id new) = {9}"
proof -
  have "is_webhook_eligible (event_kind ev)" by (simp add: ev_def is_webhook_eligible_def)
  note elig = this
  have inj: "inj_on (\<lambda>i. 100 :: uuid) {..< length (webhooks w)}"
    and fresh: "\<forall>i < length (webhooks w). 100 \<notin> d_id ` set (deliveries w)"
    and dist: "distinct (map w_id (webhooks w))"
    by (simp_all add: w_def inj_on_def)
  have targets: "w_id ` {r \<in> set (webhooks w). w_project_id r = event_project_id ev
      \<and> \<not> w_disabled r \<and> subscribes (w_event_kinds r) (event_kind ev)} = {9}"
  proof -
    have "w_project_id r0 = event_project_id ev \<and> \<not> w_disabled r0 \<and> subscribes (w_event_kinds r0) (event_kind ev)"
      and "w_id r0 = 9" and "set (webhooks w) = {r0}"
      by (simp_all add: r0_def w_def ev_def subscribes_def)
    then show ?thesis by auto
  qed
  obtain w' and new :: "delivery list" where run: "enqueue_lifecycle_event (\<lambda>e. Some JNull) (\<lambda>i. 100) 10 ev ([], w)
      = (Inr (map d_id new), ([], w'))"
    and "set (map d_webhook_id new) = w_id ` {r \<in> set (webhooks w). w_project_id r = event_project_id ev
      \<and> \<not> w_disabled r \<and> subscribes (w_event_kinds r) (event_kind ev)}"
    using event_fans_out_to_subscribers
      [where to_json = "\<lambda>e. Some JNull" and now = 10, OF elig refl inj fresh dist]
    by blast
  from this(2) have "set (map d_webhook_id new) = {9}" by (simp only: targets)
  with run show ?thesis by (intro exI conjI)
qed

end
