(* ===== verification/Recs.thy ===== *)
theory Recs
  imports Webhooks "HOL-Library.Product_Lexorder" "HOL-Library.Multiset"
begin

text \<open>
  GEO recommendations: the lifecycle state machine
  (\<open>crates/recommendations/src/lifecycle.rs\<close>), the table and its repository
  (\<open>crates/storage/src/repositories/recommendations.rs\<close>) and the REST handlers over both
  (\<open>apps/api/src/routes/recommendations.rs\<close>), which also feed the webhook pipeline. Times are
  microseconds, the precision of the column.
\<close>

section \<open>The lifecycle\<close>

datatype rec_state =
    SGenerated | SSurfaced | SAcknowledged | SActed | SMeasured | SDismissed | SStale

primrec state_as_str :: "rec_state \<Rightarrow> string" where
  "state_as_str SGenerated = ''generated''"
| "state_as_str SSurfaced = ''surfaced''"
| "state_as_str SAcknowledged = ''acknowledged''"
| "state_as_str SActed = ''acted''"
| "state_as_str SMeasured = ''measured''"
| "state_as_str SDismissed = ''dismissed''"
| "state_as_str SStale = ''stale''"

definition is_terminal :: "rec_state \<Rightarrow> bool" where
  "is_terminal s = (s = SMeasured \<or> s = SDismissed \<or> s = SStale)"

datatype lifecycle_error = IllegalTransition string string

definition can_transition :: "rec_state \<Rightarrow> rec_state \<Rightarrow> bool" where
  "can_transition a b =
     (a = b
      \<or> (a, b) = (SGenerated, SSurfaced)
      \<or> (a, b) = (SGenerated, SStale)
      \<or> (a, b) = (SSurfaced, SAcknowledged)
      \<or> (a, b) = (SSurfaced, SDismissed)
      \<or> (a, b) = (SAcknowledged, SActed)
      \<or> (a, b) = (SAcknowledged, SDismissed)
      \<or> (a, b) = (SActed, SMeasured))"

definition transition :: "rec_state \<Rightarrow> rec_state \<Rightarrow> lifecycle_error + rec_state" where
  "transition a b =
     (if can_transition a b then Inr b else Inl (IllegalTransition (state_as_str a) (state_as_str b)))"

record mark_acted_result =
  ma_state :: rec_state
  ma_warnings :: "string list"

definition mark_acted ::
  "rec_state \<Rightarrow> string option \<Rightarrow> string option \<Rightarrow> lifecycle_error + mark_acted_result" where
  "mark_acted a note evidence_url =
     rbind (transition a SActed) (\<lambda>state.
       Inr \<lparr>ma_state = state,
            ma_warnings =
              (if (case evidence_url of None \<Rightarrow> True | Some u \<Rightarrow> str_trim u = [])
               then [''lifecycle.evidence_missing''] else [])\<rparr>)"

datatype outcome_status = Improved | Unchanged | Regressed | Inconclusive

definition MIN_POST_ACTED_RUNS :: nat where
  "MIN_POST_ACTED_RUNS = 10"

definition OUTCOME_WINDOW_DAYS :: int where
  "OUTCOME_WINDOW_DAYS = 14"

definition day_us :: int where
  "day_us = 86400 * 10 ^ 6"

definition outcome_due_at :: "int \<Rightarrow> int" where
  "outcome_due_at acted_at = acted_at + OUTCOME_WINDOW_DAYS * day_us"

text \<open>Metric values are \<open>f64\<close>; \<open>lt\<close> is its comparison, false when either side is NaN.\<close>

definition measure_outcome :: "('f \<Rightarrow> 'f \<Rightarrow> bool) \<Rightarrow> 'f \<Rightarrow> 'f \<Rightarrow> nat \<Rightarrow> outcome_status" where
  "measure_outcome lt value_at_acted value_at_measure post_acted_runs =
     (if post_acted_runs < MIN_POST_ACTED_RUNS then Inconclusive
      else if lt value_at_acted value_at_measure then Improved
      else if lt value_at_measure value_at_acted then Regressed
      else Unchanged)"

section \<open>The table\<close>

record rec_row =
  rr_id :: uuid
  rr_project_id :: uuid
  rr_kind :: string
  rr_severity :: string
  rr_confidence_band :: string
  rr_state :: string
  rr_summary :: string
  rr_payload :: json
  rr_traceability :: json
  rr_reproducibility_class :: string
  rr_reproducibility_note :: "string option"
  rr_tags :: "string list"
  rr_input_fingerprint :: string
  rr_engine_version :: string
  rr_plugin_source :: "string option"
  rr_generated_at :: int

type_synonym 'a recm = "(rec_row list, 'a) dbm"

text \<open>The \<open>CHECK\<close> of the column, and the predicate of the partial unique index.\<close>

definition KNOWN_STATES :: "string list" where
  "KNOWN_STATES = [''generated'', ''surfaced'', ''acknowledged'', ''acted'', ''measured'',
     ''dismissed'', ''stale'']"

definition is_active_state :: "string \<Rightarrow> bool" where
  "is_active_state s = (s \<notin> set [''dismissed'', ''measured'', ''stale''])"

definition dedup_key :: "rec_row \<Rightarrow> uuid \<times> string \<times> string" where
  "dedup_key r = (rr_project_id r, rr_kind r, rr_input_fingerprint r)"

definition clashes :: "rec_row \<Rightarrow> rec_row \<Rightarrow> bool" where
  "clashes r x = (is_active_state (rr_state r) \<and> is_active_state (rr_state x) \<and> dedup_key x = dedup_key r)"

text \<open>
  \<open>ON CONFLICT ... DO NOTHING\<close> covers the partial index only: a taken id is an error.
\<close>

definition rec_insert :: "rec_row \<Rightarrow> uuid option recm" where
  "rec_insert r =
     cstmt (\<lambda>rows.
       if rr_state r \<notin> set KNOWN_STATES then None
       else if \<exists>x \<in> set rows. clashes r x then Some (None, rows)
       else if rr_id r \<in> rr_id ` set rows then None
       else Some (Some (rr_id r), rows @ [r]))"

definition find_by_id :: "uuid \<Rightarrow> rec_row option recm" where
  "find_by_id rid = query (find (\<lambda>r. rr_id r = rid))"

text \<open>The update is unconditional on the old state; the indexes may still reject the new one.\<close>

definition update_state :: "uuid \<Rightarrow> uuid \<Rightarrow> string \<Rightarrow> rec_row option recm" where
  "update_state rid project_id new_state =
     cstmt (\<lambda>rows.
       let hit = (\<lambda>r. rr_id r = rid \<and> rr_project_id r = project_id) in
       case find hit rows of
         None \<Rightarrow> Some (None, rows)
       | Some r \<Rightarrow>
           let r' = r\<lparr>rr_state := new_state\<rparr> in
           if new_state \<notin> set KNOWN_STATES \<or> (\<exists>x \<in> set rows. \<not> hit x \<and> clashes r' x) then None
           else Some (Some r', update_where hit (\<lambda>r. r\<lparr>rr_state := new_state\<rparr>) rows))"

definition active_of :: "uuid \<Rightarrow> rec_row \<Rightarrow> bool" where
  "active_of project_id r = (rr_project_id r = project_id \<and> is_active_state (rr_state r))"

definition find_active_by_project :: "uuid \<Rightarrow> rec_row list recm" where
  "find_active_by_project project_id =
     query (\<lambda>rows. rev (sort_key rr_generated_at (filter (active_of project_id) rows)))"

text \<open>The keyset: \<open>(generated_at, id)\<close>, compared lexicographically, newest first.\<close>

definition page_key :: "rec_row \<Rightarrow> int \<times> uuid" where
  "page_key r = (rr_generated_at r, rr_id r)"

definition list_active_paginated :: "uuid \<Rightarrow> nat \<Rightarrow> (int \<times> uuid) option \<Rightarrow> rec_row list recm" where
  "list_active_paginated project_id limit after =
     query (\<lambda>rows. take limit (rev (sort_key page_key (filter
       (\<lambda>r. active_of project_id r \<and> (case after of None \<Rightarrow> True | Some k \<Rightarrow> page_key r < k)) rows))))"

section \<open>Adoption\<close>

record sm14_metric_t =
  numerator :: int
  denominator :: int

definition sm14_rate :: "(int \<Rightarrow> int \<Rightarrow> 'f) \<Rightarrow> sm14_metric_t \<Rightarrow> 'f option" where
  "sm14_rate fdiv m = (if denominator m = 0 then None else Some (fdiv (numerator m) (denominator m)))"

definition was_acted :: "rec_row \<Rightarrow> bool" where
  "was_acted r = (rr_state r \<in> set [''acted'', ''measured''])"

definition was_surfaced :: "rec_row \<Rightarrow> bool" where
  "was_surfaced r = (rr_state r \<in> set [''surfaced'', ''acknowledged'', ''acted'', ''measured'', ''dismissed''])"

definition first_party :: "uuid \<Rightarrow> rec_row \<Rightarrow> bool" where
  "first_party project_id r = (rr_project_id r = project_id \<and> rr_plugin_source r = None)"

definition sm14_metric :: "uuid \<Rightarrow> sm14_metric_t recm" where
  "sm14_metric project_id =
     query (\<lambda>rows. let fp = filter (first_party project_id) rows in
       \<lparr>numerator = int (length (filter was_acted fp)), denominator = int (length (filter was_surfaced fp))\<rparr>)"

record kind_adoption =
  ka_kind :: string
  ka_surfaced :: int
  ka_acted :: int
  ka_dismissed :: int

text \<open>\<open>GROUP BY kind ORDER BY acted DESC, surfaced DESC, kind\<close>; rows that tie on all three do not exist.\<close>

definition adoption_of :: "rec_row list \<Rightarrow> string \<Rightarrow> kind_adoption" where
  "adoption_of fp k =
     (let g = filter (\<lambda>r. rr_kind r = k) fp in
      \<lparr>ka_kind = k, ka_surfaced = int (length (filter was_surfaced g)),
       ka_acted = int (length (filter was_acted g)),
       ka_dismissed = int (length (filter (\<lambda>r. rr_state r = ''dismissed'') g))\<rparr>)"

definition adoption_by_kind :: "(string \<Rightarrow> 'k :: linorder) \<Rightarrow> uuid \<Rightarrow> kind_adoption list recm" where
  "adoption_by_kind collate project_id =
     query (\<lambda>rows. let fp = filter (first_party project_id) rows in
       sort_key (\<lambda>a. (- ka_acted a, - ka_surfaced a, collate (ka_kind a)))
         (map (adoption_of fp) (remdups (map rr_kind fp))))"

section \<open>The REST handlers\<close>

text \<open>
  The service state: the table, the webhook pipeline's world and the events broadcast so far.
  Outside calls are the fields of \<open>api_env\<close>: the text forms of the \<open>uuid\<close>, \<open>ulid\<close> and
  \<open>chrono\<close> crates and the event serializer. \<open>fresh\<close> holds what one emission draws from outside:
  the event id, the delivery ids and the time.
\<close>

record 'f app =
  recs :: "rec_row list"
  hooks :: world
  sse :: "'f lifecycle_event list"

record 'f api_env =
  uuid_parse :: "string \<Rightarrow> uuid option"
  uuid_show :: "uuid \<Rightarrow> string"
  ulid_show :: "uuid \<Rightarrow> string"
  time_show :: "int \<Rightarrow> string"
  from_micros :: "int \<Rightarrow> int option"
  event_json :: "'f lifecycle_event \<Rightarrow> json option"

record fresh =
  f_event_id :: uuid
  f_ulid :: "nat \<Rightarrow> uuid"
  f_now :: int

datatype api_error =
    InvalidId
  | InvalidState
  | InvalidCursor
  | RecNotFound
  | CorruptState
  | TransitionConflict lifecycle_error
  | InternalError string

definition api_status :: "api_error \<Rightarrow> nat" where
  "api_status e =
     (case e of InvalidId \<Rightarrow> 400 | InvalidState \<Rightarrow> 400 | InvalidCursor \<Rightarrow> 400 | RecNotFound \<Rightarrow> 404
      | CorruptState \<Rightarrow> 500 | TransitionConflict _ \<Rightarrow> 409 | InternalError _ \<Rightarrow> 500)"

type_synonym ('f, 'a) handler = "('f app, api_error, 'a) rm"

definition on_recs :: "string \<Rightarrow> 'a recm \<Rightarrow> ('f, 'a) handler" where
  "on_recs what m = map_err (\<lambda>_. InternalError what) (zoom recs (\<lambda>rows a. a\<lparr>recs := rows\<rparr>) m)"

definition parse_state :: "string \<Rightarrow> rec_state option" where
  "parse_state s =
     (if s = ''generated'' then Some SGenerated
      else if s = ''surfaced'' then Some SSurfaced
      else if s = ''acknowledged'' then Some SAcknowledged
      else if s = ''acted'' then Some SActed
      else if s = ''measured'' then Some SMeasured
      else if s = ''dismissed'' then Some SDismissed
      else if s = ''stale'' then Some SStale
      else None)"

definition webhook_event_state :: "rec_state \<Rightarrow> string option" where
  "webhook_event_state s =
     (case s of SSurfaced \<Rightarrow> Some ''surfaced'' | SActed \<Rightarrow> Some ''acted'' | SMeasured \<Rightarrow> Some ''measured''
      | _ \<Rightarrow> None)"

definition row_to_json :: "'f api_env \<Rightarrow> rec_row \<Rightarrow> json" where
  "row_to_json env r =
     JObj [(''id'', JStr (ulid_show env (rr_id r))),
           (''project_id'', JStr (ulid_show env (rr_project_id r))),
           (''kind'', JStr (rr_kind r)),
           (''severity'', JStr (rr_severity r)),
           (''confidence_band'', JStr (rr_confidence_band r)),
           (''state'', JStr (rr_state r)),
           (''summary'', JStr (rr_summary r)),
           (''payload'', rr_payload r),
           (''traceability'', rr_traceability r),
           (''reproducibility'', JObj [(''class'', JStr (rr_reproducibility_class r)),
              (''note'', case rr_reproducibility_note r of None \<Rightarrow> JNull | Some n \<Rightarrow> JStr n)]),
           (''tags'', JArr (map JStr (rr_tags r))),
           (''generated_at'', JStr (time_show env (rr_generated_at r))),
           (''engine_version'', JStr (rr_engine_version r))]"

definition recommendation_event :: "string \<Rightarrow> recommendation_payload \<Rightarrow> 'f lifecycle_event option" where
  "recommendation_event st p =
     (if st = ''generated'' then Some (RecommendationGenerated p)
      else if st = ''surfaced'' then Some (RecommendationSurfaced p)
      else if st = ''acted'' then Some (RecommendationActed p)
      else if st = ''measured'' then Some (RecommendationMeasured p)
      else None)"

definition emit_recommendation_event ::
  "'f api_env \<Rightarrow> fresh \<Rightarrow> uuid \<Rightarrow> uuid \<Rightarrow> string \<Rightarrow> string \<Rightarrow> string \<Rightarrow> ('f, unit) handler" where
  "emit_recommendation_event env fr project_id recommendation_id kind summary st =
     (case recommendation_event st
        \<lparr>rp_event_id = f_event_id fr, rp_project_id = project_id, rp_recommendation_id = recommendation_id,
         rp_recommendation_kind = kind, rp_state = st, rp_summary = summary, rp_emitted_at = f_now fr\<rparr> of
        None \<Rightarrow> ret ()
      | Some event \<Rightarrow>
          dbind (act (\<lambda>a. ((), a\<lparr>sse := sse a @ [event]\<rparr>))) (\<lambda>_.
            ignore (zoom hooks (\<lambda>w a. a\<lparr>hooks := w\<rparr>)
              (enqueue_lifecycle_event (event_json env) (f_ulid fr) (f_now fr) event))))"

text \<open>\<open>Option::filter\<close> on the row's project.\<close>

definition owned :: "uuid \<Rightarrow> rec_row option \<Rightarrow> rec_row option" where
  "owned project_id x = Option.bind x (\<lambda>r. if rr_project_id r = project_id then Some r else None)"

definition detail_handler :: "'f api_env \<Rightarrow> uuid \<Rightarrow> string \<Rightarrow> ('f, json) handler" where
  "detail_handler env project_id rid =
     dbind (ok_or_raise InvalidId (uuid_parse env rid)) (\<lambda>rec_id.
     dbind (on_recs ''fetch recommendation'' (find_by_id rec_id)) (\<lambda>row.
     dbind (ok_or_raise RecNotFound (owned project_id row)) (\<lambda>row. ret (row_to_json env row))))"

record transition_request =
  tr_to :: string
  tr_note :: "string option"
  tr_evidence_url :: "string option"

text \<open>
  The transition handler up to its decision (reads only), from the decision on, and as a whole.
\<close>

definition transition_decide ::
  "'f api_env \<Rightarrow> uuid \<Rightarrow> string \<Rightarrow> transition_request \<Rightarrow> ('f, uuid \<times> rec_state \<times> string list) handler" where
  "transition_decide env project_id rid req =
     dbind (ok_or_raise InvalidId (uuid_parse env rid)) (\<lambda>rec_id.
     dbind (ok_or_raise InvalidState (parse_state (tr_to req))) (\<lambda>to_state.
     dbind (on_recs ''fetch recommendation'' (find_by_id rec_id)) (\<lambda>row.
     dbind (ok_or_raise RecNotFound (owned project_id row)) (\<lambda>row.
     dbind (ok_or_raise CorruptState (parse_state (rr_state row))) (\<lambda>from_state.
     dbind (from_result (map_sum TransitionConflict id
              (if to_state = SActed
               then map_sum id (\<lambda>m. (ma_state m, ma_warnings m))
                      (mark_acted from_state (tr_note req) (tr_evidence_url req))
               else map_sum id (\<lambda>s. (s, [])) (transition from_state to_state)))) (\<lambda>(new_state, warnings).
       ret (rec_id, new_state, warnings)))))))"

definition transition_apply ::
  "'f api_env \<Rightarrow> fresh \<Rightarrow> uuid \<Rightarrow> uuid \<times> rec_state \<times> string list \<Rightarrow> ('f, json \<times> string list) handler" where
  "transition_apply env fr project_id decision =
     (case decision of (rec_id, new_state, warnings) \<Rightarrow>
       dbind (on_recs ''update state'' (update_state rec_id project_id (state_as_str new_state))) (\<lambda>row.
       dbind (ok_or_raise RecNotFound row) (\<lambda>updated.
       dbind (case webhook_event_state new_state of
                None \<Rightarrow> ret ()
              | Some st \<Rightarrow> emit_recommendation_event env fr project_id (rr_id updated) (rr_kind updated)
                             (rr_summary updated) st) (\<lambda>_.
         ret (row_to_json env updated, warnings)))))"

definition transition_handler ::
  "'f api_env \<Rightarrow> fresh \<Rightarrow> uuid \<Rightarrow> string \<Rightarrow> transition_request \<Rightarrow> ('f, json \<times> string list) handler" where
  "transition_handler env fr project_id rid req =
     dbind (transition_decide env project_id rid req) (transition_apply env fr project_id)"

text \<open>
  The persisting loop of the generate handler over the engine's rows: an event is emitted for a
  row that was really inserted; the result counts those.
\<close>

fun persist_generated ::
  "'f api_env \<Rightarrow> (nat \<Rightarrow> fresh) \<Rightarrow> uuid \<Rightarrow> nat \<Rightarrow> rec_row list \<Rightarrow> ('f, nat) handler" where
  "persist_generated env fr project_id inserted_count [] = ret inserted_count"
| "persist_generated env fr project_id inserted_count (r # rs) =
     dbind (on_recs ''insert recommendation'' (rec_insert r)) (\<lambda>inserted.
       case inserted of
         None \<Rightarrow> persist_generated env fr project_id inserted_count rs
       | Some rid \<Rightarrow>
           dbind (emit_recommendation_event env (fr inserted_count) project_id rid (rr_kind r) (rr_summary r)
                    ''generated'')
             (\<lambda>_. persist_generated env fr project_id (inserted_count + 1) rs))"

section \<open>Pages\<close>

definition DEFAULT_PAGE_LIMIT :: int where
  "DEFAULT_PAGE_LIMIT = 50"

definition MAX_PAGE_LIMIT :: int where
  "MAX_PAGE_LIMIT = 200"

definition encode_cursor :: "'f api_env \<Rightarrow> int \<times> uuid \<Rightarrow> string" where
  "encode_cursor env k = show_int (fst k) @ '':'' @ uuid_show env (snd k)"

definition decode_cursor :: "'f api_env \<Rightarrow> string \<Rightarrow> (int \<times> uuid) option" where
  "decode_cursor env c =
     Option.bind (split_once (CHR '':'') c) (\<lambda>(micros, rid).
     Option.bind (parse_i64 micros) (\<lambda>micros.
     Option.bind (from_micros env micros) (\<lambda>ts.
     Option.bind (uuid_parse env rid) (\<lambda>rid. Some (ts, rid)))))"

record list_response =
  items :: "json list"
  next_cursor :: "string option"

definition page_limit :: "int option \<Rightarrow> nat" where
  "page_limit limit = nat (max 1 (min MAX_PAGE_LIMIT (unwrap_or DEFAULT_PAGE_LIMIT limit)))"

definition list_handler ::
  "'f api_env \<Rightarrow> uuid \<Rightarrow> int option \<Rightarrow> string option \<Rightarrow> ('f, list_response) handler" where
  "list_handler env project_id limit_param cursor_param =
     (let limit = page_limit limit_param in
      dbind (case cursor_param of
               None \<Rightarrow> ret None
             | Some c \<Rightarrow> dbind (ok_or_raise InvalidCursor (decode_cursor env c)) (\<lambda>k. ret (Some k))) (\<lambda>after.
      dbind (on_recs ''list recommendations'' (list_active_paginated project_id (limit + 1) after)) (\<lambda>rows.
        if limit < length rows
        then let page = take limit rows
             in ret \<lparr>items = map (row_to_json env) page,
                     next_cursor = Some (encode_cursor env (page_key (last page)))\<rparr>
        else ret \<lparr>items = map (row_to_json env) rows, next_cursor = None\<rparr>)))"

text \<open>A client that follows the cursors; \<open>fuel\<close> bounds the number of requests.\<close>

fun fetch_pages ::
  "'f api_env \<Rightarrow> uuid \<Rightarrow> int option \<Rightarrow> nat \<Rightarrow> string option \<Rightarrow> ('f, json list) handler" where
  "fetch_pages env project_id limit 0 cursor = raise (InternalError ''too many pages'')"
| "fetch_pages env project_id limit (Suc fuel) cursor =
     dbind (list_handler env project_id limit cursor) (\<lambda>page.
       case next_cursor page of
         None \<Rightarrow> ret (items page)
       | Some c \<Rightarrow>
           dbind (fetch_pages env project_id limit fuel (Some c)) (\<lambda>rest. ret (items page @ rest)))"

section \<open>The table's invariant\<close>

definition rec_inv :: "rec_row list \<Rightarrow> bool" where
  "rec_inv rows =
     (distinct (map rr_id rows) \<and> (\<forall>r \<in> set rows. rr_state r \<in> set KNOWN_STATES)
      \<and> (\<forall>x \<in> set rows. \<forall>y \<in> set rows. clashes x y \<longrightarrow> x = y))"

lemma parse_state_as_str [simp]: "parse_state (state_as_str s) = Some s"
  by (cases s) (simp_all add: parse_state_def)

lemma state_as_str_known [simp]: "state_as_str s \<in> set KNOWN_STATES"
  by (cases s) (simp_all add: KNOWN_STATES_def)

lemma parse_state_SomeD: "parse_state x = Some s \<Longrightarrow> x = state_as_str s"
  by (auto simp: parse_state_def split: if_splits)

lemma known_parses: "x \<in> set KNOWN_STATES \<Longrightarrow> \<exists>s. parse_state x = Some s"
  by (auto simp: KNOWN_STATES_def parse_state_def)

lemma clashes_sym: "clashes x y \<longleftrightarrow> clashes y x"
  by (auto simp: clashes_def)

lemma ids_inj: "distinct (map rr_id rows) \<Longrightarrow> x \<in> set rows \<Longrightarrow> y \<in> set rows \<Longrightarrow> rr_id x = rr_id y \<Longrightarrow> x = y"
  by (induction rows) (auto simp: rev_image_eqI)

lemma find_id_iff:
  assumes "distinct (map rr_id rows)"
  shows "find (\<lambda>r. rr_id r = rid) rows = Some r \<longleftrightarrow> r \<in> set rows \<and> rr_id r = rid"
  using assms by (induction rows) (auto simp: rev_image_eqI)

lemma insert_keeps_inv:
  assumes "rec_inv rows" and "rr_state r \<in> set KNOWN_STATES" and "\<forall>x \<in> set rows. \<not> clashes r x"
    and "rr_id r \<notin> rr_id ` set rows"
  shows "rec_inv (rows @ [r])"
  using assms clashes_sym by (auto simp: rec_inv_def)

lemma update_keeps_inv:
  assumes inv: "rec_inv rows" and r: "r \<in> set rows" "hit r" and uniq: "\<And>x. x \<in> set rows \<Longrightarrow> hit x \<Longrightarrow> x = r"
    and st: "st \<in> set KNOWN_STATES" and free: "\<forall>x \<in> set rows. \<not> hit x \<longrightarrow> \<not> clashes (r\<lparr>rr_state := st\<rparr>) x"
  shows "rec_inv (update_where hit (\<lambda>r. r\<lparr>rr_state := st\<rparr>) rows)"
proof -
  let ?u = "\<lambda>x. if hit x then x\<lparr>rr_state := st\<rparr> else x"
  have ids: "map rr_id (update_where hit (\<lambda>r. r\<lparr>rr_state := st\<rparr>) rows) = map rr_id rows"
    by (rule map_update_where) simp
  have "?u x = ?u y" if "x \<in> set rows" "y \<in> set rows" "clashes (?u x) (?u y)" for x y
  proof (cases "hit x"; cases "hit y")
    assume "hit x" "hit y"
    with that uniq have "x = y" by blast
    then show ?thesis by simp
  next
    assume h: "hit x" "\<not> hit y"
    with that uniq free show ?thesis by auto
  next
    assume h: "\<not> hit x" "hit y"
    with that uniq free clashes_sym show ?thesis by auto
  next
    assume h: "\<not> hit x" "\<not> hit y"
    with that inv show ?thesis by (auto simp: rec_inv_def)
  qed
  then have "\<forall>a \<in> ?u ` set rows. \<forall>b \<in> ?u ` set rows. clashes a b \<longrightarrow> a = b" by blast
  moreover have "\<forall>a \<in> ?u ` set rows. rr_state a \<in> set KNOWN_STATES"
    using inv st by (auto simp: rec_inv_def)
  moreover have "distinct (map rr_id rows)" using inv by (simp add: rec_inv_def)
  ultimately show ?thesis
    unfolding rec_inv_def set_update_where ids by blast
qed

lemma update_state_ok:
  assumes "update_state rid p st (fs, rows) = (Inr (Some r'), (fs', rows'))"
  shows "\<exists>r. find (\<lambda>r. rr_id r = rid \<and> rr_project_id r = p) rows = Some r \<and> r' = r\<lparr>rr_state := st\<rparr>
    \<and> st \<in> set KNOWN_STATES
    \<and> (\<forall>x \<in> set rows. \<not> (rr_id x = rid \<and> rr_project_id x = p) \<longrightarrow> \<not> clashes r' x)
    \<and> rows' = update_where (\<lambda>r. rr_id r = rid \<and> rr_project_id r = p) (\<lambda>r. r\<lparr>rr_state := st\<rparr>) rows"
  using assms
  by (auto simp: update_state_def cstmt_def stmt_def Let_def split: option.splits list.splits if_splits
      prod.splits sum.splits)

lemma update_state_other:
  assumes "update_state rid p st (fs, rows) = (res, (fs', rows'))" and "\<And>r'. res \<noteq> Inr (Some r')"
  shows "rows' = rows"
  using assms
  by (auto simp: update_state_def cstmt_def stmt_def Let_def split: option.splits list.splits if_splits
      prod.splits sum.splits)

text \<open>
  What any call may do to the table: the invariant is kept, and every row stays where it is, as it
  was but for its state, which has moved along lifecycle edges.
\<close>

definition row_evolves :: "rec_row \<Rightarrow> rec_row \<Rightarrow> bool" where
  "row_evolves r r' =
     (\<exists>s t. parse_state (rr_state r) = Some s \<and> can_transition\<^sup>*\<^sup>* s t \<and> r' = r\<lparr>rr_state := state_as_str t\<rparr>)"

definition evolves :: "'f app \<Rightarrow> 'f app \<Rightarrow> bool" where
  "evolves a a' =
     (rec_inv (recs a) \<longrightarrow>
        rec_inv (recs a')
        \<and> (\<forall>i < length (recs a). i < length (recs a') \<and> row_evolves (recs a ! i) (recs a' ! i)))"

lemma row_evolves_refl: "rr_state r \<in> set KNOWN_STATES \<Longrightarrow> row_evolves r r"
proof -
  assume "rr_state r \<in> set KNOWN_STATES"
  then obtain s where s: "parse_state (rr_state r) = Some s" using known_parses by blast
  then have "rr_state r = state_as_str s" by (rule parse_state_SomeD)
  with s show ?thesis
    unfolding row_evolves_def by (intro exI [of _ s]) simp
qed

lemma row_evolves_trans:
  assumes "row_evolves a b" and "row_evolves b c"
  shows "row_evolves a c"
proof -
  from assms(1) obtain s t where ab: "parse_state (rr_state a) = Some s" "can_transition\<^sup>*\<^sup>* s t"
    "b = a\<lparr>rr_state := state_as_str t\<rparr>" by (auto simp: row_evolves_def)
  with assms(2) obtain u where "can_transition\<^sup>*\<^sup>* t u" "c = a\<lparr>rr_state := state_as_str u\<rparr>"
    by (auto simp: row_evolves_def)
  with ab show ?thesis
    unfolding row_evolves_def by (intro exI [of _ s] exI [of _ u]) (auto intro: rtranclp_trans)
qed

lemma reflp_evolves [simp, intro]: "reflp evolves"
  by (auto simp: reflp_def evolves_def rec_inv_def intro: row_evolves_refl)

lemma transp_evolves [simp, intro]: "transp evolves"
  unfolding transp_def evolves_def by (meson row_evolves_trans)

lemma evolves_same: "recs a' = recs a \<Longrightarrow> evolves a a'"
  by (auto simp: evolves_def rec_inv_def intro: row_evolves_refl)

lemma evolves_append:
  assumes "rec_inv (recs a) \<Longrightarrow> rec_inv (recs a @ [r])" and "recs a' = recs a @ [r]"
  shows "evolves a a'"
  using assms by (auto simp: evolves_def nth_append rec_inv_def intro: row_evolves_refl)

section \<open>What the handlers may do\<close>

lemma on_recs_run:
  "on_recs what m (fs, a) =
     (case m (fs, recs a) of
        (Inl e, (fs', rows)) \<Rightarrow> (Inl (InternalError what), (fs', a\<lparr>recs := rows\<rparr>))
      | (Inr x, (fs', rows)) \<Rightarrow> (Inr x, (fs', a\<lparr>recs := rows\<rparr>)))"
  by (auto simp: on_recs_def map_err_def zoom_def split: prod.splits sum.splits)

lemma steps_emit: "steps evolves (emit_recommendation_event env fr p rid kind summary st)"
  unfolding emit_recommendation_event_def
  by (intro steps_rules steps_split reflp_evolves transp_evolves)
    (auto intro!: evolves_same stepsI simp: zoom_def split: prod.splits)

lemma steps_insert: "steps evolves (on_recs what (rec_insert r))"
proof (rule stepsI)
  fix fs a res fs' a'
  assume run: "on_recs what (rec_insert r) (fs, a) = (res, (fs', a'))"
  consider "recs a' = recs a" | "recs a' = recs a @ [r]" "rr_state r \<in> set KNOWN_STATES"
      "\<forall>x \<in> set (recs a). \<not> clashes r x" "rr_id r \<notin> rr_id ` set (recs a)"
    using run
    by (auto simp: on_recs_run rec_insert_def cstmt_def stmt_def
        split: prod.splits sum.splits option.splits list.splits if_splits)
  then show "evolves a a'"
  proof cases
    case 1
    then show ?thesis by (rule evolves_same)
  next
    case 2
    then show ?thesis by (intro evolves_append insert_keeps_inv) auto
  qed
qed

lemma steps_persist: "steps evolves (persist_generated env fr p n rs)"
  by (induction rs arbitrary: n)
    (auto intro!: steps_rules steps_split steps_insert steps_emit)

lemma transition_decide_run:
  assumes "transition_decide env p i req (fs, a) = (res, (fs', a'))"
  shows "a' = a
    \<and> (\<forall>rid new ws. res = Inr (rid, new, ws) \<longrightarrow>
         (\<exists>r s. uuid_parse env i = Some rid \<and> find (\<lambda>r. rr_id r = rid) (recs a) = Some r
            \<and> rr_project_id r = p \<and> parse_state (rr_state r) = Some s \<and> can_transition s new
            \<and> parse_state (tr_to req) = Some new))"
  using assms
  by (auto simp: transition_decide_def dbind_def on_recs_run find_by_id_def query_def stmt_def
      ok_or_raise_def from_result_def owned_def mark_acted_def transition_def bind_eq_Some_conv
      split: prod.splits sum.splits option.splits list.splits if_splits)

lemma transition_apply_run:
  assumes "transition_apply env fr p (rid, new, ws) (fs, a) = (res, (fs', a'))"
  shows "recs a' = recs a
    \<or> (\<exists>r. find (\<lambda>r. rr_id r = rid \<and> rr_project_id r = p) (recs a) = Some r
         \<and> (\<forall>x \<in> set (recs a). \<not> (rr_id x = rid \<and> rr_project_id x = p) \<longrightarrow>
              \<not> clashes (r\<lparr>rr_state := state_as_str new\<rparr>) x)
         \<and> recs a' = update_where (\<lambda>r. rr_id r = rid \<and> rr_project_id r = p)
              (\<lambda>r. r\<lparr>rr_state := state_as_str new\<rparr>) (recs a))"
proof -
  obtain x fs1 a1 where upd: "on_recs ''update state'' (update_state rid p (state_as_str new)) (fs, a) = (x, (fs1, a1))"
    by (metis surj_pair)
  have emit: "steps (\<lambda>a a'. recs a' = recs a) (emit_recommendation_event env fr p i k sm st)" for i k sm st
    unfolding emit_recommendation_event_def
    by (intro steps_rules steps_split) (auto simp: reflp_def transp_def zoom_def intro!: stepsI split: prod.splits)
  have rest: "recs a' = recs a1"
    using assms upd
    by (auto simp: transition_apply_def dbind_def ok_or_raise_def
        split: sum.splits option.splits prod.splits dest!: stepsD [OF emit])
  obtain y fs2 rows where u: "update_state rid p (state_as_str new) (fs, recs a) = (y, (fs2, rows))"
    by (metis surj_pair)
  with upd have "recs a1 = rows" by (auto simp: on_recs_run split: sum.splits)
  with rest show ?thesis
    using update_state_other [OF u] update_state_ok [of rid p "state_as_str new" fs "recs a" _ fs2 rows] u
    by (metis (no_types, lifting))
qed

lemma transition_handler_split:
  assumes "transition_handler env fr p i req (fs, a) = (res, (fs', a'))"
  shows "a' = a \<or> (\<exists>rid new ws fs1. transition_decide env p i req (fs, a) = (Inr (rid, new, ws), (fs1, a))
    \<and> transition_apply env fr p (rid, new, ws) (fs1, a) = (res, (fs', a')))"
proof -
  obtain x fs1 a1 where d: "transition_decide env p i req (fs, a) = (x, (fs1, a1))"
    by (metis surj_pair)
  from conjunct1 [OF transition_decide_run [OF d]] have "a1 = a" .
  with d assms show ?thesis
    by (cases x) (auto simp: transition_handler_def dbind_def)
qed

lemma steps_transition: "steps evolves (transition_handler env fr p i req)"
proof (rule stepsI)
  fix fs a res fs' a'
  assume run: "transition_handler env fr p i req (fs, a) = (res, (fs', a'))"
  show "evolves a a'"
  proof (cases "recs a' = recs a")
    case True
    then show ?thesis by (rule evolves_same)
  next
    case False
    with transition_handler_split [OF run] obtain rid new ws fs1
      where d: "transition_decide env p i req (fs, a) = (Inr (rid, new, ws), (fs1, a))"
        and ap: "transition_apply env fr p (rid, new, ws) (fs1, a) = (res, (fs', a'))" by auto
    let ?hit = "\<lambda>r. rr_id r = rid \<and> rr_project_id r = p"
    from transition_decide_run [OF d] obtain r s where r: "find (\<lambda>r. rr_id r = rid) (recs a) = Some r"
      "rr_project_id r = p" "parse_state (rr_state r) = Some s" "can_transition s new" by auto
    from transition_apply_run [OF ap] False obtain r0 where
      r0: "find ?hit (recs a) = Some r0"
        "\<forall>x \<in> set (recs a). \<not> ?hit x \<longrightarrow> \<not> clashes (r0\<lparr>rr_state := state_as_str new\<rparr>) x"
      and upd: "recs a' = update_where ?hit (\<lambda>r. r\<lparr>rr_state := state_as_str new\<rparr>) (recs a)" by auto
    have "row_evolves (recs a ! i) (recs a' ! i)" if "i < length (recs a)" and inv: "rec_inv (recs a)" for i
    proof (cases "?hit (recs a ! i)")
      case True
      with inv r(1) that(1) have "recs a ! i = r"
        by (simp add: rec_inv_def find_id_iff) (metis ids_inj nth_mem)
      with r(3,4) True that(1) upd show ?thesis
        by (auto simp: row_evolves_def update_where_def)
    next
      case hit: False
      with that inv upd show ?thesis
        by (auto simp: update_where_def rec_inv_def intro!: row_evolves_refl)
    qed
    moreover have "rec_inv (recs a')" if "rec_inv (recs a)"
      unfolding upd
    proof (rule update_keeps_inv [OF that])
      show "r0 \<in> set (recs a)" "?hit r0" using r0(1) by (auto simp: find_Some_iff)
      then show "\<And>x. x \<in> set (recs a) \<Longrightarrow> ?hit x \<Longrightarrow> x = r0"
        using that by (auto simp: rec_inv_def intro: ids_inj)
    qed (use r0(2) in simp_all)
    ultimately show ?thesis by (simp add: evolves_def upd)
  qed
qed

text \<open>The writing calls as data, and a run of them.\<close>

datatype 'f rec_op =
    Generate "'f api_env" "nat \<Rightarrow> fresh" uuid "rec_row list"
  | Transition "'f api_env" fresh uuid string transition_request

primrec rec_op_run :: "'f rec_op \<Rightarrow> ('f, unit) handler" where
  "rec_op_run (Generate env fr p rs) = ignore (persist_generated env fr p 0 rs)"
| "rec_op_run (Transition env fr p i req) = ignore (transition_handler env fr p i req)"

definition rec_run :: "'f rec_op list \<Rightarrow> 'f app conn \<Rightarrow> 'f app conn" where
  "rec_run ops = run_seq (map rec_op_run ops)"

lemma steps_rec_op: "steps evolves (rec_op_run x)"
  by (cases x) (simp_all add: steps_ignore steps_persist steps_transition)

lemma rec_run_evolves: "evolves (snd s) (snd (rec_run ops s))"
  unfolding rec_run_def by (rule run_seq_steps) (auto simp: steps_rec_op)

lemma terminal_path: "can_transition\<^sup>*\<^sup>* s t \<Longrightarrow> is_terminal s \<Longrightarrow> t = s"
  by (induction rule: rtranclp_induct) (auto simp: can_transition_def is_terminal_def)

section \<open>Sorted pages\<close>

definition active_desc :: "uuid \<Rightarrow> rec_row list \<Rightarrow> rec_row list" where
  "active_desc p rows = rev (sort_key page_key (filter (active_of p) rows))"

lemma list_active_ok:
  "list_active_paginated p n after ([], rows) =
     (Inr (take n (filter (\<lambda>r. case after of None \<Rightarrow> True | Some k \<Rightarrow> page_key r < k) (active_desc p rows))),
      ([], rows))"
proof -
  let ?P = "\<lambda>r. case after of None \<Rightarrow> True | Some k \<Rightarrow> page_key r < k"
  have "filter ?P (filter (active_of p) rows) = filter (\<lambda>r. active_of p r \<and> ?P r) rows"
    by (simp add: conj_commute)
  then show ?thesis
    by (simp add: list_active_paginated_def active_desc_def filter_sort rev_filter [symmetric])
qed

lemma active_desc_strict:
  assumes "distinct (map rr_id rows)"
  shows "sorted_wrt (\<lambda>x y. page_key y < page_key x) (active_desc p rows)"
proof -
  let ?l = "sort_key page_key (filter (active_of p) rows)"
  have "distinct rows" and inj: "inj_on rr_id (set rows)"
    using assms by (simp_all add: distinct_map)
  then have "distinct ?l" by simp
  moreover have "inj_on page_key (set ?l)"
    using inj by (auto simp: inj_on_def page_key_def)
  ultimately have "distinct (map page_key ?l)" by (simp add: distinct_map)
  moreover have "sorted (map page_key ?l)" by simp
  ultimately have "sorted_wrt (<) (map page_key ?l)" by (simp add: strict_sorted_iff)
  then have "sorted_wrt (\<lambda>x y. page_key x < page_key y) ?l" by (simp add: sorted_wrt_map)
  then show ?thesis by (simp add: active_desc_def sorted_wrt_rev)
qed

lemma sorted_wrt_last:
  assumes "sorted_wrt P xs" and "x \<in> set xs"
  shows "x = last xs \<or> P x (last xs)"
  using assms by (induction xs) auto

lemma next_page:
  assumes "sorted_wrt (\<lambda>x y. page_key y < page_key x) d" and "0 < n" and "n < length d"
  shows "filter (\<lambda>r. page_key r < page_key (last (take n d))) d = drop n d"
proof -
  define us vs where "us = take n d" and "vs = drop n d"
  then have split: "d = us @ vs" by simp
  have "us \<noteq> []" using assms(2,3) by (auto simp: us_def)
  from assms(1) have s1: "sorted_wrt (\<lambda>x y. page_key y < page_key x) us"
    and s2: "\<forall>x \<in> set us. \<forall>y \<in> set vs. page_key y < page_key x"
    unfolding split by (simp_all add: sorted_wrt_append)
  from s2 \<open>us \<noteq> []\<close> have "filter (\<lambda>r. page_key r < page_key (last us)) vs = vs"
    by (intro filter_True) simp
  moreover have "filter (\<lambda>r. page_key r < page_key (last us)) us = []"
    using sorted_wrt_last [OF s1] by (intro filter_False) (auto dest: less_asym)
  ultimately show ?thesis
    unfolding us_def [symmetric] vs_def [symmetric] by (subst split) simp
qed

lemma list_handler_ok:
  assumes "cursor = None \<and> after = None \<or> (\<exists>c k. cursor = Some c \<and> decode_cursor env c = Some k \<and> after = Some k)"
  shows "list_handler env p limit cursor ([], a) =
    (let d = filter (\<lambda>r. case after of None \<Rightarrow> True | Some k \<Rightarrow> page_key r < k) (active_desc p (recs a));
         n = page_limit limit
     in (Inr (if n < length d
              then \<lparr>items = map (row_to_json env) (take n d),
                    next_cursor = Some (encode_cursor env (page_key (last (take n d))))\<rparr>
              else \<lparr>items = map (row_to_json env) d, next_cursor = None\<rparr>), ([], a)))"
  using assms
  by (auto simp: list_handler_def dbind_def on_recs_run list_active_ok Let_def min_def)

lemma page_limit_pos: "0 < page_limit l"
  by (simp add: page_limit_def)

lemma cursor_roundtrip:
  assumes "uuid_parse env (uuid_show env u) = Some u" and "from_micros env m = Some m"
    and "- (2 ^ 63) \<le> m" and "m < 2 ^ 63"
  shows "decode_cursor env (encode_cursor env (m, u)) = Some (m, u)"
proof -
  have "CHR '':'' \<notin> set (show_int m)"
    using show_int_chars [of "CHR '':''" m] by (auto simp: digit_val_def)
  then have "split_once (CHR '':'') (show_int m @ CHR '':'' # uuid_show env u) = Some (show_int m, uuid_show env u)"
    by (rule split_once_append)
  with assms parse_i64_show_int [OF assms(3,4)] show ?thesis
    by (simp add: decode_cursor_def encode_cursor_def)
qed

lemma fetch_pages_ok:
  assumes "sorted_wrt (\<lambda>x y. page_key y < page_key x) (active_desc p (recs a))"
    and "\<forall>r \<in> set (recs a). decode_cursor env (encode_cursor env (page_key r)) = Some (page_key r)"
    and "cursor = None \<and> after = None \<or> (\<exists>c k. cursor = Some c \<and> decode_cursor env c = Some k \<and> after = Some k)"
    and "length (filter (\<lambda>r. case after of None \<Rightarrow> True | Some k \<Rightarrow> page_key r < k) (active_desc p (recs a))) < fuel"
  shows "fetch_pages env p limit fuel cursor ([], a) =
    (Inr (map (row_to_json env)
       (filter (\<lambda>r. case after of None \<Rightarrow> True | Some k \<Rightarrow> page_key r < k) (active_desc p (recs a)))), ([], a))"
  using assms(3,4)
proof (induction fuel arbitrary: cursor after)
  case 0
  then show ?case by simp
next
  case (Suc fuel)
  let ?f = "\<lambda>after. filter (\<lambda>r. case after of None \<Rightarrow> True | Some k \<Rightarrow> page_key r < k) (active_desc p (recs a))"
  let ?d = "?f after" and ?n = "page_limit limit"
  note page = list_handler_ok [OF Suc.prems(1), of p limit a]
  show ?case
  proof (cases "?n < length ?d")
    case False
    with page show ?thesis by (simp add: dbind_def Let_def)
  next
    case True
    let ?k = "page_key (last (take ?n ?d))"
    have sd: "sorted_wrt (\<lambda>x y. page_key y < page_key x) ?d"
      using assms(1) by (rule sorted_wrt_filter)
    have tk: "take ?n ?d \<noteq> []" using True page_limit_pos [of limit] by auto
    then have mem: "last (take ?n ?d) \<in> set ?d" by (meson in_set_takeD last_in_set)
    then have "last (take ?n ?d) \<in> set (recs a)" by (simp add: active_desc_def)
    with assms(2) have dec: "decode_cursor env (encode_cursor env ?k) = Some ?k" by blast
    have "?f (Some ?k) = filter (\<lambda>r. page_key r < ?k) ?d"
      using mem by (auto simp: filter_filter intro!: filter_cong split: option.splits)
    also have "\<dots> = drop ?n ?d"
      by (rule next_page [OF sd page_limit_pos True])
    finally have rest: "?f (Some ?k) = drop ?n ?d" .
    have "length (?f (Some ?k)) < fuel"
      using Suc.prems(2) True page_limit_pos [of limit] unfolding rest by (simp add: Suc_diff_le)
    with Suc.IH [of "Some (encode_cursor env ?k)" "Some ?k"] dec
    have "fetch_pages env p limit fuel (Some (encode_cursor env ?k)) ([], a) =
      (Inr (map (row_to_json env) (drop ?n ?d)), ([], a))"
      unfolding rest by simp
    with page True show ?thesis
      by (simp add: dbind_def Let_def flip: map_append)
  qed
qed

section \<open>Runs without faults\<close>

lemma dry_enqueue: "dry (enqueue_lifecycle_event to_json ulid now event)"
proof -
  have ins: "dry (insert_all ulid now eid kind payload issued ws)" for eid kind payload issued ws
    by (induction ws arbitrary: issued) (auto intro!: dry_rules simp: insert_pending_def)
  show ?thesis
    by (auto simp: enqueue_lifecycle_event_def enqueue_event_def list_for_project_def Let_def
        intro!: dry_rules ins)
qed

lemma emit_ok:
  "\<exists>a'. emit_recommendation_event env fr p rid kind summary st ([], a) = (Inr (), ([], a'))
    \<and> recs a' = recs a
    \<and> sse a' = sse a @ (case recommendation_event st
        \<lparr>rp_event_id = f_event_id fr, rp_project_id = p, rp_recommendation_id = rid,
         rp_recommendation_kind = kind, rp_state = st, rp_summary = summary, rp_emitted_at = f_now fr\<rparr> of
        None \<Rightarrow> [] | Some ev \<Rightarrow> [ev])"
  by (auto simp: emit_recommendation_event_def dbind_def zoom_def split: option.splits prod.splits
      dest!: dryD [OF dry_enqueue])

lemma update_state_free:
  assumes "rec_inv rows" and "r \<in> set rows" and "st \<in> set KNOWN_STATES"
    and "\<forall>x \<in> set rows. rr_id x \<noteq> rr_id r \<longrightarrow> \<not> clashes (r\<lparr>rr_state := st\<rparr>) x"
  shows "update_state (rr_id r) (rr_project_id r) st ([], rows) =
    (Inr (Some (r\<lparr>rr_state := st\<rparr>)),
     ([], update_where (\<lambda>x. rr_id x = rr_id r \<and> rr_project_id x = rr_project_id r)
            (\<lambda>x. x\<lparr>rr_state := st\<rparr>) rows))"
proof -
  let ?hit = "\<lambda>x. rr_id x = rr_id r \<and> rr_project_id x = rr_project_id r"
  have inj: "x = r" if "x \<in> set rows" "rr_id x = rr_id r" for x
    using that assms(1,2) by (auto simp: rec_inv_def intro: ids_inj)
  have "find ?hit rows = Some r"
  proof (cases "find ?hit rows")
    case None
    with assms(2) show ?thesis by (auto simp: find_None_iff)
  next
    case (Some x)
    then have "x \<in> set rows" and "rr_id x = rr_id r" by (auto simp: find_Some_iff)
    with inj Some show ?thesis by simp
  qed
  moreover have "\<not> (\<exists>x \<in> set rows. \<not> ?hit x \<and> clashes (r\<lparr>rr_state := st\<rparr>) x)"
    using assms(4) inj by blast
  ultimately show ?thesis
    using assms(3) by (auto simp: update_state_def Let_def)
qed

lemma transition_apply_ok:
  assumes "rec_inv (recs a)" and "r \<in> set (recs a)"
    and "\<forall>x \<in> set (recs a). rr_id x \<noteq> rr_id r \<longrightarrow> \<not> clashes (r\<lparr>rr_state := state_as_str new\<rparr>) x"
  shows "\<exists>a'. transition_apply env fr (rr_project_id r) (rr_id r, new, ws) ([], a) =
      (Inr (row_to_json env (r\<lparr>rr_state := state_as_str new\<rparr>), ws), ([], a'))
    \<and> recs a' = update_where (\<lambda>x. rr_id x = rr_id r \<and> rr_project_id x = rr_project_id r)
        (\<lambda>x. x\<lparr>rr_state := state_as_str new\<rparr>) (recs a)
    \<and> r\<lparr>rr_state := state_as_str new\<rparr> \<in> set (recs a')
    \<and> length (sse a') = length (sse a) + (if webhook_event_state new = None then 0 else 1)"
proof -
  let ?u = "update_where (\<lambda>x. rr_id x = rr_id r \<and> rr_project_id x = rr_project_id r)
        (\<lambda>x. x\<lparr>rr_state := state_as_str new\<rparr>) (recs a)"
  let ?r = "r\<lparr>rr_state := state_as_str new\<rparr>" and ?a = "a\<lparr>recs := ?u\<rparr>"
  have mem: "?r \<in> set ?u" using assms(2) by (auto simp: set_update_where image_iff intro!: bexI [of _ r])
  have upd: "on_recs ''update state'' (update_state (rr_id r) (rr_project_id r) (state_as_str new)) ([], a)
      = (Inr (Some ?r), ([], ?a))"
    using update_state_free [OF assms(1,2) state_as_str_known assms(3)] by (simp add: on_recs_run)
  show ?thesis
  proof (cases "webhook_event_state new")
    case None
    with upd mem show ?thesis by (simp add: transition_apply_def dbind_def)
  next
    case (Some st)
    then have "st \<in> {''surfaced'', ''acted'', ''measured''}"
      by (cases new) (simp_all add: webhook_event_state_def)
    with emit_ok [of env fr "rr_project_id r" "rr_id r" "rr_kind r" "rr_summary r" st ?a] upd mem Some
    show ?thesis by (auto simp: transition_apply_def dbind_def recommendation_event_def)
  qed
qed

lemma transition_decide_ok:
  assumes "rec_inv (recs a)" and "r \<in> set (recs a)" and "uuid_parse env i = Some (rr_id r)"
    and "parse_state (rr_state r) = Some s" and "parse_state (tr_to req) = Some t" and "can_transition s t"
  shows "\<exists>ws. transition_decide env (rr_project_id r) i req ([], a) = (Inr (rr_id r, t, ws), ([], a))"
proof -
  have "find (\<lambda>x. rr_id x = rr_id r) (recs a) = Some r"
    using assms(1,2) by (simp add: find_id_iff rec_inv_def)
  with assms(3-6) show ?thesis
    by (auto simp: transition_decide_def dbind_def on_recs_run find_by_id_def owned_def mark_acted_def
        transition_def)
qed

section \<open>Adoption counts\<close>

lemma length_filter_groups:
  assumes "finite K" and "g ` set xs \<subseteq> K"
  shows "length (filter P xs) = (\<Sum>k \<in> K. length (filter P (filter (\<lambda>r. g r = k) xs)))"
  using assms
proof (induction xs)
  case Nil
  then show ?case by simp
next
  case (Cons x xs)
  have "(\<Sum>k \<in> K. length (filter P (filter (\<lambda>r. g r = k) (x # xs))))
      = (\<Sum>k \<in> K. (if k = g x then (if P x then 1 else 0) else 0) + length (filter P (filter (\<lambda>r. g r = k) xs)))"
    by (rule sum.cong) auto
  also have "\<dots> = (if P x then 1 else 0) + length (filter P xs)"
    using Cons by (simp add: sum.distrib)
  finally show ?case by simp
qed

lemma sum_adoption:
  "(\<Sum>a \<leftarrow> map (adoption_of fp) (remdups (map rr_kind fp)). h a) =
     (\<Sum>k \<in> rr_kind ` set fp. h (adoption_of fp k))"
  by (simp add: comp_def sum_list_distinct_conv_sum_set)

lemma sum_groups:
  "(\<Sum>k \<in> rr_kind ` set fp. int (length (filter P (filter (\<lambda>r. rr_kind r = k) fp)))) = int (length (filter P fp))"
  using length_filter_groups [of "rr_kind ` set fp" rr_kind fp P] by simp

lemma adoption_of_counts [simp]:
  "ka_acted (adoption_of fp k) = int (length (filter was_acted (filter (\<lambda>r. rr_kind r = k) fp)))"
  "ka_surfaced (adoption_of fp k) = int (length (filter was_surfaced (filter (\<lambda>r. rr_kind r = k) fp)))"
  by (simp_all add: adoption_of_def Let_def del: filter_filter)

lemma acted_le_surfaced: "length (filter was_acted xs) \<le> length (filter was_surfaced xs)"
  by (induction xs) (auto simp: was_acted_def was_surfaced_def)

lemma first_party_again:
  "filter (first_party p) (filter (\<lambda>r. rr_plugin_source r = None) rows) = filter (first_party p) rows"
  by (induction rows) (auto simp: first_party_def)

section \<open>Properties\<close>

text \<open>
  C1 (safety). Whatever calls are made, one after the other, and whatever the database does, every
  recommendation keeps its row and everything in it but the state, the state moves only along
  lifecycle edges, a terminal one never moves again, and two active rows never share project, kind
  and fingerprint.
\<close>

theorem lifecycle_is_respected:
  assumes "rec_inv (recs a)" and "r \<in> set (recs a)"
  shows "rec_inv (recs (snd (rec_run ops (faults, a))))
    \<and> (\<exists>s t. parse_state (rr_state r) = Some s \<and> can_transition\<^sup>*\<^sup>* s t
         \<and> r\<lparr>rr_state := state_as_str t\<rparr> \<in> set (recs (snd (rec_run ops (faults, a))))
         \<and> (is_terminal s \<longrightarrow> t = s))"
proof -
  from rec_run_evolves [of "(faults, a)" ops] have ev: "evolves a (snd (rec_run ops (faults, a)))" by simp
  from assms(2) obtain i where i: "i < length (recs a)" "recs a ! i = r" by (auto simp: in_set_conv_nth)
  with ev assms(1) obtain s t where "parse_state (rr_state r) = Some s" "can_transition\<^sup>*\<^sup>* s t"
    "r\<lparr>rr_state := state_as_str t\<rparr> \<in> set (recs (snd (rec_run ops (faults, a))))"
    by (auto simp: evolves_def row_evolves_def) (metis nth_mem)
  with ev assms(1) show ?thesis
    using terminal_path by (auto simp: evolves_def)
qed

theorem lifecycle_is_respected_witness:
  fixes r a
  defines "r \<equiv> \<lparr>rr_id = 1, rr_project_id = 2, rr_kind = ''k'', rr_severity = ''high'', rr_confidence_band = ''b'',
      rr_state = ''dismissed'', rr_summary = ''s'', rr_payload = JNull, rr_traceability = JNull,
      rr_reproducibility_class = ''c'', rr_reproducibility_note = None, rr_tags = [], rr_input_fingerprint = ''f'',
      rr_engine_version = ''v'', rr_plugin_source = None, rr_generated_at = 5\<rparr>"
    and "a \<equiv> \<lparr>recs = [r], hooks = \<lparr>deliveries = [], webhooks = [], requests = []\<rparr>, sse = []\<rparr> :: unit app"
  shows "\<forall>ops faults. r \<in> set (recs (snd (rec_run ops (faults, a))))"
proof (intro allI)
  fix ops :: "unit rec_op list" and faults
  have inv: "rec_inv (recs a)" and mem: "r \<in> set (recs a)" and st: "parse_state (rr_state r) = Some SDismissed"
    by (simp_all add: a_def r_def rec_inv_def KNOWN_STATES_def parse_state_def)
  have "r\<lparr>rr_state := state_as_str SDismissed\<rparr> = r" by (simp add: r_def)
  with lifecycle_is_respected [OF inv mem, of ops faults] st
  show "r \<in> set (recs (snd (rec_run ops (faults, a))))"
    by (auto simp: is_terminal_def)
qed

text \<open>
  The transition handler is not safe against itself: two requests that both read an
  acknowledged recommendation, one to dismiss it and one to mark it acted, both succeed, and the
  dismissed row ends up acted, an edge the state machine forbids.
\<close>

theorem concurrent_transitions_revive_dismissed:
  assumes "rec_inv (recs a)" and "r \<in> set (recs a)" and "rr_state r = ''acknowledged''"
    and "uuid_parse env i = Some (rr_id r)"
  shows "\<exists>d1 d2 a1 a2.
    transition_decide env (rr_project_id r) i \<lparr>tr_to = ''dismissed'', tr_note = None, tr_evidence_url = None\<rparr> ([], a)
      = (Inr d1, ([], a))
    \<and> transition_decide env (rr_project_id r) i \<lparr>tr_to = ''acted'', tr_note = None, tr_evidence_url = None\<rparr> ([], a)
      = (Inr d2, ([], a))
    \<and> snd (transition_apply env fr (rr_project_id r) d1 ([], a)) = ([], a1)
    \<and> r\<lparr>rr_state := ''dismissed''\<rparr> \<in> set (recs a1)
    \<and> snd (transition_apply env fr' (rr_project_id r) d2 ([], a1)) = ([], a2)
    \<and> r\<lparr>rr_state := ''acted''\<rparr> \<in> set (recs a2) \<and> \<not> can_transition SDismissed SActed"
proof -
  let ?p = "rr_project_id r" and ?x = "r\<lparr>rr_state := ''dismissed''\<rparr>"
  have ack: "parse_state (rr_state r) = Some SAcknowledged" by (simp add: assms(3) parse_state_def)
  have free: "\<forall>x \<in> set (recs a). rr_id x \<noteq> rr_id r \<longrightarrow> \<not> clashes (r\<lparr>rr_state := ''acted''\<rparr>) x"
  proof (intro ballI impI notI)
    fix x assume "x \<in> set (recs a)" "rr_id x \<noteq> rr_id r" "clashes (r\<lparr>rr_state := ''acted''\<rparr>) x"
    with assms show False by (auto simp: rec_inv_def clashes_def is_active_state_def dedup_key_def)
  qed
  obtain w1 where d1: "transition_decide env ?p i \<lparr>tr_to = ''dismissed'', tr_note = None, tr_evidence_url = None\<rparr>
      ([], a) = (Inr (rr_id r, SDismissed, w1), ([], a))"
    using transition_decide_ok [OF assms(1,2,4) ack, of "\<lparr>tr_to = ''dismissed'', tr_note = None, tr_evidence_url = None\<rparr>"
        SDismissed] by (auto simp: parse_state_def can_transition_def)
  obtain w2 where d2: "transition_decide env ?p i \<lparr>tr_to = ''acted'', tr_note = None, tr_evidence_url = None\<rparr>
      ([], a) = (Inr (rr_id r, SActed, w2), ([], a))"
    using transition_decide_ok [OF assms(1,2,4) ack, of "\<lparr>tr_to = ''acted'', tr_note = None, tr_evidence_url = None\<rparr>"
        SActed] by (auto simp: parse_state_def can_transition_def)
  have "\<forall>x \<in> set (recs a). rr_id x \<noteq> rr_id r \<longrightarrow> \<not> clashes (r\<lparr>rr_state := state_as_str SDismissed\<rparr>) x"
    by (simp add: clashes_def is_active_state_def)
  from transition_apply_ok [OF assms(1,2) this, of env fr w1] obtain a1 j1 where
    ap1: "transition_apply env fr ?p (rr_id r, SDismissed, w1) ([], a) = (Inr j1, ([], a1))"
    and r1: "recs a1 = update_where (\<lambda>x. rr_id x = rr_id r \<and> rr_project_id x = rr_project_id r)
        (\<lambda>x. x\<lparr>rr_state := ''dismissed''\<rparr>) (recs a)" and m1: "?x \<in> set (recs a1)" by auto
  have inv1: "rec_inv (recs a1)"
    using rec_run_evolves [of "([], a)" "[Transition env fr ?p i
        \<lparr>tr_to = ''dismissed'', tr_note = None, tr_evidence_url = None\<rparr>]"] d1 ap1 assms(1)
    by (simp add: rec_run_def transition_handler_def dbind_def evolves_def)
  have "\<forall>x \<in> set (recs a1). rr_id x \<noteq> rr_id ?x \<longrightarrow> \<not> clashes (?x\<lparr>rr_state := state_as_str SActed\<rparr>) x"
    using free by (auto simp: r1 set_update_where)
  from transition_apply_ok [OF inv1 m1 this, of env fr' w2] obtain a2 j2 where
    ap2: "transition_apply env fr' ?p (rr_id r, SActed, w2) ([], a1) = (Inr j2, ([], a2))"
    and m2: "r\<lparr>rr_state := ''acted''\<rparr> \<in> set (recs a2)" by auto
  from d1 d2 ap1 m1 ap2 m2 show ?thesis
    by (intro exI [of _ "(rr_id r, SDismissed, w1)"] exI [of _ "(rr_id r, SActed, w2)"] exI [of _ a1] exI [of _ a2])
      (simp add: can_transition_def)
qed

theorem concurrent_transitions_revive_dismissed_witness:
  fixes r a env fr
  defines "r \<equiv> \<lparr>rr_id = 1, rr_project_id = 2, rr_kind = ''k'', rr_severity = ''high'', rr_confidence_band = ''b'',
      rr_state = ''acknowledged'', rr_summary = ''s'', rr_payload = JNull, rr_traceability = JNull,
      rr_reproducibility_class = ''c'', rr_reproducibility_note = None, rr_tags = [], rr_input_fingerprint = ''f'',
      rr_engine_version = ''v'', rr_plugin_source = None, rr_generated_at = 5\<rparr>"
    and "a \<equiv> \<lparr>recs = [r], hooks = \<lparr>deliveries = [], webhooks = [], requests = []\<rparr>, sse = []\<rparr> :: unit app"
    and "env \<equiv> \<lparr>uuid_parse = (\<lambda>s. if s = ''1'' then Some 1 else None), uuid_show = (\<lambda>u. ''1''),
      ulid_show = (\<lambda>u. ''01ARZ3NDEKTSV4RRFFQ69G5FAV''), time_show = show_int, from_micros = Some,
      event_json = (\<lambda>e. None)\<rparr>"
    and "fr \<equiv> \<lparr>f_event_id = 7, f_ulid = (\<lambda>i. 8), f_now = 9\<rparr>"
  shows "\<exists>d1 d2 a1 a2. snd (transition_apply env fr 2 d1 ([], a)) = ([], a1)
    \<and> r\<lparr>rr_state := ''dismissed''\<rparr> \<in> set (recs a1)
    \<and> snd (transition_apply env fr 2 d2 ([], a1)) = ([], a2) \<and> r\<lparr>rr_state := ''acted''\<rparr> \<in> set (recs a2)"
proof -
  have "rec_inv (recs a)" "r \<in> set (recs a)" "rr_state r = ''acknowledged''" "uuid_parse env ''1'' = Some (rr_id r)"
    and p: "rr_project_id r = 2"
    by (simp_all add: a_def r_def env_def rec_inv_def KNOWN_STATES_def clashes_def)
  from concurrent_transitions_revive_dismissed [OF this(1-4), of fr fr] show ?thesis
    unfolding p by blast
qed

text \<open>
  C15 (functional). Following the cursors visits the active recommendations of a project exactly
  once each, newest first, whatever page size the client asks for: the pages put together are the
  whole ordered list, and one request more than there are rows is always enough. (The cursor's
  parts are taken to survive their text forms.)
\<close>

theorem pages_cover_active_list:
  assumes "distinct (map rr_id (recs a))"
    and "\<forall>r \<in> set (recs a). uuid_parse env (uuid_show env (rr_id r)) = Some (rr_id r)
      \<and> from_micros env (rr_generated_at r) = Some (rr_generated_at r)
      \<and> - (2 ^ 63) \<le> rr_generated_at r \<and> rr_generated_at r < 2 ^ 63"
  shows "fetch_pages env p limit (Suc (length (recs a))) None ([], a) =
      (Inr (map (row_to_json env) (active_desc p (recs a))), ([], a))
    \<and> set (active_desc p (recs a)) = {r \<in> set (recs a). active_of p r}
    \<and> sorted_wrt (\<lambda>x y. page_key y < page_key x) (active_desc p (recs a))"
proof -
  have strict: "sorted_wrt (\<lambda>x y. page_key y < page_key x) (active_desc p (recs a))"
    using assms(1) by (rule active_desc_strict)
  have dec: "\<forall>r \<in> set (recs a). decode_cursor env (encode_cursor env (page_key r)) = Some (page_key r)"
    using assms(2) by (auto simp: page_key_def intro!: cursor_roundtrip)
  have "length (active_desc p (recs a)) \<le> length (recs a)" by (simp add: active_desc_def)
  with fetch_pages_ok [OF strict dec, of None None "Suc (length (recs a))" limit]
  have "fetch_pages env p limit (Suc (length (recs a))) None ([], a) =
      (Inr (map (row_to_json env) (active_desc p (recs a))), ([], a))"
    by (simp del: fetch_pages.simps)
  moreover have "set (active_desc p (recs a)) = {r \<in> set (recs a). active_of p r}"
    by (auto simp: active_desc_def)
  ultimately show ?thesis using strict by blast
qed

theorem pages_cover_active_list_witness:
  fixes r a env
  defines "r \<equiv> \<lparr>rr_id = 1, rr_project_id = 2, rr_kind = ''k'', rr_severity = ''high'', rr_confidence_band = ''b'',
      rr_state = ''surfaced'', rr_summary = ''s'', rr_payload = JNull, rr_traceability = JNull,
      rr_reproducibility_class = ''c'', rr_reproducibility_note = None, rr_tags = [], rr_input_fingerprint = ''f'',
      rr_engine_version = ''v'', rr_plugin_source = None, rr_generated_at = 5\<rparr>"
    and "a \<equiv> \<lparr>recs = [r], hooks = \<lparr>deliveries = [], webhooks = [], requests = []\<rparr>, sse = []\<rparr> :: unit app"
    and "env \<equiv> \<lparr>uuid_parse = (\<lambda>s. if s = ''1'' then Some 1 else None), uuid_show = (\<lambda>u. ''1''),
      ulid_show = (\<lambda>u. ''01ARZ3NDEKTSV4RRFFQ69G5FAV''), time_show = show_int, from_micros = Some,
      event_json = (\<lambda>e. None)\<rparr>"
  shows "fetch_pages env 2 (Some 1) 2 None ([], a) = (Inr [row_to_json env r], ([], a))"
proof -
  have "distinct (map rr_id (recs a))"
    and "\<forall>r \<in> set (recs a). uuid_parse env (uuid_show env (rr_id r)) = Some (rr_id r)
      \<and> from_micros env (rr_generated_at r) = Some (rr_generated_at r)
      \<and> - (2 ^ 63) \<le> rr_generated_at r \<and> rr_generated_at r < 2 ^ 63"
    and "active_desc 2 (recs a) = [r]" and "Suc (length (recs a)) = 2"
    by (simp_all add: a_def r_def env_def active_desc_def active_of_def is_active_state_def)
  with pages_cover_active_list [of a env 2 "Some 1"] show ?thesis by (simp del: fetch_pages.simps)
qed

text \<open>
  The identifiers the list hands out cannot be used: they are printed as ULIDs, 26
  characters long, while the detail and transition handlers read UUIDs, whose text forms have
  other lengths, so every id taken from a listed item is answered with 400.
\<close>

theorem listed_ids_are_rejected:
  assumes "\<forall>x u. uuid_parse env x = Some u \<longrightarrow> length x \<in> {32, 36, 38, 45}"
    and "\<forall>u. length (ulid_show env u) = 26"
    and "list_handler env p limit cursor s = (Inr page, s')" and "j \<in> set (items page)"
    and "json_get ''id'' j = Some (JStr i)"
  shows "fst (detail_handler env p i t) = Inl InvalidId
    \<and> fst (transition_handler env fr p i req t) = Inl InvalidId \<and> api_status InvalidId = 400"
proof -
  from assms(3,4) obtain r where "j = row_to_json env r"
    by (auto simp: list_handler_def Let_def dbind_def split: sum.splits prod.splits if_splits)
  with assms(5) have "i = ulid_show env (rr_id r)" by (simp add: row_to_json_def)
  with assms(1,2) have "uuid_parse env i = None"
    by (cases "uuid_parse env i") auto
  then show ?thesis
    by (simp add: detail_handler_def transition_handler_def transition_decide_def dbind_def api_status_def)
qed

theorem listed_ids_are_rejected_witness:
  fixes r a env
  defines "r \<equiv> \<lparr>rr_id = 1, rr_project_id = 2, rr_kind = ''k'', rr_severity = ''high'', rr_confidence_band = ''b'',
      rr_state = ''surfaced'', rr_summary = ''s'', rr_payload = JNull, rr_traceability = JNull,
      rr_reproducibility_class = ''c'', rr_reproducibility_note = None, rr_tags = [], rr_input_fingerprint = ''f'',
      rr_engine_version = ''v'', rr_plugin_source = None, rr_generated_at = 5\<rparr>"
    and "a \<equiv> \<lparr>recs = [r], hooks = \<lparr>deliveries = [], webhooks = [], requests = []\<rparr>, sse = []\<rparr> :: unit app"
    and "env \<equiv> \<lparr>uuid_parse = (\<lambda>s. if length s = 36 then Some 1 else None), uuid_show = (\<lambda>u. ''1''),
      ulid_show = (\<lambda>u. ''01ARZ3NDEKTSV4RRFFQ69G5FAV''), time_show = show_int, from_micros = Some,
      event_json = (\<lambda>e. None)\<rparr>"
  shows "fst (list_handler env 2 None None ([], a)) = Inr \<lparr>items = [row_to_json env r], next_cursor = None\<rparr>
    \<and> fst (detail_handler env 2 ''01ARZ3NDEKTSV4RRFFQ69G5FAV'' ([], a)) = Inl InvalidId"
proof -
  have "active_desc 2 (recs a) = [r]"
    by (simp add: a_def r_def active_desc_def active_of_def is_active_state_def)
  then have "list_handler env 2 None None ([], a) = (Inr \<lparr>items = [row_to_json env r], next_cursor = None\<rparr>, ([], a))"
    by (simp add: list_handler_ok [where after = None] page_limit_def MAX_PAGE_LIMIT_def DEFAULT_PAGE_LIMIT_def)
  moreover have "\<forall>x u. uuid_parse env x = Some u \<longrightarrow> length x \<in> {32, 36, 38, 45}"
    and "\<forall>u. length (ulid_show env u) = 26"
    by (simp_all add: env_def)
  moreover have "json_get ''id'' (row_to_json env r) = Some (JStr ''01ARZ3NDEKTSV4RRFFQ69G5FAV'')"
    by (simp add: row_to_json_def env_def)
  ultimately show ?thesis
    using listed_ids_are_rejected [of env 2 None None "([], a)" _ "([], a)" "row_to_json env r"
        "''01ARZ3NDEKTSV4RRFFQ69G5FAV''"] by simp
qed

text \<open>
  The two adoption reports agree: summed over its kinds, the breakdown's acted
  and surfaced counts are the numerator and the denominator of SM-14, which is a proper ratio and
  does not see plugin rows at all.
\<close>

theorem adoption_reports_agree:
  "\<exists>m l. sm14_metric p ([], rows) = (Inr m, ([], rows))
    \<and> adoption_by_kind collate p ([], rows) = (Inr l, ([], rows))
    \<and> (\<Sum>a \<leftarrow> l. ka_acted a) = numerator m \<and> (\<Sum>a \<leftarrow> l. ka_surfaced a) = denominator m
    \<and> 0 \<le> numerator m \<and> numerator m \<le> denominator m
    \<and> fst (sm14_metric p ([], filter (\<lambda>r. rr_plugin_source r = None) rows)) = Inr m"
proof -
  define fp where "fp = filter (first_party p) rows"
  define m where "m = \<lparr>numerator = int (length (filter was_acted fp)), denominator = int (length (filter was_surfaced fp))\<rparr>"
  define l where "l = sort_key (\<lambda>a. (- ka_acted a, - ka_surfaced a, collate (ka_kind a)))
      (map (adoption_of fp) (remdups (map rr_kind fp)))"
  have "sm14_metric p ([], rows) = (Inr m, ([], rows))" "adoption_by_kind collate p ([], rows) = (Inr l, ([], rows))"
    "fst (sm14_metric p ([], filter (\<lambda>r. rr_plugin_source r = None) rows)) = Inr m"
    by (simp_all add: sm14_metric_def adoption_by_kind_def Let_def first_party_again m_def l_def fp_def
        del: filter_filter)
  moreover have "(\<Sum>a \<leftarrow> l. ka_acted a) = numerator m" "(\<Sum>a \<leftarrow> l. ka_surfaced a) = denominator m"
    by (simp_all add: l_def m_def sum_list_sort_key sum_adoption sum_groups del: map_map filter_filter)
  moreover have "0 \<le> numerator m" "numerator m \<le> denominator m"
    by (simp_all add: m_def acted_le_surfaced)
  ultimately show ?thesis by blast
qed

text \<open>
  Replaying a transition changes no row but is not silent: marking an acted
  recommendation acted again succeeds, leaves the table as it was and broadcasts the event again.
\<close>

theorem replay_emits_again:
  assumes "rec_inv (recs a)" and "r \<in> set (recs a)" and "rr_state r = ''acted''"
    and "uuid_parse env i = Some (rr_id r)" and "tr_to req = ''acted''"
  shows "\<exists>j ws a'. transition_handler env fr (rr_project_id r) i req ([], a) = (Inr (j, ws), ([], a'))
    \<and> recs a' = recs a \<and> length (sse a') = Suc (length (sse a))"
proof -
  have st: "parse_state (rr_state r) = Some SActed" and to_st: "parse_state (tr_to req) = Some SActed"
    by (simp_all add: assms(3,5) parse_state_def)
  obtain ws where d: "transition_decide env (rr_project_id r) i req ([], a) = (Inr (rr_id r, SActed, ws), ([], a))"
    using transition_decide_ok [OF assms(1,2,4) st to_st] by (auto simp: can_transition_def)
  have same: "r\<lparr>rr_state := ''acted''\<rparr> = r" using assms(3) by (cases r) simp
  have "\<forall>x \<in> set (recs a). rr_id x \<noteq> rr_id r \<longrightarrow> \<not> clashes (r\<lparr>rr_state := state_as_str SActed\<rparr>) x"
    using assms(1,2) same by (auto simp: rec_inv_def)
  from transition_apply_ok [OF assms(1,2) this, of env fr ws] obtain a' j where
    ap: "transition_apply env fr (rr_project_id r) (rr_id r, SActed, ws) ([], a) = (Inr (j, ws), ([], a'))"
    and r': "recs a' = update_where (\<lambda>x. rr_id x = rr_id r \<and> rr_project_id x = rr_project_id r)
        (\<lambda>x. x\<lparr>rr_state := ''acted''\<rparr>) (recs a)" and sse: "length (sse a') = Suc (length (sse a))"
    by (auto simp: webhook_event_state_def)
  have "x\<lparr>rr_state := ''acted''\<rparr> = x" if "x \<in> set (recs a)" "rr_id x = rr_id r" for x
    using that assms(1,2) same ids_inj [of "recs a" x r] by (auto simp: rec_inv_def)
  then have "recs a' = recs a" unfolding r' by (auto simp: update_where_def intro: map_idI)
  with d ap sse show ?thesis by (simp add: transition_handler_def dbind_def)
qed

theorem replay_emits_again_witness:
  fixes r a env
  defines "r \<equiv> \<lparr>rr_id = 1, rr_project_id = 2, rr_kind = ''k'', rr_severity = ''high'', rr_confidence_band = ''b'',
      rr_state = ''acted'', rr_summary = ''s'', rr_payload = JNull, rr_traceability = JNull,
      rr_reproducibility_class = ''c'', rr_reproducibility_note = None, rr_tags = [], rr_input_fingerprint = ''f'',
      rr_engine_version = ''v'', rr_plugin_source = None, rr_generated_at = 5\<rparr>"
    and "a \<equiv> \<lparr>recs = [r], hooks = \<lparr>deliveries = [], webhooks = [], requests = []\<rparr>, sse = []\<rparr> :: unit app"
    and "env \<equiv> \<lparr>uuid_parse = (\<lambda>s. if s = ''1'' then Some 1 else None), uuid_show = (\<lambda>u. ''1''),
      ulid_show = (\<lambda>u. ''01ARZ3NDEKTSV4RRFFQ69G5FAV''), time_show = show_int, from_micros = Some,
      event_json = (\<lambda>e. None)\<rparr>"
  shows "\<exists>j ws a'. transition_handler env \<lparr>f_event_id = 7, f_ulid = (\<lambda>i. 8), f_now = 9\<rparr> 2 ''1'' \<lparr>tr_to = ''acted'', tr_note = None, tr_evidence_url = None\<rparr> ([], a)
      = (Inr (j, ws), ([], a')) \<and> length (sse a') = 1"
proof -
  have "rec_inv (recs a)" "r \<in> set (recs a)" "rr_state r = ''acted''" "uuid_parse env ''1'' = Some (rr_id r)"
    and p: "rr_project_id r = 2" and e: "sse a = []"
    by (simp_all add: a_def r_def env_def rec_inv_def KNOWN_STATES_def clashes_def)
  from replay_emits_again [OF this(1-4), of "\<lparr>tr_to = ''acted'', tr_note = None, tr_evidence_url = None\<rparr>" "\<lparr>f_event_id = 7, f_ulid = (\<lambda>i. 8), f_now = 9\<rparr>"]
  show ?thesis unfolding p by (auto simp: e)
qed

end
