(* ===== verification/Orchestrator.thy ===== *)
theory Orchestrator
  imports Config "HOL-Library.Char_ord" "HOL-Library.List_Lexorder" "HOL-Library.Product_Lexorder"
begin

text \<open>
  The prompt-run orchestrator (\<open>crates/providers/src/orchestrator.rs\<close>): the matrix of prompts,
  providers and models of a configuration, and one record per cell. A provider is a trait object
  over the network: validating a model, and running a request, which the position of the cell
  indexes because every cell makes its own call (\<open>None\<close> is a panic inside the task). The
  semaphore only delays cells and is not modelled.
\<close>

section \<open>Providers\<close>

datatype error_kind =
    ProviderUnauthorized
  | ProviderRateLimited
  | ProviderTimeout
  | Provider5xx
  | ProviderInvalidResponse
  | NetworkError
  | ProviderUnsupportedModel

primrec kind_wire_str :: "error_kind \<Rightarrow> string" where
  "kind_wire_str ProviderUnauthorized = ''provider_unauthorized''"
| "kind_wire_str ProviderRateLimited = ''provider_rate_limited''"
| "kind_wire_str ProviderTimeout = ''provider_timeout''"
| "kind_wire_str Provider5xx = ''provider_5xx''"
| "kind_wire_str ProviderInvalidResponse = ''provider_invalid_response''"
| "kind_wire_str NetworkError = ''network_error''"
| "kind_wire_str ProviderUnsupportedModel = ''provider_unsupported_model''"

record provider_error =
  pe_kind :: error_kind
  pe_message :: string

record provider_request =
  rq_prompt_text :: string
  rq_model :: string
  rq_parameters :: json
  rq_timeout :: nat
  rq_request_id :: uuid

record provider_response =
  rs_model :: string
  rs_region :: "string option"
  rs_raw :: json
  rs_message_text :: string

record provider =
  validate_model :: "string \<Rightarrow> provider_error + string"
  run_request :: "nat \<Rightarrow> provider_request \<Rightarrow> (provider_error + provider_response) option"

type_synonym registry = "(provider_name \<times> provider) list"

section \<open>Records\<close>

datatype run_status = RunOk | RunFailed

primrec status_wire_str :: "run_status \<Rightarrow> string" where
  "status_wire_str RunOk = ''ok''"
| "status_wire_str RunFailed = ''failed''"

record run_record =
  pr_id :: uuid
  pr_project_id :: uuid
  pr_prompt_id :: uuid
  pr_prompt_name :: string
  pr_provider :: provider_name
  pr_model_version :: string
  pr_region :: "string option"
  pr_started_at :: int
  pr_finished_at :: "int option"
  pr_raw_response :: json
  pr_request_parameters :: json
  pr_message_text :: "string option"
  pr_status :: run_status
  pr_error_kind :: "error_kind option"
  pr_error_message :: "string option"
  pr_request_id :: uuid

record run_summary =
  total :: nat
  succeeded :: nat
  failed :: nat

definition from_records :: "run_record list \<Rightarrow> run_summary" where
  "from_records records =
     \<lparr>total = length records,
      succeeded = length (filter (\<lambda>r. pr_status r = RunOk) records),
      failed = length (filter (\<lambda>r. pr_status r = RunFailed) records)\<rparr>"

record orchestrator_filter =
  of_prompt_names :: "string list option"
  of_providers :: "provider_name list option"

definition matches_prompt :: "orchestrator_filter \<Rightarrow> string \<Rightarrow> bool" where
  "matches_prompt f name = (case of_prompt_names f of None \<Rightarrow> True | Some allow \<Rightarrow> name \<in> set allow)"

definition matches_provider :: "orchestrator_filter \<Rightarrow> provider_name \<Rightarrow> bool" where
  "matches_provider f p = (case of_providers f of None \<Rightarrow> True | Some allow \<Rightarrow> p \<in> set allow)"

definition default_filter :: orchestrator_filter where
  "default_filter = \<lparr>of_prompt_names = None, of_providers = None\<rparr>"

text \<open>What one cell draws from outside: identifiers and the clock.\<close>

record draws =
  dr_run_id :: uuid
  dr_project_id :: uuid
  dr_prompt_id :: uuid
  dr_request_id :: uuid
  dr_sent_request_id :: uuid
  dr_started_at :: int
  dr_finished_at :: int

record cell =
  cl_prompt_id :: uuid
  cl_prompt_name :: string
  cl_prompt_text :: string
  cl_provider :: provider_name
  cl_model :: string
  cl_timeout :: nat

definition failed_record :: "draws \<Rightarrow> uuid \<Rightarrow> cell \<Rightarrow> string \<Rightarrow> json \<Rightarrow> error_kind \<Rightarrow> string \<Rightarrow> run_record" where
  "failed_record dr project_id c model params kind message =
     \<lparr>pr_id = dr_run_id dr, pr_project_id = project_id, pr_prompt_id = cl_prompt_id c,
      pr_prompt_name = cl_prompt_name c, pr_provider = cl_provider c, pr_model_version = model,
      pr_region = None, pr_started_at = dr_started_at dr, pr_finished_at = Some (dr_finished_at dr),
      pr_raw_response = JObj [], pr_request_parameters = params, pr_message_text = None,
      pr_status = RunFailed, pr_error_kind = Some kind, pr_error_message = Some message,
      pr_request_id = dr_request_id dr\<rparr>"

definition success_record :: "draws \<Rightarrow> uuid \<Rightarrow> cell \<Rightarrow> json \<Rightarrow> provider_response \<Rightarrow> run_record" where
  "success_record dr project_id c params response =
     \<lparr>pr_id = dr_run_id dr, pr_project_id = project_id, pr_prompt_id = cl_prompt_id c,
      pr_prompt_name = cl_prompt_name c, pr_provider = cl_provider c, pr_model_version = rs_model response,
      pr_region = rs_region response, pr_started_at = dr_started_at dr,
      pr_finished_at = Some (dr_finished_at dr), pr_raw_response = rs_raw response,
      pr_request_parameters = params, pr_message_text = Some (rs_message_text response),
      pr_status = RunOk, pr_error_kind = None, pr_error_message = None,
      pr_request_id = dr_request_id dr\<rparr>"

definition unregistered_record :: "draws \<Rightarrow> uuid \<Rightarrow> cell \<Rightarrow> run_record" where
  "unregistered_record dr project_id c =
     failed_record (dr\<lparr>dr_finished_at := dr_started_at dr\<rparr>) project_id c (cl_model c) (JObj []) ProviderUnauthorized
       (''no client registered for `'' @ as_wire_str (cl_provider c) @ ''`; run `ogeo login ''
         @ as_wire_str (cl_provider c) @ ''`'')"

definition panic_record :: "draws \<Rightarrow> string \<Rightarrow> run_record" where
  "panic_record dr err =
     \<lparr>pr_id = dr_run_id dr, pr_project_id = dr_project_id dr, pr_prompt_id = dr_prompt_id dr,
      pr_prompt_name = ''<panic>'', pr_provider = Openai, pr_model_version = [], pr_region = None,
      pr_started_at = dr_started_at dr, pr_finished_at = Some (dr_started_at dr),
      pr_raw_response = JObj [], pr_request_parameters = JObj [], pr_message_text = None,
      pr_status = RunFailed, pr_error_kind = Some NetworkError,
      pr_error_message = Some (''worker task panicked: '' @ err), pr_request_id = dr_request_id dr\<rparr>"

section \<open>Running the matrix\<close>

definition request_of :: "draws \<Rightarrow> cell \<Rightarrow> string \<Rightarrow> provider_request" where
  "request_of dr c model =
     \<lparr>rq_prompt_text = cl_prompt_text c, rq_model = model, rq_parameters = JObj [],
      rq_timeout = cl_timeout c, rq_request_id = dr_sent_request_id dr\<rparr>"

definition execute_single :: "provider \<Rightarrow> nat \<Rightarrow> draws \<Rightarrow> uuid \<Rightarrow> cell \<Rightarrow> run_record option" where
  "execute_single provider i dr project_id c =
     (case validate_model provider (cl_model c) of
        Inl err \<Rightarrow> Some (failed_record dr project_id c (cl_model c) (JObj []) (pe_kind err) (pe_message err))
      | Inr validated_model \<Rightarrow>
          (let request = request_of dr c validated_model in
           map_option (\<lambda>outcome. case outcome of
               Inr response \<Rightarrow> success_record dr project_id c (rq_parameters request) response
             | Inl err \<Rightarrow> failed_record dr project_id c validated_model (rq_parameters request)
                 (pe_kind err) (pe_message err))
             (run_request provider i request)))"

definition models_of :: "provider_config \<Rightarrow> string list" where
  "models_of pc =
     (case vc_models pc of
        Some ms \<Rightarrow> if ms \<noteq> [] then ms else [unwrap_or (default_model (vc_name pc)) (vc_model pc)]
      | None \<Rightarrow> [unwrap_or (default_model (vc_name pc)) (vc_model pc)])"

definition cells_of :: "digest \<Rightarrow> config \<Rightarrow> orchestrator_filter \<Rightarrow> cell list" where
  "cells_of dg cfg flt =
     concat (map (\<lambda>prompt.
       case config_prompt_id dg cfg (pc_name prompt) of
         None \<Rightarrow> []
       | Some prompt_id \<Rightarrow>
           concat (map (\<lambda>pc. map (\<lambda>model.
               \<lparr>cl_prompt_id = prompt_id, cl_prompt_name = pc_name prompt, cl_prompt_text = pc_text prompt,
                cl_provider = vc_name pc, cl_model = model, cl_timeout = max (vc_timeout_seconds pc) 1\<rparr>)
             (models_of pc))
           (filter (\<lambda>pc. matches_provider flt (vc_name pc)) (cfg_providers cfg))))
     (filter (\<lambda>p. matches_prompt flt (pc_name p)) (cfg_prompts cfg)))"

definition run_cell :: "registry \<Rightarrow> (nat \<Rightarrow> draws) \<Rightarrow> uuid \<Rightarrow> nat \<Rightarrow> cell \<Rightarrow> run_record option" where
  "run_cell reg dr project_id i c =
     (case map_of reg (cl_provider c) of
        None \<Rightarrow> Some (unregistered_record (dr i) project_id c)
      | Some provider \<Rightarrow> execute_single provider i (dr i) project_id c)"

definition join_cell :: "registry \<Rightarrow> (nat \<Rightarrow> draws) \<Rightarrow> (nat \<Rightarrow> string) \<Rightarrow> uuid \<Rightarrow> nat \<times> cell \<Rightarrow> run_record" where
  "join_cell reg dr panics project_id x =
     (case run_cell reg dr project_id (fst x) (snd x) of
        Some r \<Rightarrow> r
      | None \<Rightarrow> panic_record (dr (fst x)) (panics (fst x)))"

definition run_all ::
  "digest \<Rightarrow> config \<Rightarrow> registry \<Rightarrow> (nat \<Rightarrow> draws) \<Rightarrow> (nat \<Rightarrow> string) \<Rightarrow> orchestrator_filter \<Rightarrow> run_record list" where
  "run_all dg cfg reg dr panics flt =
     sort_key (\<lambda>r. (pr_prompt_name r, as_wire_str (pr_provider r)))
       (map (join_cell reg dr panics (config_project_id dg cfg)) (enumerate 0 (cells_of dg cfg flt)))"

section \<open>The matrix is complete\<close>

text \<open>A cell that succeeds: its provider is registered, accepts the model and answers.\<close>

definition cell_succeeds :: "registry \<Rightarrow> (nat \<Rightarrow> draws) \<Rightarrow> nat \<times> cell \<Rightarrow> bool" where
  "cell_succeeds reg dr x =
     (case map_of reg (cl_provider (snd x)) of
        None \<Rightarrow> False
      | Some v \<Rightarrow>
          (case validate_model v (cl_model (snd x)) of
             Inl _ \<Rightarrow> False
           | Inr m \<Rightarrow> (case run_request v (fst x) (request_of (dr (fst x)) (snd x) m) of Some (Inr _) \<Rightarrow> True | _ \<Rightarrow> False)))"

lemma join_cell_status: "pr_status (join_cell reg dr panics p x) = (if cell_succeeds reg dr x then RunOk else RunFailed)"
proof (cases "map_of reg (cl_provider (snd x))")
  case None
  then show ?thesis by (simp add: join_cell_def run_cell_def cell_succeeds_def unregistered_record_def failed_record_def)
next
  case (Some v)
  note records = join_cell_def run_cell_def cell_succeeds_def execute_single_def failed_record_def
    success_record_def panic_record_def Let_def
  show ?thesis
  proof (cases "validate_model v (cl_model (snd x))")
    case (Inl e)
    with Some show ?thesis by (simp add: records)
  next
    case (Inr m)
    with Some show ?thesis
      by (cases "run_request v (fst x) (request_of (dr (fst x)) (snd x) m)") (auto simp: records split: sum.split)
  qed
qed

lemma length_cells:
  "length (cells_of dg cfg flt) =
    length (filter (\<lambda>p. matches_prompt flt (pc_name p)) (cfg_prompts cfg)) *
    sum_list (map (\<lambda>v. length (models_of v)) (filter (\<lambda>v. matches_provider flt (vc_name v)) (cfg_providers cfg)))"
proof -
  have "config_prompt_id dg cfg (pc_name p) = Some (prompt_id_for dg (bc_name (cfg_brand cfg)) (pc_name p))"
    if "p \<in> set (cfg_prompts cfg)" for p
    using that by (auto simp: config_prompt_id_def list_ex_iff)
  then have eq: "map length (map (\<lambda>prompt. case config_prompt_id dg cfg (pc_name prompt) of
         None \<Rightarrow> []
       | Some prompt_id \<Rightarrow>
           concat (map (\<lambda>pc. map (\<lambda>model.
               \<lparr>cl_prompt_id = prompt_id, cl_prompt_name = pc_name prompt, cl_prompt_text = pc_text prompt,
                cl_provider = vc_name pc, cl_model = model, cl_timeout = max (vc_timeout_seconds pc) 1\<rparr>)
             (models_of pc)) (filter (\<lambda>pc. matches_provider flt (vc_name pc)) (cfg_providers cfg))))
       (filter (\<lambda>p. matches_prompt flt (pc_name p)) (cfg_prompts cfg)))
    = map (\<lambda>_. sum_list (map (\<lambda>v. length (models_of v)) (filter (\<lambda>v. matches_provider flt (vc_name v)) (cfg_providers cfg))))
       (filter (\<lambda>p. matches_prompt flt (pc_name p)) (cfg_prompts cfg))"
    by (auto simp: length_concat o_def)
  show ?thesis unfolding cells_of_def length_concat eq by (simp add: sum_list_triv)
qed


end
