(* ===== verification/Schedules.thy ===== *)
theory Schedules
  imports Orchestrator Webhooks
begin

text \<open>
  The schedule tables and the REST surface that declares, lists, updates and deletes schedules
  (\<open>apps/api/src/routes/schedules.rs\<close>). A request ends in a value or in a status with an error
  code (the texts of the messages are left out); a panic inside a handler, which drops the
  connection, is the status 0. Row-level security is the database's and is not modelled.
\<close>

section \<open>Tables\<close>

record schedule_row =
  sd_id :: uuid
  sd_project_id :: uuid
  sd_name :: string
  sd_cron :: string
  sd_prompts :: json
  sd_providers :: json
  sd_debounce_minutes :: int
  sd_projected_monthly_usd :: "f64 option"
  sd_acknowledged_at :: "int option"
  sd_paused :: bool
  sd_created_at :: int

record tick_row =
  tk_id :: uuid
  tk_schedule_id :: uuid
  tk_ts :: int
  tk_status :: string
  tk_claimed_by :: "string option"
  tk_claimed_at :: "int option"
  tk_completed_at :: "int option"
  tk_error_message :: "string option"

record run_row =
  ru_id :: uuid
  ru_prompt_id :: uuid
  ru_provider :: string
  ru_model_version :: string
  ru_region :: "string option"
  ru_started_at :: int
  ru_finished_at :: "int option"
  ru_raw_response :: json
  ru_request_parameters :: json
  ru_status :: string
  ru_error_kind :: "string option"
  ru_schedule_tick_id :: "uuid option"
  ru_created_at :: int
  ru_org_id :: uuid

record prompt_row =
  pm_id :: uuid
  pm_project_id :: uuid
  pm_name :: string
  pm_text :: string

record project_row =
  pj_id :: uuid
  pj_name :: string
  pj_variants :: "string list"
  pj_competitors :: json
  pj_organization_id :: "uuid option"
  pj_archived :: bool
  pj_created_at :: int

record sched_db =
  schedules :: "schedule_row list"
  ticks :: "tick_row list"
  runs :: "run_row list"
  prompt_rows :: "prompt_row list"
  projects :: "project_row list"
  org_plans :: "(uuid \<times> string) list"
  org_audit :: "(uuid \<times> string \<times> json) list"
  default_org :: uuid

section \<open>Requests and answers\<close>

type_synonym api_err = "nat \<times> string"

type_synonym 'a schedm = "(sched_db, api_err, 'a) rm"

definition internal :: "(sched_db, 'a) dbm \<Rightarrow> 'a schedm" where
  "internal m = map_err (\<lambda>_. (500, ''internal_error'')) m"

text \<open>\<open>serde_json::from_value::<Vec<String>>(v).unwrap_or_default()\<close>.\<close>

definition json_strings :: "json \<Rightarrow> string list" where
  "json_strings v =
     (case v of
        JArr xs \<Rightarrow> if list_all (\<lambda>x. json_as_str x \<noteq> None) xs then map (\<lambda>x. the (json_as_str x)) xs else []
      | _ \<Rightarrow> [])"

definition json_of_strings :: "string list \<Rightarrow> json" where
  "json_of_strings xs = JArr (map JStr xs)"

record schedule_summary =
  ss_id :: uuid
  ss_name :: string
  ss_cron :: string
  ss_prompts :: "string list"
  ss_providers :: "string list"
  ss_debounce_minutes :: int
  ss_projected_monthly_usd :: "f64 option"
  ss_acknowledged_at :: "int option"
  ss_paused :: bool
  ss_created_at :: int
  ss_last_tick_at :: "int option"
  ss_last_tick_status :: "string option"

definition latest_tick :: "uuid \<Rightarrow> tick_row list \<Rightarrow> tick_row option" where
  "latest_tick sid ts =
     (case sort_key (\<lambda>t. - tk_ts t) (filter (\<lambda>t. tk_schedule_id t = sid) ts) of [] \<Rightarrow> None | t # _ \<Rightarrow> Some t)"

definition summary_of :: "tick_row list \<Rightarrow> schedule_row \<Rightarrow> schedule_summary" where
  "summary_of ts s =
     \<lparr>ss_id = sd_id s, ss_name = sd_name s, ss_cron = sd_cron s,
      ss_prompts = json_strings (sd_prompts s), ss_providers = json_strings (sd_providers s),
      ss_debounce_minutes = sd_debounce_minutes s, ss_projected_monthly_usd = sd_projected_monthly_usd s,
      ss_acknowledged_at = sd_acknowledged_at s, ss_paused = sd_paused s, ss_created_at = sd_created_at s,
      ss_last_tick_at = map_option tk_ts (latest_tick (sd_id s) ts),
      ss_last_tick_status = map_option tk_status (latest_tick (sd_id s) ts)\<rparr>"

definition fetch_schedules :: "uuid \<Rightarrow> uuid option \<Rightarrow> schedule_summary list schedm" where
  "fetch_schedules project_id only_id =
     internal (query (\<lambda>d. map (summary_of (ticks d))
         (take 500 (sort_key (\<lambda>s. - sd_created_at s)
           (filter (\<lambda>s. sd_project_id s = project_id \<and> (case only_id of None \<Rightarrow> True | Some i \<Rightarrow> sd_id s = i))
             (schedules d))))))"

text \<open>\<open>Vec::pop\<close> takes the last element.\<close>

definition pop :: "'a list \<Rightarrow> 'a option" where
  "pop xs = (if xs = [] then None else Some (last xs))"

definition list_schedules :: "uuid \<Rightarrow> schedule_summary list schedm" where
  "list_schedules project_id = fetch_schedules project_id None"

definition get_schedule :: "uuid \<Rightarrow> uuid \<Rightarrow> schedule_summary schedm" where
  "get_schedule project_id sid =
     dbind (fetch_schedules project_id (Some sid)) (\<lambda>ss. ok_or_raise (404, ''schedule_not_found'') (pop ss))"

section \<open>Declaring a schedule\<close>

record create_request =
  cr_name :: string
  cr_cron :: string
  cr_prompts :: "string list"
  cr_providers :: "string list"
  cr_debounce_minutes :: u32
  cr_allow_expensive :: bool

fun parse_providers :: "string list \<Rightarrow> api_err + provider_name list" where
  "parse_providers [] = Inr []"
| "parse_providers (p # ps) =
     rbind (case strip_prefix ''openrouter:'' p of
              Some model \<Rightarrow> if str_trim model = [] then Inl (400, ''invalid_provider'') else Inr Openrouter
            | None \<Rightarrow> ok_or (400, ''invalid_provider'') (provider_parse p))
       (\<lambda>parsed. rbind (parse_providers ps) (\<lambda>rest. Inr (parsed # rest)))"

definition slug_char :: "char \<Rightarrow> bool" where
  "slug_char c = (is_ascii_lowercase c \<or> is_ascii_digit c \<or> c = CHR ''-'')"

definition map_validation_error :: "schedule_error \<Rightarrow> api_err" where
  "map_validation_error e =
     (case e of
        UnsupportedCadence _ \<Rightarrow> (400, ''unsupported_cadence'')
      | PerScheduleHourlyCap _ _ _ \<Rightarrow> (400, ''schedule_density_cap'')
      | ProviderDailyCap _ _ _ _ \<Rightarrow> (400, ''provider_density_cap''))"

definition validate_create :: "create_request \<Rightarrow> api_err + (string \<times> provider_name list)" where
  "validate_create request =
     (let name = str_trim (cr_name request)
      in if name = [] then Inl (400, ''invalid_name'')
         else if \<not> list_all slug_char name then Inl (400, ''invalid_name'')
         else if cr_prompts request = [] then Inl (400, ''missing_prompts'')
         else if cr_providers request = [] then Inl (400, ''missing_providers'')
         else rbind (parse_providers (cr_providers request)) (\<lambda>ps. Inr (name, ps)))"

definition candidate_of :: "create_request \<Rightarrow> string \<times> provider_name list \<Rightarrow> schedule_config" where
  "candidate_of request v =
     \<lparr>sc_name = fst v, sc_cron = cr_cron request, sc_prompts = cr_prompts request, sc_providers = snd v,
      sc_debounce_minutes = cr_debounce_minutes request, sc_projection_acknowledged_at = None\<rparr>"

definition above_cap :: "schedule_projection \<Rightarrow> bool" where
  "above_cap p = f64_lt DEFAULT_PROJECT_MONTHLY_CAP_USD (projected_monthly_usd (sp_cost p))"

definition project_or_reject :: "create_request \<Rightarrow> schedule_config \<Rightarrow> api_err + schedule_projection" where
  "project_or_reject request candidate =
     (case project_schedule_cost candidate of
        None \<Rightarrow> Inl (0, ''panic'')
      | Some (Inl e) \<Rightarrow> Inl (map_validation_error e)
      | Some (Inr p) \<Rightarrow>
          if above_cap p \<and> \<not> cr_allow_expensive request then Inl (400, ''projection_above_cap'') else Inr p)"

datatype insert_outcome = Inserted | UniqueViolation | OtherViolation

definition insert_schedule :: "schedule_row \<Rightarrow> (sched_db, insert_outcome) dbm" where
  "insert_schedule row = stmt (\<lambda>d.
     if list_ex (\<lambda>s. sd_id s = sd_id row \<or> (sd_project_id s = sd_project_id row \<and> sd_name s = sd_name row))
          (schedules d) then (UniqueViolation, d)
     else if \<not> list_ex (\<lambda>p. pj_id p = sd_project_id row) (projects d) then (OtherViolation, d)
     else (Inserted, d\<lparr>schedules := schedules d @ [row]\<rparr>))"

text \<open>\<open>now\<close> stands for both the handler's clock and the column default of \<open>created_at\<close>.\<close>

definition create_schedule :: "uuid \<Rightarrow> int \<Rightarrow> uuid \<Rightarrow> create_request \<Rightarrow> schedule_summary schedm" where
  "create_schedule sid now project_id request =
     dbind (from_result (validate_create request)) (\<lambda>v.
     dbind (from_result (project_or_reject request (candidate_of request v))) (\<lambda>projection.
     dbind (internal (insert_schedule
       \<lparr>sd_id = sid, sd_project_id = project_id, sd_name = fst v, sd_cron = cr_cron request,
        sd_prompts = json_of_strings (cr_prompts request), sd_providers = json_of_strings (cr_providers request),
        sd_debounce_minutes = sint (cr_debounce_minutes request),
        sd_projected_monthly_usd = Some (projected_monthly_usd (sp_cost projection)),
        sd_acknowledged_at = (if above_cap projection then Some now else None),
        sd_paused = False, sd_created_at = now\<rparr>)) (\<lambda>inserted.
     case inserted of
       UniqueViolation \<Rightarrow> raise (409, ''duplicate_schedule'')
     | OtherViolation \<Rightarrow> raise (500, ''internal_error'')
     | Inserted \<Rightarrow>
         dbind (fetch_schedules project_id (Some sid)) (\<lambda>ss. ok_or_raise (500, ''internal_error'') (pop ss)))))"

section \<open>Updating and deleting\<close>

definition update_schedule ::
  "int \<Rightarrow> uuid \<Rightarrow> uuid \<Rightarrow> bool option \<Rightarrow> bool option \<Rightarrow> schedule_summary schedm" where
  "update_schedule now project_id sid paused acknowledge =
     (if paused = None \<and> acknowledge = None then raise (400, ''no_op'')
      else dbind (internal (stmt (\<lambda>d.
             let hit = (\<lambda>s. sd_id s = sid \<and> sd_project_id s = project_id)
             in (rows_affected hit (schedules d),
                 d\<lparr>schedules := update_where hit
                   (\<lambda>s. s\<lparr>sd_paused := unwrap_or (sd_paused s) paused,
                          sd_acknowledged_at := (if acknowledge = Some True then Some now else sd_acknowledged_at s)\<rparr>)
                   (schedules d)\<rparr>)))) (\<lambda>n.
           if n = 0 then raise (404, ''schedule_not_found'')
           else dbind (fetch_schedules project_id (Some sid)) (\<lambda>ss.
             ok_or_raise (500, ''internal_error'') (pop ss))))"

text \<open>Deleting a schedule cascades to its ticks and sets the runs' tick reference to null.\<close>

definition delete_schedule :: "uuid \<Rightarrow> uuid \<Rightarrow> unit schedm" where
  "delete_schedule project_id sid =
     dbind (internal (stmt (\<lambda>d.
       let hit = (\<lambda>s. sd_id s = sid \<and> sd_project_id s = project_id);
           gone = map sd_id (filter hit (schedules d));
           dead = map tk_id (filter (\<lambda>t. tk_schedule_id t \<in> set gone) (ticks d))
       in (rows_affected hit (schedules d),
           d\<lparr>schedules := filter (\<lambda>s. \<not> hit s) (schedules d),
             ticks := filter (\<lambda>t. tk_schedule_id t \<notin> set gone) (ticks d),
             runs := update_where (\<lambda>r. case ru_schedule_tick_id r of None \<Rightarrow> False | Some t \<Rightarrow> t \<in> set dead)
               (\<lambda>r. r\<lparr>ru_schedule_tick_id := None\<rparr>) (runs d)\<rparr>)))) (\<lambda>n.
     if n = 0 then raise (404, ''schedule_not_found'') else ret ())"

end
