(* ===== verification/RecGenerate.thy ===== *)
theory RecGenerate
  imports RecRules Citations Recs Schedules
begin

text \<open>
  The generate handler of \<open>apps/api/src/routes/recommendations.rs\<close>: live facts are read from the
  prompt, run and citation tables, folded into the engine's input, the deterministic rules run, and
  what they produce is stored and announced. The clock is an argument.
\<close>

section \<open>Rows and answers\<close>

primrec severity_str :: "severity \<Rightarrow> string" where
  "severity_str SevInfo = ''info''"
| "severity_str SevLow = ''low''"
| "severity_str SevMedium = ''medium''"
| "severity_str SevHigh = ''high''"

primrec confidence_str :: "confidence_band \<Rightarrow> string" where
  "confidence_str BandLow = ''low''"
| "confidence_str BandMedium = ''medium''"
| "confidence_str BandHigh = ''high''"

primrec class_str :: "reproducibility_class \<Rightarrow> string" where
  "class_str ByteStable = ''byte_stable''"
| "class_str BestEffort = ''best_effort''"
| "class_str NonDeterministic = ''non_deterministic''"

definition member :: "string \<Rightarrow> ('a \<Rightarrow> json) \<Rightarrow> 'a option \<Rightarrow> (string \<times> json) list" where
  "member k f x = (case x of None \<Rightarrow> [] | Some a \<Rightarrow> [(k, f a)])"

definition json_llm_trace :: "text_env \<Rightarrow> llm_trace \<Rightarrow> json" where
  "json_llm_trace te t =
     JObj ([(''full_prompt'', JStr (lt_full_prompt t)),
            (''full_response'', JStr (lt_full_response t)),
            (''latency_ms'', json_u32 (lt_latency_ms t))]
           @ member ''model_content_hash'' JStr (lt_model_content_hash t)
           @ [(''model_id'', JStr (lt_model_id t)),
              (''prompt_template_id'', JStr (lt_prompt_template_id t)),
              (''prompt_template_version'', JStr (lt_prompt_template_version t)),
              (''provider'', JStr (lt_provider t))]
           @ member ''seed'' (\<lambda>i. JNum (show_int i)) (lt_seed t)
           @ member ''temperature'' (json_f32 te) (lt_temperature t)
           @ [(''tokens_in'', json_u32 (lt_tokens_in t)), (''tokens_out'', json_u32 (lt_tokens_out t))])"

definition json_traceability :: "text_env \<Rightarrow> traceability \<Rightarrow> json" where
  "json_traceability te t =
     JObj ((''input_fingerprint'', JStr (tb_input_fingerprint t))
           # member ''llm'' (json_llm_trace te) (tb_llm t)
           @ [(''source_benchmark_queries'', JArr (map (\<lambda>q. JObj [(''name'', JStr (bq_name q)),
                 (''query_hash'', JStr (bq_query_hash q))]) (tb_source_benchmark_queries t))),
              (''source_citation_ids'', json_strs (map (te_ulid te) (tb_source_citation_ids t))),
              (''source_citation_ids_truncated'', JBool (tb_source_citation_ids_truncated t)),
              (''source_run_ids'', json_strs (map (te_ulid te) (tb_source_run_ids t))),
              (''source_run_ids_truncated'', JBool (tb_source_run_ids_truncated t)),
              (''window'', json_window te (tb_window t))])"

text \<open>\<open>db_now\<close> is the column default of \<open>generated_at\<close>.\<close>

definition rec_to_new_row :: "text_env \<Rightarrow> int \<Rightarrow> recommendation \<Rightarrow> uuid \<Rightarrow> rec_row" where
  "rec_to_new_row te db_now r project_id =
     \<lparr>rr_id = rc_id r, rr_project_id = project_id, rr_kind = kind_as_str (rc_kind r),
      rr_severity = severity_str (rc_severity r), rr_confidence_band = confidence_str (rc_confidence_band r),
      rr_state = ''generated'', rr_summary = rc_summary r, rr_payload = rc_payload r,
      rr_traceability = json_traceability te (rc_traceability r),
      rr_reproducibility_class = class_str (rp_class (rc_reproducibility r)),
      rr_reproducibility_note = rp_note (rc_reproducibility r), rr_tags = rc_tags r,
      rr_input_fingerprint = tb_input_fingerprint (rc_traceability r), rr_engine_version = rc_engine_version r,
      rr_plugin_source = None, rr_generated_at = db_now\<rparr>"

record generate_accepted =
  ga_status :: string
  ga_generated_count :: nat
  ga_inserted_count :: nat
  ga_status_url :: string

datatype generate_error = ConfigUnavailable | GenerateApi api_error

definition generate_status :: "generate_error \<Rightarrow> nat" where
  "generate_status e = (case e of ConfigUnavailable \<Rightarrow> 503 | GenerateApi a \<Rightarrow> api_status a)"

section \<open>Reading the facts\<close>

record stored_prompt = prompt_row +
  pm_tags :: "string list"
  pm_created_at :: int

record 'f gen_state =
  gs_app :: "'f app"
  gs_prompts :: "stored_prompt list"
  gs_runs :: "run_row list"
  gs_extract :: extract_db

type_synonym ('f, 'a) genm = "('f gen_state, generate_error, 'a) rm"

definition reading :: "string \<Rightarrow> ('f gen_state, 'a) dbm \<Rightarrow> ('f, 'a) genm" where
  "reading what m = map_err (\<lambda>_. GenerateApi (InternalError what)) m"

definition list_by_project :: "uuid \<Rightarrow> ('f gen_state, stored_prompt list) dbm" where
  "list_by_project project_id =
     query (\<lambda>s. sort_key (\<lambda>p. (pm_created_at p, pm_id p))
                  (filter (\<lambda>p. pm_project_id p = project_id) (gs_prompts s)))"

definition list_by_prompt_since :: "uuid \<Rightarrow> int \<Rightarrow> ('f gen_state, run_row list) dbm" where
  "list_by_prompt_since prompt_id since =
     query (\<lambda>s. sort_key (\<lambda>r. (ru_started_at r, ru_id r))
                  (filter (\<lambda>r. ru_prompt_id r = prompt_id \<and> since \<le> ru_started_at r) (gs_runs s)))"

fun collect_runs :: "run_row list \<Rightarrow> ('f, prompt_run_facts list) genm" where
  "collect_runs [] = ret []"
| "collect_runs (r # rs) =
     dbind (reading ''list citations''
              (zoom gs_extract (\<lambda>d s. s\<lparr>gs_extract := d\<rparr>) (citations_list_by_run (ru_id r)))) (\<lambda>citations.
     dbind (collect_runs rs) (\<lambda>rest.
       ret (\<lparr>rf_run_id = ru_id r, rf_citation_domains = map ci_domain citations,
             rf_citation_ids = map ci_id citations\<rparr> # rest)))"

fun collect_prompts :: "int \<Rightarrow> stored_prompt list \<Rightarrow> ('f, prompt_facts list) genm" where
  "collect_prompts since [] = ret []"
| "collect_prompts since (p # ps) =
     dbind (reading ''list runs'' (list_by_prompt_since (pm_id p) since)) (\<lambda>rs.
     dbind (collect_runs rs) (\<lambda>run_facts.
     dbind (collect_prompts since ps) (\<lambda>rest.
       ret (\<lparr>pf_prompt_id = pm_id p, pf_prompt = pm_text p, pf_runs = run_facts\<rparr> # rest))))"

section \<open>The handler\<close>

definition WINDOW_DAYS :: int where
  "WINDOW_DAYS = 14"

definition live_facts :: "config \<Rightarrow> uuid \<Rightarrow> int \<Rightarrow> prompt_facts list \<Rightarrow> project_facts" where
  "live_facts cfg project_id now prompts =
     \<lparr>jf_project_id = project_id, jf_brand = bc_name (cfg_brand cfg), jf_brand_etld1 = [], jf_docs_etld1 = None,
      jf_competitors = map cc_name (cfg_competitors cfg),
      jf_enabled_providers = map (\<lambda>p. as_wire_str (vc_name p)) (cfg_providers cfg),
      jf_benchmark_opted_in = False, jf_prompts = prompts,
      jf_window = \<lparr>tw_start = now - WINDOW_DAYS * day_us, tw_end = now\<rparr>, jf_generated_at = now\<rparr>"

definition generate_handler ::
  "text_env \<Rightarrow> 'f api_env \<Rightarrow> (nat \<Rightarrow> fresh) \<Rightarrow> config option \<Rightarrow> uuid \<Rightarrow> int \<Rightarrow> ('f, generate_accepted) genm" where
  "generate_handler te env fr state_config project_id now =
     dbind (ok_or_raise ConfigUnavailable state_config) (\<lambda>cfg.
     dbind (reading ''list prompts'' (list_by_project project_id)) (\<lambda>db_prompts.
     dbind (collect_prompts (now - WINDOW_DAYS * day_us) db_prompts) (\<lambda>prompt_facts.
       let input = assemble (live_facts cfg project_id now prompt_facts);
           recs = engine_generate te default_engine input
       in dbind (map_err GenerateApi (zoom gs_app (\<lambda>a s. s\<lparr>gs_app := a\<rparr>)
                  (persist_generated env fr project_id 0 (map (\<lambda>r. rec_to_new_row te now r project_id) recs))))
            (\<lambda>inserted_count.
              ret \<lparr>ga_status = ''generated'', ga_generated_count = length recs,
                   ga_inserted_count = inserted_count, ga_status_url = ''/v1/recommendations''\<rparr>))))"

section \<open>What it produces\<close>

lemma no_prompt_rule_fires:
  assumes "ps_competitor_docs_present p = []" and "ps_brand_mean_rank p = None" and "ps_provider_ranks p = []"
  shows "docs_not_cited_rule te eng input docs p = None" "competitor_outranks_rule te eng input p = None"
    "provider_blindspot_rule te eng input p = None"
  using assms by (simp_all add: docs_not_cited_rule_def competitor_outranks_rule_def
      provider_blindspot_rule_def cited_strong_def Let_def)

lemma engine_silent:
  assumes "\<forall>p \<in> set (ei_prompts input).
      ps_competitor_docs_present p = [] \<and> ps_brand_mean_rank p = None \<and> ps_provider_ranks p = []"
    and "ei_citation_drift input = None" and "ei_benchmark_categories input = []" and "ei_extraction_p50 input = None"
  shows "engine_generate te eng input = []"
proof -
  note silent = map_filter_None no_prompt_rule_fires
  have "docs_not_cited_for_prompt te eng input = []"
    using assms(1) by (auto simp: docs_not_cited_for_prompt_def intro!: silent split: option.split)
  moreover have "competitor_outranks_for_prompt te eng input = []" "provider_blindspot te eng input = []"
    using assms(1) by (auto simp: competitor_outranks_for_prompt_def provider_blindspot_def intro!: silent)
  ultimately show ?thesis
    using assms(2-4) by (simp add: engine_generate_def citation_domain_drift_def prompt_coverage_gap_def
        low_extraction_confidence_def benchmark_category_underperformance_def List.map_filter_simps)
qed

lemma assembled_input_fires_nothing: "engine_generate te eng (assemble facts) = []"
  by (rule engine_silent) (auto simp: assemble_def prompt_stat_of_def)

lemma reading_keeps: "steps (=) m \<Longrightarrow> steps (=) (reading what m)"
  by (simp add: reading_def steps_map_err)

lemma collect_runs_keeps: "steps (=) (collect_runs rs)"
proof (induction rs)
  case (Cons r rs)
  have "steps (=) (zoom gs_extract (\<lambda>d s. s\<lparr>gs_extract := d\<rparr>) (citations_list_by_run i))" for i
    unfolding citations_list_by_run_def by (rule steps_zoom [where R = "(=)"]) (auto intro: steps_query)
  with Cons show ?case by (auto intro!: steps_dbind steps_ret reading_keeps)
next
  case Nil
  show ?case unfolding collect_runs.simps by (rule steps_ret) simp
qed

lemma collect_prompts_keeps: "steps (=) (collect_prompts since ps)"
proof (induction ps)
  case (Cons p ps)
  then show ?case
    by (auto simp: list_by_prompt_since_def
        intro!: steps_dbind steps_ret reading_keeps steps_query collect_runs_keeps)
next
  case Nil
  show ?case unfolding collect_prompts.simps by (rule steps_ret) simp
qed

text \<open>
  C27 (error). Generation over live facts changes no table and, when it answers, reports no
  recommendation generated and none inserted, whatever the prompts, runs and citations: the
  assembled input leaves every fact a rule asks for empty.
\<close>

theorem live_generation_produces_nothing:
  "snd (snd (generate_handler te env fr state_config project_id now s)) = snd s
   \<and> (case fst (generate_handler te env fr state_config project_id now s) of
        Inl _ \<Rightarrow> True | Inr accepted \<Rightarrow> ga_generated_count accepted = 0 \<and> ga_inserted_count accepted = 0)"
proof
  have persist: "map_err GenerateApi (zoom gs_app (\<lambda>a s. s\<lparr>gs_app := a\<rparr>) (persist_generated env fr project_id 0 []))
      = ret 0"
    by (rule ext) (simp add: map_err_def zoom_def ret_def split: prod.splits)
  have "steps (=) (generate_handler te env fr state_config project_id now)"
    by (auto simp: generate_handler_def list_by_project_def assembled_input_fires_nothing persist
        simp del: persist_generated.simps
        intro!: steps_dbind steps_ret steps_ok_or_raise reading_keeps steps_query collect_prompts_keeps)
  then show "snd (snd (generate_handler te env fr state_config project_id now s)) = snd s"
    by (metis prod.exhaust_sel stepsD)
  show "case fst (generate_handler te env fr state_config project_id now s) of
        Inl _ \<Rightarrow> True | Inr accepted \<Rightarrow> ga_generated_count accepted = 0 \<and> ga_inserted_count accepted = 0"
    by (auto simp: generate_handler_def Let_def dbind_def assembled_input_fires_nothing persist
        simp del: persist_generated.simps split: prod.splits sum.splits)
qed

end
