(* ===== verification/HtmlText.thy ===== *)
theory HtmlText
  imports RustStr
begin

text \<open>
  Reading HTML with string searches, as \<open>crates/audit/src/lib.rs\<close> does: attribute values,
  the text between tags, the locations of a sitemap, tag removal and white-space clean-up. The
  sources keep a low-cased copy beside the text and cut both at the same offsets. Offsets stand
  before or after an ASCII byte, so that cutting panics only beyond the end, which is \<open>None\<close>.
\<close>

section \<open>Searching\<close>

lemma str_find_bound: "str_find needle s = Some i \<Longrightarrow> i + length needle \<le> length s"
proof (induction needle s arbitrary: i rule: str_find.induct)
  case (1 needle s)
  from 1 show ?case
    by (subst (asm) (2) str_find.simps)
      (auto split: if_splits list.splits dest: arg_cong [where f = length])
qed

lemma str_find_take: "str_find needle s = Some i \<Longrightarrow> take (length needle) (drop i s) = needle"
proof (induction needle s arbitrary: i rule: str_find.induct)
  case (1 needle s)
  from 1 show ?case
    by (subst (asm) (2) str_find.simps) (auto split: if_splits list.splits)
qed

text \<open>\<open>replace\<close> and \<open>matches(..).count()\<close>, for the non-empty patterns of the sources.\<close>

function str_replace :: "string \<Rightarrow> string \<Rightarrow> string \<Rightarrow> string" where
  "str_replace old new s =
     (if old = [] then s
      else case str_find old s of
        None \<Rightarrow> s
      | Some i \<Rightarrow> take i s @ new @ str_replace old new (drop (i + length old) s))"
  by pat_completeness auto
termination
  by (relation "measure (\<lambda>(old, _, s). length s)") (auto dest!: str_find_bound simp flip: length_greater_0_conv)

function count_matches :: "string \<Rightarrow> string \<Rightarrow> nat" where
  "count_matches needle s =
     (if needle = [] then Suc (length (utf8_chars s))
      else case str_find needle s of
        None \<Rightarrow> 0
      | Some i \<Rightarrow> Suc (count_matches needle (drop (i + length needle) s)))"
  by pat_completeness auto
termination
  by (relation "measure (\<lambda>(needle, s). length s)") (auto dest!: str_find_bound simp flip: length_greater_0_conv)

declare str_replace.simps [simp del] count_matches.simps [simp del]

definition contains_any :: "string \<Rightarrow> string list \<Rightarrow> bool" where
  "contains_any haystack needles = list_ex (str_contains haystack) needles"

definition count_tag :: "string \<Rightarrow> string \<Rightarrow> nat" where
  "count_tag lower_html tag = count_matches (''<'' @ tag) lower_html"

section \<open>Attributes\<close>

text \<open>\<open>u8::is_ascii_whitespace\<close>.\<close>

definition is_ascii_ws :: "char \<Rightarrow> bool" where
  "is_ascii_ws c = List.member [CHR 0x20, CHR 0x09, CHR 0x0A, CHR 0x0C, CHR 0x0D] c"

definition skip_ws :: "string \<Rightarrow> nat \<Rightarrow> nat" where
  "skip_ws html start = start + length (takeWhile is_ascii_ws (drop start html))"

text \<open>Where the value that starts here lies; \<open>None\<close> ends the search.\<close>

definition attr_range :: "string \<Rightarrow> nat \<Rightarrow> (nat \<times> nat) option" where
  "attr_range html start =
     (if length html \<le> start then None
      else let quote = html ! start
           in if quote = CHR 0x27 \<or> quote = CHR 0x22
              then map_option (\<lambda>end_rel. (start + 1, start + 1 + end_rel)) (str_find [quote] (drop (start + 1) html))
              else Some (start, start + length (takeWhile (\<lambda>c. \<not> is_ascii_ws c \<and> c \<noteq> CHR ''>'') (drop start html))))"

lemma attr_range_bounds:
  "attr_range html start = Some (a, b) \<Longrightarrow> start \<le> a \<and> a \<le> b \<and> b \<le> length html"
  using length_takeWhile_le [of "\<lambda>c. \<not> is_ascii_ws c \<and> c \<noteq> CHR ''>''" "drop start html"]
  by (auto simp: attr_range_def Let_def dest!: str_find_bound split: if_splits)

function attr_loop :: "string \<Rightarrow> string \<Rightarrow> string \<Rightarrow> nat \<Rightarrow> string list option" where
  "attr_loop html low needle cursor =
     (if length low < cursor then None
      else case str_find needle (drop cursor low) of
        None \<Rightarrow> Some []
      | Some rel \<Rightarrow>
          (case attr_range html (skip_ws html (cursor + rel + length needle)) of
             None \<Rightarrow> Some []
           | Some (a, b) \<Rightarrow>
               map_option ((#) (str_trim (slice html a b))) (attr_loop html low needle (b + 1))))"
  by pat_completeness auto
termination
  by (relation "measure (\<lambda>(html, low, needle, cursor). Suc (length low) - cursor)")
    (auto simp: skip_ws_def dest!: attr_range_bounds)

definition attr_values :: "string \<Rightarrow> string \<Rightarrow> string list option" where
  "attr_values html attr = attr_loop html (to_ascii_lowercase html) (attr @ ''='') 0"

definition href_values :: "string \<Rightarrow> string list option" where
  "href_values html = attr_values html ''href''"

section \<open>Text between tags\<close>

fun strip_from :: "bool \<Rightarrow> string \<Rightarrow> string" where
  "strip_from in_tag [] = []"
| "strip_from in_tag (ch # cs) =
     (if ch = CHR ''<'' then CHR '' '' # strip_from True cs
      else if ch = CHR ''>'' then CHR '' '' # strip_from False cs
      else if in_tag then strip_from in_tag cs
      else ch # strip_from in_tag cs)"

definition strip_tags :: "string \<Rightarrow> string" where
  "strip_tags html = strip_from False html"

function tag_loop :: "string \<Rightarrow> string \<Rightarrow> string \<Rightarrow> string \<Rightarrow> nat \<Rightarrow> string list" where
  "tag_loop html low op cl cursor =
     (case str_find op (drop cursor low) of
        None \<Rightarrow> []
      | Some open_rel \<Rightarrow>
          (case str_find ''>'' (drop (cursor + open_rel) low) of
             None \<Rightarrow> []
           | Some content_rel \<Rightarrow>
               let content_start = cursor + open_rel + content_rel + 1
               in (case str_find cl (drop content_start low) of
                     None \<Rightarrow> []
                   | Some close_rel \<Rightarrow>
                       strip_tags (slice html content_start (content_start + close_rel))
                         # tag_loop html low op cl (content_start + close_rel + length cl))))"
  by pat_completeness auto
termination
  by (relation "measure (\<lambda>(html, low, op, cl, cursor). length low - cursor)")
    (auto dest!: str_find_bound)

definition extract_all_tag_text :: "string \<Rightarrow> string \<Rightarrow> string list" where
  "extract_all_tag_text html tag =
     tag_loop html (to_ascii_lowercase html) (''<'' @ tag) (''</'' @ tag @ ''>'') 0"

definition extract_tag_text :: "string \<Rightarrow> string \<Rightarrow> string option" where
  "extract_tag_text html tag =
     (case extract_all_tag_text html tag of [] \<Rightarrow> None | t # _ \<Rightarrow> Some t)"

definition clean_text :: "string \<Rightarrow> string" where
  "clean_text value =
     str_join '' '' (split_whitespace (str_replace ''&nbsp;'' '' '' (str_replace ''&amp;'' ''&'' value)))"

definition is_question_heading :: "string \<Rightarrow> bool" where
  "is_question_heading value =
     (let trimmed = str_trim value
      in ends_with ''?'' trimmed
         \<or> list_ex (\<lambda>prefix. starts_with prefix (to_ascii_lowercase trimmed))
              [''what '', ''how '', ''why '', ''who '', ''when '', ''where '', ''is '', ''can '', ''does ''])"

section \<open>Sitemaps\<close>

function locs_loop :: "string \<Rightarrow> string \<Rightarrow> nat \<Rightarrow> string list" where
  "locs_loop xml low cursor =
     (case str_find ''<loc>'' (drop cursor low) of
        None \<Rightarrow> []
      | Some start_rel \<Rightarrow>
          let start = cursor + start_rel + length ''<loc>''
          in (case str_find ''</loc>'' (drop start low) of
                None \<Rightarrow> []
              | Some end_rel \<Rightarrow>
                  str_trim (slice xml start (start + end_rel))
                    # locs_loop xml low (start + end_rel + length ''</loc>'')))"
  by pat_completeness auto
termination
  by (relation "measure (\<lambda>(xml, low, cursor). length low - cursor)") (auto dest!: str_find_bound)

definition sitemap_locs :: "string \<Rightarrow> string list" where
  "sitemap_locs xml = locs_loop xml (to_ascii_lowercase xml) 0"

definition looks_like_sitemap :: "string \<Rightarrow> string \<Rightarrow> bool" where
  "looks_like_sitemap target body =
     (ends_with ''.xml'' target \<or> str_contains (to_ascii_lowercase body) ''<urlset'')"

declare attr_loop.simps [simp del] tag_loop.simps [simp del] locs_loop.simps [simp del]

end
