(* ===== verification/SiteAudit.thy ===== *)
theory SiteAudit
  imports HtmlText RecEngine "HOL-Library.Char_ord" "HOL-Library.List_Lexorder" "HOL-Library.Multiset"
begin

text \<open>
  The site audit (\<open>crates/audit/src/lib.rs\<close>): the rules over one page, the scores, the gate and
  the report. A URL of the \<open>url\<close> crate is a value of a type parameter, its operations are a
  parameter. A page on which a string operation panics has no audit, which is \<open>None\<close>.
\<close>

section \<open>Findings\<close>

datatype audit_category = Identity | Extractability | Corroboration

datatype audit_severity = AuditLow | AuditMedium | AuditHigh

primrec severity_rank :: "audit_severity \<Rightarrow> nat" where
  "severity_rank AuditLow = 0"
| "severity_rank AuditMedium = 1"
| "severity_rank AuditHigh = 2"

text \<open>The derived \<open>Ord\<close>: declaration order.\<close>

instantiation audit_severity :: linorder
begin

definition less_eq_audit_severity :: "audit_severity \<Rightarrow> audit_severity \<Rightarrow> bool" where
  "a \<le> b \<longleftrightarrow> severity_rank a \<le> severity_rank b"

definition less_audit_severity :: "audit_severity \<Rightarrow> audit_severity \<Rightarrow> bool" where
  "a < b \<longleftrightarrow> severity_rank a < severity_rank b"

instance
proof
  fix a b c :: audit_severity
  show "a \<le> b \<Longrightarrow> b \<le> a \<Longrightarrow> a = b"
    by (cases a; cases b) (simp_all add: less_eq_audit_severity_def)
qed (auto simp: less_eq_audit_severity_def less_audit_severity_def)

end

definition parse_severity :: "string \<Rightarrow> audit_severity option" where
  "parse_severity value =
     (let v = to_ascii_lowercase (str_trim value)
      in if v = ''low'' then Some AuditLow
         else if v = ''medium'' then Some AuditMedium
         else if v = ''high'' then Some AuditHigh
         else None)"

primrec severity_as_str :: "audit_severity \<Rightarrow> string" where
  "severity_as_str AuditLow = ''low''"
| "severity_as_str AuditMedium = ''medium''"
| "severity_as_str AuditHigh = ''high''"

datatype finding_status = Pass | Warn | Fail

record audit_finding =
  af_rule_id :: string
  af_category :: audit_category
  af_severity :: audit_severity
  af_status :: finding_status
  af_score :: u8
  af_message :: string
  af_recommendation_kind :: string
  af_evidence :: "string list"

definition is_violation :: "audit_finding \<Rightarrow> bool" where
  "is_violation f = (af_status f \<noteq> Pass)"

record page_input =
  pg_url :: string
  pg_html :: string

record page_audit =
  pa_url :: string
  pa_title :: "string option"
  pa_score :: u8
  pa_findings :: "audit_finding list"

record gate_finding =
  gf_page_url :: string
  gf_rule_id :: string
  gf_severity :: audit_severity
  gf_message :: string

record gate_summary =
  gs_passed :: bool
  gs_fail_on :: "string list"
  gs_failed_findings :: "gate_finding list"

record audit_report =
  ar_target :: string
  ar_overall_score :: u8
  ar_pages :: "page_audit list"
  ar_gate :: "gate_summary option"

definition with_gate :: "gate_summary \<Rightarrow> audit_report \<Rightarrow> audit_report" where
  "with_gate g r = r\<lparr>ar_gate := Some g\<rparr>"

section \<open>The gate\<close>

datatype fail_on = SeverityAtLeast audit_severity | OfRule string

definition parse_fail_on :: "string \<Rightarrow> fail_on" where
  "parse_fail_on value =
     (case parse_severity value of Some s \<Rightarrow> SeverityAtLeast s | None \<Rightarrow> OfRule (str_trim value))"

primrec fail_on_label :: "fail_on \<Rightarrow> string" where
  "fail_on_label (SeverityAtLeast sev) = severity_as_str sev"
| "fail_on_label (OfRule rule) = rule"

primrec fail_on_matches :: "fail_on \<Rightarrow> audit_finding \<Rightarrow> bool" where
  "fail_on_matches (SeverityAtLeast sev) f = (sev \<le> af_severity f)"
| "fail_on_matches (OfRule rule) f = (af_rule_id f = rule)"

definition gate_findings_of :: "fail_on list \<Rightarrow> page_audit \<Rightarrow> gate_finding list" where
  "gate_findings_of fail_on page =
     map (\<lambda>f. \<lparr>gf_page_url = pa_url page, gf_rule_id = af_rule_id f, gf_severity = af_severity f,
               gf_message = af_message f\<rparr>)
       (filter (\<lambda>f. is_violation f \<and> list_ex (\<lambda>g. fail_on_matches g f) fail_on) (pa_findings page))"

definition evaluate_gate :: "audit_report \<Rightarrow> fail_on list \<Rightarrow> gate_summary" where
  "evaluate_gate report fail_on =
     (let failed_findings =
            (if fail_on = [] then [] else concat (map (gate_findings_of fail_on) (ar_pages report)))
      in \<lparr>gs_passed = (failed_findings = []), gs_fail_on = map fail_on_label fail_on,
          gs_failed_findings = failed_findings\<rparr>)"

section \<open>URLs\<close>

record 'u url_ops =
  wu_parse :: "string \<Rightarrow> 'u option"
  wu_scheme :: "'u \<Rightarrow> string"
  wu_host_str :: "'u \<Rightarrow> string option"
  wu_port_or_known_default :: "'u \<Rightarrow> nat option"
  wu_path :: "'u \<Rightarrow> string"
  wu_join :: "'u \<Rightarrow> string \<Rightarrow> 'u option"
  wu_without_fragment :: "'u \<Rightarrow> 'u"
  wu_to_string :: "'u \<Rightarrow> string"
  wu_origin :: "'u \<Rightarrow> string"
  wu_to_file_path :: "'u \<Rightarrow> string option"

definition is_web_scheme :: "string \<Rightarrow> bool" where
  "is_web_scheme s = (s = ''http'' \<or> s = ''https'')"

definition parse_web_url :: "'u url_ops \<Rightarrow> string \<Rightarrow> 'u option" where
  "parse_web_url ops value =
     (case wu_parse ops value of
        None \<Rightarrow> None
      | Some url \<Rightarrow> if is_web_scheme (wu_scheme ops url) then Some url else None)"

definition normalize_url :: "'u url_ops \<Rightarrow> 'u \<Rightarrow> string" where
  "normalize_url ops url = wu_to_string ops (wu_without_fragment ops url)"

definition same_origin :: "'u url_ops \<Rightarrow> 'u \<Rightarrow> 'u \<Rightarrow> bool" where
  "same_origin ops a b =
     (wu_scheme ops a = wu_scheme ops b \<and> wu_host_str ops a = wu_host_str ops b
      \<and> wu_port_or_known_default ops a = wu_port_or_known_default ops b)"

text \<open>\<open>dedup_by_key\<close>: of neighbours with the same key the first stays.\<close>

fun dedup_by :: "('a \<Rightarrow> 'b) \<Rightarrow> 'a list \<Rightarrow> 'a list" where
  "dedup_by f (x # y # ys) = (if f y = f x then dedup_by f (x # ys) else x # dedup_by f (y # ys))"
| "dedup_by f xs = xs"

definition SKIP_EXT :: "string list" where
  "SKIP_EXT = [''.js'', ''.mjs'', ''.cjs'', ''.css'', ''.woff'', ''.woff2'', ''.ttf'', ''.eot'', ''.otf'', ''.png'',
     ''.jpg'', ''.jpeg'', ''.gif'', ''.svg'', ''.ico'', ''.webp'', ''.avif'', ''.webmanifest'', ''.zip'', ''.gz'',
     ''.tar'', ''.mp4'', ''.mp3'', ''.webm'', ''.pdf'']"

definition is_crawlable_url :: "unicode \<Rightarrow> 'u url_ops \<Rightarrow> 'u \<Rightarrow> bool" where
  "is_crawlable_url u ops url =
     (let path = lowercase u (wu_path ops url)
      in if starts_with ''/_next/'' path \<or> starts_with ''/static/'' path then False
         else let path_no_qs = hd (split_on (CHR ''?'') path)
              in \<not> list_ex (\<lambda>ext. ends_with ext path_no_qs) SKIP_EXT)"

definition owned_links :: "unicode \<Rightarrow> 'u url_ops \<Rightarrow> 'u \<Rightarrow> 'u \<Rightarrow> string \<Rightarrow> 'u list option" where
  "owned_links u ops base page_url html =
     map_option (\<lambda>hrefs.
         dedup_by (normalize_url ops)
           (sort_key (normalize_url ops)
             (filter (is_crawlable_url u ops)
               (filter (\<lambda>url. is_web_scheme (wu_scheme ops url))
                 (filter (same_origin ops base) (List.map_filter (wu_join ops page_url) hrefs))))))
       (href_values html)"

definition outbound_links :: "'u url_ops \<Rightarrow> string \<Rightarrow> string \<Rightarrow> string list option" where
  "outbound_links ops page_url html =
     (case parse_web_url ops page_url of
        None \<Rightarrow> Some []
      | Some base \<Rightarrow>
          map_option (\<lambda>hrefs.
              dedup_by (\<lambda>l. l)
                (sort
                  (map (normalize_url ops)
                    (filter (\<lambda>url. \<not> same_origin ops base url)
                      (filter (\<lambda>url. is_web_scheme (wu_scheme ops url))
                        (List.map_filter (wu_join ops base) hrefs))))))
            (href_values html))"

section \<open>What is read off a page\<close>

record document_facts =
  df_lower_html :: string
  df_text :: string
  df_title :: "string option"
  df_headings :: "string list"
  df_paragraph_count :: nat
  df_outbound_links :: "string list"
  df_ai_robots_meta :: bool

text \<open>A quoted attribute, with double and with single quotes.\<close>

definition dq :: "string \<Rightarrow> string" where
  "dq s = [CHR 0x22] @ s"

definition sq :: "string \<Rightarrow> string" where
  "sq s = [CHR 0x27] @ s"

definition document_facts_of :: "'u url_ops \<Rightarrow> string \<Rightarrow> string \<Rightarrow> document_facts option" where
  "document_facts_of ops url html =
     map_option (\<lambda>links.
        let lower_html = to_ascii_lowercase html
        in \<lparr>df_lower_html = lower_html,
            df_text = clean_text (strip_tags html),
            df_title = map_option clean_text (extract_tag_text html ''title''),
            df_headings = filter (\<lambda>s. s \<noteq> [])
              (map clean_text (concat (map (extract_all_tag_text html) [''h1'', ''h2'', ''h3'']))),
            df_paragraph_count = count_tag lower_html ''p'',
            df_outbound_links = links,
            df_ai_robots_meta = str_contains lower_html (''name='' @ dq ''robots'' @ dq [])
              \<and> contains_any lower_html
                  [''noai'', ''noimageai'', ''google-extended'', ''gptbot'', ''ccbot'', ''anthropicbot'',
                   ''perplexitybot'']\<rparr>)
       (outbound_links ops url html)"

section \<open>The rules\<close>

definition mk_finding ::
  "string \<Rightarrow> audit_category \<Rightarrow> audit_severity \<Rightarrow> bool \<Rightarrow> string \<Rightarrow> string \<Rightarrow> recommendation_kind \<Rightarrow> string list
   \<Rightarrow> audit_finding" where
  "mk_finding rule_id category sev pass pass_message fail_message kind evidence =
     \<lparr>af_rule_id = rule_id, af_category = category, af_severity = sev,
      af_status = (if pass then Pass else if sev = AuditHigh then Fail else Warn),
      af_score = (if pass then 100 else 0),
      af_message = (if pass then pass_message else fail_message),
      af_recommendation_kind = kind_as_str kind,
      af_evidence = evidence\<rparr>"

definition evidence_if :: "bool \<Rightarrow> string \<Rightarrow> string list" where
  "evidence_if pass value = (if pass then [value] else [])"

definition rule_schema_org :: "document_facts \<Rightarrow> audit_finding" where
  "rule_schema_org doc =
     (let pass = contains_any (df_lower_html doc) [''application/ld+json'', ''schema.org'']
      in mk_finding ''identity.schema_org_json_ld'' Identity AuditHigh pass
           ''Structured identity data is present.''
           ''Add JSON-LD or schema.org markup that names the entity being audited.''
           StructuralContentSuggestion (evidence_if pass ''found JSON-LD/schema.org marker''))"

definition rule_canonical_url :: "document_facts \<Rightarrow> audit_finding" where
  "rule_canonical_url doc =
     (let pass = contains_any (df_lower_html doc)
            [''rel='' @ dq ''canonical'' @ dq [], ''rel='' @ sq ''canonical'' @ sq []]
      in mk_finding ''identity.canonical_url'' Identity AuditMedium pass
           ''Canonical URL is declared.''
           ''Declare a canonical URL so engines can resolve duplicate page variants.''
           StructuralContentSuggestion (evidence_if pass ''found rel=canonical''))"

definition rule_site_name :: "document_facts \<Rightarrow> audit_finding" where
  "rule_site_name doc =
     (let title_has_site =
            (case df_title doc of None \<Rightarrow> False | Some t \<Rightarrow> str_contains t '' | '' \<or> str_contains t '' - '');
          pass = str_contains (df_lower_html doc) ''og:site_name'' \<or> title_has_site
      in mk_finding ''identity.site_name'' Identity AuditMedium pass
           ''Stable site name signal is present.''
           ''Add `og:site_name` or include the site/entity name in the page title.''
           StructuralContentSuggestion (evidence_if pass ''found og:site_name or title site separator''))"

definition rule_llms_txt :: "document_facts \<Rightarrow> bool \<Rightarrow> audit_finding" where
  "rule_llms_txt doc llms_txt_present =
     (let pass = llms_txt_present \<or> df_ai_robots_meta doc
      in mk_finding ''identity.llms_txt'' Identity AuditLow pass
           ''AI-crawler policy is declared (llms.txt or meta robots).''
           ''Consider adding /llms.txt to declare your AI-crawler policy [experimental].''
           StructuralContentSuggestion
           (evidence_if pass (if llms_txt_present then ''found /llms.txt (200)''
              else ''found AI-crawler meta robots directive'')))"

definition rule_answer_blocks :: "document_facts \<Rightarrow> audit_finding" where
  "rule_answer_blocks doc =
     (let pass = contains_any (df_lower_html doc)
              [''class='' @ dq ''answer'', ''class='' @ sq ''answer'', ''id='' @ dq ''answer'', ''id='' @ sq ''answer'',
               ''summary'', ''tldr'', ''<ol'', ''<dl'']
            \<or> str_contains (to_ascii_lowercase (df_text doc)) ''the answer''
      in mk_finding ''extractability.answer_blocks'' Extractability AuditHigh pass
           ''Extractable answer block is present.''
           ''Add a concise answer, summary, TLDR, ordered list, or definition list.''
           StructuralContentSuggestion (evidence_if pass ''found answer-like block or list structure''))"

definition rule_question_headings :: "document_facts \<Rightarrow> audit_finding" where
  "rule_question_headings doc =
     (let matched = find is_question_heading (df_headings doc)
      in mk_finding ''extractability.question_headings'' Extractability AuditMedium (matched \<noteq> None)
           ''Question-style heading is present.''
           ''Use question-form H1/H2/H3 headings for answerable sections.''
           StructuralContentSuggestion (case matched of None \<Rightarrow> [] | Some h \<Rightarrow> [h]))"

definition rule_semantic_sections :: "document_facts \<Rightarrow> audit_finding" where
  "rule_semantic_sections doc =
     (let pass = 2 \<le> length (df_headings doc) \<and> 2 \<le> df_paragraph_count doc
      in mk_finding ''extractability.semantic_sections'' Extractability AuditLow pass
           ''Semantic section structure is present.''
           ''Use multiple headings and paragraphs so content can be chunked cleanly.''
           StructuralContentSuggestion
           (evidence_if pass (show_nat (length (df_headings doc)) @ '' headings, ''
              @ show_nat (df_paragraph_count doc) @ '' paragraphs'')))"

definition rule_outbound_links :: "document_facts \<Rightarrow> audit_finding" where
  "rule_outbound_links doc =
     mk_finding ''corroboration.outbound_links'' Corroboration AuditHigh (df_outbound_links doc \<noteq> [])
       ''Outbound corroboration links are present.''
       ''Link to external sources that corroborate claims on this page.''
       CitationQualityUplift (take 3 (df_outbound_links doc))"

definition rule_named_sources :: "document_facts \<Rightarrow> audit_finding" where
  "rule_named_sources doc =
     (let pass = contains_any (to_ascii_lowercase (df_text doc))
            [''source:'', ''according to'', ''references'', ''bibliography'', ''cited by'']
      in mk_finding ''corroboration.named_sources'' Corroboration AuditMedium pass
           ''Named source language is present.''
           ''Name sources in surrounding prose, for example `Source:` or `According to ...`.''
           CitationQualityUplift (evidence_if pass ''found named-source phrase''))"

definition rule_source_context :: "document_facts \<Rightarrow> audit_finding" where
  "rule_source_context doc =
     (let pass = df_outbound_links doc \<noteq> []
            \<and> contains_any (df_lower_html doc) [''source'', ''reference'', ''study'', ''report'', ''citation'']
      in mk_finding ''corroboration.source_context'' Corroboration AuditMedium pass
           ''Outbound links have source context.''
           ''Label corroborating links as sources, references, studies, reports, or citations.''
           CitationQualityUplift (evidence_if pass ''found source-context label near page links''))"

section \<open>Scores and the report\<close>

definition round_score :: "u32 \<Rightarrow> u32 \<Rightarrow> u8" where
  "round_score points n = ucast (min (if n = 0 then 0 else (points + n div 2) div n) 100)"

definition page_findings :: "document_facts \<Rightarrow> bool \<Rightarrow> audit_finding list" where
  "page_findings doc llms_txt_present =
     [rule_schema_org doc, rule_canonical_url doc, rule_site_name doc, rule_llms_txt doc llms_txt_present,
      rule_answer_blocks doc, rule_question_headings doc, rule_semantic_sections doc, rule_outbound_links doc,
      rule_named_sources doc, rule_source_context doc]"

definition audit_page :: "'u url_ops \<Rightarrow> page_input \<Rightarrow> bool \<Rightarrow> page_audit option" where
  "audit_page ops page llms_txt_present =
     map_option (\<lambda>doc.
        let findings = page_findings doc llms_txt_present
        in \<lparr>pa_url = pg_url page,
            pa_title = map_option clean_text (extract_tag_text (pg_html page) ''title''),
            pa_score = round_score (sum_list (map (\<lambda>f. ucast (af_score f)) findings)) (of_nat (length findings)),
            pa_findings = findings\<rparr>)
       (document_facts_of ops (pg_url page) (pg_html page))"

record crawl_meta =
  cm_llms_txt_present :: bool

definition default_crawl_meta :: crawl_meta where
  "default_crawl_meta = \<lparr>cm_llms_txt_present = False\<rparr>"

definition audit_pages :: "'u url_ops \<Rightarrow> string \<Rightarrow> page_input list \<Rightarrow> crawl_meta \<Rightarrow> audit_report option" where
  "audit_pages ops target pages meta =
     map_option (\<lambda>pages.
        \<lparr>ar_target = target,
         ar_overall_score =
           (if pages = [] then 0
            else round_score (sum_list (map (\<lambda>p. ucast (pa_score p)) pages)) (of_nat (length pages))),
         ar_pages = pages,
         ar_gate = None\<rparr>)
       (those (map (\<lambda>p. audit_page ops p (cm_llms_txt_present meta))
          (dedup_by pg_url (sort_key pg_url pages))))"

section \<open>Neighbours with the same key\<close>

lemma dedup_by_distinct: "distinct (map f xs) \<Longrightarrow> dedup_by f xs = xs"
  by (induction f xs rule: dedup_by.induct) auto

lemma those_None: "those xs = None \<longleftrightarrow> None \<in> set xs"
  by (induction xs) (auto split: option.split)

lemma distinct_sort_key: "distinct (map f (sort_key f xs)) = distinct (map f xs)"
  by (intro mset_eq_imp_distinct_iff) (simp add: mset_map)

lemma set_dedup_by: "set (dedup_by f xs) \<subseteq> set xs"
  by (induction f xs rule: dedup_by.induct) auto

lemma length_dedup_by: "length (dedup_by f xs) \<le> length xs"
  by (induction f xs rule: dedup_by.induct) auto

section \<open>Pages that stop the audit\<close>

text \<open>The first link of the page has no quotes, and nothing ends its value before the page does.\<close>

definition unterminated_href :: "string \<Rightarrow> bool" where
  "unterminated_href html =
     (case str_find ''href='' (to_ascii_lowercase html) of
        None \<Rightarrow> False
      | Some i \<Rightarrow>
          let v = drop (i + 5) html
          in v \<noteq> [] \<and> hd v \<noteq> CHR 0x22 \<and> hd v \<noteq> CHR 0x27
             \<and> list_all (\<lambda>c. \<not> is_ascii_ws c \<and> c \<noteq> CHR ''>'') v)"

lemma unterminated_href_panics:
  assumes "unterminated_href html"
  shows "href_values html = None"
proof -
  from assms obtain i where i: "str_find ''href='' (to_ascii_lowercase html) = Some i"
    and v: "drop (i + 5) html \<noteq> []" "hd (drop (i + 5) html) \<noteq> CHR 0x22" "hd (drop (i + 5) html) \<noteq> CHR 0x27"
      "list_all (\<lambda>c. \<not> is_ascii_ws c \<and> c \<noteq> CHR ''>'') (drop (i + 5) html)"
    by (auto simp: unterminated_href_def Let_def split: option.splits)
  from v(1) have lt: "i + 5 < length html" by simp
  then have "\<not> is_ascii_ws (html ! (i + 5))" using v(4) by (metis Cons_nth_drop_Suc list.pred_inject(2))
  with lt have skip: "skip_ws html (i + 5) = i + 5"
    by (simp add: skip_ws_def takeWhile_eq_Nil_iff hd_drop_conv_nth)
  have "attr_range html (i + 5) = Some (i + 5, length html)"
    using v lt by (simp add: attr_range_def hd_drop_conv_nth list_all_iff takeWhile_eq_all_conv [THEN iffD2])
  moreover have "attr_loop html (to_ascii_lowercase html) ''href='' (Suc (length html)) = None"
    by (subst attr_loop.simps) (simp add: to_ascii_lowercase_def)
  ultimately show ?thesis
    using skip unfolding href_values_def attr_values_def
    by (subst attr_loop.simps) (simp add: i numeral_eq_Suc)
qed

text \<open>
  C39 (error). A report over pages of distinct addresses panics when one of them is a web page whose
  first link is unquoted and runs to the end of the page.
\<close>

theorem unterminated_link_stops_the_report:
  assumes "page \<in> set pages" and "distinct (map pg_url pages)"
    and "parse_web_url ops (pg_url page) \<noteq> None" and "unterminated_href (pg_html page)"
  shows "audit_pages ops target pages meta = None"
proof -
  have "outbound_links ops (pg_url page) (pg_html page) = None"
    using assms(3) unterminated_href_panics [OF assms(4)] by (auto simp: outbound_links_def)
  then have "audit_page ops page (cm_llms_txt_present meta) = None"
    by (simp add: audit_page_def document_facts_of_def)
  moreover have "dedup_by pg_url (sort_key pg_url pages) = sort_key pg_url pages"
    by (rule dedup_by_distinct) (simp add: distinct_sort_key assms(2))
  ultimately show ?thesis
    using assms(1) by (force simp: audit_pages_def those_None)
qed

definition ex_urls :: "string url_ops" where
  "ex_urls = \<lparr>wu_parse = (\<lambda>s. if starts_with ''http'' s then Some s else None), wu_scheme = (\<lambda>_. ''http''),
     wu_host_str = (\<lambda>_. Some ''h''), wu_port_or_known_default = (\<lambda>_. Some 80), wu_path = (\<lambda>_. ''/''),
     wu_join = (\<lambda>_ s. if starts_with ''http'' s then Some s else None), wu_without_fragment = (\<lambda>u. u),
     wu_to_string = (\<lambda>u. u), wu_origin = (\<lambda>u. u), wu_to_file_path = (\<lambda>_. None)\<rparr>"

lemma unterminated_link_stops_the_report_witness:
  "audit_pages ex_urls ''t'' [\<lparr>pg_url = ''http://h/'', pg_html = ''<a href=http://x''\<rparr>] default_crawl_meta = None"
  by (rule unterminated_link_stops_the_report [of "\<lparr>pg_url = ''http://h/'', pg_html = ''<a href=http://x''\<rparr>"])
    (simp add: unterminated_href_def parse_web_url_def ex_urls_def is_web_scheme_def starts_with_def | code_simp)+



section \<open>Scores\<close>

lemma mk_finding_fields [simp]:
  "af_rule_id (mk_finding r c s p m n k e) = r"
  "af_severity (mk_finding r c s p m n k e) = s"
  "af_status (mk_finding r c s p m n k e) = (if p then Pass else if s = AuditHigh then Fail else Warn)"
  "af_score (mk_finding r c s p m n k e) = (if p then 100 else 0)"
  by (simp_all add: mk_finding_def)

lemmas rule_defs = rule_schema_org_def rule_canonical_url_def rule_site_name_def rule_llms_txt_def
  rule_answer_blocks_def rule_question_headings_def rule_semantic_sections_def rule_outbound_links_def
  rule_named_sources_def rule_source_context_def

definition finding_ok :: "audit_finding \<Rightarrow> bool" where
  "finding_ok f =
     (af_score f = (if is_violation f then 0 else 100)
      \<and> (af_status f = Fail) = (is_violation f \<and> af_severity f = AuditHigh))"

lemma mk_finding_ok: "finding_ok (mk_finding r c s p m n k e)"
  by (simp add: finding_ok_def is_violation_def)

lemma page_findings_ok: "list_all finding_ok (page_findings doc b)"
  by (simp add: page_findings_def rule_defs mk_finding_ok Let_def del: mk_finding_fields)

lemma page_findings_ids:
  "map af_rule_id (page_findings doc b) =
     [''identity.schema_org_json_ld'', ''identity.canonical_url'', ''identity.site_name'', ''identity.llms_txt'',
      ''extractability.answer_blocks'', ''extractability.question_headings'', ''extractability.semantic_sections'',
      ''corroboration.outbound_links'', ''corroboration.named_sources'', ''corroboration.source_context'']"
  by (simp add: page_findings_def rule_defs Let_def)

definition passing :: "audit_finding list \<Rightarrow> nat" where
  "passing fs = length (filter (\<lambda>f. \<not> is_violation f) fs)"

lemma sum_scores:
  "list_all finding_ok fs \<Longrightarrow> sum_list (map (\<lambda>f. ucast (af_score f)) fs) = (of_nat (100 * passing fs) :: u32)"
proof (induction fs)
  case (Cons f fs)
  then show ?case by (cases "is_violation f") (simp_all add: finding_ok_def passing_def)
qed (simp add: passing_def)

lemma ten_cases: "k \<le> 10 \<Longrightarrow> k \<in> set [0, 1, 2, 3, 4, 5, 6, 7, 8, 9, 10 :: nat]"
  by simp arith

lemma round_score_tenths: "k \<le> 10 \<Longrightarrow> unat (round_score (of_nat (100 * k)) 10) = 10 * k"
  using ten_cases [of k] by (auto simp: round_score_def min_def word_le_nat_alt)

text \<open>
  C36 (functional). The score of an audited page is ten points for each of the ten rules it passes, and
  a rule is marked failed, rather than warned about, exactly when it is violated with high severity.
\<close>

theorem page_score_counts_passing_rules:
  "case audit_page ops page present of
     None \<Rightarrow> href_values (pg_html page) = None
   | Some audit \<Rightarrow>
       unat (pa_score audit) = 10 * passing (pa_findings audit)
       \<and> length (pa_findings audit) = 10 \<and> distinct (map af_rule_id (pa_findings audit))
       \<and> list_all finding_ok (pa_findings audit)"
proof (cases "document_facts_of ops (pg_url page) (pg_html page)")
  case None
  then show ?thesis by (auto simp: audit_page_def document_facts_of_def outbound_links_def split: option.splits)
next
  case (Some doc)
  define fs where "fs = page_findings doc present"
  have ids: "map af_rule_id fs = map af_rule_id (page_findings doc present)" by (simp add: fs_def)
  have "length fs = 10" by (simp add: fs_def page_findings_def)
  moreover from this have "passing fs \<le> 10" unfolding passing_def by (metis length_filter_le)
  moreover have "distinct (map af_rule_id fs)" unfolding ids page_findings_ids by simp
  moreover have ok: "list_all finding_ok fs" unfolding fs_def by (rule page_findings_ok)
  ultimately show ?thesis
    using round_score_tenths [of "passing fs"]
    by (simp add: audit_page_def Some sum_scores [OF ok] Let_def flip: fs_def)
qed

text \<open>
  (equivalence). A report over pages of distinct addresses does not depend on the order in which the
  crawl returned them.
\<close>

theorem report_ignores_page_order:
  assumes "mset ps = mset qs" and "distinct (map pg_url ps)"
  shows "audit_pages ops target ps meta = audit_pages ops target qs meta"
proof -
  have "sort_key pg_url ps = sort_key pg_url qs"
    using assms by (intro sort_key_inj_key_eq) (simp_all add: distinct_map)
  then show ?thesis by (simp add: audit_pages_def)
qed

lemma report_ignores_page_order_witness:
  "audit_pages ex_urls ''t'' [\<lparr>pg_url = ''b'', pg_html = []\<rparr>, \<lparr>pg_url = ''a'', pg_html = []\<rparr>] default_crawl_meta
    = audit_pages ex_urls ''t'' [\<lparr>pg_url = ''a'', pg_html = []\<rparr>, \<lparr>pg_url = ''b'', pg_html = []\<rparr>] default_crawl_meta"
  by (rule report_ignores_page_order) simp_all

section \<open>What the gate decides\<close>

lemma gate_findings_Nil:
  "gate_findings_of gates page = [] \<longleftrightarrow>
     list_all (\<lambda>f. is_violation f \<longrightarrow> list_all (\<lambda>g. \<not> fail_on_matches g f) gates) (pa_findings page)"
  by (auto simp: gate_findings_of_def filter_empty_conv list_all_iff list_ex_iff)

text \<open>
  (functional). The gate passes exactly when no page has a violated finding that one of its
  thresholds or rule names matches.
\<close>

theorem gate_passes_iff_no_gated_violation:
  "gs_passed (evaluate_gate report gates) \<longleftrightarrow>
     list_all (\<lambda>page. list_all (\<lambda>f. \<not> (is_violation f \<and> list_ex (\<lambda>g. fail_on_matches g f) gates))
       (pa_findings page)) (ar_pages report)"
  by (cases "gates = []")
    (auto simp: evaluate_gate_def Let_def gate_findings_Nil list_all_iff list_ex_iff)

lemma parse_severity_trim [simp]: "parse_severity (str_trim s) = parse_severity s"
  by (simp add: parse_severity_def str_trim_idem)

lemma parse_severity_label: "parse_severity (severity_as_str sev) = Some sev"
  by (induct sev) code_simp+

text \<open>
  (roundtrip). Parsing the label of a parsed threshold gives the threshold back, and text that
  is no severity names a rule.
\<close>

theorem gate_label_roundtrip:
  "parse_fail_on (fail_on_label (parse_fail_on s)) = parse_fail_on s
   \<and> (parse_severity s = None \<longleftrightarrow> parse_fail_on s = OfRule (str_trim s))"
  by (cases "parse_severity s") (simp_all add: parse_fail_on_def parse_severity_label str_trim_idem)

end
