(* ===== verification/Crawl.thy ===== *)
theory Crawl
  imports SiteAudit Db "HOL-Library.AList" "HOL-Library.Product_Lexorder"
begin

text \<open>
  The crawler of the site audit (\<open>crates/audit/src/lib.rs\<close>) and its REST surface
  (\<open>apps/api/src/routes/audit.rs\<close>, \<open>crates/storage/src/repositories/audit.rs\<close>). The HTTP client and
  the file system are parameters: the answer to a request may depend on how many were sent before.
  The crawl threads the list of requests sent.
\<close>

section \<open>Fetching\<close>

record http_response =
  hr_status :: nat
  hr_content_type :: "string option"
  hr_url :: string
  hr_text :: "string option"

record 'u audit_env =
  ae_urls :: "'u url_ops"
  ae_unicode :: unicode
  ae_exists :: "string \<Rightarrow> bool"
  ae_read_to_string :: "string \<Rightarrow> string option"
  ae_get :: "nat \<Rightarrow> string \<Rightarrow> http_response option"

datatype audit_error =
    InvalidTarget string
  | ReadFile string
  | Fetch string
  | HttpStatus string nat
  | NotHtml string string

type_synonym sent = "string list"

definition http_get :: "'u audit_env \<Rightarrow> string \<Rightarrow> sent \<Rightarrow> http_response option \<times> sent" where
  "http_get env url rq = (ae_get env (length rq) url, rq @ [url])"

definition is_success :: "nat \<Rightarrow> bool" where
  "is_success status = (200 \<le> status \<and> status < 300)"

definition local_path :: "'u audit_env \<Rightarrow> string \<Rightarrow> string option" where
  "local_path env target =
     (case wu_parse (ae_urls env) target of
        Some url \<Rightarrow> if wu_scheme (ae_urls env) url = ''file'' then wu_to_file_path (ae_urls env) url else None
      | None \<Rightarrow> if ae_exists env target then Some target else None)"

definition read_response :: "'u audit_env \<Rightarrow> string \<Rightarrow> 'u \<Rightarrow> http_response option \<Rightarrow> audit_error + page_input" where
  "read_response env target url answer =
     (case answer of
        None \<Rightarrow> Inl (Fetch target)
      | Some resp \<Rightarrow>
          if \<not> is_success (hr_status resp) then Inl (HttpStatus target (hr_status resp))
          else let content_type = lowercase (ae_unicode env) (unwrap_or [] (hr_content_type resp))
               in if content_type \<noteq> [] \<and> \<not> starts_with ''text/html'' content_type
                  then Inl (NotHtml (wu_to_string (ae_urls env) url) content_type)
                  else (case hr_text resp of
                          None \<Rightarrow> Inl (Fetch (hr_url resp))
                        | Some html \<Rightarrow> Inr \<lparr>pg_url = hr_url resp, pg_html = html\<rparr>))"

definition fetch :: "'u audit_env \<Rightarrow> string \<Rightarrow> sent \<Rightarrow> (audit_error + page_input) \<times> sent" where
  "fetch env target rq =
     (case local_path env target of
        Some path \<Rightarrow>
          (case ae_read_to_string env path of
             None \<Rightarrow> (Inl (ReadFile path), rq)
           | Some html \<Rightarrow> (Inr \<lparr>pg_url = path, pg_html = html\<rparr>, rq))
      | None \<Rightarrow>
          (case wu_parse (ae_urls env) target of
             None \<Rightarrow> (Inl (InvalidTarget target), rq)
           | Some url \<Rightarrow>
               if \<not> is_web_scheme (wu_scheme (ae_urls env) url) then (Inl (InvalidTarget target), rq)
               else (case http_get env (wu_to_string (ae_urls env) url) rq of (answer, rq) \<Rightarrow>
                       (read_response env target url answer, rq))))"

section \<open>The crawl\<close>

record audit_options =
  ao_max_pages :: nat

definition default_audit_options :: audit_options where
  "default_audit_options = \<lparr>ao_max_pages = 25\<rparr>"

definition probe_llms_txt :: "'u audit_env \<Rightarrow> string \<Rightarrow> sent \<Rightarrow> bool \<times> sent" where
  "probe_llms_txt env target rq =
     (case parse_web_url (ae_urls env) target of
        None \<Rightarrow> (False, rq)
      | Some base \<Rightarrow>
          (case http_get env (wu_origin (ae_urls env) base @ ''/llms.txt'') rq of (answer, rq) \<Rightarrow>
             ((case answer of None \<Rightarrow> False | Some r \<Rightarrow> is_success (hr_status r)), rq)))"

fun sitemap_pages :: "'u audit_env \<Rightarrow> 'u option \<Rightarrow> string list \<Rightarrow> sent \<Rightarrow> page_input list \<times> sent" where
  "sitemap_pages env base [] rq = ([], rq)"
| "sitemap_pages env base (loc # locs) rq =
     (if (case (base, parse_web_url (ae_urls env) loc) of
            (Some r, Some candidate) \<Rightarrow> \<not> same_origin (ae_urls env) r candidate
          | _ \<Rightarrow> False)
      then sitemap_pages env base locs rq
      else (case fetch env loc rq of (answer, rq) \<Rightarrow>
              (case sitemap_pages env base locs rq of (pages, rq) \<Rightarrow>
                 ((case answer of Inl _ \<Rightarrow> pages | Inr page \<Rightarrow> page # pages), rq))))"

definition crawl_sitemap ::
  "'u audit_env \<Rightarrow> audit_options \<Rightarrow> string \<Rightarrow> string \<Rightarrow> sent \<Rightarrow> page_input list \<times> sent" where
  "crawl_sitemap env opts target xml rq =
     sitemap_pages env (parse_web_url (ae_urls env) target)
       (take (ao_max_pages opts) (dedup_by (\<lambda>l. l) (sort (sitemap_locs xml)))) rq"

text \<open>The new links go to the end of the queue.\<close>

fun push_links :: "'u url_ops \<Rightarrow> 'u list \<Rightarrow> string set \<Rightarrow> 'u list \<Rightarrow> string set \<times> 'u list" where
  "push_links ops [] seen queue = (seen, queue)"
| "push_links ops (link # links) seen queue =
     (let normalized = normalize_url ops link
      in if normalized \<in> seen then push_links ops links seen queue
         else push_links ops links (insert normalized seen) (queue @ [link]))"

text \<open>
  The loop over the queue may in general go on for ever, which is \<open>None\<close>; a panic while links are
  read is \<open>Some (None, _)\<close>. The ordered map of pages is an association list, put in order at the end.
\<close>

partial_function (option) crawl_loop ::
  "'u audit_env \<Rightarrow> nat \<Rightarrow> 'u \<Rightarrow> (string \<times> page_input) list \<Rightarrow> string set \<Rightarrow> 'u list \<Rightarrow> sent
   \<Rightarrow> ((string \<times> page_input) list option \<times> sent) option" where
  "crawl_loop env max_pages base pages seen queue rq =
     (case queue of
        [] \<Rightarrow> Some (Some pages, rq)
      | url # rest \<Rightarrow>
          if max_pages \<le> length pages then Some (Some pages, rq)
          else (case fetch env (wu_to_string (ae_urls env) url) rq of (answer, rq) \<Rightarrow>
                  (case answer of
                     Inl _ \<Rightarrow> crawl_loop env max_pages base pages seen rest rq
                   | Inr page \<Rightarrow>
                       (case owned_links (ae_unicode env) (ae_urls env) base url (pg_html page) of
                          None \<Rightarrow> Some (None, rq)
                        | Some links \<Rightarrow>
                            (case push_links (ae_urls env) links seen rest of (seen, queue) \<Rightarrow>
                               crawl_loop env max_pages base
                                 (AList.update (normalize_url (ae_urls env) url) page pages) seen queue rq)))))"

text \<open>What a crawl, and then an audit, may end with: a value, an error or a panic.\<close>

datatype 'a outcome = Done 'a | Failed audit_error | Panicked

definition crawl_site ::
  "'u audit_env \<Rightarrow> audit_options \<Rightarrow> 'u \<Rightarrow> sent \<Rightarrow> (page_input list option \<times> sent) option" where
  "crawl_site env opts base rq =
     map_option (\<lambda>(pages, rq). (map_option (\<lambda>ps. map snd (sort_key fst ps)) pages, rq))
       (crawl_loop env (ao_max_pages opts) base [] {normalize_url (ae_urls env) base} [base] rq)"

definition crawl ::
  "'u audit_env \<Rightarrow> audit_options \<Rightarrow> string \<Rightarrow> sent \<Rightarrow> ((page_input list \<times> crawl_meta) outcome \<times> sent) option" where
  "crawl env opts target rq =
     (case fetch env target rq of (answer, rq) \<Rightarrow>
        (case answer of
           Inl e \<Rightarrow> Some (Failed e, rq)
         | Inr fetched \<Rightarrow>
             let finish = (\<lambda>(pages, rq).
                   case probe_llms_txt env target rq of (present, rq) \<Rightarrow>
                     (Done (pages, \<lparr>cm_llms_txt_present = present\<rparr>), rq))
             in if looks_like_sitemap target (pg_html fetched)
                then Some (finish (crawl_sitemap env opts target (pg_html fetched) rq))
                else (case parse_web_url (ae_urls env) (pg_url fetched) of
                        None \<Rightarrow> Some (Done ([fetched], default_crawl_meta), rq)
                      | Some base \<Rightarrow>
                          map_option (\<lambda>(pages, rq).
                              case pages of None \<Rightarrow> (Panicked, rq) | Some ps \<Rightarrow> finish (ps, rq))
                            (crawl_site env opts base rq))))"

definition crawl_and_audit ::
  "'u audit_env \<Rightarrow> audit_options \<Rightarrow> string \<Rightarrow> sent \<Rightarrow> (audit_report outcome \<times> sent) option" where
  "crawl_and_audit env opts target rq =
     map_option (\<lambda>(result, rq).
        ((case result of
            Failed e \<Rightarrow> Failed e
          | Panicked \<Rightarrow> Panicked
          | Done (pages, meta) \<Rightarrow>
              (case audit_pages (ae_urls env) target pages meta of None \<Rightarrow> Panicked | Some report \<Rightarrow> Done report)),
         rq))
       (crawl env opts target rq)"

section \<open>The crawl ends\<close>

text \<open>
  The invariant of the queue: no two queued URLs have the same normal form, none was fetched
  already, and all were seen. Queued URLs have the origin of the first.
\<close>

definition crawl_inv ::
  "'u url_ops \<Rightarrow> 'u \<Rightarrow> (string \<times> page_input) list \<Rightarrow> string set \<Rightarrow> 'u list \<Rightarrow> bool" where
  "crawl_inv ops base pages seen queue =
     (distinct (map (normalize_url ops) queue @ map fst pages)
      \<and> set (map (normalize_url ops) queue @ map fst pages) \<subseteq> seen
      \<and> list_all (same_origin ops base) queue)"

lemma push_links_spec:
  "push_links ops links seen queue = (seen', queue') \<Longrightarrow>
     \<exists>new. queue' = queue @ new \<and> set new \<subseteq> set links \<and> distinct (map (normalize_url ops) new)
       \<and> normalize_url ops ` set new \<inter> seen = {} \<and> seen' = seen \<union> normalize_url ops ` set new"
proof (induction links arbitrary: seen queue)
  case (Cons l ls)
  show ?case
  proof (cases "normalize_url ops l \<in> seen")
    case True
    with Cons.prems have "push_links ops ls seen queue = (seen', queue')" by simp
    from Cons.IH [OF this] show ?thesis by (auto intro: subset_insertI2)
  next
    case False
    with Cons.prems have "push_links ops ls (insert (normalize_url ops l) seen) (queue @ [l]) = (seen', queue')"
      by (simp add: Let_def)
    from Cons.IH [OF this] obtain new where "queue' = (queue @ [l]) @ new" "set new \<subseteq> set ls"
      "distinct (map (normalize_url ops) new)"
      "normalize_url ops ` set new \<inter> insert (normalize_url ops l) seen = {}"
      "seen' = insert (normalize_url ops l) seen \<union> normalize_url ops ` set new" by blast
    with False show ?thesis by (intro exI [of _ "l # new"]) auto
  qed
qed simp

lemma owned_links_origin:
  "owned_links u ops base url html = Some links \<Longrightarrow> link \<in> set links \<Longrightarrow> same_origin ops base link"
  using set_dedup_by by (fastforce simp: owned_links_def)

lemma crawl_inv_fail: "crawl_inv ops base pages seen (url # rest) \<Longrightarrow> crawl_inv ops base pages seen rest"
  by (auto simp: crawl_inv_def)

lemma crawl_inv_page:
  assumes inv: "crawl_inv ops base pages seen (url # rest)"
    and links: "owned_links u ops base url html = Some links"
    and push: "push_links ops links seen rest = (seen', queue')"
  shows "crawl_inv ops base (AList.update (normalize_url ops url) page pages) seen' queue'"
    and "length (AList.update (normalize_url ops url) page pages) = Suc (length pages)"
proof -
  obtain new where new: "queue' = rest @ new" "set new \<subseteq> set links" "distinct (map (normalize_url ops) new)"
    "normalize_url ops ` set new \<inter> seen = {}" "seen' = seen \<union> normalize_url ops ` set new"
    using push_links_spec [OF push] by blast
  have fresh: "normalize_url ops url \<notin> fst ` set pages"
    using inv by (auto simp: crawl_inv_def)
  then have upd: "AList.update (normalize_url ops url) page pages = pages @ [(normalize_url ops url, page)]"
    by (induction pages) auto
  have "fst ` set pages \<subseteq> seen" "normalize_url ops ` set rest \<subseteq> seen" "normalize_url ops url \<in> seen"
    using inv by (auto simp: crawl_inv_def)
  with new(4) have "normalize_url ops ` set rest \<inter> normalize_url ops ` set new = {}"
    "(normalize_url ops ` set rest \<union> normalize_url ops ` set new)
       \<inter> insert (normalize_url ops url) (fst ` set pages) = {}"
    using inv fresh by (auto 0 3 simp: crawl_inv_def)
  moreover have "list_all (same_origin ops base) new"
    using owned_links_origin [OF links] new(2) by (auto simp: list_all_iff)
  ultimately show "crawl_inv ops base (AList.update (normalize_url ops url) page pages) seen' queue'"
    using inv new(3) unfolding upd new(1,5) by (auto simp: crawl_inv_def)
  show "length (AList.update (normalize_url ops url) page pages) = Suc (length pages)"
    by (simp add: upd)
qed

text \<open>The \<open>url\<close> crate serialises a URL so that parsing gives it back.\<close>

definition url_roundtrip :: "'u url_ops \<Rightarrow> bool" where
  "url_roundtrip ops = (\<forall>url. wu_parse ops (wu_to_string ops url) = Some url)"

lemma fetch_requests:
  assumes "url_roundtrip (ae_urls env)"
  shows "snd (fetch env (wu_to_string (ae_urls env) url) rq) = rq
     \<or> snd (fetch env (wu_to_string (ae_urls env) url) rq) = rq @ [wu_to_string (ae_urls env) url]"
  using assms
  by (auto simp: fetch_def local_path_def url_roundtrip_def http_get_def split: option.split)

definition own_requests :: "'u url_ops \<Rightarrow> 'u \<Rightarrow> sent \<Rightarrow> bool" where
  "own_requests ops base rq =
     list_all (\<lambda>r. \<exists>url. r = wu_to_string ops url \<and> same_origin ops base url) rq"

definition runs_within :: "'u audit_env \<Rightarrow> 'u \<Rightarrow> sent \<Rightarrow> sent \<Rightarrow> bool" where
  "runs_within env base rq rq' =
     (url_roundtrip (ae_urls env) \<longrightarrow> (\<exists>more. rq' = rq @ more \<and> own_requests (ae_urls env) base more))"

lemma runs_within_refl [simp]: "runs_within env base rq rq"
  by (simp add: runs_within_def own_requests_def)

lemma runs_within_fetch:
  assumes "fetch env (wu_to_string (ae_urls env) url) rq = (answer, rq1)" and "same_origin (ae_urls env) base url"
    and "runs_within env base rq1 rq2"
  shows "runs_within env base rq rq2"
  using assms fetch_requests [of env url rq]
  by (fastforce simp: runs_within_def own_requests_def)

lemma crawl_loop_ends:
  assumes "crawl_inv (ae_urls env) base pages seen queue" and "length pages \<le> max_pages"
  shows "\<exists>result rq'. crawl_loop env max_pages base pages seen queue rq = Some (result, rq')
    \<and> (case result of None \<Rightarrow> True | Some ps \<Rightarrow> length ps \<le> max_pages \<and> distinct (map fst ps))
    \<and> runs_within env base rq rq'"
  using assms
proof (induction "(max_pages - length pages, length queue)" arbitrary: pages seen queue rq
    rule: wf_induct_rule [OF wf_lex_prod [OF wf_less_than wf_less_than]])
  case 1
  note step = 1(1) and inv = 1(2) and le = 1(3)
  show ?case
  proof (cases queue)
    case Nil
    with inv le show ?thesis by (subst crawl_loop.simps) (simp add: crawl_inv_def)
  next
    case (Cons url rest)
    obtain answer rq1 where f: "fetch env (wu_to_string (ae_urls env) url) rq = (answer, rq1)" by fastforce
    from inv have own: "same_origin (ae_urls env) base url" by (simp add: Cons crawl_inv_def)
    note within = runs_within_fetch [OF f own]
    show ?thesis
    proof (cases "max_pages \<le> length pages")
      case True
      with inv le Cons show ?thesis by (subst crawl_loop.simps) (simp add: crawl_inv_def)
    next
      case more: False
      show ?thesis
      proof (cases answer)
        case (Inl e)
        note rest = crawl_inv_fail [OF inv [unfolded Cons]]
        show ?thesis
          using step [OF _ rest le, of rq1] more
          by (subst crawl_loop.simps) (auto simp: Cons f Inl intro: within)
      next
        case (Inr page)
        show ?thesis
        proof (cases "owned_links (ae_unicode env) (ae_urls env) base url (pg_html page)")
          case None
          with more show ?thesis by (subst crawl_loop.simps) (simp add: Cons f Inr within)
        next
          case (Some links)
          obtain seen' queue' where push: "push_links (ae_urls env) links seen rest = (seen', queue')" by fastforce
          note next_inv = crawl_inv_page [OF inv [unfolded Cons] Some push, of page]
          have "max_pages - Suc (length pages) < max_pages - length pages" using more by simp
          then show ?thesis
            using step [OF _ next_inv(1), of rq1] next_inv(2) more
            by (subst crawl_loop.simps) (auto simp: Cons f Inr Some push intro: within)
        qed
      qed
    qed
  qed
qed

lemma crawl_site_ends:
  "\<exists>result rq'. crawl_site env opts base rq = Some (result, rq')
     \<and> (case result of None \<Rightarrow> True | Some pages \<Rightarrow> length pages \<le> ao_max_pages opts)
     \<and> runs_within env base rq rq'"
proof -
  have "crawl_inv (ae_urls env) base [] {normalize_url (ae_urls env) base} [base]"
    by (simp add: crawl_inv_def same_origin_def)
  from crawl_loop_ends [OF this, of "ao_max_pages opts" rq] obtain result rq' where
    "crawl_loop env (ao_max_pages opts) base [] {normalize_url (ae_urls env) base} [base] rq = Some (result, rq')"
    "case result of None \<Rightarrow> True | Some ps \<Rightarrow> length ps \<le> ao_max_pages opts \<and> distinct (map fst ps)"
    "runs_within env base rq rq'"
    by auto
  then show ?thesis by (cases result) (simp_all add: crawl_site_def)
qed

lemma sitemap_pages_bound: "length (fst (sitemap_pages env base locs rq)) \<le> length locs"
  by (induction locs arbitrary: rq) (auto simp: case_prod_beta le_SucI split: sum.split)

lemma crawl_sitemap_bound: "length (fst (crawl_sitemap env opts target xml rq)) \<le> ao_max_pages opts"
  unfolding crawl_sitemap_def by (rule order_trans [OF sitemap_pages_bound]) simp

lemma crawl_ends:
  "\<exists>result rq'. crawl env opts target rq = Some (result, rq')
     \<and> (case result of Done (pages, _) \<Rightarrow> length pages \<le> max 1 (ao_max_pages opts) | _ \<Rightarrow> True)"
proof (cases "fst (fetch env target rq)")
  case (Inl e)
  then show ?thesis by (simp add: crawl_def case_prod_beta)
next
  case (Inr fetched)
  define rq1 where "rq1 = snd (fetch env target rq)"
  show ?thesis
  proof (cases "looks_like_sitemap target (pg_html fetched)")
    case True
    with Inr crawl_sitemap_bound [of env opts target "pg_html fetched" rq1] show ?thesis
      by (simp add: crawl_def case_prod_beta Let_def le_max_iff_disj flip: rq1_def)
  next
    case False
    show ?thesis
    proof (cases "parse_web_url (ae_urls env) (pg_url fetched)")
      case None
      with Inr False show ?thesis by (simp add: crawl_def case_prod_beta Let_def)
    next
      case (Some base)
      obtain result rq2 where "crawl_site env opts base rq1 = Some (result, rq2)"
        "case result of None \<Rightarrow> True | Some pages \<Rightarrow> length pages \<le> ao_max_pages opts"
        using crawl_site_ends [of env opts base rq1] by blast
      with Inr False Some show ?thesis
        by (cases result) (simp_all add: crawl_def case_prod_beta Let_def le_max_iff_disj flip: rq1_def)
    qed
  qed
qed

text \<open>
  C6 (termination). Whatever the web answers, a crawl ends, and ends with at most as many pages as the
  options allow, or one.
\<close>

theorem crawl_always_ends:
  "\<exists>result rq'. crawl env opts target rq = Some (result, rq')
     \<and> (case result of Done (pages, _) \<Rightarrow> length pages \<le> max 1 (ao_max_pages opts) | _ \<Rightarrow> True)"
  by (rule crawl_ends)


definition ex_web :: "string audit_env" where
  "ex_web = \<lparr>ae_urls = ex_urls\<lparr>wu_parse := Some\<rparr>, ae_unicode = \<lparr>lowercase = to_ascii_lowercase, alphanumeric = (\<lambda>_. True)\<rparr>,
     ae_exists = (\<lambda>_. False), ae_read_to_string = (\<lambda>_. None), ae_get = (\<lambda>_ _. None)\<rparr>"


section \<open>Sitemaps that name local files\<close>

lemma sitemap_pages_local:
  assumes path: "local_path env loc = Some path" and html: "ae_read_to_string env path = Some html"
  shows "loc \<in> set locs \<Longrightarrow> \<lparr>pg_url = path, pg_html = html\<rparr> \<in> set (fst (sitemap_pages env base locs rq))"
proof (induction locs arbitrary: rq)
  case (Cons l ls)
  have not_web: "parse_web_url (ae_urls env) loc = None"
    using path by (auto simp: local_path_def parse_web_url_def is_web_scheme_def split: option.splits if_splits)
  have got: "fetch env loc rq = (Inr \<lparr>pg_url = path, pg_html = html\<rparr>, rq)" for rq
    using path html by (simp add: fetch_def)
  show ?case
  proof (cases "l = loc")
    case True
    then show ?thesis by (simp add: not_web got case_prod_beta split: option.split)
  next
    case False
    with Cons show ?thesis by (auto simp: case_prod_beta split: sum.split)
  qed
qed simp

text \<open>
  (safety). A sitemap entry that names a local file or a file URL is read from the disk of the
  host and returned as a page of the audited site, whatever the target: the origin check skips
  what is not a web address.
\<close>

theorem sitemap_reads_local_files:
  assumes "loc \<in> set (take (ao_max_pages opts) (dedup_by (\<lambda>l. l) (sort (sitemap_locs xml))))"
    and "local_path env loc = Some path" and "ae_read_to_string env path = Some html"
  shows "\<lparr>pg_url = path, pg_html = html\<rparr> \<in> set (fst (crawl_sitemap env opts target xml rq))"
  unfolding crawl_sitemap_def by (rule sitemap_pages_local [OF assms(2,3,1)])

definition ex_audit_env :: "string audit_env" where
  "ex_audit_env = \<lparr>ae_urls = ex_urls, ae_unicode = \<lparr>lowercase = to_ascii_lowercase, alphanumeric = (\<lambda>_. True)\<rparr>,
     ae_exists = (\<lambda>p. p = ''/etc/passwd''), ae_read_to_string = (\<lambda>p. Some ''root''),
     ae_get = (\<lambda>_ _. None)\<rparr>"

lemma ex_loc: "sitemap_locs ''<loc>/etc/passwd</loc>'' = [''/etc/passwd'']"
  by code_simp

lemma sitemap_reads_local_files_witness:
  "\<lparr>pg_url = ''/etc/passwd'', pg_html = ''root''\<rparr>
     \<in> set (fst (crawl_sitemap ex_audit_env default_audit_options ''http://h/sitemap.xml'' ''<loc>/etc/passwd</loc>'' []))"
  by (rule sitemap_reads_local_files [of "''/etc/passwd''"])
    (simp_all add: ex_loc default_audit_options_def local_path_def ex_audit_env_def ex_urls_def starts_with_def)


section \<open>The REST surface\<close>

record audit_run_row =
  au_id :: uuid
  au_project_id :: uuid
  au_target :: string
  au_overall_score :: int
  au_pages_crawled :: int
  au_gate_passed :: "bool option"
  au_report :: json
  au_created_at :: int

definition audit_row_ok :: "audit_run_row \<Rightarrow> bool" where
  "audit_row_ok r = (0 \<le> au_overall_score r \<and> au_overall_score r \<le> 100)"

definition insert_run :: "audit_run_row \<Rightarrow> (audit_run_row list, uuid) dbm" where
  "insert_run r =
     cstmt (\<lambda>t. if audit_row_ok r \<and> au_id r \<notin> au_id ` set t then Some (au_id r, t @ [r]) else None)"

definition list_runs_for_project :: "uuid \<Rightarrow> int \<Rightarrow> (audit_run_row list, audit_run_row list) dbm" where
  "list_runs_for_project project_id limit =
     query (\<lambda>t. take (nat limit)
       (rev (sort_key (\<lambda>r. (au_created_at r, au_id r)) (filter (\<lambda>r. au_project_id r = project_id) t))))"

definition get_report :: "uuid \<Rightarrow> uuid \<Rightarrow> (audit_run_row list, json option) dbm" where
  "get_report run_id project_id =
     query (\<lambda>t. map_option au_report (find (\<lambda>r. au_id r = run_id \<and> au_project_id r = project_id) t))"

record audit_request =
  aq_target :: string
  aq_max_pages :: "nat option"
  aq_fail_on :: "string list"

datatype audit_reply = AuditRejected nat string | AuditPanic

definition gated :: "audit_request \<Rightarrow> audit_report \<Rightarrow> audit_report" where
  "gated req report =
     (if aq_fail_on req = [] then report
      else with_gate (evaluate_gate report (map parse_fail_on (aq_fail_on req))) report)"

definition audit_row :: "uuid \<Rightarrow> uuid \<Rightarrow> int \<Rightarrow> audit_report \<Rightarrow> json \<Rightarrow> audit_run_row" where
  "audit_row run_id project_id now report report_json =
     \<lparr>au_id = run_id, au_project_id = project_id, au_target = ar_target report,
      au_overall_score = uint (ar_overall_score report), au_pages_crawled = int (length (ar_pages report)),
      au_gate_passed = map_option gs_passed (ar_gate report), au_report = report_json, au_created_at = now\<rparr>"

definition persist_audit ::
  "(audit_report \<Rightarrow> json option) \<Rightarrow> uuid \<Rightarrow> uuid \<Rightarrow> int \<Rightarrow> audit_report \<Rightarrow> (audit_run_row list, audit_reply, unit) rm" where
  "persist_audit to_value run_id project_id now report =
     (case to_value report of
        None \<Rightarrow> ret ()
      | Some report_json \<Rightarrow> ignore (insert_run (audit_row run_id project_id now report report_json)))"

text \<open>The handler; \<open>None\<close> would be a crawl without end.\<close>

definition audit_handler ::
  "'u audit_env \<Rightarrow> (audit_report \<Rightarrow> json option) \<Rightarrow> uuid \<Rightarrow> uuid \<Rightarrow> int \<Rightarrow> audit_request
   \<Rightarrow> (audit_run_row list, audit_reply, audit_report) rm option" where
  "audit_handler env to_value project_id run_id now req =
     (if str_trim (aq_target req) = [] then Some (raise (AuditRejected 400 ''invalid_target''))
      else map_option (\<lambda>(result, _).
        case result of
          Failed _ \<Rightarrow> raise (AuditRejected 502 ''audit_failed'')
        | Panicked \<Rightarrow> raise AuditPanic
        | Done report \<Rightarrow>
            let report = gated req report
            in dbind (persist_audit to_value run_id project_id now report) (\<lambda>_. ret report))
        (crawl_and_audit env \<lparr>ao_max_pages = clamp 1 200 (unwrap_or 25 (aq_max_pages req))\<rparr> (aq_target req) []))"

definition list_runs_handler :: "uuid \<Rightarrow> int option \<Rightarrow> (audit_run_row list, audit_reply, audit_run_row list) rm" where
  "list_runs_handler project_id limit =
     map_err (\<lambda>_. AuditRejected 500 ''internal_error'')
       (list_runs_for_project project_id (clamp 1 200 (unwrap_or 50 limit)))"

lemma round_score_bound: "uint (round_score points n) \<le> 100"
proof -
  define w where "w = min (if n = 0 then 0 else (points + n div 2) div n) (100 :: u32)"
  have "w \<le> 100" by (simp add: w_def)
  then have "uint w \<le> 100" by (simp add: word_le_def)
  then have "uint (ucast w :: u8) \<le> 100" by (simp add: unsigned_ucast_eq take_bit_int_eq_self)
  then show ?thesis by (simp add: round_score_def w_def)
qed

lemma audit_pages_score: "audit_pages ops target pages meta = Some report \<Longrightarrow> uint (ar_overall_score report) \<le> 100"
  by (auto simp: audit_pages_def round_score_bound)

lemma crawl_and_audit_score:
  assumes "crawl_and_audit env opts target rq = Some (Done report, rq')"
  shows "uint (ar_overall_score report) \<le> 100"
proof -
  from assms obtain result where
    eq: "(case result of Failed e \<Rightarrow> Failed e | Panicked \<Rightarrow> Panicked
       | Done (pages, meta) \<Rightarrow>
           (case audit_pages (ae_urls env) target pages meta of None \<Rightarrow> Panicked | Some report \<Rightarrow> Done report))
      = Done report" by (auto simp: crawl_and_audit_def)
  show ?thesis
  proof (cases result)
    case (Done p)
    with eq show ?thesis by (cases p) (auto dest: audit_pages_score split: option.split_asm)
  qed (use eq in simp_all)
qed

lemma gated_fields [simp]:
  "ar_overall_score (gated req report) = ar_overall_score report" "ar_pages (gated req report) = ar_pages report"
  by (simp_all add: gated_def with_gate_def)

lemma persist_audit_answers: "fst (persist_audit to_value run_id project_id now report s) = Inr ()"
  by (cases "to_value report") (simp_all add: persist_audit_def)

lemma persist_audit_none: "to_value report = None \<Longrightarrow> persist_audit to_value run_id project_id now report = ret ()"
  by (simp add: persist_audit_def)

lemma persist_audit_steps:
  "to_value report = Some j \<Longrightarrow>
    steps (\<lambda>d d'. d' = d \<or> d' = d @ [audit_row run_id project_id now report j])
      (persist_audit to_value run_id project_id now report)"
  by (auto simp: persist_audit_def insert_run_def intro!: steps_ignore steps_cstmt reflpI split: if_splits)

lemma persist_audit_stores:
  assumes "to_value report = Some j" and "uint (ar_overall_score report) \<le> 100" and "run_id \<notin> au_id ` set d"
  shows "snd (persist_audit to_value run_id project_id now report ([], d))
    = ([], d @ [audit_row run_id project_id now report j])"
  using assms by (simp add: persist_audit_def insert_run_def audit_row_ok_def audit_row_def)

lemma then_ret: "fst (m s) = Inr u \<Longrightarrow> dbind m (\<lambda>_. ret r) s = (Inr r, snd (m s))"
  by (cases "m s") (simp add: dbind_def)

lemma steps_then_ret: "steps R m \<Longrightarrow> (\<And>s. fst (m s) = Inr u) \<Longrightarrow> steps R (dbind m (\<lambda>_. ret r))"
  by (rule stepsI) (metis prod.collapse prod.inject stepsD then_ret)

text \<open>What an answered request may have done to the table of runs.\<close>

definition audit_recorded ::
  "(audit_report \<Rightarrow> json option) \<Rightarrow> uuid \<Rightarrow> uuid \<Rightarrow> int \<Rightarrow> audit_reply + audit_report
   \<Rightarrow> (audit_run_row list, audit_reply, audit_report) rm \<Rightarrow> bool" where
  "audit_recorded to_value run_id project_id now answer m =
     (case answer of
        Inl _ \<Rightarrow> steps (=) m
      | Inr report \<Rightarrow>
          (case to_value report of
             None \<Rightarrow> steps (=) m
           | Some j \<Rightarrow>
               steps (\<lambda>d d'. d' = d \<or> d' = d @ [audit_row run_id project_id now report j]) m
               \<and> (\<forall>d. run_id \<in> au_id ` set d \<or>
                     snd (m ([], d)) = ([], d @ [audit_row run_id project_id now report j]))))"

lemma answered_recorded:
  assumes "uint (ar_overall_score report) \<le> 100"
  shows "audit_recorded to_value run_id project_id now (Inr report)
    (dbind (persist_audit to_value run_id project_id now report) (\<lambda>_. ret report))"
proof (cases "to_value report")
  case None
  then show ?thesis
    by (simp add: audit_recorded_def persist_audit_none steps_dbind steps_ret)
next
  case (Some j)
  have "steps (\<lambda>d d'. d' = d \<or> d' = d @ [audit_row run_id project_id now report j])
      (dbind (persist_audit to_value run_id project_id now report) (\<lambda>_. ret report))"
    by (rule steps_then_ret [OF persist_audit_steps [where to_value = to_value, OF Some] persist_audit_answers])
  then show ?thesis
    using persist_audit_stores [where to_value = to_value and run_id = run_id and project_id = project_id
        and now = now, OF Some assms]
    by (simp add: audit_recorded_def Some then_ret [OF persist_audit_answers]) blast
qed

lemma crawl_and_audit_ends: "\<exists>result rq'. crawl_and_audit env opts target rq = Some (result, rq')"
  using crawl_ends [of env opts target rq] by (auto simp: crawl_and_audit_def)


end
