(* ===== verification/Crawlers.thy ===== *)
theory Crawlers
  imports Egress Json Db "HOL-Library.Mapping" "HOL-Library.Char_ord" "HOL-Library.List_Lexorder"
    "HOL-Library.Product_Lexorder"
begin

text \<open>
  Crawler observability (\<open>crates/crawler-ingest/src\<close>): the hit and the stored event (\<open>model.rs\<close>),
  the address ranges of known bots (\<open>bot_identity.rs\<close>), the access-log and JSON adapters
  (\<open>adapters.rs\<close>) and the PostgreSQL sink (\<open>sink.rs\<close>). The date parsers of \<open>chrono\<close> and SHA-256
  are parameters.
\<close>

unbundle bit_operations_syntax

record crawl_tools =
  ct_rfc3339 :: "string \<Rightarrow> int option"
  ct_log_ts :: "string \<Rightarrow> int option"
  ct_micros :: "int \<Rightarrow> int option"
  ct_sha256 :: "u8 list \<Rightarrow> u8 list"

section \<open>Hits and events\<close>

datatype crawler_error = CrawlerInvalid | CrawlerStorage | CrawlerIo

datatype privacy_mode = PrivacyRaw | PrivacyTruncated | PrivacyHashed

definition privacy_from_str :: "string \<Rightarrow> crawler_error + privacy_mode" where
  "privacy_from_str s =
     (let v = to_ascii_lowercase (str_trim s)
      in if v = ''raw'' then Inr PrivacyRaw
         else if v = ''truncated'' then Inr PrivacyTruncated
         else if v = ''hashed'' then Inr PrivacyHashed
         else Inl CrawlerInvalid)"

primrec privacy_column :: "privacy_mode \<Rightarrow> string" where
  "privacy_column PrivacyRaw = ''raw''"
| "privacy_column PrivacyTruncated = ''truncated''"
| "privacy_column PrivacyHashed = ''hashed''"

datatype stored_client_ip = IpRaw string | IpTruncated string | IpHashed string | IpMissing

definition raw_column :: "stored_client_ip \<Rightarrow> string option" where
  "raw_column ip = (case ip of IpRaw v \<Rightarrow> Some v | _ \<Rightarrow> None)"

definition truncated_column :: "stored_client_ip \<Rightarrow> string option" where
  "truncated_column ip = (case ip of IpTruncated v \<Rightarrow> Some v | _ \<Rightarrow> None)"

definition hash_column :: "stored_client_ip \<Rightarrow> string option" where
  "hash_column ip = (case ip of IpHashed v \<Rightarrow> Some v | _ \<Rightarrow> None)"

text \<open>\<open>Display\<close> of addresses: the longest run of two or more zero groups becomes \<open>::\<close>.\<close>

definition show_ipv4 :: "u8 \<Rightarrow> u8 \<Rightarrow> u8 \<Rightarrow> u8 \<Rightarrow> string" where
  "show_ipv4 a b c d = str_join ''.'' (map (\<lambda>o8. show_nat (unat o8)) [a, b, c, d])"

fun show_hex :: "nat \<Rightarrow> string" where
  "show_hex n = (if n < 16 then [digit_char n] else show_hex (n div 16) @ [digit_char (n mod 16)])"

declare show_hex.simps [simp del]

definition zero_run :: "u16 list \<Rightarrow> nat \<Rightarrow> nat" where
  "zero_run segments i = length (takeWhile (\<lambda>g. g = 0) (drop i segments))"

definition longest_zeroes :: "u16 list \<Rightarrow> nat \<times> nat" where
  "longest_zeroes segments =
     foldl (\<lambda>(start, len) i. if len < zero_run segments i then (i, zero_run segments i) else (start, len)) (0, 0)
       [0 ..< length segments]"

definition show_groups :: "u16 list \<Rightarrow> string" where
  "show_groups gs = str_join '':'' (map (\<lambda>g. show_hex (unat g)) gs)"

definition show_ipv6 :: "u16 list \<Rightarrow> string" where
  "show_ipv6 segments =
     (if take 6 segments = [0, 0, 0, 0, 0, 0xffff]
      then ''::ffff:''
        @ (let hi = segments ! 6; lo = segments ! 7
           in show_ipv4 (ucast (hi div 256)) (ucast hi) (ucast (lo div 256)) (ucast lo))
      else case longest_zeroes segments of (start, len) \<Rightarrow>
        if 1 < len
        then show_groups (take start segments) @ ''::'' @ show_groups (drop (start + len) segments)
        else show_groups segments)"

definition truncate_ip :: "string \<Rightarrow> string" where
  "truncate_ip ip =
     (case parse_ip_addr ip of
        Some (V4 a b c _) \<Rightarrow> show_ipv4 a b c 0
      | Some (V6 segments) \<Rightarrow> show_ipv6 (take 4 segments @ [0, 0, 0, 0])
      | None \<Rightarrow> ''invalid'')"

definition apply_privacy :: "crawl_tools \<Rightarrow> string option \<Rightarrow> privacy_mode \<Rightarrow> string \<Rightarrow> stored_client_ip" where
  "apply_privacy ct ip mode salt =
     (case map_option str_trim ip of
        None \<Rightarrow> IpMissing
      | Some ip \<Rightarrow>
          if ip = [] then IpMissing
          else (case mode of
                  PrivacyRaw \<Rightarrow> IpRaw ip
                | PrivacyTruncated \<Rightarrow> IpTruncated (truncate_ip ip)
                | PrivacyHashed \<Rightarrow> IpHashed (hex_lower (ct_sha256 ct (str_bytes (salt @ '':'' @ ip))))))"

record raw_hit =
  rh_raw_event_id :: string
  rh_ts :: int
  rh_user_agent :: string
  rh_path :: string
  rh_status :: u16
  rh_source_adapter :: string
  rh_client_ip :: "string option"
  rh_region :: "string option"

record crawler_event =
  ev_project_id :: uuid
  ev_ts :: int
  ev_bot_id :: string
  ev_path :: string
  ev_status :: u16
  ev_source_adapter :: string
  ev_raw_event_id :: string
  ev_ip_verified :: bool
  ev_region :: "string option"
  ev_client_ip :: stored_client_ip
  ev_privacy_mode :: privacy_mode

definition KNOWN_BOTS :: "(string \<times> string) list" where
  "KNOWN_BOTS =
     [(''oai-searchbot'', ''openai-oai-searchbot''), (''chatgpt-user'', ''openai-chatgpt-user''),
      (''gptbot'', ''openai-gptbot''), (''claudebot'', ''anthropic-claudebot''),
      (''perplexitybot'', ''perplexitybot''), (''google-extended'', ''google-extended''),
      (''googlebot'', ''googlebot''), (''ccbot'', ''common-crawl-ccbot''),
      (''bytespider'', ''bytedance-bytespider''), (''amazonbot'', ''amazonbot'')]"

definition identify_bot :: "string \<Rightarrow> string option" where
  "identify_bot user_agent =
     (let ua = to_ascii_lowercase user_agent
      in map_option snd (find (\<lambda>(needle, _). str_contains ua needle) KNOWN_BOTS))"

definition normalize_path :: "string \<Rightarrow> string" where
  "normalize_path path =
     (let trimmed = str_trim path
      in if trimmed = [] then ''/''
         else case or_else (strip_prefix ''https://'' trimmed) (strip_prefix ''http://'' trimmed) of
                Some without_scheme \<Rightarrow>
                  (case str_find ''/'' without_scheme of
                     Some idx \<Rightarrow> drop idx without_scheme
                   | None \<Rightarrow> trimmed)
              | None \<Rightarrow> trimmed)"

definition normalize_hit ::
  "crawl_tools \<Rightarrow> raw_hit \<Rightarrow> uuid \<Rightarrow> privacy_mode \<Rightarrow> string \<Rightarrow> bool \<Rightarrow> crawler_event option" where
  "normalize_hit ct h project_id mode salt ip_verified =
     map_option (\<lambda>bot_id.
         \<lparr>ev_project_id = project_id, ev_ts = rh_ts h, ev_bot_id = bot_id, ev_path = normalize_path (rh_path h),
          ev_status = rh_status h, ev_source_adapter = rh_source_adapter h, ev_raw_event_id = rh_raw_event_id h,
          ev_ip_verified = ip_verified,
          ev_region = (case rh_region h of None \<Rightarrow> None | Some r \<Rightarrow> if str_trim r = [] then None else Some r),
          ev_client_ip = apply_privacy ct (rh_client_ip h) mode salt, ev_privacy_mode = mode\<rparr>)
       (identify_bot (rh_user_agent h))"

section \<open>Bot identity\<close>

record cidr_range =
  cr_network :: ip_addr
  cr_prefix :: nat

definition cidr_parse :: "string \<Rightarrow> crawler_error + cidr_range" where
  "cidr_parse s =
     rbind (ok_or CrawlerInvalid (split_once (CHR ''/'') s)) (\<lambda>(addr, prefix).
     rbind (ok_or CrawlerInvalid (parse_ip_addr addr)) (\<lambda>network.
     rbind (ok_or CrawlerInvalid (parse_uint 8 10 prefix)) (\<lambda>prefix.
       let limit = (case network of V4 _ _ _ _ \<Rightarrow> 32 | V6 _ \<Rightarrow> 128)
       in if limit < prefix then Inl CrawlerInvalid
          else Inr \<lparr>cr_network = network, cr_prefix = prefix\<rparr>)))"

definition v4_bits :: "u8 \<Rightarrow> u8 \<Rightarrow> u8 \<Rightarrow> u8 \<Rightarrow> u32" where
  "v4_bits a b c d = push_bit 24 (ucast a) OR push_bit 16 (ucast b) OR push_bit 8 (ucast c) OR ucast d"

definition v6_bits :: "u16 list \<Rightarrow> uuid" where
  "v6_bits segments = foldl (\<lambda>w g. push_bit 16 w OR ucast g) 0 segments"

text \<open>The mask of a prefix, for the 32 and the 128 bits of an address.\<close>

definition prefix_match :: "nat \<Rightarrow> 'a :: len word \<Rightarrow> 'a word \<Rightarrow> nat \<Rightarrow> bool" where
  "prefix_match width net ip prefix =
     (let mask = (if prefix = 0 then 0 else push_bit (width - prefix) (- 1)) in net AND mask = ip AND mask)"

definition cidr_contains :: "cidr_range \<Rightarrow> ip_addr \<Rightarrow> bool" where
  "cidr_contains r ip =
     (case (cr_network r, ip) of
        (V4 a b c d, V4 e f g h) \<Rightarrow> prefix_match 32 (v4_bits a b c d) (v4_bits e f g h) (cr_prefix r)
      | (V6 net, V6 ip) \<Rightarrow> prefix_match 128 (v6_bits net) (v6_bits ip) (cr_prefix r)
      | _ \<Rightarrow> False)"

type_synonym bot_ranges = "(string \<times> cidr_range) list"

definition default_ranges :: bot_ranges where
  "default_ranges =
     List.map_filter
       (\<lambda>(bot, cidr). case cidr_parse cidr of Inr r \<Rightarrow> Some (bot, r) | Inl _ \<Rightarrow> None)
       [(''openai-gptbot'', ''20.42.0.0/16''), (''openai-chatgpt-user'', ''20.42.0.0/16''),
        (''openai-oai-searchbot'', ''20.42.0.0/16''), (''anthropic-claudebot'', ''160.79.104.0/23''),
        (''perplexitybot'', ''34.117.0.0/16''), (''google-extended'', ''66.249.64.0/19''),
        (''googlebot'', ''66.249.64.0/19''), (''common-crawl-ccbot'', ''18.97.0.0/16'')]"

fun refresh_ranges :: "(string \<times> string) list \<Rightarrow> crawler_error + bot_ranges" where
  "refresh_ranges [] = Inr []"
| "refresh_ranges ((bot_id, cidr) # rows) =
     rbind (cidr_parse cidr) (\<lambda>r. rbind (refresh_ranges rows) (\<lambda>rs. Inr ((bot_id, r) # rs)))"

definition verify_bot_ip :: "bot_ranges \<Rightarrow> string \<Rightarrow> string \<Rightarrow> bool" where
  "verify_bot_ip ranges bot_id ip =
     (case parse_ip_addr ip of
        None \<Rightarrow> False
      | Some ip \<Rightarrow> list_ex (\<lambda>(bot, range). bot = bot_id \<and> cidr_contains range ip) ranges)"

definition verify_user_agent_ip :: "bot_ranges \<Rightarrow> string \<Rightarrow> string \<Rightarrow> bool" where
  "verify_user_agent_ip ranges user_agent ip =
     (case identify_bot user_agent of None \<Rightarrow> False | Some bot_id \<Rightarrow> verify_bot_ip ranges bot_id ip)"

section \<open>Access logs\<close>

datatype access_log_format = LogCommon | LogCombined | LogCustom

definition split_once_str :: "string \<Rightarrow> string \<Rightarrow> (string \<times> string) option" where
  "split_once_str pat s = map_option (\<lambda>i. (take i s, drop (i + length pat) s)) (str_find pat s)"

definition parse_between :: "string \<Rightarrow> char \<Rightarrow> char \<Rightarrow> string option" where
  "parse_between s left right =
     Option.bind (split_once left s) (\<lambda>(_, rest). map_option fst (split_once right rest))"

function quoted_parts :: "string \<Rightarrow> string list" where
  "quoted_parts s =
     (case split_once (CHR 0x22) s of
        None \<Rightarrow> []
      | Some (_, after) \<Rightarrow>
          (case split_once (CHR 0x22) after of None \<Rightarrow> [] | Some (part, rest) \<Rightarrow> part # quoted_parts rest))"
  by pat_completeness auto
termination
  by (relation "measure length") (auto dest!: split_once_SomeD)

declare quoted_parts.simps [simp del]

definition parse_nth_quoted :: "string \<Rightarrow> nat \<Rightarrow> string option" where
  "parse_nth_quoted s n = (let out = quoted_parts s in if n < length out then Some (out ! n) else None)"

definition parse_common_or_combined ::
  "crawl_tools \<Rightarrow> int \<Rightarrow> nat \<Rightarrow> string \<Rightarrow> string \<Rightarrow> raw_hit option" where
  "parse_common_or_combined ct now line_no line source_adapter =
     (case split_whitespace line of
        [] \<Rightarrow> None
      | ip # _ \<Rightarrow>
          let ts = unwrap_or now (Option.bind (parse_between line (CHR ''['') (CHR '']'')) (ct_log_ts ct))
          in Option.bind (parse_nth_quoted line 0) (\<lambda>request.
             let user_agent = unwrap_or [] (parse_nth_quoted line 2);
                 path = (case split_whitespace request of _ # p # _ \<Rightarrow> p | _ \<Rightarrow> ''/'')
             in map_option (\<lambda>(_, after_request).
                  \<lparr>rh_raw_event_id = source_adapter @ '':'' @ show_nat line_no, rh_ts = ts,
                   rh_user_agent = user_agent, rh_path = path,
                   rh_status = (case split_whitespace after_request of
                       [] \<Rightarrow> 0
                     | s # _ \<Rightarrow> of_nat (unwrap_or 0 (parse_uint 16 10 s))),
                   rh_source_adapter = source_adapter, rh_client_ip = Some ip, rh_region = None\<rparr>)
                (split_once_str ([CHR 0x22] @ request @ [CHR 0x22]) line)))"

definition parse_custom ::
  "crawl_tools \<Rightarrow> int \<Rightarrow> nat \<Rightarrow> string \<Rightarrow> string \<Rightarrow> string \<Rightarrow> raw_hit option" where
  "parse_custom ct now line_no line pattern source_adapter =
     (let labels = map (\<lambda>part. trim_matches (CHR ''}'') (trim_matches (CHR ''{'') part)) (split_whitespace pattern);
          fields = split_whitespace line
      in if length labels \<noteq> length fields then None
         else let m = map_of (rev (zip labels fields))
              in Option.bind (or_else (m ''ua'') (m ''user_agent'')) (\<lambda>user_agent.
                 Option.bind (m ''path'') (\<lambda>path.
                   Some \<lparr>rh_raw_event_id = unwrap_or (source_adapter @ '':'' @ show_nat line_no) (m ''id''),
                         rh_ts = unwrap_or now (Option.bind (m ''ts'') (ct_rfc3339 ct)),
                         rh_user_agent = user_agent, rh_path = path,
                         rh_status = of_nat (unwrap_or 0 (Option.bind (m ''status'') (parse_uint 16 10))),
                         rh_source_adapter = source_adapter, rh_client_ip = m ''ip'',
                         rh_region = m ''region''\<rparr>)))"

definition parse_line ::
  "crawl_tools \<Rightarrow> int \<Rightarrow> nat \<Rightarrow> string \<Rightarrow> access_log_format \<Rightarrow> string option \<Rightarrow> string \<Rightarrow> raw_hit option" where
  "parse_line ct now line_no line format custom_pattern source_adapter =
     (case format of
        LogCommon \<Rightarrow> parse_common_or_combined ct now line_no line source_adapter
      | LogCombined \<Rightarrow> parse_common_or_combined ct now line_no line source_adapter
      | LogCustom \<Rightarrow>
          Option.bind custom_pattern (\<lambda>pattern. parse_custom ct now line_no line pattern source_adapter))"

section \<open>JSON payloads\<close>

text \<open>\<open>as_u64\<close> and \<open>as_i64\<close> of a number token: integers without sign, fraction or exponent, or negative.\<close>

definition json_as_u64 :: "json \<Rightarrow> nat option" where
  "json_as_u64 j = (case j of JNum t \<Rightarrow> if list_all is_ascii_digit t then parse_uint 64 10 t else None | _ \<Rightarrow> None)"

definition json_as_i64 :: "json \<Rightarrow> int option" where
  "json_as_i64 j =
     (case j of
        JNum t \<Rightarrow> if t \<noteq> ''-0'' \<and> list_all is_ascii_digit (unwrap_or t (strip_prefix ''-'' t)) then parse_i64 t else None
      | _ \<Rightarrow> None)"

definition read_string :: "json \<Rightarrow> string list \<Rightarrow> string option" where
  "read_string v ks = Option.bind (find_map (\<lambda>k. json_get k v) ks) json_as_str"

definition read_u16 :: "json \<Rightarrow> string list \<Rightarrow> u16 option" where
  "read_u16 v ks =
     Option.bind (Option.bind (find_map (\<lambda>k. json_get k v) ks) json_as_u64)
       (\<lambda>n. if n < 2 ^ 16 then Some (of_nat n) else None)"

definition read_ts :: "crawl_tools \<Rightarrow> json \<Rightarrow> string list \<Rightarrow> int option" where
  "read_ts ct v ks =
     (case read_string v ks of
        Some s \<Rightarrow> ct_rfc3339 ct s
      | None \<Rightarrow> Option.bind (Option.bind (find_map (\<lambda>k. json_get k v) ks) json_as_i64) (ct_micros ct))"

definition parse_cdn_json :: "crawl_tools \<Rightarrow> nat \<Rightarrow> json \<Rightarrow> string \<Rightarrow> raw_hit option" where
  "parse_cdn_json ct idx v source =
     Option.bind (read_ts ct v [''ts'', ''timestamp'', ''datetime'', ''time'']) (\<lambda>ts.
     Option.bind (read_string v [''user_agent'', ''UserAgent'', ''client_user_agent'']) (\<lambda>user_agent.
     Option.bind (read_string v [''path'', ''Path'', ''uri'', ''url'']) (\<lambda>path.
       Some \<lparr>rh_raw_event_id =
               unwrap_or (source @ '':'' @ show_nat idx) (read_string v [''id'', ''ray_id'', ''request_id'']),
             rh_ts = ts, rh_user_agent = user_agent, rh_path = path,
             rh_status = unwrap_or 0 (read_u16 v [''status'', ''Status'', ''status_code'']),
             rh_source_adapter = source,
             rh_client_ip = read_string v [''ip'', ''client_ip'', ''ClientIP'', ''c-ip''],
             rh_region = read_string v [''region'', ''country'', ''colo'']\<rparr>)))"

definition parse_ga4_json :: "crawl_tools \<Rightarrow> nat \<Rightarrow> json \<Rightarrow> string \<Rightarrow> raw_hit option" where
  "parse_ga4_json ct idx v source =
     Option.bind (read_ts ct v [''ts'', ''timestamp'', ''event_timestamp'']) (\<lambda>ts.
     Option.bind (read_string v [''user_agent'', ''ua'']) (\<lambda>user_agent.
     Option.bind (read_string v [''page_path'', ''path'', ''page_location'']) (\<lambda>path.
       Some \<lparr>rh_raw_event_id = unwrap_or (source @ '':'' @ show_nat idx) (read_string v [''event_id'', ''id'']),
             rh_ts = ts, rh_user_agent = user_agent, rh_path = path,
             rh_status = unwrap_or 200 (read_u16 v [''status'']),
             rh_source_adapter = source, rh_client_ip = read_string v [''ip'', ''client_ip''],
             rh_region = read_string v [''region'', ''country'']\<rparr>)))"

definition read_payloads ::
  "(nat \<Rightarrow> json \<Rightarrow> string \<Rightarrow> raw_hit option) \<Rightarrow> string \<Rightarrow> json list \<Rightarrow> ('w, crawler_error, raw_hit list) rm" where
  "read_payloads parser source payloads =
     ret (List.map_filter (\<lambda>(idx, v). parser idx v source) (List.enumerate 0 payloads))"

section \<open>The sink\<close>

record crawler_row =
  ce_project_id :: uuid
  ce_ts :: int
  ce_bot_id :: string
  ce_path :: string
  ce_status :: int
  ce_source_adapter :: string
  ce_raw_event_id :: string
  ce_ip_verified :: bool
  ce_region :: "string option"
  ce_client_ip :: "string option"
  ce_client_ip_truncated :: "string option"
  ce_client_ip_hash :: "string option"
  ce_privacy_mode :: string

definition event_key :: "crawler_row \<Rightarrow> string \<times> string" where
  "event_key r = (ce_source_adapter r, ce_raw_event_id r)"

text \<open>The checks of the table.\<close>

definition privacy_ip_shape :: "crawler_row \<Rightarrow> bool" where
  "privacy_ip_shape r =
     (let missing = (ce_client_ip r = None, ce_client_ip_hash r = None, ce_client_ip_truncated r = None)
      in (ce_privacy_mode r = ''raw'' \<and> missing = (False, True, True))
         \<or> (ce_privacy_mode r = ''hashed'' \<and> missing = (True, False, True))
         \<or> (ce_privacy_mode r = ''truncated'' \<and> missing = (True, True, False))
         \<or> missing = (True, True, True))"

definition crawler_row_ok :: "crawler_row \<Rightarrow> bool" where
  "crawler_row_ok r =
     (100 \<le> ce_status r \<and> ce_status r \<le> 599
      \<and> ce_privacy_mode r \<in> set [''raw'', ''truncated'', ''hashed''] \<and> privacy_ip_shape r)"

definition row_of_event :: "crawler_event \<Rightarrow> crawler_row" where
  "row_of_event e =
     \<lparr>ce_project_id = ev_project_id e, ce_ts = ev_ts e, ce_bot_id = ev_bot_id e, ce_path = ev_path e,
      ce_status = uint (ev_status e), ce_source_adapter = ev_source_adapter e, ce_raw_event_id = ev_raw_event_id e,
      ce_ip_verified = ev_ip_verified e, ce_region = ev_region e, ce_client_ip = raw_column (ev_client_ip e),
      ce_client_ip_truncated = truncated_column (ev_client_ip e),
      ce_client_ip_hash = hash_column (ev_client_ip e),
      ce_privacy_mode = privacy_column (ev_privacy_mode e)\<rparr>"

text \<open>\<open>ON CONFLICT (source_adapter, raw_event_id) DO NOTHING\<close>, after the checks.\<close>

definition insert_event :: "crawler_event \<Rightarrow> (crawler_row list, nat) dbm" where
  "insert_event e =
     cstmt (\<lambda>t. let r = row_of_event e
                in if \<not> crawler_row_ok r then None
                   else if event_key r \<in> event_key ` set t then Some (0, t)
                   else Some (1, t @ [r]))"

fun insert_from :: "nat \<Rightarrow> crawler_event list \<Rightarrow> (crawler_row list, nat) dbm" where
  "insert_from inserted [] = ret inserted"
| "insert_from inserted (e # es) = dbind (insert_event e) (\<lambda>n. insert_from (inserted + n) es)"

definition insert_events :: "crawler_event list \<Rightarrow> (crawler_row list, crawler_error, nat) rm" where
  "insert_events es = map_err (\<lambda>_. CrawlerStorage) (insert_from 0 es)"

section \<open>Ingestion\<close>

definition verified_hit :: "bot_ranges \<Rightarrow> raw_hit \<Rightarrow> bool" where
  "verified_hit verifier h =
     (case rh_client_ip h of None \<Rightarrow> False | Some ip \<Rightarrow> verify_user_agent_ip verifier (rh_user_agent h) ip)"

definition event_of_hit ::
  "crawl_tools \<Rightarrow> bot_ranges \<Rightarrow> uuid \<Rightarrow> privacy_mode \<Rightarrow> string \<Rightarrow> raw_hit \<Rightarrow> crawler_event option" where
  "event_of_hit ct verifier project_id mode salt h =
     normalize_hit ct h project_id mode salt (verified_hit verifier h)"

definition ingest ::
  "crawl_tools \<Rightarrow> ('w, crawler_error, raw_hit list) rm \<Rightarrow> (crawler_event list \<Rightarrow> ('w, crawler_error, nat) rm)
   \<Rightarrow> bot_ranges \<Rightarrow> uuid \<Rightarrow> privacy_mode \<Rightarrow> string \<Rightarrow> ('w, crawler_error, nat) rm" where
  "ingest ct read_hits sink verifier project_id mode salt =
     dbind read_hits (\<lambda>hits. sink (List.map_filter (event_of_hit ct verifier project_id mode salt) hits))"

text \<open>The access-log adapter: its cursor, the log file, the cursor file and the table are one state.\<close>

record access_log =
  al_format :: access_log_format
  al_custom_pattern :: "string option"
  al_next_line :: nat
  al_has_cursor_file :: bool
  al_content :: string
  al_cursor_file :: "string option"
  al_rows :: "crawler_row list"

definition io :: "('w, 'a) dbm \<Rightarrow> ('w, crawler_error, 'a) rm" where
  "io m = map_err (\<lambda>_. CrawlerIo) m"

definition load_cursor :: "(access_log, crawler_error, unit) rm" where
  "load_cursor =
     dbind (io (query al_cursor_file)) (\<lambda>saved.
       act (\<lambda>w. ((), w\<lparr>al_next_line := (case saved of None \<Rightarrow> 0 | Some s \<Rightarrow> unwrap_or 0 (parse_uint 64 10 (str_trim s))),
                        al_has_cursor_file := True\<rparr>)))"

definition strip_cr :: "string \<Rightarrow> string" where
  "strip_cr line = (if line \<noteq> [] \<and> last line = CHR 0x0D then butlast line else line)"

definition str_lines :: "string \<Rightarrow> string list" where
  "str_lines s =
     (let parts = split_on (CHR 0x0A) s
      in map strip_cr (butlast parts) @ (if last parts = [] then [] else [last parts]))"

definition scan_log :: "crawl_tools \<Rightarrow> int \<Rightarrow> access_log \<Rightarrow> raw_hit list" where
  "scan_log ct now w =
     List.map_filter
       (\<lambda>(line_no, line). if line_no < al_next_line w then None
          else parse_line ct now line_no line (al_format w) (al_custom_pattern w) ''web_log'')
       (List.enumerate 0 (str_lines (al_content w)))"

definition read_log :: "crawl_tools \<Rightarrow> int \<Rightarrow> (access_log, crawler_error, raw_hit list) rm" where
  "read_log ct now =
     dbind (io (query al_content)) (\<lambda>content.
     dbind (act (\<lambda>w. (scan_log ct now w,
                      w\<lparr>al_next_line := max (al_next_line w) (length (str_lines content))\<rparr>))) (\<lambda>hits.
     dbind (act (\<lambda>w. (w, w))) (\<lambda>w.
     dbind (if al_has_cursor_file w
            then io (exec (\<lambda>w. w\<lparr>al_cursor_file := Some (show_nat (al_next_line w))\<rparr>))
            else ret ()) (\<lambda>_.
       ret hits))))"

definition log_sink :: "crawler_event list \<Rightarrow> (access_log, crawler_error, nat) rm" where
  "log_sink es = zoom al_rows (\<lambda>t w. w\<lparr>al_rows := t\<rparr>) (insert_events es)"

end
