(* ===== verification/CrawlerApi.thy ===== *)
theory CrawlerApi
  imports Crawlers F64 "HOL-Library.Multiset"
begin

text \<open>
  The metrics over stored crawler events (\<open>crates/crawler-ingest/src/metrics.rs\<close>) and the REST
  surface (\<open>apps/api/src/routes/crawlers.rs\<close>). The calendar of \<open>chrono\<close> is a parameter.
\<close>

section \<open>Metrics\<close>

record bot_metric =
  bm_bot_id :: string
  bm_hits :: int
  bm_verified_hits :: int
  bm_error_hits :: int

record path_metric =
  pm_path :: string
  pm_hits :: int
  pm_error_hits :: int

record metrics_params =
  mp_project_id :: uuid
  mp_days :: int
  mp_include_unverified :: bool

record crawler_metrics =
  km_window_start :: int
  km_window_end :: int
  km_include_unverified :: bool
  km_bots :: "bot_metric list"
  km_top_paths :: "path_metric list"
  km_error_paths :: "path_metric list"
  km_trend :: "(string \<times> int) list"

definition into_values :: "('k :: linorder, 'v) mapping \<Rightarrow> 'v list" where
  "into_values m = map (\<lambda>k. the (Mapping.lookup m k)) (Mapping.ordered_keys m)"

definition is_error_row :: "crawler_row \<Rightarrow> bool" where
  "is_error_row r = (400 \<le> ce_status r)"

definition count_bot :: "crawler_row \<Rightarrow> (string, bot_metric) mapping \<Rightarrow> (string, bot_metric) mapping" where
  "count_bot r m =
     Mapping.map_default (ce_bot_id r)
       \<lparr>bm_bot_id = ce_bot_id r, bm_hits = 0, bm_verified_hits = 0, bm_error_hits = 0\<rparr>
       (\<lambda>b. b\<lparr>bm_hits := bm_hits b + 1,
              bm_verified_hits := (if ce_ip_verified r then bm_verified_hits b + 1 else bm_verified_hits b),
              bm_error_hits := (if is_error_row r then bm_error_hits b + 1 else bm_error_hits b)\<rparr>) m"

definition count_path :: "crawler_row \<Rightarrow> (string, path_metric) mapping \<Rightarrow> (string, path_metric) mapping" where
  "count_path r m =
     Mapping.map_default (ce_path r) \<lparr>pm_path = ce_path r, pm_hits = 0, pm_error_hits = 0\<rparr>
       (\<lambda>p. p\<lparr>pm_hits := pm_hits p + 1,
              pm_error_hits := (if is_error_row r then pm_error_hits p + 1 else pm_error_hits p)\<rparr>) m"

definition count_day :: "(int \<Rightarrow> string) \<Rightarrow> crawler_row \<Rightarrow> (string, int) mapping \<Rightarrow> (string, int) mapping" where
  "count_day day r m = Mapping.map_default (day (ce_ts r)) 0 (\<lambda>n. n + 1) m"

definition metrics_of :: "(int \<Rightarrow> string) \<Rightarrow> int \<Rightarrow> int \<Rightarrow> bool \<Rightarrow> crawler_row list \<Rightarrow> crawler_metrics" where
  "metrics_of day window_start window_end include_unverified rows =
     (let by_bot = fold count_bot rows Mapping.empty;
          by_path = fold count_path rows Mapping.empty;
          by_day = fold (count_day day) rows Mapping.empty
      in \<lparr>km_window_start = window_start, km_window_end = window_end,
          km_include_unverified = include_unverified,
          km_bots = sort_key (\<lambda>b. (- bm_hits b, bm_bot_id b)) (into_values by_bot),
          km_top_paths = take 20 (sort_key (\<lambda>p. (- pm_hits p, pm_path p)) (into_values by_path)),
          km_error_paths =
            take 20 (sort_key (\<lambda>p. (- pm_error_hits p, - pm_hits p, pm_path p))
              (filter (\<lambda>p. 0 < pm_error_hits p) (into_values by_path))),
          km_trend = map (\<lambda>d. (d, the (Mapping.lookup by_day d))) (Mapping.ordered_keys by_day)\<rparr>)"

definition day_len :: int where
  "day_len = 86400000000"

definition in_window :: "metrics_params \<Rightarrow> int \<Rightarrow> crawler_row \<Rightarrow> bool" where
  "in_window ps window_start r =
     (ce_project_id r = mp_project_id ps \<and> window_start \<le> ce_ts r
      \<and> (mp_include_unverified ps \<or> ce_ip_verified r))"

definition fetch_metrics ::
  "(int \<Rightarrow> string) \<Rightarrow> int \<Rightarrow> metrics_params \<Rightarrow> (crawler_row list, crawler_error, crawler_metrics) rm" where
  "fetch_metrics day now ps =
     (let window_start = now - clamp 1 365 (mp_days ps) * day_len
      in dbind (map_err (\<lambda>_. CrawlerStorage) (query (\<lambda>t. sort_key ce_ts (filter (in_window ps window_start) t))))
           (\<lambda>rows. ret (metrics_of day window_start now (mp_include_unverified ps) rows)))"

datatype crawl_refer_state = RatioComplete | CrawlsOnly

record crawl_refer_ratio =
  rr_bot_id :: string
  rr_verified_crawl_hits :: int
  rr_attributed_referrals :: int
  rr_ratio :: "f64 option"
  rr_state :: crawl_refer_state

record crawl_refer_report =
  rt_window_start :: int
  rt_window_end :: int
  rt_state :: crawl_refer_state
  rt_bots :: "crawl_refer_ratio list"

definition fetch_crawl_refer_ratio ::
  "(int \<Rightarrow> string) \<Rightarrow> int \<Rightarrow> metrics_params \<Rightarrow> (crawler_row list, crawler_error, crawl_refer_report) rm" where
  "fetch_crawl_refer_ratio day now ps =
     dbind (fetch_metrics day now (ps\<lparr>mp_include_unverified := False\<rparr>)) (\<lambda>metrics.
       ret \<lparr>rt_window_start = km_window_start metrics, rt_window_end = km_window_end metrics, rt_state = CrawlsOnly,
            rt_bots = map (\<lambda>b. \<lparr>rr_bot_id = bm_bot_id b, rr_verified_crawl_hits = bm_verified_hits b,
                                rr_attributed_referrals = 0, rr_ratio = None, rr_state = CrawlsOnly\<rparr>)
              (filter (\<lambda>b. 0 < bm_verified_hits b) (km_bots metrics))\<rparr>)"

section \<open>The handlers\<close>

type_synonym crawler_api_error = "nat \<times> string"

definition validate_days :: "int option \<Rightarrow> crawler_api_error + int" where
  "validate_days value =
     (let v = unwrap_or 30 value in if \<not> (1 \<le> v \<and> v \<le> 365) then Inl (400, ''invalid_window'') else Inr v)"

record metrics_query =
  mq_days :: "int option"
  mq_include_unverified :: "bool option"

definition metrics_handler ::
  "(int \<Rightarrow> string) \<Rightarrow> int \<Rightarrow> uuid \<Rightarrow> metrics_query \<Rightarrow> (crawler_row list, crawler_api_error, crawler_metrics) rm" where
  "metrics_handler day now project_id q =
     dbind (from_result (validate_days (mq_days q))) (\<lambda>days.
       map_err (\<lambda>_. (500, ''internal_error''))
         (fetch_metrics day now \<lparr>mp_project_id = project_id, mp_days = days,
            mp_include_unverified = unwrap_or False (mq_include_unverified q)\<rparr>))"

definition ratio_handler ::
  "(int \<Rightarrow> string) \<Rightarrow> int \<Rightarrow> uuid \<Rightarrow> metrics_query \<Rightarrow> (crawler_row list, crawler_api_error, crawl_refer_report) rm" where
  "ratio_handler day now project_id q =
     dbind (from_result (validate_days (mq_days q))) (\<lambda>days.
       map_err (\<lambda>_. (500, ''internal_error''))
         (fetch_crawl_refer_ratio day now \<lparr>mp_project_id = project_id, mp_days = days,
            mp_include_unverified = False\<rparr>))"

record grafana_series =
  gr_target :: string
  gr_datapoints :: "(int \<times> int) list"

definition grafana_query_handler ::
  "(int \<Rightarrow> string) \<Rightarrow> (string \<Rightarrow> int option) \<Rightarrow> int \<Rightarrow> uuid \<Rightarrow> metrics_query \<Rightarrow> string option
   \<Rightarrow> (crawler_row list, crawler_api_error, grafana_series list) rm" where
  "grafana_query_handler day day_millis now project_id q target =
     dbind (metrics_handler day now project_id q) (\<lambda>metrics.
       ret [\<lparr>gr_target = unwrap_or ''verified crawler hits'' target,
             gr_datapoints = List.map_filter (\<lambda>(d, hits). map_option (\<lambda>ms. (hits, ms)) (day_millis d))
               (km_trend metrics)\<rparr>])"

record ingest_request =
  ir_lines :: "string list"
  ir_format :: "string option"
  ir_privacy_mode :: "string option"

record ingest_result =
  is_parsed :: nat
  is_ingested :: nat
  is_skipped :: nat

definition parse_format :: "string option \<Rightarrow> access_log_format" where
  "parse_format raw = (if map_option to_ascii_lowercase raw = Some ''common'' then LogCommon else LogCombined)"

definition parse_privacy_mode :: "string option \<Rightarrow> privacy_mode" where
  "parse_privacy_mode raw =
     (case map_option to_ascii_lowercase raw of
        Some v \<Rightarrow> if v = ''raw'' then PrivacyRaw else if v = ''truncated'' then PrivacyTruncated else PrivacyHashed
      | None \<Rightarrow> PrivacyHashed)"

definition line_event ::
  "crawl_tools \<Rightarrow> int \<Rightarrow> uuid \<Rightarrow> access_log_format \<Rightarrow> privacy_mode \<Rightarrow> string \<Rightarrow> nat \<Rightarrow> string
   \<Rightarrow> crawler_event option" where
  "line_event ct now project_id format mode salt i line =
     (if str_trim line = [] then None
      else Option.bind (parse_line ct now i line format None ''api_ingest'')
             (event_of_hit ct default_ranges project_id mode salt))"

fun collect_lines :: "(nat \<Rightarrow> string \<Rightarrow> crawler_event option) \<Rightarrow> nat \<Rightarrow> string list \<Rightarrow> crawler_event list \<times> nat" where
  "collect_lines ev i [] = ([], 0)"
| "collect_lines ev i (line # ls) =
     (case collect_lines ev (Suc i) ls of (events, skipped) \<Rightarrow>
        (case ev i line of None \<Rightarrow> (events, Suc skipped) | Some e \<Rightarrow> (e # events, skipped)))"

definition ingest_handler ::
  "crawl_tools \<Rightarrow> string option \<Rightarrow> int \<Rightarrow> uuid \<Rightarrow> ingest_request
   \<Rightarrow> (crawler_row list, crawler_api_error, ingest_result) rm" where
  "ingest_handler ct env_salt now project_id req =
     (if ir_lines req = [] then raise (400, ''empty_ingest'')
      else
        let format = parse_format (ir_format req);
            mode = parse_privacy_mode (ir_privacy_mode req);
            salt = unwrap_or ''opengeo-crawler'' env_salt
        in (case collect_lines (line_event ct now project_id format mode salt) 0 (ir_lines req) of
              (events, skipped) \<Rightarrow>
                dbind (map_err (\<lambda>_. (500, ''internal_error'')) (insert_events events)) (\<lambda>ingested.
                  ret \<lparr>is_parsed = length events, is_ingested = ingested, is_skipped = skipped\<rparr>)))"

section \<open>The table of events\<close>

definition crawler_table_ok :: "crawler_row list \<Rightarrow> bool" where
  "crawler_table_ok t = (distinct (map event_key t) \<and> list_all crawler_row_ok t)"

text \<open>What an insertion may do to the table: it adds rows of the given events, and keeps the checks.\<close>

definition table_grows :: "crawler_event list \<Rightarrow> crawler_row list \<Rightarrow> crawler_row list \<Rightarrow> bool" where
  "table_grows es t t' =
     (\<exists>rs. t' = t @ rs \<and> set rs \<subseteq> row_of_event ` set es \<and> (crawler_table_ok t \<longrightarrow> crawler_table_ok t'))"

lemma table_grows_refl: "table_grows es t t"
  by (simp add: table_grows_def)

lemma table_grows_trans: "table_grows es t t' \<Longrightarrow> table_grows es t' t'' \<Longrightarrow> table_grows es t t''"
  by (fastforce simp: table_grows_def)

lemma insert_event_grows: "e \<in> set es \<Longrightarrow> steps (table_grows es) (insert_event e)"
  unfolding insert_event_def
  by (rule steps_cstmt)
    (auto simp: table_grows_def crawler_table_ok_def Let_def intro: reflpI split: if_splits)

lemma insert_from_grows: "set es \<subseteq> set all \<Longrightarrow> steps (table_grows all) (insert_from n es)"
proof (induction es arbitrary: n)
  case Nil
  show ?case unfolding insert_from.simps by (rule steps_ret) (auto intro: reflpI table_grows_refl)
next
  case (Cons e es)
  then show ?case
    by (auto intro!: steps_dbind insert_event_grows transpI intro: table_grows_trans)
qed

lemma insert_events_grow: "steps (table_grows es) (insert_events es)"
  unfolding insert_events_def by (intro steps_map_err insert_from_grows order_refl)


lemma insert_event_cases:
  "insert_event e (fs, t) = (Inr n, (fs', t')) \<Longrightarrow>
    (event_key (row_of_event e) \<in> event_key ` set t \<and> n = 0 \<and> t' = t)
    \<or> (event_key (row_of_event e) \<notin> event_key ` set t \<and> n = 1 \<and> t' = t @ [row_of_event e])"
  by (auto simp: insert_event_def cstmt_def stmt_def Let_def split: list.splits if_splits option.splits)

text \<open>The rows an undisturbed insertion adds: the first of each key that is not there yet.\<close>

fun fresh_rows :: "(string \<times> string) set \<Rightarrow> crawler_event list \<Rightarrow> crawler_row list" where
  "fresh_rows ks [] = []"
| "fresh_rows ks (e # es) =
     (let r = row_of_event e
      in if event_key r \<in> ks then fresh_rows ks es else r # fresh_rows (insert (event_key r) ks) es)"

lemma insert_from_done:
  "insert_from n es (fs, t) = (Inr m, (fs', t')) \<Longrightarrow>
    t' = t @ fresh_rows (event_key ` set t) es \<and> m = n + length (fresh_rows (event_key ` set t) es)"
proof (induction es arbitrary: n fs t)
  case (Cons e es)
  then obtain k fs1 t1 where e: "insert_event e (fs, t) = (Inr k, (fs1, t1))"
    and rest: "insert_from (n + k) es (fs1, t1) = (Inr m, (fs', t'))"
    by (auto simp: dbind_def split: sum.splits prod.splits)
  from insert_event_cases [OF e] Cons.IH [OF rest] show ?case by (auto simp: Let_def)
qed simp

lemma length_fresh_rows: "length (fresh_rows ks es) \<le> length es"
  by (induction es arbitrary: ks) (auto simp: Let_def le_SucI)

lemma fresh_rows_keys: "event_key ` set (fresh_rows ks es) \<union> ks = event_key ` row_of_event ` set es \<union> ks"
proof (induction es arbitrary: ks)
  case (Cons e es)
  define k where "k = event_key (row_of_event e)"
  show ?case
  proof (cases "k \<in> ks")
    case True
    have "event_key ` row_of_event ` set (e # es) \<union> ks = event_key ` row_of_event ` set es \<union> ks"
      using True by (simp add: insert_absorb flip: k_def)
    with Cons [of ks] True show ?thesis by (simp add: Let_def flip: k_def)
  next
    case False
    with Cons [of "insert k ks"] show ?thesis by (simp add: Let_def flip: k_def)
  qed
qed simp

lemma fresh_rows_Nil: "(\<forall>e \<in> set es. event_key (row_of_event e) \<in> ks) \<Longrightarrow> fresh_rows ks es = []"
  by (induction es) (auto simp: Let_def)

lemma insert_events_done:
  "insert_events es (fs, t) = (Inr m, (fs', t')) \<Longrightarrow>
    t' = t @ fresh_rows (event_key ` set t) es \<and> m = length (fresh_rows (event_key ` set t) es)"
  by (auto simp: insert_events_def map_err_def split: prod.splits sum.splits dest: insert_from_done)

section \<open>Requests\<close>

lemma collect_lines_counts:
  "collect_lines ev i ls = (events, skipped) \<Longrightarrow> length events + skipped = length ls"
  by (induction ls arbitrary: i events skipped) (auto split: prod.splits option.splits)

lemma handler_done:
  assumes "ingest_handler ct env_salt now project_id req (fs, t) = (Inr res, (fs', t'))"
  obtains events skipped where
    "collect_lines (line_event ct now project_id (parse_format (ir_format req))
       (parse_privacy_mode (ir_privacy_mode req)) (unwrap_or ''opengeo-crawler'' env_salt)) 0 (ir_lines req)
       = (events, skipped)"
    and "res = \<lparr>is_parsed = length events, is_ingested = length (fresh_rows (event_key ` set t) events),
                 is_skipped = skipped\<rparr>"
    and "t' = t @ fresh_rows (event_key ` set t) events"
  using assms
  by (auto simp: ingest_handler_def raise_def dbind_def map_err_def Let_def
      split: if_splits prod.splits sum.splits dest: insert_events_done)

text \<open>
  (functional). Whatever the lines and whatever the database does, an answered ingestion has
  parsed or skipped every line, stored at most the parsed ones, and the table has grown by what
  it reports.
\<close>

theorem ingest_accounts_for_every_line:
  "case ingest_handler ct env_salt now project_id req (fs, t) of
     (Inl _, _) \<Rightarrow> True
   | (Inr res, (_, t')) \<Rightarrow>
       is_parsed res + is_skipped res = length (ir_lines req) \<and> is_ingested res \<le> is_parsed res
       \<and> length t' = length t + is_ingested res"
proof (cases "fst (ingest_handler ct env_salt now project_id req (fs, t))")
  case (Inr res)
  then obtain fs' t' where run: "ingest_handler ct env_salt now project_id req (fs, t) = (Inr res, (fs', t'))"
    by (metis prod.collapse)
  show ?thesis
    by (rule handler_done [OF run]) (use collect_lines_counts length_fresh_rows run in fastforce)
qed (simp add: case_prod_beta)

lemma common_hit_fields:
  "parse_common_or_combined ct now i line source = Some h \<Longrightarrow>
    rh_raw_event_id h = source @ '':'' @ show_nat i \<and> rh_source_adapter h = source"
  by (cases "split_whitespace line") (auto simp: parse_common_or_combined_def Let_def bind_eq_Some_conv)

lemma custom_hit_source: "parse_custom ct now i line pattern source = Some h \<Longrightarrow> rh_source_adapter h = source"
  by (auto simp: parse_custom_def Let_def bind_eq_Some_conv split: if_splits)

lemma parse_line_source: "parse_line ct now i line format pattern source = Some h \<Longrightarrow> rh_source_adapter h = source"
  by (cases format)
    (auto simp: parse_line_def bind_eq_Some_conv dest: common_hit_fields custom_hit_source)

lemma event_fields:
  "event_of_hit ct ranges project_id mode salt h = Some e \<Longrightarrow>
    ev_raw_event_id e = rh_raw_event_id h \<and> ev_source_adapter e = rh_source_adapter h
    \<and> ev_project_id e = project_id \<and> ev_privacy_mode e = mode
    \<and> ev_client_ip e = apply_privacy ct (rh_client_ip h) mode salt"
  by (auto simp: event_of_hit_def normalize_hit_def)

lemma line_event_key:
  assumes "line_event ct now project_id (parse_format f) mode salt i line = Some e"
  shows "event_key (row_of_event e) = (''api_ingest'', ''api_ingest:'' @ show_nat i)"
proof -
  from assms obtain h where "parse_line ct now i line (parse_format f) None ''api_ingest'' = Some h"
    and e: "event_of_hit ct default_ranges project_id mode salt h = Some e"
    by (auto simp: line_event_def bind_eq_Some_conv split: if_splits)
  then have "parse_common_or_combined ct now i line ''api_ingest'' = Some h"
    by (simp add: parse_line_def parse_format_def split: if_splits)
  from common_hit_fields [OF this] event_fields [OF e] show ?thesis
    by (simp add: event_key_def row_of_event_def)
qed

lemma collect_lines_keys:
  assumes "\<And>i line e. ev i line = Some e \<Longrightarrow> event_key (row_of_event e) = key i"
  shows "collect_lines ev i ls = (events, skipped) \<Longrightarrow>
     event_key ` row_of_event ` set events \<subseteq> key ` {i ..< i + length ls}
     \<and> (skipped = 0 \<longrightarrow> event_key ` row_of_event ` set events = key ` {i ..< i + length ls})"
proof (induction ls arbitrary: i events skipped)
  case (Cons line ls)
  obtain es sk where rest: "collect_lines ev (Suc i) ls = (es, sk)" by fastforce
  note IH = Cons.IH [OF rest]
  have range: "{i ..< i + length (line # ls)} = insert i {Suc i ..< Suc i + length ls}" by auto
  show ?case
  proof (cases "ev i line")
    case None
    with Cons.prems rest IH show ?thesis unfolding range by auto
  next
    case (Some e)
    with Cons.prems rest have out: "events = e # es" "skipped = sk" by simp_all
    with assms [OF Some] IH show ?thesis unfolding range by (simp add: subset_insertI2)
  qed
qed simp

text \<open>
  C32 (safety). Event identifiers are line numbers of the request: once a request had all its lines
  recognised, no later request with at most as many lines, of this or any other project, stores
  anything, although it is answered with success.
\<close>

theorem later_requests_ingest_nothing:
  assumes first: "ingest_handler ct env_salt now project_id req (fs, t) = (Inr res, (fs1, t1))"
    and all: "is_skipped res = 0"
    and second: "ingest_handler ct env_salt' now' project_id' req' (fs2, t1) = (Inr res', (fs3, t2))"
    and "length (ir_lines req') \<le> length (ir_lines req)"
  shows "is_ingested res' = 0 \<and> t2 = t1"
proof -
  let ?key = "\<lambda>i. (''api_ingest'', ''api_ingest:'' @ show_nat i)"
  obtain events where ev: "collect_lines (line_event ct now project_id (parse_format (ir_format req))
       (parse_privacy_mode (ir_privacy_mode req)) (unwrap_or ''opengeo-crawler'' env_salt)) 0 (ir_lines req)
       = (events, 0)" and t1: "t1 = t @ fresh_rows (event_key ` set t) events"
    by (rule handler_done [OF first]) (use all in auto)
  have "?key ` {0 ..< length (ir_lines req)} \<subseteq> event_key ` set t1"
    using collect_lines_keys [where key = ?key, OF line_event_key ev] fresh_rows_keys [of "event_key ` set t" events]
    unfolding t1 by auto
  moreover obtain events' sk where
    ev': "collect_lines (line_event ct now' project_id' (parse_format (ir_format req'))
       (parse_privacy_mode (ir_privacy_mode req')) (unwrap_or ''opengeo-crawler'' env_salt')) 0 (ir_lines req')
       = (events', sk)"
    and res': "is_ingested res' = length (fresh_rows (event_key ` set t1) events')"
    and t2: "t2 = t1 @ fresh_rows (event_key ` set t1) events'"
    by (rule handler_done [OF second]) auto
  moreover have "event_key ` row_of_event ` set events' \<subseteq> ?key ` {0 ..< length (ir_lines req')}"
    using collect_lines_keys [where key = ?key, OF line_event_key ev'] by simp
  moreover have "?key ` {0 ..< length (ir_lines req')} \<subseteq> ?key ` {0 ..< length (ir_lines req)}"
    using assms(4) by (intro image_mono) auto
  ultimately have "event_key ` row_of_event ` set events' \<subseteq> event_key ` set t1" by blast
  then have "fresh_rows (event_key ` set t1) events' = []" by (intro fresh_rows_Nil) blast
  then show ?thesis by (simp add: res' t2)
qed

section \<open>What is stored of an address\<close>

lemma apply_privacy_shape:
  "raw_column (apply_privacy ct ip mode salt) \<noteq> None \<Longrightarrow> mode = PrivacyRaw"
  "truncated_column (apply_privacy ct ip mode salt) \<noteq> None \<Longrightarrow> mode = PrivacyTruncated"
  "hash_column (apply_privacy ct ip mode salt) \<noteq> None \<Longrightarrow> mode = PrivacyHashed"
  by (cases mode;
      auto simp: apply_privacy_def raw_column_def truncated_column_def hash_column_def split: option.splits if_splits)+

text \<open>The part of an address that truncation keeps.\<close>

definition kept_prefix :: "string \<Rightarrow> ip_addr option" where
  "kept_prefix ip =
     (case parse_ip_addr ip of
        Some (V4 a b c _) \<Rightarrow> Some (V4 a b c 0)
      | Some (V6 segments) \<Rightarrow> Some (V6 (take 4 segments @ [0, 0, 0, 0]))
      | None \<Rightarrow> None)"

lemma truncate_ip_prefix: "kept_prefix ip = kept_prefix ip' \<Longrightarrow> truncate_ip ip = truncate_ip ip'"
  by (auto simp: kept_prefix_def truncate_ip_def split: option.splits ip_addr.splits)

definition shown_as_network :: "string \<Rightarrow> string \<Rightarrow> bool" where
  "shown_as_network ip shown = (\<forall>ip'. kept_prefix ip' = kept_prefix ip \<longrightarrow> truncate_ip ip' = shown)"

lemma apply_privacy_truncated:
  "truncated_column (apply_privacy ct ip mode salt) = Some shown \<Longrightarrow>
    mode = PrivacyTruncated \<and> shown_as_network (str_trim (the ip)) shown"
  by (auto simp: apply_privacy_def truncated_column_def shown_as_network_def intro: truncate_ip_prefix
      split: option.splits if_splits privacy_mode.splits)

text \<open>
  C26 (safety). The stored row of a hit passes the privacy check of its table; the address itself is
  stored in raw mode only, and a truncated one is the same text for every address of its /24 or
  /64 network.
\<close>

theorem stored_address_respects_privacy:
  "case event_of_hit ct ranges project_id mode salt h of
     None \<Rightarrow> identify_bot (rh_user_agent h) = None
   | Some e \<Rightarrow>
       privacy_ip_shape (row_of_event e)
       \<and> (ce_client_ip (row_of_event e) = None \<or> mode = PrivacyRaw)
       \<and> (case ce_client_ip_truncated (row_of_event e) of
            None \<Rightarrow> True
          | Some shown \<Rightarrow> mode = PrivacyTruncated \<and> shown_as_network (str_trim (the (rh_client_ip h))) shown)"
proof (cases "event_of_hit ct ranges project_id mode salt h")
  case (Some e)
  define ip where "ip = apply_privacy ct (rh_client_ip h) mode salt"
  note only = apply_privacy_shape [of ct "rh_client_ip h" mode salt, folded ip_def]
    apply_privacy_truncated [of ct "rh_client_ip h" mode salt, folded ip_def]
  have f: "ev_client_ip e = ip" "ev_privacy_mode e = mode" using event_fields [OF Some] by (simp_all add: ip_def)
  have "privacy_ip_shape (row_of_event e)"
    using only(1-3)
    by (cases mode; cases ip)
      (simp_all add: f privacy_ip_shape_def row_of_event_def raw_column_def truncated_column_def hash_column_def)
  with only show ?thesis
    unfolding Some option.case
    by (cases "raw_column ip"; cases "truncated_column ip") (auto simp: row_of_event_def f)
qed (simp add: event_of_hit_def normalize_hit_def)

section \<open>Address ranges\<close>

lemma prefix_match_drop:
  fixes net ip :: "'a :: len word"
  assumes "p \<le> LENGTH('a)"
  shows "prefix_match LENGTH('a) net ip p \<longleftrightarrow> drop_bit (LENGTH('a) - p) net = drop_bit (LENGTH('a) - p) ip"
proof (cases "p = 0")
  case True
  then show ?thesis by (simp add: prefix_match_def)
next
  case False
  let ?k = "LENGTH('a) - p"
  have "prefix_match LENGTH('a) net ip p \<longleftrightarrow> (\<forall>n < LENGTH('a). ?k \<le> n \<longrightarrow> bit net n = bit ip n)"
    using False by (auto simp: prefix_match_def Let_def bit_eq_iff bit_simps)
  also have "\<dots> \<longleftrightarrow> drop_bit ?k net = drop_bit ?k ip"
  proof
    assume *: "\<forall>n < LENGTH('a). ?k \<le> n \<longrightarrow> bit net n = bit ip n"
    show "drop_bit ?k net = drop_bit ?k ip"
      by (rule bit_eqI) (use * in \<open>auto simp: bit_simps dest: bit_imp_le_length\<close>)
  next
    assume *: "drop_bit ?k net = drop_bit ?k ip"
    show "\<forall>n < LENGTH('a). ?k \<le> n \<longrightarrow> bit net n = bit ip n"
    proof (intro allI impI)
      fix n
      assume "?k \<le> n"
      then have "bit net n = bit (drop_bit ?k net) (n - ?k)" "bit ip n = bit (drop_bit ?k ip) (n - ?k)"
        by (simp_all add: bit_simps)
      with * show "bit net n = bit ip n" by simp
    qed
  qed
  finally show ?thesis .
qed

section \<open>Counting\<close>

text \<open>A fold that updates the entry of each row's key is, at a key, the fold over the rows of that key.\<close>

lemma lookup_fold_map_default:
  "Mapping.lookup (fold (\<lambda>r. Mapping.map_default (f r) (init (f r)) (g r)) rows m) k =
     (case Mapping.lookup m k of
        Some v \<Rightarrow> Some (fold g (filter (\<lambda>r. f r = k) rows) v)
      | None \<Rightarrow>
          if k \<in> f ` set rows then Some (fold g (filter (\<lambda>r. f r = k) rows) (init k)) else None)"
proof (induction rows arbitrary: m)
  case (Cons r rows)
  show ?case
    by (auto simp: Cons lookup_map_default' Mapping.lookup_default_def split: option.split)
qed (simp split: option.split)

lemma keys_fold_map_default:
  "Mapping.keys (fold (\<lambda>r. Mapping.map_default (f r) (init (f r)) (g r)) rows m) = f ` set rows \<union> Mapping.keys m"
  by (induction rows arbitrary: m) auto

lemma into_values_fold:
  fixes f :: "'r \<Rightarrow> 'k :: linorder"
  shows "into_values (fold (\<lambda>r. Mapping.map_default (f r) (init (f r)) (g r)) rows Mapping.empty)
    = map (\<lambda>k. fold g (filter (\<lambda>r. f r = k) rows) (init k)) (sorted_list_of_set (f ` set rows))"
  by (simp add: into_values_def Mapping.ordered_keys_def keys_fold_map_default lookup_fold_map_default)

definition rows_where :: "(crawler_row \<Rightarrow> bool) \<Rightarrow> crawler_row list \<Rightarrow> int" where
  "rows_where P rows = int (length (filter P rows))"

lemma rows_where_simps [simp]:
  "rows_where P [] = 0"
  "rows_where P (r # rows) = (if P r then 1 else 0) + rows_where P rows"
  by (simp_all add: rows_where_def)

lemma sum_rows_where:
  "finite A \<Longrightarrow> f ` set rows \<subseteq> A \<Longrightarrow> (\<Sum>k \<in> A. rows_where (\<lambda>r. f r = k) rows) = int (length rows)"
  by (induction rows) (simp_all add: sum.distrib)

lemma count_bot_fold:
  "fold (\<lambda>r b. b\<lparr>bm_hits := bm_hits b + 1,
              bm_verified_hits := (if ce_ip_verified r then bm_verified_hits b + 1 else bm_verified_hits b),
              bm_error_hits := (if is_error_row r then bm_error_hits b + 1 else bm_error_hits b)\<rparr>) rows b
   = b\<lparr>bm_hits := bm_hits b + rows_where (\<lambda>_. True) rows,
       bm_verified_hits := bm_verified_hits b + rows_where ce_ip_verified rows,
       bm_error_hits := bm_error_hits b + rows_where is_error_row rows\<rparr>"
  by (induction rows arbitrary: b) simp_all

lemma count_path_fold:
  "fold (\<lambda>r p. p\<lparr>pm_hits := pm_hits p + 1,
              pm_error_hits := (if is_error_row r then pm_error_hits p + 1 else pm_error_hits p)\<rparr>) rows p
   = p\<lparr>pm_hits := pm_hits p + rows_where (\<lambda>_. True) rows, pm_error_hits := pm_error_hits p + rows_where is_error_row rows\<rparr>"
  by (induction rows arbitrary: p) simp_all

lemma count_fold: "fold (\<lambda>_ n. n + 1) rows n = n + rows_where (\<lambda>_. True) rows"
  by (induction rows arbitrary: n) simp_all

lemma rows_where_filter: "rows_where P (filter Q rows) = rows_where (\<lambda>r. Q r \<and> P r) rows"
  by (simp add: rows_where_def conj_commute)

lemma by_bot_values:
  "into_values (fold count_bot rows Mapping.empty) =
     map (\<lambda>k. \<lparr>bm_bot_id = k, bm_hits = rows_where (\<lambda>r. ce_bot_id r = k) rows,
               bm_verified_hits = rows_where (\<lambda>r. ce_bot_id r = k \<and> ce_ip_verified r) rows,
               bm_error_hits = rows_where (\<lambda>r. ce_bot_id r = k \<and> is_error_row r) rows\<rparr>)
       (sorted_list_of_set (ce_bot_id ` set rows))"
  unfolding count_bot_def [abs_def]
  by (subst into_values_fold [where f = ce_bot_id
        and init = "\<lambda>k. \<lparr>bm_bot_id = k, bm_hits = 0, bm_verified_hits = 0, bm_error_hits = 0\<rparr>"])
    (simp add: count_bot_fold rows_where_filter)


lemma by_path_values:
  "into_values (fold count_path rows Mapping.empty) =
     map (\<lambda>k. \<lparr>pm_path = k, pm_hits = rows_where (\<lambda>r. ce_path r = k) rows,
               pm_error_hits = rows_where (\<lambda>r. ce_path r = k \<and> is_error_row r) rows\<rparr>)
       (sorted_list_of_set (ce_path ` set rows))"
  unfolding count_path_def [abs_def]
  by (subst into_values_fold [where f = ce_path and init = "\<lambda>k. \<lparr>pm_path = k, pm_hits = 0, pm_error_hits = 0\<rparr>"])
    (simp add: count_path_fold rows_where_filter)

lemma by_day_entries:
  "map (\<lambda>d. (d, the (Mapping.lookup (fold (count_day day) rows Mapping.empty) d)))
       (Mapping.ordered_keys (fold (count_day day) rows Mapping.empty))
     = map (\<lambda>d. (d, rows_where (\<lambda>r. day (ce_ts r) = d) rows)) (sorted_list_of_set ((\<lambda>r. day (ce_ts r)) ` set rows))"
  unfolding count_day_def [abs_def] Mapping.ordered_keys_def
  using lookup_fold_map_default [of "\<lambda>r. day (ce_ts r)" "\<lambda>_. 0 :: int" "\<lambda>_ n. n + 1" rows Mapping.empty]
    keys_fold_map_default [of "\<lambda>r. day (ce_ts r)" "\<lambda>_. 0 :: int" "\<lambda>_ n. n + 1" rows Mapping.empty]
  by (simp add: count_fold rows_where_filter)

lemma sum_list_counts: "sum_list (map (\<lambda>k. rows_where (\<lambda>r. f r = k) rows) (sorted_list_of_set (f ` set rows))) = int (length rows)"
  using sum_rows_where [of "f ` set rows" f rows] by (simp add: sum_list_distinct_conv_sum_set)

text \<open>
  C22 (equivalence). The metrics hold one entry for each bot with the exact numbers of its hits,
  verified hits and errors, most hits first; the bots and the days both add up to all rows, and
  each listed path has its exact counts.
\<close>

theorem metrics_count_the_rows:
  "let m = metrics_of day window_start window_end unverified rows
   in set (km_bots m) = (\<lambda>k. \<lparr>bm_bot_id = k, bm_hits = rows_where (\<lambda>r. ce_bot_id r = k) rows,
          bm_verified_hits = rows_where (\<lambda>r. ce_bot_id r = k \<and> ce_ip_verified r) rows,
          bm_error_hits = rows_where (\<lambda>r. ce_bot_id r = k \<and> is_error_row r) rows\<rparr>) ` ce_bot_id ` set rows
    \<and> sorted (map (\<lambda>b. (- bm_hits b, bm_bot_id b)) (km_bots m)) \<and> distinct (map bm_bot_id (km_bots m))
    \<and> sum_list (map bm_hits (km_bots m)) = int (length rows)
    \<and> sum_list (map snd (km_trend m)) = int (length rows)
    \<and> list_all (\<lambda>p. pm_hits p = rows_where (\<lambda>r. ce_path r = pm_path p) rows
         \<and> pm_error_hits p = rows_where (\<lambda>r. ce_path r = pm_path p \<and> is_error_row r) rows)
       (km_top_paths m @ km_error_paths m)"
proof -
  let ?bots = "into_values (fold count_bot rows Mapping.empty)"
  let ?paths = "into_values (fold count_path rows Mapping.empty)"
  let ?exact = "\<lambda>p. pm_hits p = rows_where (\<lambda>r. ce_path r = pm_path p) rows
         \<and> pm_error_hits p = rows_where (\<lambda>r. ce_path r = pm_path p \<and> is_error_row r) rows"
  have paths: "list_all ?exact (take n (sort_key f xs))" if "set xs \<subseteq> set ?paths"
    for n xs and f :: "path_metric \<Rightarrow> 'b :: linorder"
    using that by (fastforce simp: list_all_iff by_path_values dest!: in_set_takeD)
  have ids: "distinct (map bm_bot_id (sort_key f ?bots))" for f :: "bot_metric \<Rightarrow> int \<times> string"
  proof -
    have "distinct (map bm_bot_id ?bots)" by (simp add: by_bot_values o_def)
    then show ?thesis by (metis mset_eq_imp_distinct_iff mset_map mset_sort)
  qed
  have hits: "sum_list (map bm_hits (sort_key f ?bots)) = int (length rows)" for f :: "bot_metric \<Rightarrow> int \<times> string"
    by (simp add: sum_list_sort_key) (simp add: by_bot_values o_def sum_list_counts)
  have trend: "sum_list (map snd (km_trend (metrics_of day window_start window_end unverified rows))) = int (length rows)"
    unfolding metrics_of_def Let_def crawler_metrics.simps by_day_entries by (simp add: o_def sum_list_counts)
  show ?thesis
    unfolding Let_def
    by (intro conjI trend; simp add: metrics_of_def Let_def ids hits paths list_all_append)
      (simp add: by_bot_values image_image)
qed

section \<open>Adapters\<close>

text \<open>
  What an adapter and a sink promise: reading hits leaves the stored rows alone and names its
  source in every hit, and the sink only adds rows of the events it is given.
\<close>

locale crawl_pipeline =
  fixes read_hits :: "('w, crawler_error, raw_hit list) rm"
    and sink :: "crawler_event list \<Rightarrow> ('w, crawler_error, nat) rm"
    and stored :: "'w \<Rightarrow> crawler_row list"
    and source :: string
  assumes read_keeps: "steps (\<lambda>w w'. stored w' = stored w) read_hits"
    and read_source: "read_hits s = (Inr hits, s') \<Longrightarrow> h \<in> set hits \<Longrightarrow> rh_source_adapter h = source"
    and sink_grows: "steps (\<lambda>w w'. table_grows es (stored w) (stored w')) (sink es)"
begin

lemma ingest_grows:
  "steps (\<lambda>w w'. \<exists>es. table_grows es (stored w) (stored w')
      \<and> list_all (\<lambda>e. ev_project_id e = project_id \<and> ev_source_adapter e = source \<and> ev_privacy_mode e = mode) es)
    (ingest ct read_hits sink ranges project_id mode salt)"
proof (rule stepsI)
  fix fs w r fs' w'
  assume run: "ingest ct read_hits sink ranges project_id mode salt (fs, w) = (r, (fs', w'))"
  show "\<exists>es. table_grows es (stored w) (stored w')
      \<and> list_all (\<lambda>e. ev_project_id e = project_id \<and> ev_source_adapter e = source \<and> ev_privacy_mode e = mode) es"
  proof -
    obtain out fs1 w1 where Pair: "read_hits (fs, w) = (out, (fs1, w1))" by (metis prod.exhaust)
    have keep: "stored w1 = stored w" using stepsD [OF read_keeps Pair] .
    show ?thesis
    proof (cases out)
      case (Inl e)
      with run Pair keep show ?thesis
        by (intro exI [of _ "[]"]) (simp add: ingest_def dbind_def table_grows_refl)
    next
      case (Inr hits)
      define es where "es = List.map_filter (event_of_hit ct ranges project_id mode salt) hits"
      have "sink es (fs1, w1) = (r, (fs', w'))"
        using run Pair Inr by (simp add: ingest_def dbind_def es_def)
      from stepsD [OF sink_grows this] have "table_grows es (stored w) (stored w')" by (simp add: keep)
      moreover have "list_all (\<lambda>e. ev_project_id e = project_id \<and> ev_source_adapter e = source
          \<and> ev_privacy_mode e = mode) es"
        using read_source [OF Pair [unfolded Inr]]
        by (fastforce simp: list_all_iff es_def mem_map_filter dest: event_fields)
      ultimately show ?thesis by blast
    qed
  qed
qed

end

lemma read_payloads_source:
  "(\<And>i v h. parser i v source = Some h \<Longrightarrow> rh_source_adapter h = source) \<Longrightarrow>
    read_payloads parser source payloads s = (Inr hits, s') \<Longrightarrow> h \<in> set hits \<Longrightarrow> rh_source_adapter h = source"
  by (auto simp: read_payloads_def mem_map_filter)

lemma cdn_source: "parse_cdn_json ct i v source = Some h \<Longrightarrow> rh_source_adapter h = source"
  by (auto simp: parse_cdn_json_def bind_eq_Some_conv)

lemma ga4_source: "parse_ga4_json ct i v source = Some h \<Longrightarrow> rh_source_adapter h = source"
  by (auto simp: parse_ga4_json_def bind_eq_Some_conv)

interpretation cdn: crawl_pipeline "read_payloads (parse_cdn_json ct) source payloads" insert_events "\<lambda>t. t" source
  for ct source payloads
proof
  show "steps (\<lambda>w w'. w' = w) (read_payloads (parse_cdn_json ct) source payloads)"
    unfolding read_payloads_def by (rule steps_ret) (simp add: reflpI)
qed (rule read_payloads_source [OF cdn_source] insert_events_grow; assumption)+

interpretation ga4: crawl_pipeline "read_payloads (parse_ga4_json ct) source payloads" insert_events "\<lambda>t. t" source
  for ct source payloads
proof
  show "steps (\<lambda>w w'. w' = w) (read_payloads (parse_ga4_json ct) source payloads)"
    unfolding read_payloads_def by (rule steps_ret) (simp add: reflpI)
qed (rule read_payloads_source [OF ga4_source] insert_events_grow; assumption)+

section \<open>The access log\<close>

lemma read_log_spec:
  assumes "read_log ct now (fs, w) = (r, (fs', w'))"
  shows "al_rows w' = al_rows w \<and> al_content w' = al_content w"
    and "r = Inr hits \<Longrightarrow> hits = scan_log ct now w"
    and "fs = False # rest \<Longrightarrow> al_next_line w' = max (al_next_line w) (length (str_lines (al_content w)))"
proof -
  have "al_rows w' = al_rows w \<and> al_content w' = al_content w
      \<and> (\<forall>hits. r = Inr hits \<longrightarrow> hits = scan_log ct now w)
      \<and> (\<forall>rest. fs = False # rest \<longrightarrow> al_next_line w' = max (al_next_line w) (length (str_lines (al_content w))))"
    using assms
    by (auto simp: read_log_def dbind_def io_def map_err_def query_def exec_def stmt_def act_def ret_def
        split: list.splits if_splits)
  then show "al_rows w' = al_rows w \<and> al_content w' = al_content w"
    and "r = Inr hits \<Longrightarrow> hits = scan_log ct now w"
    and "fs = False # rest \<Longrightarrow> al_next_line w' = max (al_next_line w) (length (str_lines (al_content w)))"
    by blast+
qed

lemma log_sink_rest:
  "log_sink es (fs, w) = (r, (fs', w')) \<Longrightarrow> al_next_line w' = al_next_line w \<and> al_content w' = al_content w"
  by (auto simp: log_sink_def zoom_def split: prod.splits)

lemma scan_log_seen: "length (str_lines (al_content w)) \<le> al_next_line w \<Longrightarrow> scan_log ct now w = []"
  unfolding scan_log_def by (rule map_filter_None) (auto simp: enumerate_eq_zip dest!: set_zip_leftD)

lemma log_sink_Nil: "log_sink [] (fs, w) = (Inr 0, (fs, w))"
  by (simp add: log_sink_def zoom_def insert_events_def map_err_def)

text \<open>
  (liveness). Once an ingestion has read the log, no later one stores a line of it, even when
  the first failed before storing them: the cursor moves before the events are written.
\<close>

theorem ingested_lines_are_never_read_again:
  "let first = ingest ct (read_log ct now) log_sink ranges project_id mode salt (False # fs, w);
       w1 = snd (snd first);
       again = ingest ct (read_log ct now') log_sink ranges project_id' mode' salt' (fs', w1)
   in al_rows (snd (snd again)) = al_rows w1"
proof -
  obtain r fs1 w1 where first: "ingest ct (read_log ct now) log_sink ranges project_id mode salt (False # fs, w)
      = (r, (fs1, w1))" by (metis prod.exhaust)
  have seen: "length (str_lines (al_content w1)) \<le> al_next_line w1"
  proof -
    obtain out fs2 w2 where rd: "read_log ct now (False # fs, w) = (out, (fs2, w2))" by (metis prod.exhaust)
    from read_log_spec(1) [OF rd] read_log_spec(3) [OF rd refl]
    have w2: "length (str_lines (al_content w2)) \<le> al_next_line w2" by simp
    show ?thesis
    proof (cases out)
      case (Inl e)
      with first rd w2 show ?thesis by (simp add: ingest_def dbind_def)
    next
      case (Inr hits)
      with first rd have "log_sink (List.map_filter (event_of_hit ct ranges project_id mode salt) hits) (fs2, w2)
          = (r, (fs1, w1))" by (simp add: ingest_def dbind_def)
      from log_sink_rest [OF this] w2 show ?thesis by simp
    qed
  qed
  obtain out fs3 w3 where rd: "read_log ct now' (fs', w1) = (out, (fs3, w3))" by (metis prod.exhaust)
  have rows: "al_rows w3 = al_rows w1" using read_log_spec(1) [OF rd] by simp
  have "al_rows (snd (snd (ingest ct (read_log ct now') log_sink ranges project_id' mode' salt' (fs', w1)))) = al_rows w1"
  proof (cases out)
    case (Inl e)
    with rd rows show ?thesis by (simp add: ingest_def dbind_def)
  next
    case (Inr hits)
    with read_log_spec(2) [OF rd] scan_log_seen [OF seen] have "hits = []" by simp
    with Inr rd rows show ?thesis by (simp add: ingest_def dbind_def log_sink_Nil List.map_filter_simps)
  qed
  then show ?thesis by (simp add: first)
qed

interpretation web_log: crawl_pipeline "read_log ct now" log_sink al_rows "''web_log''"
  for ct now
proof
  show "steps (\<lambda>w w'. al_rows w' = al_rows w) (read_log ct now)"
    by (rule stepsI) (use read_log_spec(1) in blast)
  fix s hits s' h
  assume "read_log ct now s = (Inr hits, s')" and "h \<in> set hits"
  then have "h \<in> set (scan_log ct now (snd s))"
    by (metis prod.collapse read_log_spec(2))
  then show "rh_source_adapter h = ''web_log''"
    by (auto simp: scan_log_def mem_map_filter parse_line_source split: if_splits)
next
  fix es
  show "steps (\<lambda>w w'. table_grows es (al_rows w) (al_rows w')) (log_sink es)"
    unfolding log_sink_def by (rule steps_zoom [OF insert_events_grow]) simp
qed

text \<open>
  C8 (invariant). Whatever fails, ingesting an access log keeps every stored row, keeps the checks
  and the unique keys of the table, and adds only events of its own project, source and privacy
  mode.
\<close>

theorem log_ingestion_only_adds_own_events:
  "steps (\<lambda>w w'. \<exists>es. table_grows es (al_rows w) (al_rows w')
      \<and> list_all (\<lambda>e. ev_project_id e = project_id \<and> ev_source_adapter e = ''web_log'' \<and> ev_privacy_mode e = mode) es)
    (ingest ct (read_log ct now) log_sink ranges project_id mode salt)"
  by (rule web_log.ingest_grows)

section \<open>Two requests\<close>

definition ex_tools :: crawl_tools where
  "ex_tools = \<lparr>ct_rfc3339 = (\<lambda>_. None), ct_log_ts = (\<lambda>_. None), ct_micros = Some, ct_sha256 = (\<lambda>bs. bs)\<rparr>"

definition ex_log_line :: string where
  "ex_log_line = ''x '' @ [CHR 0x22] @ ''G /'' @ [CHR 0x22] @ '' 200 '' @ [CHR 0x22, CHR 0x22, CHR 0x22]
     @ ''GPTBot'' @ [CHR 0x22]"

definition ex_hit :: raw_hit where
  "ex_hit = \<lparr>rh_raw_event_id = ''api_ingest:0'', rh_ts = 0, rh_user_agent = ''GPTBot'', rh_path = ''/'',
     rh_status = 200, rh_source_adapter = ''api_ingest'', rh_client_ip = Some ''x'', rh_region = None\<rparr>"

definition ex_event :: "uuid \<Rightarrow> crawler_event" where
  "ex_event project_id = \<lparr>ev_project_id = project_id, ev_ts = 0, ev_bot_id = ''openai-gptbot'', ev_path = ''/'',
     ev_status = 200, ev_source_adapter = ''api_ingest'', ev_raw_event_id = ''api_ingest:0'', ev_ip_verified = False,
     ev_region = None, ev_client_ip = IpRaw ''x'', ev_privacy_mode = PrivacyRaw\<rparr>"

lemma ex_ws: "split_whitespace ex_log_line = [''x'', [CHR 0x22] @ ''G'', ''/'' @ [CHR 0x22], ''200'',
    [CHR 0x22, CHR 0x22, CHR 0x22] @ ''GPTBot'' @ [CHR 0x22]]"
  "split_whitespace ''G /'' = [''G'', ''/'']"
  "split_whitespace ('' 200 '' @ [CHR 0x22, CHR 0x22, CHR 0x22] @ ''GPTBot'' @ [CHR 0x22])
     = [''200'', [CHR 0x22, CHR 0x22, CHR 0x22] @ ''GPTBot'' @ [CHR 0x22]]"
  by (simp_all add: ex_log_line_def split_whitespace_def is_ws_def unicode_ws_def is_cont_def)

lemma ex_quoted: "quoted_parts ex_log_line = [''G /'', [], ''GPTBot'']"
  by (simp add: ex_log_line_def quoted_parts.simps split_once_def)

lemma ex_after: "split_once_str ([CHR 0x22] @ ''G /'' @ [CHR 0x22]) ex_log_line
    = Some (''x '', '' 200 '' @ [CHR 0x22, CHR 0x22, CHR 0x22] @ ''GPTBot'' @ [CHR 0x22])"
  by (simp add: split_once_str_def ex_log_line_def str_find.simps)

lemma ex_between: "parse_between ex_log_line (CHR ''['') (CHR '']'') = None"
  by (simp add: parse_between_def ex_log_line_def split_once_def)

lemma ex_hit_parsed: "parse_common_or_combined ex_tools 0 0 ex_log_line ''api_ingest'' = Some ex_hit"
  using ex_ws ex_quoted ex_after ex_between
  by (simp add: parse_common_or_combined_def Let_def parse_nth_quoted_def ex_hit_def parse_uint_def digit_val_def
      show_nat.simps)

lemma ex_bot: "identify_bot ''GPTBot'' = Some ''openai-gptbot''"
  by code_simp

lemma ex_ip: "parse_ip_addr ''x'' = None"
  by (simp add: ip_parser_simps)

lemma ex_trim: "str_trim ''x'' = ''x''" "str_trim ''/'' = ''/''" "str_trim ex_log_line \<noteq> []"
  by (simp_all add: str_trim_def ex_log_line_def is_ws_def unicode_ws_def is_cont_def)

lemma ex_event_of_hit: "event_of_hit ex_tools ranges p PrivacyRaw salt ex_hit = Some (ex_event p)"
  by (simp add: event_of_hit_def normalize_hit_def ex_hit_def ex_event_def ex_bot ex_trim verified_hit_def
      verify_user_agent_ip_def verify_bot_ip_def ex_ip normalize_path_def apply_privacy_def strip_prefix_def)

lemma ex_handler:
  "ingest_handler ex_tools None 0 p \<lparr>ir_lines = [ex_log_line], ir_format = None, ir_privacy_mode = Some ''raw''\<rparr> ([], t)
   = (Inr \<lparr>is_parsed = 1, is_ingested = (if event_key (row_of_event (ex_event p)) \<in> event_key ` set t then 0 else 1),
          is_skipped = 0\<rparr>,
      ([], if event_key (row_of_event (ex_event p)) \<in> event_key ` set t then t else t @ [row_of_event (ex_event p)]))"
proof -
  have "to_ascii_lowercase ''raw'' = ''raw''" by code_simp
  then have "parse_privacy_mode (Some ''raw'') = PrivacyRaw" by (simp add: parse_privacy_mode_def)
  moreover have "parse_format None = LogCombined" by (simp add: parse_format_def)
  moreover have "crawler_row_ok (row_of_event (ex_event p))"
    by (simp add: crawler_row_ok_def row_of_event_def ex_event_def privacy_ip_shape_def raw_column_def
        truncated_column_def hash_column_def)
  moreover have "line_event ex_tools 0 p LogCombined PrivacyRaw ''opengeo-crawler'' 0 ex_log_line = Some (ex_event p)"
    by (simp add: line_event_def ex_trim parse_line_def ex_hit_parsed ex_event_of_hit)
  ultimately show ?thesis
    by (simp add: ingest_handler_def Let_def insert_events_def map_err_def insert_event_def dbind_def)
qed

lemma later_requests_ingest_nothing_witness:
  "\<exists>res res' t2. let req = \<lparr>ir_lines = [ex_log_line], ir_format = None, ir_privacy_mode = Some ''raw''\<rparr>;
        t1 = [row_of_event (ex_event 1)]
    in ingest_handler ex_tools None 0 1 req ([], []) = (Inr res, ([], t1)) \<and> is_ingested res = 1
       \<and> ingest_handler ex_tools None 0 2 req ([], t1) = (Inr res', ([], t2)) \<and> is_ingested res' = 0 \<and> t2 = t1"
proof -
  let ?req = "\<lparr>ir_lines = [ex_log_line], ir_format = None, ir_privacy_mode = Some ''raw''\<rparr>"
  let ?t1 = "[row_of_event (ex_event 1)]"
  have first: "ingest_handler ex_tools None 0 1 ?req ([], [])
      = (Inr \<lparr>is_parsed = 1, is_ingested = 1, is_skipped = 0\<rparr>, ([], ?t1))"
    using ex_handler [of 1 "[]"] by simp
  obtain res' t2 where second: "ingest_handler ex_tools None 0 2 ?req ([], ?t1) = (Inr res', ([], t2))"
    using ex_handler [of 2 ?t1] by blast
  show ?thesis
    using first second later_requests_ingest_nothing [OF first _ second] by (auto simp: Let_def)
qed

end
