(* ===== verification/Billing.thy ===== *)
theory Billing
  imports RustNum Json Db
begin

text \<open>
  Subscriptions, plans and dunning: \<open>crates/billing/src/lib.rs\<close> (the mapping from a Stripe
  subscription to an entitlement, plan inclusions and overage, the dunning state machine) and
  \<open>crates/storage/src/repositories/org_dunning.rs\<close> (the transitions on \<open>org_entitlements\<close>).
  Signature checking of the webhook and JSON decoding are parameters; instants are integers
  counting nanoseconds.
\<close>

section \<open>Plans and subscription states\<close>

datatype plan = Free | Pro | Enterprise

primrec plan_as_str :: "plan \<Rightarrow> string" where
  "plan_as_str Free = ''free''"
| "plan_as_str Pro = ''pro''"
| "plan_as_str Enterprise = ''enterprise''"

definition plan_from_str :: "string \<Rightarrow> plan option" where
  "plan_from_str s =
     (let t = to_ascii_lowercase (str_trim s)
      in if t = ''free'' then Some Free
         else if t = ''pro'' then Some Pro
         else if t = ''enterprise'' then Some Enterprise
         else None)"

datatype subscription_status =
    Active | Trialing | PastDue | Canceled | Unpaid | Incomplete | IncompleteExpired | Paused
  | Unknown string

definition from_stripe :: "string \<Rightarrow> subscription_status" where
  "from_stripe s =
     (if s = ''active'' then Active
      else if s = ''trialing'' then Trialing
      else if s = ''past_due'' then PastDue
      else if s = ''canceled'' then Canceled
      else if s = ''unpaid'' then Unpaid
      else if s = ''incomplete'' then Incomplete
      else if s = ''incomplete_expired'' then IncompleteExpired
      else if s = ''paused'' then Paused
      else Unknown s)"

definition is_live :: "subscription_status \<Rightarrow> bool" where
  "is_live st = (st = Active \<or> st = Trialing \<or> st = PastDue)"

record org_entitlement =
  ent_plan :: plan
  ent_seat_count :: nat
  ent_status :: subscription_status

section \<open>Stripe objects\<close>

type_synonym metadata = "(string \<rightharpoonup> string) option"

datatype stripe_ref = RefId string | RefObject string

record price =
  lookup_key :: "string option"
  nickname :: "string option"
  price_metadata :: metadata

record subscription_item =
  quantity :: "int option"
  item_metadata :: metadata
  item_price :: "price option"

record subscription =
  sub_id :: string
  sub_status :: string
  sub_customer :: "stripe_ref option"
  sub_metadata :: metadata
  sub_items :: "subscription_item list"

definition customer_id :: "subscription \<Rightarrow> string option" where
  "customer_id sub =
     (case sub_customer sub of
        Some (RefId i) \<Rightarrow> Some i
      | Some (RefObject i) \<Rightarrow> Some i
      | None \<Rightarrow> None)"

definition metadata_plan :: "metadata \<Rightarrow> plan option" where
  "metadata_plan md =
     Option.bind (Option.bind md (\<lambda>m. or_else (m ''anseo_plan'') (m ''plan''))) plan_from_str"

definition parse_u32 :: "string option \<Rightarrow> nat option" where
  "parse_u32 v = Option.bind v (parse_uint 32 10)"

definition plan_hint :: "price \<Rightarrow> plan option" where
  "plan_hint p =
     or_else (metadata_plan (price_metadata p))
       (Option.bind (or_else (lookup_key p) (nickname p)) (\<lambda>hint.
          let h = to_ascii_lowercase hint
          in if str_contains h ''enterprise'' then Some Enterprise
             else if str_contains h ''pro'' then Some Pro
             else if str_contains h ''free'' then Some Free
             else None))"

section \<open>From a subscription to an entitlement\<close>

definition infer_plan :: "subscription \<Rightarrow> subscription_status \<Rightarrow> plan" where
  "infer_plan sub status =
     (if \<not> is_live status then Free
      else unwrap_or Pro
        (or_else (metadata_plan (sub_metadata sub))
          (find_map (\<lambda>item. or_else (metadata_plan (item_metadata item))
                                   (Option.bind (item_price item) plan_hint))
                    (sub_items sub))))"

definition u32_try_from :: "int \<Rightarrow> nat option" where
  "u32_try_from q = (if 0 \<le> q \<and> q < 2 ^ 32 then Some (nat q) else None)"

definition infer_seat_count :: "subscription \<Rightarrow> plan \<Rightarrow> nat" where
  "infer_seat_count sub p =
     (if p = Free then 0
      else unwrap_or 1
        (or_else
          (Option.bind (sub_metadata sub)
             (\<lambda>m. or_else (parse_u32 (m ''seat_count'')) (parse_u32 (m ''seats''))))
          (Option.bind (find (\<lambda>qty. 0 < qty) (List.map_filter quantity (sub_items sub)))
             u32_try_from)))"

definition subscription_to_entitlement :: "subscription \<Rightarrow> bool \<Rightarrow> org_entitlement" where
  "subscription_to_entitlement sub deleted =
     (if deleted then \<lparr>ent_plan = Free, ent_seat_count = 0, ent_status = Canceled\<rparr>
      else let status = from_stripe (sub_status sub);
               p = infer_plan sub status;
               seats = infer_seat_count sub p
           in \<lparr>ent_plan = p, ent_seat_count = seats, ent_status = status\<rparr>)"

text \<open>
  \<open>sync_subscription\<close> asks Stripe for the customer's subscriptions; the request is the
  parameter, an error or the decoded list.
\<close>

datatype billing_error = Request | Webhook | InvalidPayload

definition sync_subscription ::
  "(string \<Rightarrow> billing_error + subscription list) \<Rightarrow> string \<Rightarrow> billing_error + org_entitlement" where
  "sync_subscription list_subscriptions customer =
     rbind (list_subscriptions customer) (\<lambda>data.
       case data of
         [] \<Rightarrow> Inr \<lparr>ent_plan = Free, ent_seat_count = 0, ent_status = Canceled\<rparr>
       | sub # _ \<Rightarrow> Inr (subscription_to_entitlement sub False))"

datatype webhook_kind = Updated | Deleted

record webhook_update =
  upd_kind :: webhook_kind
  upd_subscription_id :: string
  upd_customer_id :: "string option"
  upd_entitlement :: org_entitlement

text \<open>
  \<open>construct_event\<close> is the Stripe library's signature check, \<open>parse_json\<close> and
  \<open>decode_subscription\<close> the JSON library's parser and derived decoder.
\<close>

definition parse_subscription_webhook ::
  "(string \<Rightarrow> string \<Rightarrow> string \<Rightarrow> bool) \<Rightarrow> (string \<Rightarrow> json option) \<Rightarrow> (json \<Rightarrow> subscription option)
     \<Rightarrow> string \<Rightarrow> string \<Rightarrow> string \<Rightarrow> billing_error + webhook_update option" where
  "parse_subscription_webhook construct_event parse_json decode_subscription payload signature secret =
     (if \<not> construct_event payload signature secret then Inl Webhook
      else rbind (ok_or InvalidPayload (parse_json payload)) (\<lambda>value.
        let event_type = unwrap_or '''' (Option.bind (json_get ''type'' value) json_as_str)
        in if \<not> (event_type = ''customer.subscription.updated''
                 \<or> event_type = ''customer.subscription.deleted'') then Inr None
           else case Option.bind (json_get ''data'' value) (json_get ''object'') of
                  None \<Rightarrow> Inr None
                | Some object \<Rightarrow>
                    rbind (ok_or InvalidPayload (decode_subscription object)) (\<lambda>sub.
                      let deleted = (event_type = ''customer.subscription.deleted'')
                      in Inr (Some \<lparr>upd_kind = (if deleted then Deleted else Updated),
                                   upd_subscription_id = sub_id sub,
                                   upd_customer_id = customer_id sub,
                                   upd_entitlement = subscription_to_entitlement sub deleted\<rparr>))))"

section \<open>Inclusions, overage and run caps\<close>

record plan_inclusions_t =
  included_seats :: u32
  included_brands :: u32
  branding_enabled :: bool

definition u32_MAX :: u32 where
  "u32_MAX = - 1"

primrec plan_inclusions :: "plan \<Rightarrow> plan_inclusions_t" where
  "plan_inclusions Free = \<lparr>included_seats = 1, included_brands = 1, branding_enabled = False\<rparr>"
| "plan_inclusions Pro = \<lparr>included_seats = 5, included_brands = 3, branding_enabled = True\<rparr>"
| "plan_inclusions Enterprise =
     \<lparr>included_seats = 25, included_brands = u32_MAX, branding_enabled = True\<rparr>"

record overage =
  seat_overage :: u32
  brand_overage :: u32

definition saturating_sub :: "u32 \<Rightarrow> u32 \<Rightarrow> u32" where
  "saturating_sub a b = (if b \<le> a then a - b else 0)"

definition compute_overage :: "plan \<Rightarrow> u32 \<Rightarrow> u32 \<Rightarrow> overage" where
  "compute_overage p active_seats active_brands =
     (if p = Free then \<lparr>seat_overage = 0, brand_overage = 0\<rparr>
      else let inc = plan_inclusions p
           in \<lparr>seat_overage = saturating_sub active_seats (included_seats inc),
               brand_overage = saturating_sub active_brands
                 (if included_brands inc = u32_MAX then active_brands else included_brands inc)\<rparr>)"

primrec plan_daily_run_cap :: "plan \<Rightarrow> nat option" where
  "plan_daily_run_cap Free = Some 10"
| "plan_daily_run_cap Pro = Some 500"
| "plan_daily_run_cap Enterprise = None"

section \<open>The dunning state machine\<close>

datatype dunning_state = DActive | DGrace | DSuspended | DPendingDelete

primrec dunning_as_str :: "dunning_state \<Rightarrow> string" where
  "dunning_as_str DActive = ''active''"
| "dunning_as_str DGrace = ''grace''"
| "dunning_as_str DSuspended = ''suspended''"
| "dunning_as_str DPendingDelete = ''pending_delete''"

definition dunning_from_str :: "string \<Rightarrow> dunning_state option" where
  "dunning_from_str s =
     (let t = str_trim s
      in if t = ''active'' then Some DActive
         else if t = ''grace'' then Some DGrace
         else if t = ''suspended'' then Some DSuspended
         else if t = ''pending_delete'' then Some DPendingDelete
         else None)"

definition is_active :: "dunning_state \<Rightarrow> bool" where
  "is_active d = (d = DActive)"

definition is_grace :: "dunning_state \<Rightarrow> bool" where
  "is_grace d = (d = DGrace)"

definition is_suspended :: "dunning_state \<Rightarrow> bool" where
  "is_suspended d = (d = DSuspended \<or> d = DPendingDelete)"

definition DUNNING_GRACE_DAYS :: int where
  "DUNNING_GRACE_DAYS = 7"

definition DUNNING_DELETE_DAYS :: int where
  "DUNNING_DELETE_DAYS = 30"

definition day_ns :: int where
  "day_ns = 86400 * 10 ^ 9"

text \<open>\<open>Duration::num_days\<close> truncates towards zero.\<close>

definition num_days :: "int \<Rightarrow> int" where
  "num_days d = (if 0 \<le> d then d div day_ns else - ((- d) div day_ns))"

definition advance_dunning :: "dunning_state \<Rightarrow> int option \<Rightarrow> int \<Rightarrow> dunning_state option" where
  "advance_dunning current grace_started_at now =
     Option.bind grace_started_at (\<lambda>grace_start.
       let days_elapsed = num_days (now - grace_start)
       in if current = DGrace \<and> DUNNING_DELETE_DAYS \<le> days_elapsed then Some DPendingDelete
          else if current = DGrace \<and> DUNNING_GRACE_DAYS \<le> days_elapsed then Some DSuspended
          else if current = DSuspended \<and> DUNNING_DELETE_DAYS \<le> days_elapsed then Some DPendingDelete
          else None)"

section \<open>The dunning repository\<close>

text \<open>
  The columns of \<open>org_entitlements\<close> the repository reads and writes. Every method opens a
  transaction, sets the tenant (\<open>set_org_guc\<close>), runs its statement and commits.
\<close>

record dunning_row =
  dr_org :: uuid
  dr_state :: dunning_state
  dr_grace_started_at :: "int option"

type_synonym 'a dunning_m = "(dunning_row list, 'a) dbm"

definition set_org_guc :: "uuid \<Rightarrow> unit dunning_m" where
  "set_org_guc org = exec (\<lambda>rows. rows)"

definition dunning_get :: "uuid \<Rightarrow> dunning_row option dunning_m" where
  "dunning_get org =
     tx (dbind (set_org_guc org) (\<lambda>_. query (find (\<lambda>r. dr_org r = org))))"

definition enter_grace :: "int \<Rightarrow> uuid \<Rightarrow> unit dunning_m" where
  "enter_grace now org =
     tx (dbind (set_org_guc org) (\<lambda>_.
       exec (update_where (\<lambda>r. dr_org r = org \<and> dr_state r = DActive)
         (\<lambda>r. r\<lparr>dr_state := DGrace, dr_grace_started_at := Some now\<rparr>))))"

definition suspend :: "uuid \<Rightarrow> unit dunning_m" where
  "suspend org =
     tx (dbind (set_org_guc org) (\<lambda>_.
       exec (update_where (\<lambda>r. dr_org r = org \<and> dr_state r = DGrace)
         (\<lambda>r. r\<lparr>dr_state := DSuspended\<rparr>))))"

definition mark_pending_delete :: "uuid \<Rightarrow> unit dunning_m" where
  "mark_pending_delete org =
     tx (dbind (set_org_guc org) (\<lambda>_.
       exec (update_where (\<lambda>r. dr_org r = org \<and> (dr_state r = DGrace \<or> dr_state r = DSuspended))
         (\<lambda>r. r\<lparr>dr_state := DPendingDelete\<rparr>))))"

definition restore_active :: "uuid \<Rightarrow> unit dunning_m" where
  "restore_active org =
     tx (dbind (set_org_guc org) (\<lambda>_.
       exec (update_where (\<lambda>r. dr_org r = org)
         (\<lambda>r. r\<lparr>dr_state := DActive, dr_grace_started_at := None\<rparr>))))"

text \<open>The \<open>WHERE\<close> clauses of the two nightly listings, and the listings.\<close>

definition grace_expired :: "int \<Rightarrow> int \<Rightarrow> dunning_row \<Rightarrow> bool" where
  "grace_expired grace_days now r =
     (dr_state r = DGrace
      \<and> (case dr_grace_started_at r of None \<Rightarrow> False | Some g \<Rightarrow> g < now - grace_days * day_ns))"

definition delete_ready :: "int \<Rightarrow> int \<Rightarrow> dunning_row \<Rightarrow> bool" where
  "delete_ready delete_days now r =
     ((dr_state r = DGrace \<or> dr_state r = DSuspended)
      \<and> (case dr_grace_started_at r of None \<Rightarrow> False | Some g \<Rightarrow> g < now - delete_days * day_ns))"

definition list_grace_expired :: "int \<Rightarrow> int \<Rightarrow> nat \<Rightarrow> uuid list dunning_m" where
  "list_grace_expired now grace_days limit =
     query (\<lambda>rows. take limit (map dr_org (filter (grace_expired grace_days now) rows)))"

definition list_delete_ready :: "int \<Rightarrow> int \<Rightarrow> nat \<Rightarrow> uuid list dunning_m" where
  "list_delete_ready now delete_days limit =
     query (\<lambda>rows. take limit (map dr_org (filter (delete_ready delete_days now) rows)))"

text \<open>The transitions as data, and a run of them: every call stands alone, whatever the last one returned.\<close>

datatype dunning_op = EnterGrace int uuid | Suspend uuid | MarkPendingDelete uuid | RestoreActive uuid

primrec dunning_op_run :: "dunning_op \<Rightarrow> unit dunning_m" where
  "dunning_op_run (EnterGrace now org) = enter_grace now org"
| "dunning_op_run (Suspend org) = suspend org"
| "dunning_op_run (MarkPendingDelete org) = mark_pending_delete org"
| "dunning_op_run (RestoreActive org) = restore_active org"

fun dunning_run :: "dunning_op list \<Rightarrow> dunning_row list conn \<Rightarrow> dunning_row list conn" where
  "dunning_run [] s = s"
| "dunning_run (x # xs) s = dunning_run xs (snd (dunning_op_run x s))"

section \<open>Lemmas\<close>

lemma num_days_ge: "0 < k \<Longrightarrow> k \<le> num_days d \<longleftrightarrow> k * day_ns \<le> d"
proof -
  assume k: "0 < k"
  show ?thesis
  proof (cases "0 \<le> d")
    case True
    then show ?thesis
      by (simp add: num_days_def day_ns_def le_div_iff_mult_le)
  next
    case False
    then have "0 \<le> (- d) div day_ns"
      by (simp add: day_ns_def pos_imp_zdiv_nonneg_iff)
    with False k show ?thesis
      by (auto simp: num_days_def day_ns_def)
  qed
qed

lemma advance_dunning_cases:
  "advance_dunning st g now =
     (case g of None \<Rightarrow> None
      | Some gs \<Rightarrow>
          if (st = DGrace \<or> st = DSuspended) \<and> 30 * day_ns \<le> now - gs then Some DPendingDelete
          else if st = DGrace \<and> 7 * day_ns \<le> now - gs then Some DSuspended
          else None)"
  using num_days_ge [of 30] num_days_ge [of 7]
  by (auto simp: advance_dunning_def DUNNING_DELETE_DAYS_def DUNNING_GRACE_DAYS_def
      split: option.splits)

definition dunning_inv :: "dunning_row list \<Rightarrow> bool" where
  "dunning_inv rows = (\<forall>r \<in> set rows. dr_state r = DActive \<longleftrightarrow> dr_grace_started_at r = None)"

lemma dunning_inv_update:
  assumes "dunning_inv rows"
    and "\<And>r. p r \<Longrightarrow> (dr_state r = DActive \<longleftrightarrow> dr_grace_started_at r = None) \<Longrightarrow>
      (dr_state (f r) = DActive \<longleftrightarrow> dr_grace_started_at (f r) = None)"
  shows "dunning_inv (update_where p f rows)"
  using assms by (auto simp: dunning_inv_def set_update_where)

lemmas dunning_op_defs =
  enter_grace_def suspend_def mark_pending_delete_def restore_active_def set_org_guc_def

lemma dunning_op_preserves: "steps (preserve dunning_inv) (dunning_op_run x)"
  by (cases x)
    (auto simp: dunning_op_defs preserve_def intro!: steps_rules dunning_inv_update)

lemma dunning_run_preserves: "dunning_inv (snd s) \<Longrightarrow> dunning_inv (snd (dunning_run xs s))"
proof (induction xs arbitrary: s)
  case Nil
  then show ?case by simp
next
  case (Cons x xs)
  obtain r fs' t' where run: "dunning_op_run x (fst s, snd s) = (r, (fs', t'))"
    by (metis surj_pair)
  with stepsD [OF dunning_op_preserves run] Cons.prems have "dunning_inv t'"
    by (simp add: preserve_def)
  with run Cons.IH [of "(fs', t')"] show ?case by simp
qed

lemma infer_seat_count_bound: "infer_seat_count sub p < 2 ^ 32"
proof -
  have parse: "\<And>v n. parse_u32 v = Some n \<Longrightarrow> n < 2 ^ 32"
    by (auto simp: parse_u32_def bind_eq_Some_conv dest: parse_uint_bound)
  then show ?thesis
    by (auto simp: infer_seat_count_def unwrap_or_def or_else_def u32_try_from_def
        bind_eq_Some_conv split: option.splits if_splits)
qed

section \<open>Properties\<close>

text \<open>
  An entitlement is paid for only by a live subscription: a deleted or
  not-live one gives the free plan, the free plan never carries seats, and the seat count is a
  32-bit number whatever the metadata says.
\<close>

theorem entitlement_only_from_live_subscription:
  fixes sub deleted
  defines "e \<equiv> subscription_to_entitlement sub deleted"
  shows "(ent_plan e \<noteq> Free \<longrightarrow> \<not> deleted \<and> is_live (ent_status e)
            \<and> ent_status e = from_stripe (sub_status sub))
    \<and> (ent_plan e = Free \<longrightarrow> ent_seat_count e = 0) \<and> ent_seat_count e < 2 ^ 32"
  using infer_seat_count_bound
  by (auto simp: e_def subscription_to_entitlement_def Let_def infer_plan_def infer_seat_count_def
      split: if_splits)

theorem entitlement_only_from_live_subscription_witness:
  "is_live (ent_status (subscription_to_entitlement
      \<lparr>sub_id = ''sub_1'', sub_status = ''past_due'', sub_customer = None, sub_metadata = None, sub_items = []\<rparr>
      False))"
proof -
  let ?s = "\<lparr>sub_id = ''sub_1'', sub_status = ''past_due'', sub_customer = None,
    sub_metadata = None, sub_items = []\<rparr>"
  have "ent_plan (subscription_to_entitlement ?s False) \<noteq> Free"
    by (simp add: subscription_to_entitlement_def from_stripe_def infer_plan_def is_live_def metadata_plan_def)
  then show ?thesis
    using entitlement_only_from_live_subscription [of ?s False] by blast
qed

text \<open>
  A webhook changes an entitlement only when its signature checks out and it is a
  subscription event carrying an object; a deletion always resets to the free plan, whatever the
  object says, and an update carries the entitlement of the decoded subscription.
\<close>

theorem webhook_update_is_authentic:
  assumes "parse_subscription_webhook ce pj ds payload sig secret = Inr (Some u)"
  shows "ce payload sig secret
    \<and> (\<exists>v obj sub. pj payload = Some v
         \<and> Option.bind (json_get ''data'' v) (json_get ''object'') = Some obj \<and> ds obj = Some sub
         \<and> upd_subscription_id u = sub_id sub
         \<and> upd_entitlement u =
            (if upd_kind u = Deleted then \<lparr>ent_plan = Free, ent_seat_count = 0, ent_status = Canceled\<rparr>
             else subscription_to_entitlement sub False))"
  using assms
  by (auto simp: parse_subscription_webhook_def Let_def res_simps subscription_to_entitlement_def
      split: if_splits option.splits)

theorem webhook_update_is_authentic_witness:
  "upd_entitlement \<lparr>upd_kind = Deleted, upd_subscription_id = ''sub_9'', upd_customer_id = None,
      upd_entitlement = \<lparr>ent_plan = Free, ent_seat_count = 0, ent_status = Canceled\<rparr>\<rparr>
   = \<lparr>ent_plan = Free, ent_seat_count = 0, ent_status = Canceled\<rparr>
   \<and> parse_subscription_webhook (\<lambda>p s k. s = k)
      (\<lambda>p. Some (JObj [(''type'', JStr ''customer.subscription.deleted''),
                      (''data'', JObj [(''object'', JStr p)])]))
      (\<lambda>j. Some \<lparr>sub_id = ''sub_9'', sub_status = ''active'', sub_customer = None,
                 sub_metadata = None, sub_items = []\<rparr>) ''body'' ''k'' ''k''
     = Inr (Some \<lparr>upd_kind = Deleted, upd_subscription_id = ''sub_9'', upd_customer_id = None,
         upd_entitlement = \<lparr>ent_plan = Free, ent_seat_count = 0, ent_status = Canceled\<rparr>\<rparr>)"
proof -
  have h: "parse_subscription_webhook (\<lambda>p s k. s = k)
      (\<lambda>p. Some (JObj [(''type'', JStr ''customer.subscription.deleted''),
                      (''data'', JObj [(''object'', JStr p)])]))
      (\<lambda>j. Some \<lparr>sub_id = ''sub_9'', sub_status = ''active'', sub_customer = None,
                 sub_metadata = None, sub_items = []\<rparr>) ''body'' ''k'' ''k''
     = Inr (Some \<lparr>upd_kind = Deleted, upd_subscription_id = ''sub_9'', upd_customer_id = None,
         upd_entitlement = \<lparr>ent_plan = Free, ent_seat_count = 0, ent_status = Canceled\<rparr>\<rparr>)"
    by (simp add: parse_subscription_webhook_def customer_id_def subscription_to_entitlement_def)
  show ?thesis
    using webhook_update_is_authentic [OF h] h by simp
qed

text \<open>
  Overage is the exact excess over the plan's inclusions as a number, never
  wrapping: nothing on the free plan, and no brand overage on a plan with unlimited brands.
\<close>

theorem overage_is_exact_excess:
  "unat (seat_overage (compute_overage p seats brands)) =
     (if p = Free then 0 else unat seats - unat (included_seats (plan_inclusions p)))
   \<and> unat (brand_overage (compute_overage p seats brands)) = (if p = Pro then unat brands - 3 else 0)"
  by (cases p)
    (auto simp: compute_overage_def saturating_sub_def u32_MAX_def unat_sub word_le_nat_alt Let_def)

text \<open>
  C34 (equivalence). The nightly listings agree with the pure state machine on every row: a row
  is listed as expired (as ready for deletion) exactly when \<open>advance_dunning\<close> moves it on (to
  pending deletion), except at the one instant where the elapsed time equals the threshold, which
  the state machine counts and the SQL comparison does not.
\<close>

theorem dunning_listings_agree:
  "(grace_expired DUNNING_GRACE_DAYS now r \<longleftrightarrow>
      dr_state r = DGrace \<and> advance_dunning (dr_state r) (dr_grace_started_at r) now \<noteq> None
      \<and> dr_grace_started_at r \<noteq> Some (now - DUNNING_GRACE_DAYS * day_ns))
   \<and> (delete_ready DUNNING_DELETE_DAYS now r \<longleftrightarrow>
      advance_dunning (dr_state r) (dr_grace_started_at r) now = Some DPendingDelete
      \<and> dr_grace_started_at r \<noteq> Some (now - DUNNING_DELETE_DAYS * day_ns))"
  by (cases "dr_grace_started_at r")
    (auto simp: grace_expired_def delete_ready_def advance_dunning_cases
      DUNNING_GRACE_DAYS_def DUNNING_DELETE_DAYS_def day_ns_def)

text \<open>
  C24 (invariant). Under any sequence of repository transitions, with any statement failing
  anywhere, an organisation has a grace start exactly when it is not active: no transition leaves
  a clock running on an active organisation or a suspended one without its clock.
\<close>

theorem dunning_clock_invariant:
  assumes "dunning_inv rows"
  shows "dunning_inv (snd (dunning_run ops (faults, rows)))"
  using dunning_run_preserves [of "(faults, rows)" ops] assms by simp

theorem dunning_clock_invariant_witness:
  "dunning_inv (snd (dunning_run [EnterGrace 5 1, Suspend 1, MarkPendingDelete 1]
     ([False, False, True], [\<lparr>dr_org = 1, dr_state = DActive, dr_grace_started_at = None\<rparr>])))"
  by (rule dunning_clock_invariant) (simp add: dunning_inv_def)

end
