(* ===== verification/Ticks.thy ===== *)
theory Ticks
  imports Schedules Billing
begin

text \<open>
  Claiming, running and reaping schedule ticks (\<open>crates/scheduler/src/worker.rs\<close>,
  \<open>crates/scheduler/src/dispatch.rs\<close>). Workers race for a tick with one statement each, so every
  interleaving of workers is a sequence of statements. The extraction of mentions and citations
  from a persisted answer, whose errors are only logged, writes other tables and is left out.
\<close>

datatype worker_error =
    WDatabase
  | WStorage storage_error
  | WInvalidCadence schedule_error
  | WTickAlreadyClaimed
  | WPanicked

primrec worker_error_str :: "worker_error \<Rightarrow> string" where
  "worker_error_str WDatabase = ''database error''"
| "worker_error_str (WStorage e) = ''storage error''"
| "worker_error_str (WInvalidCadence e) = ''invalid schedule cadence''"
| "worker_error_str WTickAlreadyClaimed = ''a tick for this instant is already claimed''"
| "worker_error_str WPanicked = ''panic''"

type_synonym 'a workm = "(sched_db, worker_error, 'a) rm"

definition wdb :: "(sched_db, 'a) dbm \<Rightarrow> 'a workm" where
  "wdb m = map_err (\<lambda>_. WDatabase) m"

section \<open>Claiming and reaping\<close>

definition REAPER_IDLE_SECONDS :: int where
  "REAPER_IDLE_SECONDS = 300"

datatype claim_outcome = Claimed uuid | AlreadyClaimed

definition same_tick :: "uuid \<Rightarrow> int \<Rightarrow> tick_row \<Rightarrow> bool" where
  "same_tick schedule_id tick_ts t = (tk_schedule_id t = schedule_id \<and> tk_ts t = tick_ts)"

text \<open>The unique key is the conflict target; the foreign and the primary key may reject the row.\<close>

definition claim_tick :: "uuid \<Rightarrow> int \<Rightarrow> string \<Rightarrow> uuid \<Rightarrow> int \<Rightarrow> (sched_db, claim_outcome) dbm" where
  "claim_tick schedule_id tick_ts claimed_by tick_id now = cstmt (\<lambda>d.
     if list_ex (same_tick schedule_id tick_ts) (ticks d) then Some (AlreadyClaimed, d)
     else if list_ex (\<lambda>t. tk_id t = tick_id) (ticks d) \<or> \<not> list_ex (\<lambda>s. sd_id s = schedule_id) (schedules d)
     then None
     else Some (Claimed tick_id, d\<lparr>ticks := ticks d @
       [\<lparr>tk_id = tick_id, tk_schedule_id = schedule_id, tk_ts = tick_ts, tk_status = ''claimed'',
         tk_claimed_by = Some claimed_by, tk_claimed_at = Some now, tk_completed_at = None,
         tk_error_message = None\<rparr>]\<rparr>))"

record reaped_tick =
  rt_tick_id :: uuid
  rt_schedule_id :: uuid
  rt_tick_ts :: int
  rt_project_id :: uuid
  rt_schedule_name :: string

definition orphaned :: "int \<Rightarrow> tick_row \<Rightarrow> bool" where
  "orphaned cutoff t =
     (tk_status t = ''claimed'' \<and> tk_completed_at t = None
      \<and> (case tk_claimed_at t of None \<Rightarrow> False | Some c \<Rightarrow> c < cutoff))"

definition reap_orphans :: "int \<Rightarrow> (sched_db, reaped_tick list) dbm" where
  "reap_orphans now =
     (let cutoff = now - REAPER_IDLE_SECONDS * 1000000 in
      stmt (\<lambda>d.
        (concat (map (\<lambda>t. map (\<lambda>s.
             \<lparr>rt_tick_id = tk_id t, rt_schedule_id = tk_schedule_id t, rt_tick_ts = tk_ts t,
              rt_project_id = sd_project_id s, rt_schedule_name = sd_name s\<rparr>)
           (filter (\<lambda>s. sd_id s = tk_schedule_id t) (schedules d))) (filter (orphaned cutoff) (ticks d))),
         d\<lparr>ticks := update_where (orphaned cutoff) (\<lambda>t. t\<lparr>tk_status := ''rolled_forward''\<rparr>) (ticks d)\<rparr>)))"

definition mark_tick :: "uuid \<Rightarrow> string \<Rightarrow> string option \<Rightarrow> int \<Rightarrow> (sched_db, unit) dbm" where
  "mark_tick tick_id status error_message now = exec (\<lambda>d.
     d\<lparr>ticks := update_where (\<lambda>t. tk_id t = tick_id)
       (\<lambda>t. t\<lparr>tk_status := status, tk_completed_at := Some now, tk_error_message := error_message\<rparr>) (ticks d)\<rparr>)"

section \<open>Due schedules\<close>

record due_schedule =
  du_schedule_id :: uuid
  du_project_id :: uuid
  du_name :: string
  du_cron :: string
  du_prompts :: "string list"
  du_providers :: "string list"
  du_tick_ts :: int

fun max_of :: "int list \<Rightarrow> int option" where
  "max_of [] = None"
| "max_of (x # xs) = Some (case max_of xs of None \<Rightarrow> x | Some y \<Rightarrow> max x y)"

definition last_tick_ts :: "uuid \<Rightarrow> tick_row list \<Rightarrow> int option" where
  "last_tick_ts sid ts = max_of (map tk_ts (filter (\<lambda>t. tk_schedule_id t = sid) ts))"

definition due_of :: "schedule_row \<Rightarrow> int \<Rightarrow> due_schedule" where
  "due_of s next_tick =
     \<lparr>du_schedule_id = sd_id s, du_project_id = sd_project_id s, du_name = sd_name s, du_cron = sd_cron s,
      du_prompts = json_strings (sd_prompts s), du_providers = json_strings (sd_providers s),
      du_tick_ts = next_tick\<rparr>"

fun collect_due :: "'tz chrono \<Rightarrow> int \<Rightarrow> (schedule_row \<times> int option) list \<Rightarrow> worker_error + due_schedule list" where
  "collect_due ch now [] = Inr []"
| "collect_due ch now ((s, last_tick) # rows) =
     (case next_tick_for ch (sd_cron s) (unwrap_or (sd_created_at s) last_tick) of
        None \<Rightarrow> Inl WPanicked
      | Some (Inl _) \<Rightarrow> collect_due ch now rows
      | Some (Inr next_tick) \<Rightarrow>
          if now < next_tick then collect_due ch now rows
          else rbind (collect_due ch now rows) (\<lambda>due. Inr (due_of s next_tick # due)))"

definition discover_due_schedules_scoped :: "'tz chrono \<Rightarrow> uuid option \<Rightarrow> int \<Rightarrow> due_schedule list workm" where
  "discover_due_schedules_scoped ch project_id now =
     dbind (wdb (query (\<lambda>d. map (\<lambda>s. (s, last_tick_ts (sd_id s) (ticks d)))
       (filter (\<lambda>s. \<not> sd_paused s \<and> (case project_id of None \<Rightarrow> True | Some p \<Rightarrow> sd_project_id s = p)) (schedules d)))))
       (\<lambda>rows. from_result (collect_due ch now rows))"

section \<open>Running one tick\<close>

text \<open>What running one tick draws from outside, and what all ticks of a worker share.\<close>

record tick_draws =
  td_tick_id :: uuid
  td_event_id :: uuid
  td_now :: int
  td_cells :: "nat \<Rightarrow> draws"
  td_panics :: "nat \<Rightarrow> string"

record 'tz worker_env =
  we_chrono :: "'tz chrono"
  we_digest :: digest
  we_registry :: registry
  we_claimed_by :: string

definition find_by_name :: "uuid \<Rightarrow> string \<Rightarrow> (sched_db, prompt_row option) dbm" where
  "find_by_name project_id name =
     query (\<lambda>d. find (\<lambda>p. pm_project_id p = project_id \<and> pm_name p = name) (prompt_rows d))"

text \<open>The prompt configurations, and the map from their names to the row ids.\<close>

fun resolve_prompts :: "uuid \<Rightarrow> string list \<Rightarrow> (prompt_config list \<times> (string \<times> uuid) list) workm" where
  "resolve_prompts project_id [] = ret ([], [])"
| "resolve_prompts project_id (name # names) =
     dbind (map_err WStorage (find_by_name project_id name)) (\<lambda>row.
     dbind (resolve_prompts project_id names) (\<lambda>(configs, ids). ret
       (case row of
          None \<Rightarrow> (configs, ids)
        | Some r \<Rightarrow> (\<lparr>pc_name = pm_name r, pc_text = pm_text r, pc_description = None\<rparr> # configs, ids @ [(pm_name r, pm_id r)]))))"

definition plain_provider :: "provider_name \<Rightarrow> provider_config" where
  "plain_provider name =
     \<lparr>vc_name = name, vc_model = None, vc_models = None, vc_timeout_seconds = DEFAULT_PROVIDER_TIMEOUT_SECONDS\<rparr>"

record provider_pick =
  pp_providers :: "provider_config list"
  pp_openrouter_models :: "string list"
  pp_openrouter_auto :: bool

fun pick_entries :: "registry \<Rightarrow> provider_pick \<Rightarrow> string list \<Rightarrow> provider_pick" where
  "pick_entries reg pick [] = pick"
| "pick_entries reg pick (entry # entries) =
     pick_entries reg
       (case strip_prefix ''openrouter:'' entry of
          Some m \<Rightarrow>
            (let model = str_trim m
             in if model \<noteq> [] \<and> model \<notin> set (pp_openrouter_models pick)
                then pick\<lparr>pp_openrouter_models := pp_openrouter_models pick @ [model]\<rparr> else pick)
        | None \<Rightarrow>
            (case provider_parse entry of
               None \<Rightarrow> pick
             | Some name \<Rightarrow>
                 if name = Openrouter then pick\<lparr>pp_openrouter_auto := True\<rparr>
                 else if map_of reg name \<noteq> None
                 then pick\<lparr>pp_providers := pp_providers pick @ [plain_provider name]\<rparr>
                 else pick)) entries"

definition pick_providers :: "registry \<Rightarrow> string list \<Rightarrow> provider_config list" where
  "pick_providers reg entries =
     (let pick = pick_entries reg \<lparr>pp_providers = [], pp_openrouter_models = [], pp_openrouter_auto = False\<rparr> entries
      in if (pp_openrouter_auto pick \<or> pp_openrouter_models pick \<noteq> []) \<and> map_of reg Openrouter \<noteq> None
         then pp_providers pick @ [(plain_provider Openrouter)
           \<lparr>vc_models := (if pp_openrouter_models pick = [] then None else Some (pp_openrouter_models pick))\<rparr>]
         else pp_providers pick)"

text \<open>The members of a JSON object are a map: the order does not matter.\<close>

definition tag_trigger :: "json \<Rightarrow> json" where
  "tag_trigger params =
     (case params of
        JObj ms \<Rightarrow> JObj ((''triggered_by'', JStr ''schedule'') # filter (\<lambda>m. fst m \<noteq> ''triggered_by'') ms)
      | _ \<Rightarrow> params)"

text \<open>The statement names no organisation, so the column default applies: the default one.\<close>

definition insert_scheduled_run :: "uuid \<Rightarrow> run_record \<Rightarrow> uuid \<Rightarrow> int \<Rightarrow> (sched_db, unit) dbm" where
  "insert_scheduled_run prompt_id r tick_id now = cstmt (\<lambda>d.
     if list_ex (\<lambda>x. ru_id x = pr_id r) (runs d) \<or> \<not> list_ex (\<lambda>p. pm_id p = prompt_id) (prompt_rows d)
        \<or> \<not> list_ex (\<lambda>t. tk_id t = tick_id) (ticks d) then None
     else Some ((), d\<lparr>runs := runs d @
       [\<lparr>ru_id = pr_id r, ru_prompt_id = prompt_id, ru_provider = as_wire_str (pr_provider r),
         ru_model_version = pr_model_version r, ru_region = pr_region r, ru_started_at = pr_started_at r,
         ru_finished_at = pr_finished_at r, ru_raw_response = pr_raw_response r,
         ru_request_parameters = tag_trigger (pr_request_parameters r), ru_status = status_wire_str (pr_status r),
         ru_error_kind = map_option kind_wire_str (pr_error_kind r), ru_schedule_tick_id = Some tick_id,
         ru_created_at = now, ru_org_id = default_org d\<rparr>]\<rparr>))"

fun persist_records ::
  "(string \<times> uuid) list \<Rightarrow> uuid \<Rightarrow> int \<Rightarrow> u32 \<times> u32 \<Rightarrow> run_record list \<Rightarrow> (u32 \<times> u32) workm" where
  "persist_records ids tick_id now (total_runs, failed_runs) [] = ret (total_runs, failed_runs)"
| "persist_records ids tick_id now (total_runs, failed_runs) (r # rs) =
     (case map_of ids (pr_prompt_name r) of
        None \<Rightarrow> persist_records ids tick_id now (total_runs, failed_runs) rs
      | Some prompt_id \<Rightarrow>
          dbind (wdb (insert_scheduled_run prompt_id r tick_id now)) (\<lambda>_.
            persist_records ids tick_id now
              (total_runs + 1, if pr_status r = RunFailed then failed_runs + 1 else failed_runs) rs))"

definition run_tick :: "'tz worker_env \<Rightarrow> config \<Rightarrow> tick_draws \<Rightarrow> due_schedule \<Rightarrow> uuid \<Rightarrow> (u32 \<times> u32) workm" where
  "run_tick env base_config td schedule tick_id =
     dbind (resolve_prompts (du_project_id schedule) (du_prompts schedule)) (\<lambda>(configs, ids).
       if configs = [] then ret (0, 0)
       else let providers = pick_providers (we_registry env) (du_providers schedule)
            in if providers = [] then ret (0, 0)
               else persist_records ids tick_id (td_now td) (0, 0)
                 (run_all (we_digest env) (base_config\<lparr>cfg_prompts := configs, cfg_providers := providers\<rparr>)
                    (we_registry env) (td_cells td) (td_panics td) default_filter))"

section \<open>Dispatch\<close>

definition payload_for :: "due_schedule \<Rightarrow> uuid \<Rightarrow> tick_draws \<Rightarrow> schedule_payload" where
  "payload_for d tick_id td =
     \<lparr>sp_event_id = td_event_id td, sp_project_id = du_project_id d, sp_schedule_id = du_schedule_id d,
      sp_schedule_name = du_name d, sp_tick_id = tick_id, sp_tick_ts = du_tick_ts d, sp_emitted_at = td_now td\<rparr>"

text \<open>\<open>match\<close> on a result instead of passing its error on.\<close>

definition attempt :: "('t, 'e, 'a) rm \<Rightarrow> ('t, 'e, 'e + 'a) rm" where
  "attempt m s = (case m s of (r, s') \<Rightarrow> (Inr r, s'))"

definition run_claimed ::
  "'tz worker_env \<Rightarrow> config \<Rightarrow> tick_draws \<Rightarrow> due_schedule \<Rightarrow> uuid \<Rightarrow> 'f lifecycle_event list workm" where
  "run_claimed env cfg td d tick_id =
     (let base = payload_for d tick_id td in
      dbind (attempt (run_tick env cfg td d tick_id)) (\<lambda>r. case r of
          Inr (total_runs, failed_runs) \<Rightarrow>
            dbind (wdb (mark_tick tick_id ''completed'' None (td_now td))) (\<lambda>_.
              ret [TickClaimed base, TickCompleted \<lparr>cp_base = base, cp_prompt_run_count = total_runs,
                cp_failed_run_count = failed_runs\<rparr>])
        | Inl err \<Rightarrow>
            dbind (wdb (mark_tick tick_id ''failed'' (Some (worker_error_str err)) (td_now td))) (\<lambda>_.
              ret [TickClaimed base, TickFailed \<lparr>fp_base = base, fp_error_message = worker_error_str err\<rparr>])))"

fun dispatch_all ::
  "'tz worker_env \<Rightarrow> config \<Rightarrow> (nat \<Rightarrow> tick_draws) \<Rightarrow> nat \<Rightarrow> due_schedule list \<Rightarrow> 'f lifecycle_event list workm" where
  "dispatch_all env cfg td i [] = ret []"
| "dispatch_all env cfg td i (d # ds) =
     dbind (wdb (claim_tick (du_schedule_id d) (du_tick_ts d) (we_claimed_by env) (td_tick_id (td i)) (td_now (td i))))
       (\<lambda>outcome. case outcome of
          AlreadyClaimed \<Rightarrow> dispatch_all env cfg td (Suc i) ds
        | Claimed tick_id \<Rightarrow>
            dbind (run_claimed env cfg (td i) d tick_id) (\<lambda>events.
            dbind (dispatch_all env cfg td (Suc i) ds) (\<lambda>rest. ret (events @ rest))))"

definition dispatch_due_schedules_scoped ::
  "'tz worker_env \<Rightarrow> config \<Rightarrow> (nat \<Rightarrow> tick_draws) \<Rightarrow> uuid option \<Rightarrow> int \<Rightarrow> 'f lifecycle_event list workm" where
  "dispatch_due_schedules_scoped env base_config td project_id now =
     dbind (discover_due_schedules_scoped (we_chrono env) project_id now) (dispatch_all env base_config td 0)"

record run_now_outcome =
  rn_tick_id :: uuid
  rn_prompt_run_count :: u32
  rn_failed_run_count :: u32

definition run_schedule_now ::
  "'tz worker_env \<Rightarrow> config \<Rightarrow> tick_draws \<Rightarrow> uuid \<Rightarrow> uuid \<Rightarrow> int \<Rightarrow> run_now_outcome option workm" where
  "run_schedule_now env base_config td schedule_id project_id now =
     dbind (wdb (query (\<lambda>d. find (\<lambda>s. sd_id s = schedule_id \<and> sd_project_id s = project_id) (schedules d)))) (\<lambda>row.
     case row of
       None \<Rightarrow> ret None
     | Some s \<Rightarrow>
         dbind (wdb (claim_tick schedule_id now (we_claimed_by env) (td_tick_id td) (td_now td))) (\<lambda>outcome.
         case outcome of
           AlreadyClaimed \<Rightarrow> raise WTickAlreadyClaimed
         | Claimed tick_id \<Rightarrow>
             dbind (attempt (run_tick env base_config td (due_of s now) tick_id)) (\<lambda>r. case r of
                 Inr (total_runs, failed_runs) \<Rightarrow>
                   dbind (wdb (mark_tick tick_id ''completed'' None (td_now td))) (\<lambda>_.
                     ret (Some \<lparr>rn_tick_id = tick_id, rn_prompt_run_count = total_runs,
                       rn_failed_run_count = failed_runs\<rparr>))
               | Inl e \<Rightarrow>
                   dbind (wdb (mark_tick tick_id ''failed'' (Some (worker_error_str e)) (td_now td))) (\<lambda>_. raise e))))"

section \<open>What running ticks may do to the tables\<close>

lemma steps_attempt: "steps R m \<Longrightarrow> steps R (attempt m)"
  by (rule stepsI) (auto simp: attempt_def split: prod.splits dest: stepsD)

lemma steps_Pair: "reflp R \<Longrightarrow> steps R (Pair (Inr a))"
  by (auto simp: steps_def dest: reflpD)

lemma steps_wdb: "steps R m \<Longrightarrow> steps R (wdb m)"
  by (simp add: wdb_def steps_map_err)

lemma steps_case_sum:
  "(\<And>e. x = Inl e \<Longrightarrow> steps R (f e)) \<Longrightarrow> (\<And>a. x = Inr a \<Longrightarrow> steps R (g a)) \<Longrightarrow> steps R (case x of Inl e \<Rightarrow> f e | Inr a \<Rightarrow> g a)"
  by (cases x) simp_all

lemma steps_case_outcome:
  "(\<And>i. x = Claimed i \<Longrightarrow> steps R (f i)) \<Longrightarrow> (x = AlreadyClaimed \<Longrightarrow> steps R g) \<Longrightarrow>
    steps R (case x of Claimed i \<Rightarrow> f i | AlreadyClaimed \<Rightarrow> g)"
  by (cases x) simp_all

text \<open>
  A relation between tables that the insertion of a run respects is respected by running a tick;
  one that claiming and marking respect too, by all that a worker does with schedules.
\<close>

locale run_relation =
  fixes R :: "sched_db \<Rightarrow> sched_db \<Rightarrow> bool"
  assumes refl: "reflp R" and trans: "transp R"
    and insert_run: "steps R (insert_scheduled_run pid r tid now)"
begin

lemma resolve: "steps R (resolve_prompts project_id names)"
  by (induction names)
    (auto simp: find_by_name_def intro!: steps_rules steps_split steps_Pair refl trans)

lemma persist: "steps R (persist_records ids tid now c rs)"
  by (induction ids tid now c rs rule: persist_records.induct)
    (auto intro!: steps_rules steps_split steps_Pair steps_wdb insert_run refl trans)

lemma run_tick: "steps R (run_tick env cfg td d tid)"
  unfolding run_tick_def Let_def
  by (intro steps_rules steps_split resolve persist refl trans)

end

locale tick_relation = run_relation +
  assumes claim: "steps R (claim_tick sid ts by_worker tid now)"
    and mark: "steps R (mark_tick tid status msg now)"
begin

lemma run_claimed: "steps R (run_claimed env cfg td d tid)"
  unfolding run_claimed_def Let_def
  by (intro steps_rules steps_split steps_case_sum steps_attempt steps_wdb run_tick mark refl trans)

lemma dispatch_all: "steps R (dispatch_all env cfg td i ds)"
  by (induction ds arbitrary: i)
    (auto intro!: steps_rules steps_Pair steps_case_outcome steps_wdb claim run_claimed refl trans)

lemma dispatch: "steps R (dispatch_due_schedules_scoped env cfg td project_id now)"
  unfolding dispatch_due_schedules_scoped_def discover_due_schedules_scoped_def
  by (intro steps_rules steps_wdb dispatch_all refl trans)

lemma run_now: "steps R (run_schedule_now env cfg td sid project_id now)"
  unfolding run_schedule_now_def
  by (intro steps_rules steps_split steps_case_sum steps_case_outcome steps_attempt steps_wdb run_tick claim mark
      refl trans)

end

text \<open>Ticks, once recorded, stay; and the runs of other organisations are left alone.\<close>

definition recorded :: "sched_db \<Rightarrow> (uuid \<times> int) set" where
  "recorded d = (\<lambda>t. (tk_schedule_id t, tk_ts t)) ` set (ticks d)"

definition ticks_grow :: "sched_db \<Rightarrow> sched_db \<Rightarrow> bool" where
  "ticks_grow d d' = (recorded d \<subseteq> recorded d' \<and> schedules d' = schedules d \<and> prompt_rows d' = prompt_rows d)"

definition other_orgs_same :: "sched_db \<Rightarrow> sched_db \<Rightarrow> bool" where
  "other_orgs_same d d' =
     (default_org d' = default_org d \<and> org_plans d' = org_plans d
      \<and> (\<forall>org. org \<noteq> default_org d \<longrightarrow>
          filter (\<lambda>r. ru_org_id r = org) (runs d') = filter (\<lambda>r. ru_org_id r = org) (runs d)))"

lemma recorded_iff: "(sid, ts) \<in> recorded d \<longleftrightarrow> list_ex (same_tick sid ts) (ticks d)"
  by (auto simp: recorded_def list_ex_iff same_tick_def)

lemma recorded_mark [simp]:
  "recorded (d\<lparr>ticks := update_where p (\<lambda>t. t\<lparr>tk_status := a, tk_completed_at := b, tk_error_message := c\<rparr>) (ticks d)\<rparr>)
    = recorded d"
  "recorded (d\<lparr>ticks := update_where p (\<lambda>t. t\<lparr>tk_status := a\<rparr>) (ticks d)\<rparr>) = recorded d"
  by (simp_all add: recorded_def map_update_where flip: set_map)

interpretation growing: tick_relation ticks_grow
proof
  show "reflp ticks_grow" "transp ticks_grow"
    by (auto simp: reflp_def transp_def ticks_grow_def)
  show "steps ticks_grow (claim_tick sid ts by_worker tid now)" for sid ts by_worker tid now
    unfolding claim_tick_def using \<open>reflp ticks_grow\<close>
    by (rule steps_cstmt) (auto simp: ticks_grow_def recorded_def split: if_splits)
  show "steps ticks_grow (mark_tick tid status msg now)" for tid status msg now
    unfolding mark_tick_def using \<open>reflp ticks_grow\<close>
    by (rule steps_exec) (simp add: ticks_grow_def)
  show "steps ticks_grow (insert_scheduled_run pid r tid now)" for pid r tid now
    unfolding insert_scheduled_run_def using \<open>reflp ticks_grow\<close>
    by (rule steps_cstmt) (auto simp: ticks_grow_def recorded_def split: if_splits)
qed

interpretation tenants: tick_relation other_orgs_same
proof
  show "reflp other_orgs_same" "transp other_orgs_same"
    by (auto simp: reflp_def transp_def other_orgs_same_def)
  show "steps other_orgs_same (claim_tick sid ts by_worker tid now)" for sid ts by_worker tid now
    unfolding claim_tick_def using \<open>reflp other_orgs_same\<close>
    by (rule steps_cstmt) (auto simp: other_orgs_same_def split: if_splits)
  show "steps other_orgs_same (mark_tick tid status msg now)" for tid status msg now
    unfolding mark_tick_def using \<open>reflp other_orgs_same\<close>
    by (rule steps_exec) (simp add: other_orgs_same_def)
  show "steps other_orgs_same (insert_scheduled_run pid r tid now)" for pid r tid now
    unfolding insert_scheduled_run_def using \<open>reflp other_orgs_same\<close>
    by (rule steps_cstmt) (auto simp: other_orgs_same_def split: if_splits)
qed

definition same_ticks :: "sched_db \<Rightarrow> sched_db \<Rightarrow> bool" where
  "same_ticks d d' = (ticks d' = ticks d)"

interpretation within: run_relation same_ticks
proof
  show "reflp same_ticks" "transp same_ticks"
    by (auto simp: reflp_def transp_def same_ticks_def)
  show "steps same_ticks (insert_scheduled_run pid r tid now)" for pid r tid now
    unfolding insert_scheduled_run_def using \<open>reflp same_ticks\<close>
    by (rule steps_cstmt) (auto simp: same_ticks_def split: if_splits)
qed

end
