(* ===== verification/Locks.thy ===== *)
theory Locks
  imports Ticks
begin

text \<open>
  The tick table as a set of locks. Every statement by which workers, the reaper, operators and the
  API touch the schedule tables is an operation; whatever their interleaving and their failures,
  the tables stay well formed, the tick table refines an abstract set of claimed keys, and a tick is
  claimed at most once.
\<close>

section \<open>At most once\<close>

text \<open>
  Every statement by which workers, operators and the API touch the ticks; the first component of
  a step tells whether it was a claim that won.
\<close>

datatype tick_op =
    OpClaim uuid int string uuid int
  | OpMark uuid string "string option" int
  | OpReap int
  | OpInsertRun uuid run_record uuid int
  | OpInsertSchedule schedule_row
  | OpUpdateSchedule int uuid uuid "bool option" "bool option"
  | OpDeleteSchedule uuid uuid

primrec op_step :: "tick_op \<Rightarrow> sched_db conn \<Rightarrow> bool \<times> sched_db conn" where
  "op_step (OpClaim sid ts by_worker tid now) s =
     (case claim_tick sid ts by_worker tid now s of
        (Inr (Claimed _), s') \<Rightarrow> (True, s') | (_, s') \<Rightarrow> (False, s'))"
| "op_step (OpMark tid status msg now) s = (False, snd (mark_tick tid status msg now s))"
| "op_step (OpReap now) s = (False, snd (reap_orphans now s))"
| "op_step (OpInsertRun pid r tid now) s = (False, snd (insert_scheduled_run pid r tid now s))"
| "op_step (OpInsertSchedule row) s = (False, snd (insert_schedule row s))"
| "op_step (OpUpdateSchedule now p sid paused ack) s = (False, snd (update_schedule now p sid paused ack s))"
| "op_step (OpDeleteSchedule p sid) s = (False, snd (delete_schedule p sid s))"

fun claims_key :: "uuid \<Rightarrow> int \<Rightarrow> tick_op \<Rightarrow> bool" where
  "claims_key sid ts (OpClaim s t _ _ _) = (s = sid \<and> t = ts)"
| "claims_key sid ts _ = False"

fun wins :: "uuid \<Rightarrow> int \<Rightarrow> tick_op list \<Rightarrow> sched_db conn \<Rightarrow> nat" where
  "wins sid ts [] s = 0"
| "wins sid ts (op # ops) s =
     (case op_step op s of (won, s') \<Rightarrow> (if won \<and> claims_key sid ts op then 1 else 0) + wins sid ts ops s')"

definition keeps :: "uuid \<times> int \<Rightarrow> sched_db \<Rightarrow> sched_db \<Rightarrow> bool" where
  "keeps key d d' = (key \<in> recorded d \<longrightarrow> key \<in> recorded d')"

lemma keeps_rel [simp, intro]: "reflp (keeps key)" "transp (keeps key)"
  by (auto simp: reflp_def transp_def keeps_def)

lemma steps_weaken: "steps R m \<Longrightarrow> (\<And>d d'. R d d' \<Longrightarrow> R' d d') \<Longrightarrow> steps R' m"
  by (auto simp: steps_def)

lemma steps_internal: "steps R m \<Longrightarrow> steps R (internal m)"
  by (simp add: internal_def steps_map_err)

lemma recorded_cong: "ticks d' = ticks d \<Longrightarrow> recorded d' = recorded d"
  by (simp add: recorded_def)

lemma keeps_reap: "steps (keeps key) (reap_orphans now)"
  unfolding reap_orphans_def Let_def by (rule steps_stmt) (auto simp: keeps_def)

lemma keeps_fetch: "steps (keeps key) (fetch_schedules p i)"
  unfolding fetch_schedules_def by (intro steps_internal steps_query keeps_rel)

lemma keeps_insert_schedule: "steps (keeps key) (insert_schedule row)"
  unfolding insert_schedule_def by (rule steps_stmt) (auto simp: keeps_def recorded_def)

lemma keeps_update: "steps (keeps key) (update_schedule now p sid paused ack)"
  unfolding update_schedule_def
  by (intro steps_rules steps_split steps_internal keeps_fetch keeps_rel)
    (auto simp: keeps_def recorded_def Let_def)

lemma keeps_delete: "sid' \<noteq> sid \<Longrightarrow> steps (keeps (sid, ts)) (delete_schedule p sid')"
  unfolding delete_schedule_def
  by (intro steps_rules steps_split steps_internal keeps_rel) (auto simp: keeps_def recorded_def Let_def)

lemma keeps_of_grow: "steps ticks_grow m \<Longrightarrow> steps (keeps key) m"
  by (erule steps_weaken) (auto simp: ticks_grow_def keeps_def)

lemma op_step_keeps:
  assumes "\<forall>p. op \<noteq> OpDeleteSchedule p sid" and "(sid, ts) \<in> recorded (snd s)"
  shows "(sid, ts) \<in> recorded (snd (snd (op_step op s)))"
proof -
  have run: "(sid, ts) \<in> recorded (snd (snd (m s)))" if "steps (keeps (sid, ts)) m" for m :: "(sched_db, 'e, 'a) rm"
    using that assms(2) by (cases s; cases "m s") (auto simp: keeps_def dest: stepsD)
  show ?thesis
  proof (cases op)
    case (OpClaim sid' ts' w i n)
    have "snd (op_step op s) = snd (claim_tick sid' ts' w i n s)"
      by (auto simp: OpClaim split: prod.splits sum.splits claim_outcome.splits)
    with run [OF keeps_of_grow [OF growing.claim]] show ?thesis by simp
  qed (use assms(1) in \<open>simp_all add: run keeps_of_grow growing.mark growing.insert_run keeps_reap
      keeps_insert_schedule keeps_update keeps_delete\<close>)
qed

lemma claim_recorded:
  "(sid, ts) \<in> recorded (snd s) \<Longrightarrow> claims_key sid ts op \<Longrightarrow> \<not> fst (op_step op s)"
  by (cases op) (auto simp: recorded_iff claim_tick_def cstmt_def stmt_def
      split: list.splits if_splits sum.splits option.splits)

lemma claim_wins_recorded:
  "fst (op_step op s) \<Longrightarrow> claims_key sid ts op \<Longrightarrow> (sid, ts) \<in> recorded (snd (snd (op_step op s)))"
  by (cases op) (auto simp: recorded_def claim_tick_def cstmt_def stmt_def
      split: list.splits if_splits sum.splits option.splits)

lemma no_wins_recorded:
  assumes "\<forall>p. OpDeleteSchedule p sid \<notin> set ops" and "(sid, ts) \<in> recorded (snd s)"
  shows "wins sid ts ops s = 0"
  using assms
proof (induction ops arbitrary: s)
  case (Cons op ops)
  obtain won s' where step: "op_step op s = (won, s')" by (cases "op_step op s")
  have "(sid, ts) \<in> recorded (snd s')"
    using op_step_keeps [of op sid ts s] Cons.prems step by auto
  then have "wins sid ts ops s' = 0" using Cons by simp
  moreover have "\<not> (won \<and> claims_key sid ts op)"
    using claim_recorded [OF Cons.prems(2), of op] step by auto
  ultimately show ?case by (simp add: step)
qed simp

text \<open>
  C2 (safety). A tick is run at most once: however the statements of any number of workers, of the
  reaper and of the API interleave and whichever of them fail, at most one claim of a schedule's
  tick wins as long as the schedule is not deleted, and none once the tick is recorded.
\<close>

theorem tick_claimed_at_most_once:
  assumes "\<forall>p. OpDeleteSchedule p sid \<notin> set ops"
  shows "wins sid ts ops s \<le> 1 \<and> ((sid, ts) \<in> recorded (snd s) \<longrightarrow> wins sid ts ops s = 0)"
  using assms
proof (induction ops arbitrary: s)
  case (Cons op ops)
  obtain won s' where step: "op_step op s = (won, s')" by (cases "op_step op s")
  show ?case
  proof (cases "won \<and> claims_key sid ts op")
    case True
    then have "(sid, ts) \<in> recorded (snd s')" using claim_wins_recorded [of op s] step by simp
    then have "wins sid ts ops s' = 0" using Cons.prems by (intro no_wins_recorded) auto
    moreover have "(sid, ts) \<notin> recorded (snd s)"
      using True claim_recorded [of sid ts s op] step by auto
    ultimately show ?thesis using True by (simp add: step)
  next
    case False
    then have "wins sid ts (op # ops) s = wins sid ts ops s'" by (auto simp: step)
    moreover have "wins sid ts ops s' \<le> 1" using Cons by simp
    moreover have "(sid, ts) \<in> recorded (snd s) \<longrightarrow> wins sid ts (op # ops) s = 0"
      using no_wins_recorded [OF Cons.prems, of ts s] by blast
    ultimately show ?thesis by metis
  qed
qed simp

theorem tick_claimed_at_most_once_witness:
  "wins 1 60 [OpClaim 1 60 ''a'' 7 0, OpReap 1000000000, OpClaim 1 60 ''b'' 8 0]
    ([], \<lparr>schedules = [], ticks = [], runs = [], prompt_rows = [], projects = [], org_plans = [], org_audit = [],
      default_org = 0\<rparr>) \<le> 1"
  using tick_claimed_at_most_once [of 1 "[OpClaim 1 60 ''a'' 7 0, OpReap 1000000000, OpClaim 1 60 ''b'' 8 0]" 60]
  by auto

section \<open>The tables stay well formed\<close>

text \<open>The constraints of the migrations: keys are unique and references resolve.\<close>

definition refs_in :: "('a \<Rightarrow> 'k) \<Rightarrow> 'a list \<Rightarrow> ('b \<Rightarrow> 'k) \<Rightarrow> 'b list \<Rightarrow> bool" where
  "refs_in f xs g ys = list_all (\<lambda>x. list_ex (\<lambda>y. g y = f x) ys) xs"

definition linked :: "run_row list \<Rightarrow> run_row list" where
  "linked rs = filter (\<lambda>r. ru_schedule_tick_id r \<noteq> None) rs"

definition schema_ok :: "sched_db \<Rightarrow> bool" where
  "schema_ok d =
     (distinct (map sd_id (schedules d)) \<and> distinct (map (\<lambda>s. (sd_project_id s, sd_name s)) (schedules d))
      \<and> distinct (map tk_id (ticks d)) \<and> distinct (map (\<lambda>t. (tk_schedule_id t, tk_ts t)) (ticks d))
      \<and> distinct (map ru_id (runs d))
      \<and> refs_in sd_project_id (schedules d) pj_id (projects d)
      \<and> refs_in tk_schedule_id (ticks d) sd_id (schedules d)
      \<and> refs_in ru_prompt_id (runs d) pm_id (prompt_rows d)
      \<and> refs_in ru_schedule_tick_id (linked (runs d)) (\<lambda>t. Some (tk_id t)) (ticks d))"

lemma map_update_where_same: "(\<And>r. g (f r) = g r) \<Longrightarrow> map g (update_where p f rows) = map g rows"
  by (rule map_update_where) simp

lemma refs_in_image: "refs_in f xs g ys \<longleftrightarrow> set (map f xs) \<subseteq> set (map g ys)"
  by (force simp: refs_in_def list_all_iff list_ex_iff image_iff subset_iff)

lemma refs_in_update:
  "(\<And>r. f (u r) = f r) \<Longrightarrow> refs_in f (update_where p u xs) g ys = refs_in f xs g ys"
  "(\<And>r. g (v r) = g r) \<Longrightarrow> refs_in f xs g (update_where q v ys) = refs_in f xs g ys"
  unfolding refs_in_image by (simp_all only: map_update_where_same)

lemma refs_in_append:
  "refs_in f (xs @ [x]) g ys \<longleftrightarrow> refs_in f xs g ys \<and> list_ex (\<lambda>y. g y = f x) ys"
  by (auto simp: refs_in_def)

lemma refs_in_mono:
  "refs_in f xs g ys \<Longrightarrow> refs_in f xs g (ys @ zs)"
  "refs_in f xs g ys \<Longrightarrow> refs_in f (filter p xs) g ys"
  by (auto simp: refs_in_def list_all_iff list_ex_iff)

lemma linked_append [simp]: "linked (rs @ [r]) = linked rs @ (if ru_schedule_tick_id r = None then [] else [r])"
  by (simp add: linked_def)

lemma ex_key: "list_ex (\<lambda>x. f x = k) xs \<longleftrightarrow> k \<in> f ` set xs"
  by (auto simp: list_ex_iff)

lemma insert_keys:
  "list_ex (\<lambda>s. sd_id s = i \<or> sd_project_id s = p \<and> sd_name s = n) ss \<longleftrightarrow>
    i \<in> sd_id ` set ss \<or> (p, n) \<in> (\<lambda>s. (sd_project_id s, sd_name s)) ` set ss"
  by (auto simp: list_ex_iff)

lemmas schema_simps = preserve_def schema_ok_def map_update_where_same refs_in_update refs_in_append refs_in_mono

lemma schema_claim: "steps (preserve schema_ok) (claim_tick sid ts w i n)"
  unfolding claim_tick_def recorded_iff [symmetric] recorded_def
  by (rule steps_cstmt) (auto simp: schema_simps ex_key [of tk_id] split: if_splits)

lemma schema_mark: "steps (preserve schema_ok) (mark_tick i st msg n)"
  unfolding mark_tick_def by (rule steps_exec) (simp_all add: schema_simps)

lemma schema_reap: "steps (preserve schema_ok) (reap_orphans n)"
  unfolding reap_orphans_def Let_def by (rule steps_stmt) (simp_all add: schema_simps)

lemma schema_run: "steps (preserve schema_ok) (insert_scheduled_run pid r tid n)"
  unfolding insert_scheduled_run_def
  by (rule steps_cstmt) (auto simp: schema_simps ex_key [of ru_id] split: if_splits)

lemma schema_insert: "steps (preserve schema_ok) (insert_schedule row)"
  unfolding insert_schedule_def insert_keys
  by (rule steps_stmt) (auto simp: schema_simps split: if_splits)

lemma schema_fetch: "steps (preserve schema_ok) (fetch_schedules p i)"
  unfolding fetch_schedules_def by (intro steps_internal steps_query) simp

lemma schema_update: "steps (preserve schema_ok) (update_schedule now p sid paused ack)"
  unfolding update_schedule_def Let_def
  by (intro steps_rules steps_split steps_internal schema_fetch reflp_preserve transp_preserve)
    (simp_all add: schema_simps)

lemma schema_delete_row:
  fixes hit :: "schedule_row \<Rightarrow> bool" and d :: sched_db
  defines "gone \<equiv> map sd_id (filter hit (schedules d))"
  defines "dead \<equiv> map tk_id (filter (\<lambda>t. tk_schedule_id t \<in> set gone) (ticks d))"
  assumes ok: "schema_ok d"
  shows "schema_ok (d\<lparr>schedules := filter (\<lambda>s. \<not> hit s) (schedules d),
    ticks := filter (\<lambda>t. tk_schedule_id t \<notin> set gone) (ticks d),
    runs := update_where (\<lambda>r. case ru_schedule_tick_id r of None \<Rightarrow> False | Some t \<Rightarrow> t \<in> set dead)
      (\<lambda>r. r\<lparr>ru_schedule_tick_id := None\<rparr>) (runs d)\<rparr>)"
proof -
  have "refs_in tk_schedule_id (filter (\<lambda>t. tk_schedule_id t \<notin> set gone) (ticks d)) sd_id
      (filter (\<lambda>s. \<not> hit s) (schedules d))"
    unfolding refs_in_def list_all_iff
  proof
    fix t
    assume t: "t \<in> set (filter (\<lambda>t. tk_schedule_id t \<notin> set gone) (ticks d))"
    with ok obtain s where "s \<in> set (schedules d)" "sd_id s = tk_schedule_id t"
      by (auto simp: schema_ok_def refs_in_def list_all_iff list_ex_iff)
    with t show "list_ex (\<lambda>s. sd_id s = tk_schedule_id t) (filter (\<lambda>s. \<not> hit s) (schedules d))"
      by (force simp: gone_def list_ex_iff)
  qed
  moreover have "refs_in ru_schedule_tick_id (linked (update_where (\<lambda>r. case ru_schedule_tick_id r of None \<Rightarrow> False
      | Some t \<Rightarrow> t \<in> set dead) (\<lambda>r. r\<lparr>ru_schedule_tick_id := None\<rparr>) (runs d))) (\<lambda>t. Some (tk_id t))
      (filter (\<lambda>t. tk_schedule_id t \<notin> set gone) (ticks d))"
    unfolding refs_in_def list_all_iff
  proof
    fix r
    assume "r \<in> set (linked (update_where (\<lambda>r. case ru_schedule_tick_id r of None \<Rightarrow> False
      | Some t \<Rightarrow> t \<in> set dead) (\<lambda>r. r\<lparr>ru_schedule_tick_id := None\<rparr>) (runs d)))"
    then obtain i where r: "ru_schedule_tick_id r = Some i" "i \<notin> set dead" "r \<in> set (linked (runs d))"
      by (auto simp: linked_def set_update_where split: if_splits option.splits)
    with ok obtain t where "t \<in> set (ticks d)" "tk_id t = i"
      by (auto simp: schema_ok_def refs_in_def list_all_iff list_ex_iff)
    with r(1,2) show "list_ex (\<lambda>t. Some (tk_id t) = ru_schedule_tick_id r)
        (filter (\<lambda>t. tk_schedule_id t \<notin> set gone) (ticks d))"
      by (auto simp: dead_def list_ex_iff)
  qed
  ultimately show ?thesis
    using ok by (simp add: schema_simps distinct_map_filter)
qed

lemma schema_delete: "steps (preserve schema_ok) (delete_schedule p sid)"
  unfolding delete_schedule_def Let_def
  by (intro steps_rules steps_split steps_internal reflp_preserve transp_preserve,
      unfold preserve_def snd_conv, intro impI schema_delete_row)

fun ops_run :: "tick_op list \<Rightarrow> sched_db conn \<Rightarrow> sched_db conn" where
  "ops_run [] s = s"
| "ops_run (op # ops) s = ops_run ops (snd (op_step op s))"

lemma op_step_rel:
  assumes "\<And>sid ts w i n. steps R (claim_tick sid ts w i n)" "\<And>i st msg n. steps R (mark_tick i st msg n)"
    "\<And>n. steps R (reap_orphans n)" "\<And>pid r tid n. steps R (insert_scheduled_run pid r tid n)"
    "\<And>row. steps R (insert_schedule row)" "\<And>n p sid a b. steps R (update_schedule n p sid a b)"
    "\<And>p sid. op = OpDeleteSchedule p sid \<Longrightarrow> steps R (delete_schedule p sid)"
  shows "R (snd s) (snd (snd (op_step op s)))"
proof -
  have run: "R (snd s) (snd (snd (m s)))" if "steps R m" for m :: "(sched_db, 'e, 'a) rm"
    using that by (cases s; cases "m s") (auto dest: stepsD)
  show ?thesis
  proof (cases op)
    case (OpClaim sid' ts' w i n)
    have "snd (op_step op s) = snd (claim_tick sid' ts' w i n s)"
      by (auto simp: OpClaim split: prod.splits sum.splits claim_outcome.splits)
    with run [OF assms(1)] show ?thesis by simp
  qed (simp_all add: run assms)
qed

lemma op_step_schema: "preserve schema_ok (snd s) (snd (snd (op_step op s)))"
  by (rule op_step_rel) (rule schema_claim schema_mark schema_reap schema_run schema_insert schema_update schema_delete)+


section \<open>The tick table is a set of locks\<close>

text \<open>
  The abstract claim set: a claim wins and adds its key when the key is not held; deleting a
  schedule frees its keys; nothing else changes the set.
\<close>

inductive lock_step :: "tick_op \<Rightarrow> bool \<Rightarrow> (uuid \<times> int) set \<Rightarrow> (uuid \<times> int) set \<Rightarrow> bool" where
  acquire: "(sid, ts) \<notin> A \<Longrightarrow> lock_step (OpClaim sid ts w i n) True A (insert (sid, ts) A)"
| busy: "lock_step (OpClaim sid ts w i n) False A A"
| release: "lock_step (OpDeleteSchedule p sid) False A {k \<in> A. fst k \<noteq> sid}"
| skip: "\<forall>sid ts w i n. op \<noteq> OpClaim sid ts w i n \<Longrightarrow> lock_step op False A A"

inductive_simps lock_step_claim: "lock_step (OpClaim sid ts w i n) won A B"

definition same_locks :: "sched_db \<Rightarrow> sched_db \<Rightarrow> bool" where
  "same_locks d d' = (recorded d' = recorded d)"

lemma same_locks_rel [simp, intro]: "reflp same_locks" "transp same_locks"
  by (auto simp: reflp_def transp_def same_locks_def)

lemma locks_runs: "steps same_locks (insert_scheduled_run pid r tid n)"
  unfolding insert_scheduled_run_def by (rule steps_cstmt) (auto simp: same_locks_def recorded_def split: if_splits)

lemma locks_fetch: "steps same_locks (fetch_schedules p i)"
  unfolding fetch_schedules_def by (intro steps_internal steps_query) simp

lemma locks_same:
  "steps same_locks (mark_tick i st msg n)" "steps same_locks (reap_orphans n)"
  "steps same_locks (insert_schedule row)" "steps same_locks (update_schedule n p sid a b)"
  unfolding mark_tick_def reap_orphans_def insert_schedule_def update_schedule_def Let_def
  by (intro steps_rules steps_split steps_internal locks_fetch same_locks_rel;
      simp add: same_locks_def recorded_def map_update_where_same flip: set_map)+

lemma delete_locks:
  assumes "delete_schedule p sid (fs, d) = (r, (fs', d'))"
  shows "recorded d' = recorded d \<or> recorded d' = {k \<in> recorded d. fst k \<noteq> sid}"
proof -
  let ?gone = "map sd_id (filter (\<lambda>s. sd_id s = sid \<and> sd_project_id s = p) (schedules d))"
  have "ticks d' = ticks d \<or> ticks d' = filter (\<lambda>t. tk_schedule_id t \<notin> set ?gone) (ticks d)"
    using assms by (auto simp: delete_schedule_def dbind_def internal_def map_err_def stmt_def Let_def
        split: prod.splits sum.splits list.splits if_splits)
  moreover have "set ?gone = {} \<or> set ?gone = {sid}" by auto
  ultimately have "ticks d' = ticks d \<or> ticks d' = filter (\<lambda>t. tk_schedule_id t \<noteq> sid) (ticks d)"
    by (elim disjE) simp_all
  then show ?thesis by (auto simp: recorded_def)
qed

lemma claim_locks:
  "claim_tick sid ts w i n (fs, d) = (r, (fs', d')) \<Longrightarrow>
    lock_step (OpClaim sid ts w i n) (\<exists>j. r = Inr (Claimed j)) (recorded d) (recorded d')"
  by (auto simp: claim_tick_def cstmt_def stmt_def recorded_iff [symmetric] lock_step_claim
      recorded_def split: list.splits if_splits sum.splits option.splits)

text \<open>
  C10 (refinement). The tick table implements a set of locks keyed by schedule and instant: every
  statement, whether it succeeds or fails, is a step of the lock set, and a claim that the database
  carries out wins exactly when its key is free.
\<close>

theorem tick_table_refines_locks:
  "lock_step op (fst (op_step op s)) (recorded (snd s)) (recorded (snd (snd (op_step op s))))
  \<and> (list_ex (\<lambda>x. sd_id x = sid) (schedules d) \<and> \<not> list_ex (\<lambda>t. tk_id t = i) (ticks d)
      \<longrightarrow> fst (op_step (OpClaim sid ts w i n) ([], d)) = ((sid, ts) \<notin> recorded d))"
proof
  obtain fs d0 where s: "s = (fs, d0)" by force
  have same: "recorded (snd (snd (m s))) = recorded d0" if "steps same_locks m" for m :: "(sched_db, 'e, 'a) rm"
    using that unfolding s by (cases "m (fs, d0)") (auto simp: same_locks_def dest: stepsD)
  show "lock_step op (fst (op_step op s)) (recorded (snd s)) (recorded (snd (snd (op_step op s))))"
  proof (cases op)
    case (OpClaim sid ts w i n)
    obtain r fs' d' where run: "claim_tick sid ts w i n s = (r, (fs', d'))" by (metis surj_pair)
    then have "op_step op s = ((\<exists>j. r = Inr (Claimed j)), (fs', d'))"
      by (auto simp: OpClaim split: sum.splits claim_outcome.splits)
    then show ?thesis using claim_locks [OF run [unfolded s]] by (simp add: OpClaim s)
  next
    case (OpDeleteSchedule p sid)
    obtain r fs' d' where run: "delete_schedule p sid (fs, d0) = (r, (fs', d'))" by (metis surj_pair)
    from delete_locks [OF run] run show ?thesis
      by (auto simp: OpDeleteSchedule s intro: lock_step.release lock_step.skip)
  qed (simp_all add: s same [unfolded s] locks_same locks_runs lock_step.skip)
  show "list_ex (\<lambda>x. sd_id x = sid) (schedules d) \<and> \<not> list_ex (\<lambda>t. tk_id t = i) (ticks d)
      \<longrightarrow> fst (op_step (OpClaim sid ts w i n) ([], d)) = ((sid, ts) \<notin> recorded d)"
    by (simp add: claim_tick_def recorded_iff)
qed

definition ex_tables :: sched_db where
  "ex_tables = \<lparr>schedules = [\<lparr>sd_id = 1, sd_project_id = 5, sd_name = ''s'', sd_cron = ''hourly'', sd_prompts = JArr [],
     sd_providers = JArr [], sd_debounce_minutes = 0, sd_projected_monthly_usd = None, sd_acknowledged_at = None,
     sd_paused = False, sd_created_at = 0\<rparr>], ticks = [], runs = [], prompt_rows = [], projects = [\<lparr>pj_id = 5,
     pj_name = ''b'', pj_variants = [], pj_competitors = JNull, pj_organization_id = None, pj_archived = False,
     pj_created_at = 0\<rparr>], org_plans = [], org_audit = [], default_org = 0\<rparr>"

lemma ex_tables_ok: "schema_ok ex_tables"
  by (simp add: ex_tables_def schema_ok_def refs_in_def linked_def)

theorem tick_table_refines_locks_witness:
  "fst (op_step (OpClaim 1 60 ''w'' 7 0) ([], ex_tables))"
  using tick_table_refines_locks [of "OpReap 0" "([], ex_tables)" 1 ex_tables 7 60 "''w''" 0]
  by (simp add: ex_tables_def recorded_def)


end
