(* ===== verification/Dispatch.thy ===== *)
theory Dispatch
  imports Locks
begin

text \<open>
  What a dispatch does: the events it returns against the ticks it leaves, what a fault between
  two ticks and a reaper meeting a slow tick cost, and the runs a tick persists.
\<close>

section \<open>What a dispatch returns\<close>

fun paired :: "'f lifecycle_event list \<Rightarrow> bool" where
  "paired [] = True"
| "paired (TickClaimed b # TickCompleted c # es) = (cp_base c = b \<and> paired es)"
| "paired (TickClaimed b # TickFailed f # es) = (fp_base f = b \<and> paired es)"
| "paired _ = False"

fun claimed_bases :: "'f lifecycle_event list \<Rightarrow> schedule_payload list" where
  "claimed_bases [] = []"
| "claimed_bases (TickClaimed b # es) = b # claimed_bases es"
| "claimed_bases (_ # es) = claimed_bases es"

definition base_key :: "schedule_payload \<Rightarrow> uuid \<times> int" where
  "base_key b = (sp_schedule_id b, sp_tick_ts b)"

definition settled :: "sched_db \<Rightarrow> schedule_payload \<Rightarrow> bool" where
  "settled d b = list_ex (\<lambda>t. tk_id t = sp_tick_id b \<and> same_tick (sp_schedule_id b) (sp_tick_ts b) t
     \<and> (tk_status t = ''completed'' \<or> tk_status t = ''failed'')) (ticks d)"

lemma settled_mono: "settled d b \<Longrightarrow> set (ticks d) \<subseteq> set (ticks d') \<Longrightarrow> settled d' b"
  by (auto simp: settled_def list_ex_iff)

lemma claim_tick_cases:
  assumes "claim_tick sid ts w i n (fs, d) = (Inr r, (fs', d'))"
  shows "(r = AlreadyClaimed \<and> d' = d) \<or>
    (\<exists>row. r = Claimed i \<and> (sid, ts) \<notin> recorded d \<and> (\<forall>t \<in> set (ticks d). tk_id t \<noteq> i)
       \<and> d' = d\<lparr>ticks := ticks d @ [row]\<rparr> \<and> tk_id row = i \<and> same_tick sid ts row)"
  using assms by (auto simp: claim_tick_def cstmt_def stmt_def recorded_iff list_ex_iff same_tick_def
      split: list.splits if_splits sum.splits option.splits)

lemma run_claimed_result:
  assumes "run_claimed env cfg td du tid (fs, d) = (Inr es, (fs', d'))"
  shows "\<exists>e st. es = [TickClaimed (payload_for du tid td), e]
    \<and> (\<exists>c. e = TickCompleted c \<and> cp_base c = payload_for du tid td \<and> st = ''completed''
        \<or> (\<exists>f. e = TickFailed f \<and> fp_base f = payload_for du tid td \<and> st = ''failed''))
    \<and> (\<exists>n m. ticks d' = update_where (\<lambda>t. tk_id t = tid)
        (\<lambda>t. t\<lparr>tk_status := st, tk_completed_at := Some n, tk_error_message := m\<rparr>) (ticks d))"
proof -
  obtain r fs1 d1 where run: "run_tick env cfg td du tid (fs, d) = (r, (fs1, d1))" by (metis surj_pair)
  have same: "ticks d1 = ticks d" using stepsD [OF within.run_tick run] by (simp add: same_ticks_def)
  show ?thesis
  proof (cases r)
    case (Inl a)
    with assms run same show ?thesis
      by (auto simp: run_claimed_def attempt_def dbind_def wdb_def map_err_def mark_tick_def Let_def
        exec_def stmt_def split: prod.splits sum.splits list.splits if_splits)
        ((intro exI, rule refl)+)
  next
    case (Inr c)
    with assms run same show ?thesis
      by (auto simp: run_claimed_def attempt_def dbind_def wdb_def map_err_def mark_tick_def Let_def
        exec_def stmt_def split: prod.splits sum.splits list.splits if_splits)
        ((intro exI, rule refl)+)
  qed
qed

lemma run_claimed_settles:
  assumes claim: "claim_tick (du_schedule_id du) (du_tick_ts du) w i n (fs, d) = (Inr (Claimed tid), (fs1, d1))"
    and run: "run_claimed env cfg td du tid (fs1, d1) = (Inr es, (fs2, d2))"
  shows "(\<exists>e. es = [TickClaimed (payload_for du tid td), e] \<and> paired es)
    \<and> (du_schedule_id du, du_tick_ts du) \<notin> recorded d
    \<and> recorded d2 = insert (du_schedule_id du, du_tick_ts du) (recorded d)
    \<and> set (ticks d) \<subseteq> set (ticks d2) \<and> settled d2 (payload_for du tid td)"
proof -
  from claim_tick_cases [OF claim] obtain row where row: "tid = i" "(du_schedule_id du, du_tick_ts du) \<notin> recorded d"
    "\<forall>t \<in> set (ticks d). tk_id t \<noteq> i" "d1 = d\<lparr>ticks := ticks d @ [row]\<rparr>" "tk_id row = i"
    "same_tick (du_schedule_id du) (du_tick_ts du) row" by auto
  from run_claimed_result [OF run] obtain e st n m where es: "es = [TickClaimed (payload_for du tid td), e]"
    and e: "(\<exists>c. e = TickCompleted c \<and> cp_base c = payload_for du tid td \<and> st = ''completed'')
        \<or> (\<exists>f. e = TickFailed f \<and> fp_base f = payload_for du tid td \<and> st = ''failed'')"
    and t: "ticks d2 = update_where (\<lambda>t. tk_id t = tid)
        (\<lambda>t. t\<lparr>tk_status := st, tk_completed_at := Some n, tk_error_message := m\<rparr>) (ticks d1)" by blast
  have "update_where (\<lambda>t. tk_id t = i) f (ticks d) = ticks d" for f
    using row(3) by (rule update_where_none)
  then have t2: "ticks d2 = ticks d @ [row\<lparr>tk_status := st, tk_completed_at := Some n, tk_error_message := m\<rparr>]"
    using row by (simp add: t update_where_def)
  then have "recorded d2 = insert (du_schedule_id du, du_tick_ts du) (recorded d)"
    using row(6) by (auto simp: recorded_def same_tick_def)
  moreover have "settled d2 (payload_for du tid td)"
    using row e by (auto simp: settled_def t2 payload_for_def same_tick_def)
  ultimately show ?thesis using es e row(2) t2 by auto
qed

lemma dispatch_all_settles:
  "dispatch_all env cfg td i ds (fs, d) = (Inr es, (fs', d')) \<Longrightarrow>
    paired es \<and> distinct (map base_key (claimed_bases es))
    \<and> base_key ` set (claimed_bases es) \<inter> recorded d = {}
    \<and> recorded d' = recorded d \<union> base_key ` set (claimed_bases es)
    \<and> set (ticks d) \<subseteq> set (ticks d') \<and> (\<forall>b \<in> set (claimed_bases es). settled d' b)"
proof (induction ds arbitrary: i fs d es)
  case (Cons du ds)
  let ?claim = "claim_tick (du_schedule_id du) (du_tick_ts du) (we_claimed_by env) (td_tick_id (td i)) (td_now (td i))"
  from Cons.prems obtain o1 fs1 d1 where claim: "?claim (fs, d) = (Inr o1, (fs1, d1))"
    by (auto simp: dbind_def wdb_def map_err_def split: prod.splits sum.splits)
  show ?case
  proof (cases o1)
    case AlreadyClaimed
    then have "d1 = d" using claim_tick_cases [OF claim] by auto
    with Cons.prems claim AlreadyClaimed have "dispatch_all env cfg td (Suc i) ds (fs1, d) = (Inr es, (fs', d'))"
      by (simp add: dbind_def wdb_def map_err_def)
    from Cons.IH [OF this] show ?thesis .
  next
    case (Claimed tid)
    with Cons.prems claim obtain e1 rest fs2 d2 where
      run: "run_claimed env cfg (td i) du tid (fs1, d1) = (Inr e1, (fs2, d2))"
      and tail: "dispatch_all env cfg td (Suc i) ds (fs2, d2) = (Inr rest, (fs', d'))" and es: "es = e1 @ rest"
      by (auto simp: dbind_def wdb_def map_err_def split: prod.splits sum.splits)
    let ?b = "payload_for du tid (td i)"
    have key: "base_key ?b = (du_schedule_id du, du_tick_ts du)" by (simp add: base_key_def payload_for_def)
    from run_claimed_settles [OF claim [unfolded Claimed] run] obtain e where
      e1: "e1 = [TickClaimed ?b, e]" "paired e1" and new: "base_key ?b \<notin> recorded d"
      and rec2: "recorded d2 = insert (base_key ?b) (recorded d)" and sub: "set (ticks d) \<subseteq> set (ticks d2)"
      and st: "settled d2 ?b" unfolding key by blast
    have bases: "claimed_bases es = ?b # claimed_bases rest" and pr: "paired es = paired rest"
      using e1 unfolding es by (cases e; simp)+
    from Cons.IH [OF tail] have IH: "paired rest" "distinct (map base_key (claimed_bases rest))"
      "base_key ` set (claimed_bases rest) \<inter> recorded d2 = {}"
      "recorded d' = recorded d2 \<union> base_key ` set (claimed_bases rest)"
      "set (ticks d2) \<subseteq> set (ticks d')" "\<forall>b \<in> set (claimed_bases rest). settled d' b" by blast+
    from IH(3) rec2 have "base_key ?b \<notin> base_key ` set (claimed_bases rest)"
      and "base_key ` set (claimed_bases rest) \<inter> recorded d = {}" by auto
    with IH new rec2 sub settled_mono [OF st IH(5)] show ?thesis
      unfolding bases pr by auto
  qed
qed simp

section \<open>Two schedules that are due\<close>

lemma nan_next: "next_tick_for ch ''every nan hours'' t = Some (Inr (t + minutes_us 1))"
  by (simp add: next_tick_for_def parse_every_nan anchor_next_tick_def)

text \<open>The tables and the worker of the examples below: two schedules without prompts, both due.\<close>

definition ex_schedule :: "uuid \<Rightarrow> schedule_row" where
  "ex_schedule i = \<lparr>sd_id = i, sd_project_id = 5, sd_name = ''s'', sd_cron = ''every nan hours'', sd_prompts = JArr [],
     sd_providers = JArr [], sd_debounce_minutes = 0, sd_projected_monthly_usd = None, sd_acknowledged_at = None,
     sd_paused = False, sd_created_at = 0\<rparr>"

definition ex_db :: sched_db where
  "ex_db = \<lparr>schedules = [ex_schedule 1, ex_schedule 2], ticks = [], runs = [], prompt_rows = [], projects = [],
     org_plans = [], org_audit = [], default_org = 0\<rparr>"

definition ex_env :: "unit worker_env" where
  "ex_env = \<lparr>we_chrono = \<lparr>from_timestamp = Some, tz_parse = (\<lambda>z. None), local_day = (\<lambda>z t. 0),
     day_add = (\<lambda>d k. None), from_local = (\<lambda>z d h m. None)\<rparr>,
     we_digest = \<lparr>lower = (\<lambda>s. s), sha256_first_16 = (\<lambda>s. 0)\<rparr>, we_registry = [], we_claimed_by = ''w''\<rparr>"

definition ex_cfg :: config where
  "ex_cfg = \<lparr>cfg_schema_version = ''0.2'', cfg_brand = \<lparr>bc_name = ''b'', bc_variants = [], bc_site_url = None\<rparr>,
     cfg_competitors = [], cfg_prompts = [], cfg_providers = [], cfg_schedules = [], cfg_concurrency = 4,
     cfg_anomaly_sensitivity = default_sensitivity, cfg_analytics = None, cfg_tier = 0\<rparr>"

definition ex_draws :: "nat \<Rightarrow> tick_draws" where
  "ex_draws i = \<lparr>td_tick_id = of_nat i + 7, td_event_id = of_nat i, td_now = 60000000, td_cells = (\<lambda>_. \<lparr>dr_run_id = 0, dr_project_id = 0, dr_prompt_id = 0, dr_request_id = 0,
       dr_sent_request_id = 0, dr_started_at = 0, dr_finished_at = 0\<rparr>),
     td_panics = (\<lambda>_. [])\<rparr>"

lemma ex_due:
  "discover_due_schedules_scoped (we_chrono ex_env) None 60000000 ([], ex_db)
    = (Inr [due_of (ex_schedule 1) 60000000, due_of (ex_schedule 2) 60000000], ([], ex_db))"
  by (simp add: discover_due_schedules_scoped_def dbind_def wdb_def map_err_def ex_db_def ex_schedule_def
      last_tick_ts_def nan_next minutes_us_def)


lemmas ex_run = ex_db_def ex_schedule_def ex_draws_def due_of_def dbind_def wdb_def map_err_def claim_tick_def
  same_tick_def run_claimed_def attempt_def run_tick_def json_strings_def mark_tick_def update_where_def

lemma ex_dispatch:
  "\<exists>es d'. dispatch_due_schedules_scoped ex_env ex_cfg ex_draws None 60000000 ([], ex_db) = (Inr (es :: unit lifecycle_event list), ([], d'))
    \<and> map event_kind es = [''schedule.tick_claimed'', ''schedule.tick_completed'',
        ''schedule.tick_claimed'', ''schedule.tick_completed'']"
  unfolding dispatch_due_schedules_scoped_def dbind_def [of "discover_due_schedules_scoped _ _ _"] ex_due
  by (simp add: ex_run Let_def split del: if_split)

section \<open>Settling\<close>



section \<open>Faults between ticks\<close>

lemma pads_attempt: "pads m \<Longrightarrow> pads (attempt m)"
  by (auto simp: pads_def attempt_def) (metis (no_types, lifting) case_prod_conv)

lemma pads_wdb: "pads m \<Longrightarrow> pads (wdb m)"
  by (simp add: wdb_def pads_map_err)

lemma pads_Pair: "pads (Pair (Inr a))"
  using pads_basic(1) [of a] by (simp add: ret_def [abs_def])

lemma pads_resolve: "pads (resolve_prompts project_id names)"
  by (induction names) (auto simp: find_by_name_def intro!: pads_rules pads_Pair)

lemma pads_persist: "pads (persist_records ids tid now c rs)"
  by (induction ids tid now c rs rule: persist_records.induct)
    (auto simp: insert_scheduled_run_def intro!: pads_rules pads_Pair pads_wdb)

lemma pads_run_tick: "pads (run_tick env cfg td d tid)"
  unfolding run_tick_def Let_def
  by (intro pads_rules pads_resolve pads_persist)

lemma pads_run_claimed: "pads (run_claimed env cfg td d tid)"
  unfolding run_claimed_def Let_def mark_tick_def
  by (intro pads_dbind pads_attempt pads_run_tick) (auto split: sum.split intro!: pads_rules pads_wdb)

definition dispatch_one :: "'tz worker_env \<Rightarrow> config \<Rightarrow> tick_draws \<Rightarrow> due_schedule \<Rightarrow> 'f lifecycle_event list workm" where
  "dispatch_one env cfg td d =
     dbind (wdb (claim_tick (du_schedule_id d) (du_tick_ts d) (we_claimed_by env) (td_tick_id td) (td_now td)))
       (\<lambda>outcome. case outcome of AlreadyClaimed \<Rightarrow> ret [] | Claimed tick_id \<Rightarrow> run_claimed env cfg td d tick_id)"

lemma pads_dispatch_one: "pads (dispatch_one env cfg td d)"
  unfolding dispatch_one_def claim_tick_def
  by (intro pads_dbind pads_wdb pads_sql) (auto split: claim_outcome.split intro: pads_run_claimed pads_basic pads_Pair)

lemma dispatch_all_one:
  "dispatch_all env cfg td i (d # ds) = dbind (dispatch_one env cfg (td i) d) (\<lambda>events.
     dbind (dispatch_all env cfg td (Suc i) ds) (\<lambda>rest. ret (events @ rest)))"
  by (rule ext) (auto simp: dispatch_one_def dbind_def split: prod.splits sum.splits claim_outcome.splits)

lemma dispatch_all_cut:
  fixes es :: "'f lifecycle_event list"
  assumes "dispatch_one env cfg (td i) d1 s = (Inr es, s')"
    and "(dispatch_all env cfg td (Suc i) ds :: 'f lifecycle_event list workm) s' = (Inl e, s'')"
  shows "(dispatch_all env cfg td i (d1 # ds) :: 'f lifecycle_event list workm) s = (Inl e, s'')"
  using assms by (simp add: dispatch_all_one dbind_def del: dispatch_all.simps)

text \<open>
  Events can be lost for good: if a dispatch is cut short by a database failure
  after its first tick was run and settled, it returns the error and none of the events, and since
  the tick stays recorded no later dispatch returns an event for it either.
\<close>

theorem failed_dispatch_loses_events:
  fixes es :: "'f lifecycle_event list"
  assumes due: "discover_due_schedules_scoped (we_chrono env) p now ([], d) = (Inr (d1 # d2 # rest), ([], d))"
    and first: "dispatch_one env cfg (td 0) d1 ([], d) = (Inr es, ([], d'))"
  shows "(\<exists>fs. dispatch_due_schedules_scoped env cfg td p now (fs, d)
        = (Inl WDatabase :: worker_error + 'f lifecycle_event list, ([], d')))
    \<and> (\<forall>b \<in> set (claimed_bases es). settled d' b)
    \<and> (\<forall>env' cfg' td' p' now' fs1 es2 fs2 d2. dispatch_due_schedules_scoped env' cfg' td' p' now' (fs1, d')
          = (Inr (es2 :: 'f lifecycle_event list), (fs2, d2))
        \<longrightarrow> base_key ` set (claimed_bases es2) \<inter> base_key ` set (claimed_bases es) = {})"
proof (intro conjI allI impI)
  have pd: "pads (discover_due_schedules_scoped (we_chrono env) p now)"
    unfolding discover_due_schedules_scoped_def by (intro pads_rules pads_wdb)
  from padsD [OF this due] obtain k where k: "\<And>fs. discover_due_schedules_scoped (we_chrono env) p now
      (replicate k False @ fs, d) = (Inr (d1 # d2 # rest), (fs, d))" by blast
  from padsD [OF pads_dispatch_one first] obtain j where j: "\<And>fs. dispatch_one env cfg (td 0) d1
      (replicate j False @ fs, d) = (Inr es, (fs, d'))" by blast
  have "wdb (claim_tick sid ts w i n) ([True], d') = (Inl WDatabase, ([], d'))" for sid ts w i n
    by (simp add: wdb_def map_err_def claim_tick_def cstmt_def stmt_def)
  then have tail: "dispatch_all env cfg td (Suc 0) (d2 # rest) ([True], d') =
      (Inl WDatabase :: worker_error + 'f lifecycle_event list, ([], d'))"
    by (simp add: dbind_def)
  have all: "dispatch_all env cfg td 0 (d1 # d2 # rest) (replicate j False @ [True], d) =
      (Inl WDatabase :: worker_error + 'f lifecycle_event list, ([], d'))"
    by (rule dispatch_all_cut [OF j tail])
  have "dispatch_due_schedules_scoped env cfg td p now (replicate k False @ replicate j False @ [True], d)
      = (Inl WDatabase :: worker_error + 'f lifecycle_event list, ([], d'))"
    unfolding dispatch_due_schedules_scoped_def by (subst dbind_ok_Inr [where m = "discover_due_schedules_scoped (we_chrono env) p now", OF k]) (rule all)
  then show "\<exists>fs. dispatch_due_schedules_scoped env cfg td p now (fs, d)
        = (Inl WDatabase :: worker_error + 'f lifecycle_event list, ([], d'))" by blast
  have one: "dispatch_all env cfg td 0 [d1] ([], d) = (Inr es, ([], d'))"
    unfolding dispatch_all_one using first by (simp add: dbind_def)
  show "\<forall>b \<in> set (claimed_bases es). settled d' b" using dispatch_all_settles [OF one] by blast
  have sub: "base_key ` set (claimed_bases es) \<subseteq> recorded d'" using dispatch_all_settles [OF one] by blast
  fix env' cfg' td' p' now' fs1 es2 fs2 d2
  assume "dispatch_due_schedules_scoped env' cfg' td' p' now' (fs1, d') = (Inr (es2 :: 'f lifecycle_event list), (fs2, d2))"
  then obtain ds fs3 where "dispatch_all env' cfg' td' 0 ds (fs3, d') = (Inr es2, (fs2, d2))"
    by (auto simp: dispatch_due_schedules_scoped_def discover_due_schedules_scoped_def dbind_def wdb_def map_err_def
        query_def stmt_def from_result_def split: prod.splits sum.splits list.splits if_splits)
  from dispatch_all_settles [OF this] sub
  show "base_key ` set (claimed_bases es2) \<inter> base_key ` set (claimed_bases es) = {}" by blast
qed

lemma ex_first:
  "\<exists>b e d'. dispatch_one ex_env ex_cfg (ex_draws 0) (due_of (ex_schedule 1) 60000000) ([], ex_db)
    = (Inr [TickClaimed b, e :: unit lifecycle_event], ([], d')) \<and> base_key b = (1, 60000000)"
  by (simp add: ex_run dispatch_one_def Let_def payload_for_def base_key_def split del: if_split)

theorem failed_dispatch_loses_events_witness:
  "\<exists>fs d'. dispatch_due_schedules_scoped ex_env ex_cfg ex_draws None 60000000 (fs, ex_db)
      = (Inl WDatabase :: worker_error + unit lifecycle_event list, ([], d')) \<and> (1, 60000000) \<in> recorded d'"
proof -
  obtain b e d' where first: "dispatch_one ex_env ex_cfg (ex_draws 0) (due_of (ex_schedule 1) 60000000) ([], ex_db)
      = (Inr [TickClaimed b, e :: unit lifecycle_event], ([], d'))" and b: "base_key b = (1, 60000000)" using ex_first by blast
  from failed_dispatch_loses_events [where env = ex_env and td = ex_draws and cfg = ex_cfg, OF ex_due first] b show ?thesis
    by (force simp: settled_def list_ex_iff recorded_iff base_key_def)
qed

text \<open>
  The reaper does not know a slow run from a dead one: a tick still running five
  minutes after its claim is rolled forward, and then completed by its worker all the same, so
  both endings of one tick are announced.
\<close>

theorem slow_tick_ends_twice:
  assumes "t \<in> set (ticks d)" and "tk_status t = ''claimed''" and "tk_completed_at t = None"
    and "tk_claimed_at t = Some c" and "c < now - 300000000"
    and "s \<in> set (schedules d)" and "sd_id s = tk_schedule_id t"
  shows "\<exists>reaped d1 d2. reap_orphans now ([], d) = (Inr reaped, ([], d1))
    \<and> tk_id t \<in> rt_tick_id ` set reaped \<and> t\<lparr>tk_status := ''rolled_forward''\<rparr> \<in> set (ticks d1)
    \<and> mark_tick (tk_id t) ''completed'' None now ([], d1) = (Inr (), ([], d2))
    \<and> t\<lparr>tk_status := ''completed'', tk_completed_at := Some now, tk_error_message := None\<rparr> \<in> set (ticks d2)"
proof -
  let ?cut = "now - 300000000"
  define d1 where "d1 = d\<lparr>ticks := update_where (orphaned ?cut) (\<lambda>t. t\<lparr>tk_status := ''rolled_forward''\<rparr>) (ticks d)\<rparr>"
  have orphan: "orphaned ?cut t" using assms(2-5) by (simp add: orphaned_def)
  define reaped where "reaped = concat (map (\<lambda>t. map (\<lambda>s.
             \<lparr>rt_tick_id = tk_id t, rt_schedule_id = tk_schedule_id t, rt_tick_ts = tk_ts t,
              rt_project_id = sd_project_id s, rt_schedule_name = sd_name s\<rparr>)
           (filter (\<lambda>s. sd_id s = tk_schedule_id t) (schedules d))) (filter (orphaned ?cut) (ticks d)))"
  have "\<lparr>rt_tick_id = tk_id t, rt_schedule_id = tk_schedule_id t, rt_tick_ts = tk_ts t,
      rt_project_id = sd_project_id s, rt_schedule_name = sd_name s\<rparr> \<in> set reaped"
    using assms(1,6,7) orphan by (auto simp: reaped_def)
  then have "tk_id t \<in> rt_tick_id ` set reaped" by (rule image_eqI [rotated]) simp
  moreover have "reap_orphans now ([], d) = (Inr reaped, ([], d1))"
    by (simp add: reap_orphans_def REAPER_IDLE_SECONDS_def d1_def reaped_def Let_def)
  moreover have rolled: "t\<lparr>tk_status := ''rolled_forward''\<rparr> \<in> set (ticks d1)"
    using assms(1) orphan by (auto simp: d1_def set_update_where image_iff intro!: bexI [of _ t])
  moreover have "t\<lparr>tk_status := ''completed'', tk_completed_at := Some now, tk_error_message := None\<rparr>
      \<in> set (ticks (snd (snd (mark_tick (tk_id t) ''completed'' None now ([], d1)))))"
    using rolled by (auto simp: mark_tick_def set_update_where image_iff intro!: bexI [of _ "t\<lparr>tk_status := ''rolled_forward''\<rparr>"])
  ultimately show ?thesis by (auto simp: mark_tick_def)
qed

theorem slow_tick_ends_twice_witness:
  "\<exists>reaped d1. reap_orphans 400000000 ([], ex_db\<lparr>ticks := [\<lparr>tk_id = 9, tk_schedule_id = 1, tk_ts = 0,
      tk_status = ''claimed'', tk_claimed_by = None, tk_claimed_at = Some 0, tk_completed_at = None,
      tk_error_message = None\<rparr>]\<rparr>) = (Inr reaped, ([], d1)) \<and> 9 \<in> rt_tick_id ` set reaped"
  using slow_tick_ends_twice [of "\<lparr>tk_id = 9, tk_schedule_id = 1, tk_ts = 0, tk_status = ''claimed'',
      tk_claimed_by = None, tk_claimed_at = Some 0, tk_completed_at = None, tk_error_message = None\<rparr>"
      "ex_db\<lparr>ticks := [\<lparr>tk_id = 9, tk_schedule_id = 1, tk_ts = 0, tk_status = ''claimed'',
      tk_claimed_by = None, tk_claimed_at = Some 0, tk_completed_at = None, tk_error_message = None\<rparr>]\<rparr>" 0 400000000
      "ex_schedule 1"]
  by (force simp: ex_db_def ex_schedule_def)

section \<open>What a tick persists\<close>

text \<open>The prompts of a tick that exist, and the cells it should run.\<close>

definition tick_prompts :: "sched_db \<Rightarrow> due_schedule \<Rightarrow> prompt_row list" where
  "tick_prompts d du = List.map_filter (\<lambda>name. find (\<lambda>p. pm_project_id p = du_project_id du \<and> pm_name p = name)
     (prompt_rows d)) (du_prompts du)"

definition tick_config :: "'tz worker_env \<Rightarrow> config \<Rightarrow> sched_db \<Rightarrow> due_schedule \<Rightarrow> config" where
  "tick_config env cfg d du = cfg\<lparr>cfg_prompts := map (\<lambda>r. \<lparr>pc_name = pm_name r, pc_text = pm_text r, pc_description = None\<rparr>) (tick_prompts d du),
     cfg_providers := pick_providers (we_registry env) (du_providers du)\<rparr>"

definition tick_cells :: "'tz worker_env \<Rightarrow> config \<Rightarrow> sched_db \<Rightarrow> due_schedule \<Rightarrow> (nat \<times> cell) list" where
  "tick_cells env cfg d du = enumerate 0 (cells_of (we_digest env) (tick_config env cfg d du) default_filter)"

lemma query_Inr: "query q (fs, d) = (Inr a, (fs', d')) \<Longrightarrow> a = q d \<and> d' = d"
  by (auto simp: query_def stmt_def split: list.splits if_splits)

lemma find_by_name_Inr:
  "map_err f (find_by_name p name) (fs, d) = (Inr row, (fs', d')) \<Longrightarrow>
    d' = d \<and> row = find (\<lambda>p'. pm_project_id p' = p \<and> pm_name p' = name) (prompt_rows d)"
  by (auto simp: map_err_def find_by_name_def dest: query_Inr split: prod.splits sum.splits)

lemma resolve_prompts_Inr:
  "resolve_prompts p names (fs, d) = (Inr (configs, ids), (fs', d')) \<Longrightarrow>
    d' = d \<and> configs = map (\<lambda>r. \<lparr>pc_name = pm_name r, pc_text = pm_text r, pc_description = None\<rparr>)
        (List.map_filter (\<lambda>name. find (\<lambda>p'. pm_project_id p' = p \<and> pm_name p' = name) (prompt_rows d)) names)
      \<and> set ids = (\<lambda>r. (pm_name r, pm_id r)) `
        set (List.map_filter (\<lambda>name. find (\<lambda>p'. pm_project_id p' = p \<and> pm_name p' = name) (prompt_rows d)) names)"
proof (induction names arbitrary: fs configs ids)
  case Nil
  then show ?case by (simp add: map_filter_simps)
next
  case (Cons name names)
  from Cons.prems obtain row fs1 d1 configs1 ids1 where
    row: "map_err WStorage (find_by_name p name) (fs, d) = (Inr row, (fs1, d1))"
    and rest: "resolve_prompts p names (fs1, d1) = (Inr (configs1, ids1), (fs', d'))"
    and res: "(configs, ids) = (case row of None \<Rightarrow> (configs1, ids1)
      | Some r \<Rightarrow> (\<lparr>pc_name = pm_name r, pc_text = pm_text r, pc_description = None\<rparr> # configs1, ids1 @ [(pm_name r, pm_id r)]))"
    by (auto simp: dbind_Inr)
  from find_by_name_Inr [OF row] have d1: "d1 = d"
    and row_eq: "row = find (\<lambda>p'. pm_project_id p' = p \<and> pm_name p' = name) (prompt_rows d)" by simp_all
  from Cons.IH [of fs1 configs1 ids1] rest d1 have
    "d' = d" "configs1 = map (\<lambda>r. \<lparr>pc_name = pm_name r, pc_text = pm_text r, pc_description = None\<rparr>)
        (List.map_filter (\<lambda>name. find (\<lambda>p'. pm_project_id p' = p \<and> pm_name p' = name) (prompt_rows d)) names)"
    "set ids1 = (\<lambda>r. (pm_name r, pm_id r)) `
        set (List.map_filter (\<lambda>name. find (\<lambda>p'. pm_project_id p' = p \<and> pm_name p' = name) (prompt_rows d)) names)"
    by simp_all
  with res show ?case by (auto simp: map_filter_simps row_eq [symmetric] split: option.splits)
qed

lemma insert_scheduled_run_Inr:
  assumes "insert_scheduled_run pid r tid now (fs, d) = (Inr (), (fs', d'))"
  shows "\<exists>row. runs d' = runs d @ [row] \<and> default_org d' = default_org d \<and> ru_schedule_tick_id row = Some tid
    \<and> ru_org_id row = default_org d \<and> ru_status row = status_wire_str (pr_status r)"
  using assms by (auto simp: insert_scheduled_run_def cstmt_def stmt_def split: list.splits if_splits option.splits sum.splits)

lemma persist_records_Inr:
  "persist_records ids tid now (a, b) rs (fs, d) = (Inr (a', b'), (fs', d')) \<Longrightarrow>
    \<exists>new. runs d' = runs d @ new \<and> length new = length (filter (\<lambda>r. map_of ids (pr_prompt_name r) \<noteq> None) rs)
      \<and> a' = a + of_nat (length new) \<and> b' = b + of_nat (length (filter (\<lambda>r. ru_status r = ''failed'') new))
      \<and> default_org d' = default_org d
      \<and> (\<forall>r \<in> set new. ru_schedule_tick_id r = Some tid \<and> ru_org_id r = default_org d)"
proof (induction rs arbitrary: a b fs d)
  case Nil
  then show ?case by simp
next
  case (Cons r rs)
  show ?case
  proof (cases "map_of ids (pr_prompt_name r)")
    case None
    with Cons.prems Cons.IH [of a b fs d] show ?thesis by simp
  next
    case (Some pid)
    from Cons.prems Some obtain fs1 d1 where ins: "insert_scheduled_run pid r tid now (fs, d) = (Inr (), (fs1, d1))"
      and tail: "persist_records ids tid now (a + 1, if pr_status r = RunFailed then b + 1 else b) rs (fs1, d1)
        = (Inr (a', b'), (fs', d'))"
      by (auto simp: dbind_Inr wdb_def map_err_def split: prod.splits sum.splits)
    from insert_scheduled_run_Inr [OF ins] obtain row where row: "runs d1 = runs d @ [row]"
      "default_org d1 = default_org d" "ru_schedule_tick_id row = Some tid" "ru_org_id row = default_org d"
      "ru_status row = status_wire_str (pr_status r)" by blast
    from Cons.IH [OF tail] obtain new where "runs d' = runs d1 @ new"
      "length new = length (filter (\<lambda>r. map_of ids (pr_prompt_name r) \<noteq> None) rs)"
      "a' = a + 1 + of_nat (length new)" "b' = (if pr_status r = RunFailed then b + 1 else b)
        + of_nat (length (filter (\<lambda>r. ru_status r = ''failed'') new))" "default_org d' = default_org d1"
      "\<forall>r \<in> set new. ru_schedule_tick_id r = Some tid \<and> ru_org_id r = default_org d1" by blast
    with row Some show ?thesis
      by (intro exI [of _ "row # new"]) (cases "pr_status r"; simp)
  qed
qed

lemma cell_names: "c \<in> set (cells_of dg cfg flt) \<Longrightarrow> cl_prompt_name c \<in> pc_name ` set (cfg_prompts cfg)"
  by (auto simp: cells_of_def split: option.splits)

lemma run_cell_name: "run_cell reg dr p i c = Some r \<Longrightarrow> pr_prompt_name r = cl_prompt_name c"
  apply (auto simp: run_cell_def unregistered_record_def failed_record_def success_record_def execute_single_def
      Let_def split: option.split_asm sum.split_asm)
  subgoal for _ _ z by (cases z) auto
  done

lemma cells_empty: "cfg_prompts cfg = [] \<or> cfg_providers cfg = [] \<Longrightarrow> cells_of dg cfg flt = []"
  by (auto simp: cells_of_def split: option.splits)

lemma set_map_filter: "set (List.map_filter f xs) = {y. \<exists>x \<in> set xs. f x = Some y}"
  by (force simp: List.map_filter_def)

lemma tick_prompts_rows: "set (tick_prompts d du) \<subseteq> set (prompt_rows d)"
  by (auto simp: tick_prompts_def set_map_filter find_Some_iff)

lemma enumerate_snd: "x \<in> set (enumerate n xs) \<Longrightarrow> snd x \<in> set xs"
  by (metis in_set_zip map_snd_enumerate image_eqI set_map)

text \<open>
  A tick that returns has persisted one run for every cell of its matrix whose task
  did not panic, carrying the tick and the default organisation, and counts these and the failed
  among them; a cell that panicked leaves no row and is not counted.
\<close>

theorem panicked_cells_vanish:
  assumes run: "run_tick env cfg td du tid (fs, d) = (Inr (runs_total, runs_failed), (fs', d'))"
    and name: "\<forall>p \<in> set (prompt_rows d). pm_name p \<noteq> ''<panic>''"
  shows "\<exists>new. runs d' = runs d @ new
    \<and> length new = length (filter (\<lambda>x. run_cell (we_registry env) (td_cells td) (config_project_id (we_digest env) cfg)
        (fst x) (snd x) \<noteq> None) (tick_cells env cfg d du))
    \<and> runs_total = of_nat (length new) \<and> runs_failed = of_nat (length (filter (\<lambda>r. ru_status r = ''failed'') new))
    \<and> (\<forall>r \<in> set new. ru_schedule_tick_id r = Some tid \<and> ru_org_id r = default_org d)"
proof -
  let ?dg = "we_digest env" and ?reg = "we_registry env" and ?p = "config_project_id (we_digest env) cfg"
  from run obtain configs ids fs1 d1 where
    res: "resolve_prompts (du_project_id du) (du_prompts du) (fs, d) = (Inr (configs, ids), (fs1, d1))"
    by (auto simp: run_tick_def dbind_Inr)
  from resolve_prompts_Inr [OF res] have d1: "d1 = d"
    and configs: "configs = map (\<lambda>r. \<lparr>pc_name = pm_name r, pc_text = pm_text r, pc_description = None\<rparr>) (tick_prompts d du)"
    and ids: "set ids = (\<lambda>r. (pm_name r, pm_id r)) ` set (tick_prompts d du)"
    by (simp_all add: tick_prompts_def Let_def)
  have tc: "tick_config env cfg d du = cfg\<lparr>cfg_prompts := configs, cfg_providers := pick_providers ?reg (du_providers du)\<rparr>"
    by (simp add: tick_config_def configs)
  have pid: "config_project_id ?dg (tick_config env cfg d du) = ?p" by (simp add: config_project_id_def tc)
  show ?thesis
  proof (cases "configs = [] \<or> pick_providers ?reg (du_providers du) = []")
    case True
    then have "tick_cells env cfg d du = []" by (auto simp: tick_cells_def tc cells_empty)
    with True run res d1 show ?thesis by (auto simp: run_tick_def dbind_def Let_def split: if_splits)
  next
    case False
    let ?rs = "run_all ?dg (tick_config env cfg d du) ?reg (td_cells td) (td_panics td) default_filter"
    from False run res d1 have "persist_records ids tid (td_now td) (0, 0) ?rs (fs1, d) = (Inr (runs_total, runs_failed), (fs', d'))"
      by (simp add: run_tick_def dbind_def tc Let_def)
    from persist_records_Inr [OF this] obtain new where new: "runs d' = runs d @ new"
      "length new = length (filter (\<lambda>r. map_of ids (pr_prompt_name r) \<noteq> None) ?rs)"
      "runs_total = of_nat (length new)" "runs_failed = of_nat (length (filter (\<lambda>r. ru_status r = ''failed'') new))"
      "\<forall>r \<in> set new. ru_schedule_tick_id r = Some tid \<and> ru_org_id r = default_org d" by auto
    have known: "map_of ids n \<noteq> None \<longleftrightarrow> n \<in> pm_name ` set (tick_prompts d du)" for n
      unfolding map_of_eq_None_iff using ids by (auto simp: image_image)
    have "map_of ids (pr_prompt_name (join_cell ?reg (td_cells td) (td_panics td) ?p x)) \<noteq> None
        \<longleftrightarrow> run_cell ?reg (td_cells td) ?p (fst x) (snd x) \<noteq> None" if "x \<in> set (tick_cells env cfg d du)" for x
    proof (cases "run_cell ?reg (td_cells td) ?p (fst x) (snd x)")
      case None
      then show ?thesis using name tick_prompts_rows [of d du] unfolding known by (auto simp: join_cell_def panic_record_def)
    next
      case (Some r)
      have "snd x \<in> set (cells_of ?dg (tick_config env cfg d du) default_filter)"
        using that by (auto simp: tick_cells_def dest: enumerate_snd)
      from cell_names [OF this] have "cl_prompt_name (snd x) \<in> pm_name ` set (tick_prompts d du)"
        by (auto simp: tc configs)
      with Some show ?thesis unfolding known by (simp add: join_cell_def run_cell_name)
    qed
    then have "length new = length (filter (\<lambda>x. run_cell ?reg (td_cells td) ?p (fst x) (snd x) \<noteq> None) (tick_cells env cfg d du))"
      unfolding new(2) run_all_def length_filter_sort_key pid filter_map length_map o_def tick_cells_def [symmetric]
      by (intro arg_cong [where f = length] filter_cong refl) simp
    with new show ?thesis by blast
  qed
qed

text \<open>One prompt and one provider, whose call panics.\<close>

definition ex_panic_db :: sched_db where
  "ex_panic_db = \<lparr>schedules = [], ticks = [], runs = [], prompt_rows = [\<lparr>pm_id = 3, pm_project_id = 5, pm_name = ''p'',
     pm_text = ''q''\<rparr>], projects = [], org_plans = [], org_audit = [], default_org = 0\<rparr>"

definition ex_panic_env :: "unit worker_env" where
  "ex_panic_env = \<lparr>we_chrono = \<lparr>from_timestamp = Some, tz_parse = (\<lambda>z. None), local_day = (\<lambda>z t. 0),
     day_add = (\<lambda>d k. None), from_local = (\<lambda>z d h m. None)\<rparr>,
     we_digest = \<lparr>lower = (\<lambda>s. s), sha256_first_16 = (\<lambda>s. 0)\<rparr>,
     we_registry = [(Grok, \<lparr>validate_model = Inr, run_request = (\<lambda>i r. None)\<rparr>)], we_claimed_by = ''w''\<rparr>"

definition ex_panic_due :: due_schedule where
  "ex_panic_due = \<lparr>du_schedule_id = 1, du_project_id = 5, du_name = ''s'', du_cron = ''hourly'',
     du_prompts = [''p''], du_providers = [''grok''], du_tick_ts = 0\<rparr>"

lemmas ex_panic = ex_panic_db_def ex_panic_env_def ex_panic_due_def

lemma ex_panic_pick: "pick_providers (we_registry ex_panic_env) [''grok''] = [plain_provider Grok]"
  by (simp add: pick_providers_def ex_panic strip_prefix_def provider_parse_def)

theorem panicked_cells_vanish_witness:
  "\<exists>d'. run_tick ex_panic_env ex_cfg (ex_draws 0) ex_panic_due 7 ([], ex_panic_db) = (Inr (0, 0), ([], d'))
    \<and> runs d' = []"
proof -
  have "run_tick ex_panic_env ex_cfg (ex_draws 0) ex_panic_due 7 ([], ex_panic_db) = (Inr (0, 0), ([], ex_panic_db))"
    unfolding run_tick_def Let_def using ex_panic_pick
    by (simp add: ex_panic dbind_def map_err_def find_by_name_def run_all_def cells_of_def config_prompt_id_def
        default_filter_def matches_prompt_def matches_provider_def plain_provider_def models_of_def join_cell_def
        run_cell_def execute_single_def panic_record_def unwrap_or_def Let_def)
  from panicked_cells_vanish [OF this] this show ?thesis
    by (intro exI [of _ ex_panic_db]) (simp add: ex_panic_db_def)
qed

end
