(* ===== verification/Worker.thy ===== *)
theory Worker
  imports Dispatch
begin

text \<open>
  The worker's fan-out over the active projects with its daily run cap
  (\<open>apps/worker/src/dispatch.rs\<close>, \<open>crates/storage/src/repositories/org_entitlements.rs\<close>) and one
  turn of its poll loop: reap, dispatch, publish, enqueue, deliver (\<open>apps/worker/src/run.rs\<close>,
  \<open>crates/scheduler/src/transport.rs\<close>). The projects' sweeps are tasks of their own over disjoint
  schedules; they are run here one after the other, in the order of the project list. The clean-up
  jobs of the loop (ETL, DNS re-verification, site analytics) and the logging are left out.
\<close>

section \<open>The daily run cap\<close>

text \<open>The tenant setting is local to its transaction: it changes no table.\<close>

definition set_org_guc :: "(sched_db, unit) dbm" where
  "set_org_guc = exec (\<lambda>d. d)"

definition entitlement_plan :: "uuid \<Rightarrow> (sched_db, string option) dbm" where
  "entitlement_plan org_id = tx (dbind set_org_guc (\<lambda>_. query (\<lambda>d. map_of (org_plans d) org_id)))"

text \<open>\<open>day_start\<close> is midnight UTC of the current day.\<close>

definition count_org_runs_today :: "int \<Rightarrow> uuid \<Rightarrow> (sched_db, nat) dbm" where
  "count_org_runs_today day_start org_id = tx (dbind set_org_guc (\<lambda>_.
     query (\<lambda>d. length (filter (\<lambda>r. ru_org_id r = org_id \<and> day_start \<le> ru_created_at r) (runs d)))))"

definition append_org_audit :: "uuid \<Rightarrow> string \<Rightarrow> json \<Rightarrow> (sched_db, unit) dbm" where
  "append_org_audit org_id action metadata =
     exec (\<lambda>d. d\<lparr>org_audit := org_audit d @ [(org_id, action, metadata)]\<rparr>)"

text \<open>May the project's sweep go on? Both lookups count a failure as nothing found.\<close>

definition org_gate :: "int \<Rightarrow> uuid option \<Rightarrow> bool workm" where
  "org_gate day_start organization_id =
     (case organization_id of
        None \<Rightarrow> ret True
      | Some org_id \<Rightarrow>
          dbind (wdb (exec (\<lambda>d. d))) (\<lambda>_.
          dbind (wdb set_org_guc) (\<lambda>_.
          dbind (attempt (wdb (entitlement_plan org_id))) (\<lambda>e.
            let plan = unwrap_or Free (case e of Inr (Some p) \<Rightarrow> plan_from_str p | _ \<Rightarrow> None)
            in case plan_daily_run_cap plan of
                 None \<Rightarrow> ret True
               | Some cap \<Rightarrow>
                   dbind (attempt (wdb (count_org_runs_today day_start org_id))) (\<lambda>c.
                     let runs_today = (case c of Inr n \<Rightarrow> n | Inl _ \<Rightarrow> 0)
                     in if cap \<le> runs_today
                        then dbind (ignore (append_org_audit org_id ''org.run_cap_exceeded''
                               (JObj [(''plan'', JStr (plan_as_str plan)), (''cap'', JNum (show_nat cap)),
                                      (''runs_today'', JNum (show_nat runs_today))]))) (\<lambda>_. ret False)
                        else ret True)))))"

section \<open>Fan-out\<close>

datatype 'f project_outcome = POk "'f lifecycle_event list" | PFailed worker_error | PPanicked

record 'f fan_out_report =
  fr_events :: "'f lifecycle_event list"
  fr_failed_projects :: nat
  fr_ok_projects :: nat

definition list_projects :: "(sched_db, project_row list) dbm" where
  "list_projects = query (\<lambda>d. sort_key pj_created_at (filter (\<lambda>p. \<not> pj_archived p) (projects d)))"

definition project_config :: "config \<Rightarrow> uuid \<Rightarrow> config workm" where
  "project_config base_config project_id =
     dbind (map_err WStorage (query (\<lambda>d. find (\<lambda>p. pj_id p = project_id) (projects d)))) (\<lambda>brand.
       ret (case brand of
              None \<Rightarrow> base_config
            | Some b \<Rightarrow> base_config\<lparr>cfg_brand := (cfg_brand base_config)\<lparr>bc_name := pj_name b, bc_variants := pj_variants b\<rparr>,
                cfg_competitors := json_competitors (pj_competitors b)\<rparr>))"

definition project_sweep ::
  "'tz worker_env \<Rightarrow> (nat \<Rightarrow> tick_draws) \<Rightarrow> int \<Rightarrow> int \<Rightarrow> project_row \<Rightarrow> worker_error + config
     \<Rightarrow> 'f lifecycle_event list workm" where
  "project_sweep env td day_start now project cfg =
     dbind (from_result cfg) (\<lambda>cfg.
     dbind (org_gate day_start (pj_organization_id project)) (\<lambda>go.
       if go then dispatch_due_schedules_scoped env cfg td (Some (pj_id project)) now else ret []))"

definition outcome_of :: "worker_error + 'f lifecycle_event list \<Rightarrow> 'f project_outcome" where
  "outcome_of r = (case r of Inr es \<Rightarrow> POk es | Inl WPanicked \<Rightarrow> PPanicked | Inl e \<Rightarrow> PFailed e)"

fun collect_configs :: "config \<Rightarrow> project_row list \<Rightarrow> (project_row \<times> (worker_error + config)) list workm" where
  "collect_configs base_config [] = ret []"
| "collect_configs base_config (p # ps) =
     dbind (attempt (project_config base_config (pj_id p))) (\<lambda>cfg.
     dbind (collect_configs base_config ps) (\<lambda>units. ret ((p, cfg) # units)))"

fun run_isolated ::
  "'tz worker_env \<Rightarrow> (nat \<Rightarrow> nat \<Rightarrow> tick_draws) \<Rightarrow> int \<Rightarrow> int \<Rightarrow> nat
     \<Rightarrow> (project_row \<times> (worker_error + config)) list \<Rightarrow> 'f project_outcome list workm" where
  "run_isolated env td day_start now i [] = ret []"
| "run_isolated env td day_start now i ((p, cfg) # units) =
     dbind (attempt (project_sweep env (td i) day_start now p cfg)) (\<lambda>r.
     dbind (run_isolated env td day_start now (Suc i) units) (\<lambda>rest. ret (outcome_of r # rest)))"

fun add_outcome :: "'f fan_out_report \<Rightarrow> 'f project_outcome \<Rightarrow> 'f fan_out_report" where
  "add_outcome report (POk es) =
     report\<lparr>fr_ok_projects := fr_ok_projects report + 1, fr_events := fr_events report @ es\<rparr>"
| "add_outcome report (PFailed e) = report\<lparr>fr_failed_projects := fr_failed_projects report + 1\<rparr>"
| "add_outcome report PPanicked = report\<lparr>fr_failed_projects := fr_failed_projects report + 1\<rparr>"

definition empty_report :: "'f fan_out_report" where
  "empty_report = \<lparr>fr_events = [], fr_failed_projects = 0, fr_ok_projects = 0\<rparr>"

text \<open>The query for the last-run ages only feeds log lines; its failure is dropped.\<close>

definition fan_out_dispatch ::
  "'tz worker_env \<Rightarrow> config \<Rightarrow> (nat \<Rightarrow> nat \<Rightarrow> tick_draws) \<Rightarrow> int \<Rightarrow> int \<Rightarrow> 'f fan_out_report workm" where
  "fan_out_dispatch env base_config td day_start now =
     dbind (map_err WStorage list_projects) (\<lambda>ps.
       if ps = [] then ret empty_report
       else dbind (ignore (query (\<lambda>d. ()))) (\<lambda>_.
            dbind (collect_configs base_config ps) (\<lambda>units.
            dbind (run_isolated env td day_start now 0 units) (\<lambda>outcomes.
              ret (foldl add_outcome empty_report outcomes)))))"

section \<open>One turn of the poll loop\<close>

record 'f worker_state =
  ws_db :: sched_db
  ws_hooks :: world
  ws_notified :: "'f lifecycle_event list"

record 'f emit_env =
  em_json :: "'f lifecycle_event \<Rightarrow> json option"
  em_ulid :: "nat \<Rightarrow> uuid"
  em_now :: int

definition publish :: "('f lifecycle_event \<Rightarrow> json option) \<Rightarrow> 'f lifecycle_event \<Rightarrow> ('f worker_state, unit) dbm" where
  "publish to_json event =
     (case to_json event of
        None \<Rightarrow> raise Sqlx
      | Some _ \<Rightarrow> exec (\<lambda>w. w\<lparr>ws_notified := ws_notified w @ [event]\<rparr>))"

definition on_hooks :: "(world, 'e, 'a) rm \<Rightarrow> ('f worker_state, 'e, 'a) rm" where
  "on_hooks m = zoom ws_hooks (\<lambda>h w. w\<lparr>ws_hooks := h\<rparr>) m"

definition emit_event :: "'f emit_env \<Rightarrow> 'f lifecycle_event \<Rightarrow> ('f worker_state, 'e, unit) rm" where
  "emit_event em event =
     dbind (ignore (publish (em_json em) event)) (\<lambda>_.
       ignore (on_hooks (enqueue_lifecycle_event (em_json em) (em_ulid em) (em_now em) event)))"

fun emit_events :: "(nat \<Rightarrow> 'f emit_env) \<Rightarrow> nat \<Rightarrow> 'f lifecycle_event list \<Rightarrow> ('f worker_state, 'e, unit) rm" where
  "emit_events em i [] = ret ()"
| "emit_events em i (e # es) = dbind (emit_event (em i) e) (\<lambda>_. emit_events em (Suc i) es)"

definition rolled_forward_event :: "(nat \<Rightarrow> uuid) \<Rightarrow> int \<Rightarrow> nat \<times> reaped_tick \<Rightarrow> 'f lifecycle_event" where
  "rolled_forward_event ids now x =
     TickRolledForward
       \<lparr>sp_event_id = ids (fst x), sp_project_id = rt_project_id (snd x), sp_schedule_id = rt_schedule_id (snd x),
        sp_schedule_name = rt_schedule_name (snd x), sp_tick_id = rt_tick_id (snd x),
        sp_tick_ts = rt_tick_ts (snd x), sp_emitted_at = now\<rparr>"

definition on_db :: "(sched_db, 'e, 'a) rm \<Rightarrow> ('f worker_state, 'e, 'a) rm" where
  "on_db m = zoom ws_db (\<lambda>d w. w\<lparr>ws_db := d\<rparr>) m"

definition reaper_sweep ::
  "(nat \<Rightarrow> 'f emit_env) \<Rightarrow> (nat \<Rightarrow> uuid) \<Rightarrow> int \<Rightarrow> ('f worker_state, worker_error, unit) rm" where
  "reaper_sweep em ids now =
     dbind (attempt (on_db (wdb (reap_orphans now)))) (\<lambda>r.
       case r of
         Inr reaped \<Rightarrow> emit_events em 0 (map (rolled_forward_event ids now) (enumerate 0 reaped))
       | Inl _ \<Rightarrow> ret ())"

definition dispatch_sweep ::
  "(nat \<Rightarrow> 'f emit_env) \<Rightarrow> ('tz worker_env \<times> config) option \<Rightarrow> (nat \<Rightarrow> nat \<Rightarrow> tick_draws) \<Rightarrow> int \<Rightarrow> int
     \<Rightarrow> ('f worker_state, worker_error, unit) rm" where
  "dispatch_sweep em dispatch td day_start now =
     (case dispatch of
        None \<Rightarrow> ret ()
      | Some (env, cfg) \<Rightarrow>
          dbind (attempt (on_db (fan_out_dispatch env cfg td day_start now))) (\<lambda>r.
            case r of Inr report \<Rightarrow> emit_events em 0 (fr_events report) | Inl _ \<Rightarrow> ret ()))"

text \<open>What one turn of the loop draws from outside.\<close>

record ('tz, 'f) sweep_draws =
  sw_emit :: "nat \<Rightarrow> 'f emit_env"
  sw_event_ids :: "nat \<Rightarrow> uuid"
  sw_now :: int
  sw_day_start :: int
  sw_ticks :: "nat \<Rightarrow> nat \<Rightarrow> tick_draws"
  sw_delivery :: delivery_env
  sw_to_bytes :: "json \<Rightarrow> u8 list"
  sw_order :: "(delivery \<times> webhook_row) list \<Rightarrow> (delivery \<times> webhook_row) list"
  sw_clock :: "uuid \<Rightarrow> int"

definition worker_tick ::
  "('tz worker_env \<times> config) option \<Rightarrow> ('tz, 'f) sweep_draws \<Rightarrow> ('f worker_state, worker_error, unit) rm" where
  "worker_tick dispatch sw =
     dbind (reaper_sweep (sw_emit sw) (sw_event_ids sw) (sw_now sw)) (\<lambda>_.
     dbind (dispatch_sweep (sw_emit sw) dispatch (sw_ticks sw) (sw_day_start sw) (sw_now sw)) (\<lambda>_.
       ignore (on_hooks (poll_once (sw_delivery sw) (sw_to_bytes sw) (sw_order sw) (sw_clock sw) (sw_now sw)
         DEFAULT_BATCH_LIMIT))))"

section \<open>What a fan-out may do to the tables\<close>

text \<open>A relation that all of dispatch and the audit log respect is respected by a whole fan-out.\<close>

locale sweep_relation = tick_relation +
  assumes audit: "steps R (append_org_audit org action meta)"
begin

lemma set_guc: "steps R set_org_guc"
  unfolding set_org_guc_def using refl by (rule steps_exec) (simp add: refl [THEN reflpD])

lemma org_gate: "steps R (org_gate day_start org)"
  unfolding org_gate_def entitlement_plan_def count_org_runs_today_def Let_def
  by (intro steps_rules steps_split steps_attempt steps_wdb set_guc audit refl trans) (simp add: refl [THEN reflpD])

lemma project_sweep: "steps R (project_sweep env td day_start now p cfg)"
  unfolding project_sweep_def
  by (intro steps_rules steps_split org_gate dispatch refl trans)

lemma collect: "steps R (collect_configs cfg ps)"
  by (induction ps) (auto simp: project_config_def intro!: steps_rules steps_attempt steps_Pair refl trans)

lemma isolated: "steps R (run_isolated env td day_start now i units)"
  by (induction env td day_start now i units rule: run_isolated.induct)
    (auto intro!: steps_rules steps_attempt steps_Pair project_sweep refl trans)

lemma fan_out: "steps R (fan_out_dispatch env cfg td day_start now)"
  unfolding fan_out_dispatch_def list_projects_def
  by (intro steps_rules steps_split collect isolated refl trans)

end

interpretation tenant_sweeps: sweep_relation other_orgs_same
proof
  show "steps other_orgs_same (append_org_audit org action meta)" for org action meta
    unfolding append_org_audit_def using tenants.refl by (rule steps_exec) (simp add: other_orgs_same_def)
qed

section \<open>Lemmas\<close>

lemma attempt_Inr: "\<exists>r. fst (attempt m s) = Inr r"
  by (auto simp: attempt_def split: prod.splits)

lemma org_gate_open:
  assumes "\<forall>r \<in> set (runs d). ru_org_id r = org \<longrightarrow> ru_created_at r < day_start"
    and "org_gate day_start (Some org) (fs, d) = (Inr go, s')"
  shows "go"
proof -
  have none: "filter (\<lambda>r. ru_org_id r = org \<and> day_start \<le> ru_created_at r) (runs d) = []"
    using assms(1) by (auto simp: filter_empty_conv)
  have count: "n = 0" if "attempt (wdb (count_org_runs_today day_start org)) (fs1, d) = (Inr (Inr n), s1)" for fs1 n s1
    using that none
    by (auto simp: attempt_def wdb_def map_err_def count_org_runs_today_def tx_def dbind_def set_org_guc_def
        query_def exec_def stmt_def split: prod.splits sum.splits list.splits if_splits)
  have plan: "d1 = d" if "attempt (wdb (entitlement_plan org)) (fs1, d) = (r, (fs2, d1))" for fs1 r fs2 d1
    using that by (auto simp: attempt_def wdb_def map_err_def entitlement_plan_def tx_def dbind_def set_org_guc_def
        query_def exec_def stmt_def split: prod.splits sum.splits list.splits if_splits)
  have exec: "d1 = d" if "wdb (exec (\<lambda>d. d)) (fs1, d) = (r, (fs2, d1))" for fs1 fs2 d1 and r :: "worker_error + unit"
    using that by (auto simp: wdb_def map_err_def exec_def stmt_def split: prod.splits sum.splits list.splits if_splits)
  from assms(2) obtain fs1 d1 fs2 d2 e fs3 d3 where
    1: "wdb (exec (\<lambda>d. d)) (fs, d) = (Inr (), (fs1, d1))" and 2: "wdb set_org_guc (fs1, d1) = (Inr (), (fs2, d2))"
    and 3: "attempt (wdb (entitlement_plan org)) (fs2, d2) = (Inr e, (fs3, d3))"
    by (auto simp: org_gate_def dbind_Inr)
  from exec [OF 1] have d1: "d1 = d" .
  from exec [OF 2 [unfolded d1 set_org_guc_def]] have d2: "d2 = d" .
  from plan [OF 3 [unfolded d2]] have d3: "d3 = d" .
  define plan_of where "plan_of = unwrap_or Free (case e of Inr (Some p) \<Rightarrow> plan_from_str p | _ \<Rightarrow> None)"
  have gate: "org_gate day_start (Some org) (fs, d) = (case plan_daily_run_cap plan_of of None \<Rightarrow> ret True
      | Some cap \<Rightarrow> dbind (attempt (wdb (count_org_runs_today day_start org))) (\<lambda>c.
          let runs_today = (case c of Inr n \<Rightarrow> n | Inl _ \<Rightarrow> 0)
          in if cap \<le> runs_today
             then dbind (ignore (append_org_audit org ''org.run_cap_exceeded''
               (JObj [(''plan'', JStr (plan_as_str plan_of)), (''cap'', JNum (show_nat cap)),
                  (''runs_today'', JNum (show_nat runs_today))]))) (\<lambda>_. ret False)
             else ret True)) (fs3, d)"
    unfolding org_gate_def option.case dbind_ok_Inr [where m = "wdb (exec _)", OF 1]
      dbind_ok_Inr [where m = "wdb set_org_guc", OF 2] dbind_ok_Inr [where m = "attempt (wdb (entitlement_plan org))", OF 3]
    unfolding plan_of_def d3 Let_def by (rule refl)
  show ?thesis
  proof (cases "plan_daily_run_cap plan_of")
    case None
    with assms(2) show ?thesis unfolding gate by simp
  next
    case (Some cap)
    then have cap: "0 < cap" by (cases plan_of) auto
    obtain c fs4 d4 where 4: "attempt (wdb (count_org_runs_today day_start org)) (fs3, d) = (Inr c, (fs4, d4))"
      by (metis attempt_Inr prod.collapse)
    from 4 count have zero: "(case c of Inr n \<Rightarrow> n | Inl _ \<Rightarrow> 0) = 0" by (cases c) simp_all
    have "org_gate day_start (Some org) (fs, d) = (Inr True, (fs4, d4))"
      unfolding gate Some option.case dbind_ok_Inr [where m = "attempt (wdb (count_org_runs_today day_start org))", OF 4]
        Let_def zero using cap by simp
    with assms(2) show ?thesis by simp
  qed
qed

text \<open>
  The daily run cap is never reached by scheduled runs: the worker records them under
  the default organisation, so for any other organisation with no run of the day before, however
  many sweeps have run and whatever failed, the gate that should close at the cap is open.
\<close>

theorem run_cap_never_binds:
  assumes "org \<noteq> default_org d" and "\<forall>r \<in> set (runs d). ru_org_id r = org \<longrightarrow> ru_created_at r < day_start"
    and "d' = snd (run_seq (map (\<lambda>(td, now). ignore (fan_out_dispatch env cfg td day_start now)) sweeps) (fs, d))"
    and "org_gate day_start (Some org) (fs', d') = (Inr go, s)"
  shows "go"
proof -
  have "other_orgs_same d d'"
    unfolding assms(3) using tenants.refl tenants.trans
    by (rule run_seq_steps [where s = "(fs, d)", simplified]) (auto intro!: steps_ignore tenant_sweeps.fan_out)
  then have "filter (\<lambda>r. ru_org_id r = org) (runs d') = filter (\<lambda>r. ru_org_id r = org) (runs d)"
    using assms(1) by (simp add: other_orgs_same_def)
  from arg_cong [OF this, of set] assms(2)
  have "\<forall>r \<in> set (runs d'). ru_org_id r = org \<longrightarrow> ru_created_at r < day_start" by auto
  from this assms(4) show ?thesis by (rule org_gate_open)
qed

lemma collect_configs_all: "\<exists>units s'. collect_configs cfg ps s = (Inr units, s') \<and> map fst units = ps"
proof (induction ps arbitrary: s)
  case (Cons p ps)
  obtain r s1 where 1: "attempt (project_config cfg (pj_id p)) s = (Inr r, s1)"
    by (metis attempt_Inr prod.collapse)
  obtain units s2 where "collect_configs cfg ps s1 = (Inr units, s2)" "map fst units = ps"
    using Cons.IH by blast
  with 1 show ?case by (simp add: dbind_def)
qed simp

lemma run_isolated_all:
  "\<exists>(os :: 'f project_outcome list) s'. run_isolated env td day_start now i units s = (Inr os, s') \<and> length os = length units"
proof (induction units arbitrary: i s)
  case (Cons u units)
  obtain p cfg where u: "u = (p, cfg)" by force
  obtain r :: "worker_error + 'f lifecycle_event list" and s1 where 1: "attempt (project_sweep env (td i) day_start now p cfg) s = (Inr r, s1)"
    by (metis attempt_Inr prod.collapse)
  obtain os :: "'f project_outcome list" and s2 where "run_isolated env td day_start now (Suc i) units s1 = (Inr os, s2)" "length os = length units"
    using Cons.IH by blast
  with 1 u show ?case by (simp add: dbind_def)
qed simp

lemma add_outcomes:
  "fr_ok_projects (foldl add_outcome report os) + fr_failed_projects (foldl add_outcome report os)
    = fr_ok_projects report + fr_failed_projects report + length os
  \<and> fr_events (foldl add_outcome report os) = fr_events report @ concat (map (\<lambda>x. case x of POk es \<Rightarrow> es | _ \<Rightarrow> []) os)"
proof (induction os arbitrary: report)
  case (Cons x os)
  from Cons.IH [of "add_outcome report x"] show ?case by (cases x) simp_all
qed simp


text \<open>An organisation on the free plan and its project, which has no schedules.\<close>

definition ex_org_db :: sched_db where
  "ex_org_db = \<lparr>schedules = [], ticks = [], runs = [], prompt_rows = [], projects = [\<lparr>pj_id = 5, pj_name = ''b'',
     pj_variants = [], pj_competitors = JNull, pj_organization_id = Some 9, pj_archived = False, pj_created_at = 0\<rparr>],
     org_plans = [(9, ''free'')], org_audit = [], default_org = 0\<rparr>"

lemma ex_org_sweep:
  "fan_out_dispatch ex_env cfg td day now ([], ex_org_db)
    = (Inr \<lparr>fr_events = [], fr_failed_projects = 0, fr_ok_projects = 1\<rparr>, ([], ex_org_db))"
  by (simp add: fan_out_dispatch_def dbind_def map_err_def list_projects_def ex_org_db_def attempt_def
      project_config_def project_sweep_def ex_env_def org_gate_def wdb_def set_org_guc_def entitlement_plan_def tx_def
      count_org_runs_today_def Let_def plan_from_str_def outcome_of_def empty_report_def
      dispatch_due_schedules_scoped_def discover_due_schedules_scoped_def)

text \<open>
  C29 (error). Projects are isolated: once the projects could be listed, a fan-out returns, whatever
  fails or panics afterwards, and its report counts every active project as succeeded or failed.
\<close>

theorem fan_out_reports_every_project:
  "case (fs, fst (fan_out_dispatch env cfg td day_start now (fs, d) :: (worker_error + 'f fan_out_report) \<times> _)) of
    (True # _, r) \<Rightarrow> r = Inl (WStorage Sqlx)
  | (_, r) \<Rightarrow> \<exists>report. r = Inr report
      \<and> fr_ok_projects report + fr_failed_projects report = length (filter (\<lambda>p. \<not> pj_archived p) (projects d))"
proof -
  obtain r s where assms: "fan_out_dispatch env cfg td day_start now (fs, d) = (r :: worker_error + 'f fan_out_report, s)"
    by (metis surj_pair)
  define ps where "ps = sort_key pj_created_at (filter (\<lambda>p. \<not> pj_archived p) (projects d))"
  have len: "length ps = length (filter (\<lambda>p. \<not> pj_archived p) (projects d))" by (simp add: ps_def)
  show ?thesis
  proof (cases "\<exists>rest. fs = True # rest")
    case True
    with assms show ?thesis
      by (auto simp: fan_out_dispatch_def dbind_def map_err_def list_projects_def query_def stmt_def)
  next
    case False
    then obtain fs1 where list: "map_err WStorage list_projects (fs, d) = (Inr ps, (fs1, d))"
      by (cases fs) (auto simp: map_err_def list_projects_def query_def stmt_def ps_def)
    have "\<exists>report. r = Inr report \<and> fr_ok_projects report + fr_failed_projects report = length ps"
    proof (cases "ps = []")
      case True
      with assms list show ?thesis by (auto simp: fan_out_dispatch_def dbind_def empty_report_def)
    next
      case False
      define s2 where "s2 = snd (query (\<lambda>d. ()) (fs1, d))"
      obtain units s3 where 3: "collect_configs cfg ps s2 = (Inr units, s3)" "map fst units = ps"
        using collect_configs_all by blast
      obtain os :: "'f project_outcome list" and s4 where 4: "run_isolated env td day_start now 0 units s3 = (Inr os, s4)"
        "length os = length units" using run_isolated_all by blast
      have "fan_out_dispatch env cfg td day_start now (fs, d) = (Inr (foldl add_outcome empty_report os), s4)"
        using False 3(1) 4(1) unfolding fan_out_dispatch_def dbind_ok_Inr [where m = "map_err WStorage list_projects", OF list]
        by (simp add: dbind_def s2_def [symmetric])
      moreover have "length os = length ps" using 3(2) 4(2) by (metis length_map)
      ultimately show ?thesis using assms add_outcomes [of empty_report os] by (simp add: empty_report_def)
    qed
    with False len assms show ?thesis by (auto split: list.splits bool.splits)
  qed
qed


theorem run_cap_never_binds_witness:
  "org_gate 0 (Some 9) ([], snd (snd (fan_out_dispatch ex_env ex_cfg (\<lambda>i j. ex_draws j) 0 60000000 ([], ex_org_db))))
    = (Inr True, ([], ex_org_db))"
proof -
  let ?sweeps = "[(\<lambda>i j. ex_draws j, 60000000)] :: ((nat \<Rightarrow> nat \<Rightarrow> tick_draws) \<times> int) list"
  obtain go s where gate: "org_gate 0 (Some 9) ([], ex_org_db) = (Inr go, s)" and s: "s = ([], ex_org_db)"
    by (simp add: dbind_def map_err_def ex_org_db_def attempt_def org_gate_def wdb_def set_org_guc_def
        entitlement_plan_def tx_def count_org_runs_today_def Let_def plan_from_str_def)
  have "go"
    by (rule run_cap_never_binds [where d = ex_org_db and fs = "[]" and sweeps = ?sweeps and env = ex_env
          and cfg = ex_cfg and org = 9 and day_start = 0 and fs' = "[]" and s = s, OF _ _ refl])
      (simp_all add: ex_org_sweep gate, simp_all add: ex_org_db_def)
  with gate s show ?thesis by (simp add: ex_org_sweep)
qed

end
