(* ===== verification/System.thy ===== *)
theory System
  imports Worker
begin

text \<open>
  The worker's loop over all of its state at once: the schedule tables, the webhook tables and the
  notifications, whatever fails in between.
\<close>

section \<open>A turn of the loop over both stores\<close>

lemma steps_conj: "steps R m \<Longrightarrow> steps S m \<Longrightarrow> steps (\<lambda>a b. R a b \<and> S a b) m"
  by (auto simp: steps_def)

text \<open>
  Over the schedule tables: well-formedness is kept, schedules and prompts are left alone and no
  tick disappears.
\<close>

definition tables_kept :: "sched_db \<Rightarrow> sched_db \<Rightarrow> bool" where
  "tables_kept d d' = (preserve schema_ok d d' \<and> ticks_grow d d')"

lemma tables_kept_rel [simp, intro]: "reflp tables_kept" "transp tables_kept"
  using growing.refl growing.trans by (auto simp: reflp_def transp_def tables_kept_def preserve_def)

lemma kept_self [simp]: "tables_kept d d" "history w w"
  using tables_kept_rel(1) reflp_history by (simp_all add: reflpD)

lemma steps_tables_kept: "steps (preserve schema_ok) m \<Longrightarrow> steps ticks_grow m \<Longrightarrow> steps tables_kept m"
  unfolding tables_kept_def [abs_def] by (rule steps_conj)

interpretation kept: sweep_relation tables_kept
proof
  show "steps tables_kept (append_org_audit org action meta)" for org action meta
    unfolding append_org_audit_def
    by (rule steps_exec) (auto simp: tables_kept_def preserve_def schema_ok_def ticks_grow_def recorded_def)
qed (auto intro: steps_tables_kept schema_run schema_claim schema_mark growing.insert_run growing.claim growing.mark)

lemma kept_reap: "steps tables_kept (reap_orphans now)"
  by (rule steps_tables_kept [OF schema_reap]) (auto simp: reap_orphans_def ticks_grow_def Let_def
      intro!: steps_stmt growing.refl)

text \<open>Over the whole worker: the deliveries only move forward and notifications are never taken back.\<close>

definition worker_kept :: "'f worker_state \<Rightarrow> 'f worker_state \<Rightarrow> bool" where
  "worker_kept w w' = (tables_kept (ws_db w) (ws_db w') \<and> history (ws_hooks w) (ws_hooks w')
     \<and> (\<exists>more. ws_notified w' = ws_notified w @ more))"

lemma worker_kept_rel [simp, intro]: "reflp worker_kept" "transp worker_kept"
  using tables_kept_rel reflp_history transp_history
  by (fastforce simp: reflp_def transp_def worker_kept_def)+

lemma steps_on_db: "steps tables_kept m \<Longrightarrow> steps worker_kept (on_db m)"
  unfolding on_db_def by (erule steps_zoom) (auto simp: worker_kept_def)

lemma steps_on_hooks: "steps history m \<Longrightarrow> steps worker_kept (on_hooks m)"
  unfolding on_hooks_def
  by (erule steps_zoom) (simp add: worker_kept_def)

lemma steps_publish: "steps worker_kept (publish to_json event)"
  unfolding publish_def
  by (intro steps_rules steps_split worker_kept_rel) (simp add: worker_kept_def)

lemma steps_announce: "steps worker_kept (emit_events em i es)"
  by (induction es arbitrary: i)
    (auto simp: emit_event_def intro!: steps_rules steps_Pair steps_publish steps_on_hooks steps_enqueue worker_kept_rel)

lemma steps_worker_tick: "steps worker_kept (worker_tick dispatch sw)"
  unfolding worker_tick_def reaper_sweep_def dispatch_sweep_def
  by (intro steps_rules steps_split steps_case_sum steps_attempt steps_on_db steps_on_hooks steps_announce
      steps_poll_once steps_wdb kept.fan_out kept_reap worker_kept_rel)

text \<open>
  C9 (invariant). However many turns the worker's loop makes and whichever statements fail, the
  schedule tables stay well formed, no tick, schedule or prompt is lost, every webhook delivery
  stays as it is or leaves the pending state once, and what was announced stays announced.
\<close>

theorem worker_keeps_both_stores:
  assumes "schema_ok (ws_db w)"
  shows "case snd (run_seq (map (\<lambda>(dispatch, sw). ignore (worker_tick dispatch sw)) turns) (fs, w)) of w' \<Rightarrow>
    schema_ok (ws_db w') \<and> recorded (ws_db w) \<subseteq> recorded (ws_db w')
    \<and> schedules (ws_db w') = schedules (ws_db w) \<and> prompt_rows (ws_db w') = prompt_rows (ws_db w)
    \<and> history (ws_hooks w) (ws_hooks w') \<and> take (length (ws_notified w)) (ws_notified w') = ws_notified w"
proof -
  have "worker_kept w (snd (run_seq (map (\<lambda>(dispatch, sw). ignore (worker_tick dispatch sw)) turns) (fs, w)))"
    using worker_kept_rel by (rule run_seq_steps [where s = "(fs, w)", simplified])
      (auto intro!: steps_ignore steps_worker_tick)
  with assms show ?thesis by (auto simp: worker_kept_def tables_kept_def preserve_def ticks_grow_def)
qed

theorem worker_keeps_both_stores_witness:
  "\<forall>dispatch sw. case snd (run_seq [ignore (worker_tick dispatch sw)] ([True],
      \<lparr>ws_db = ex_tables, ws_hooks = \<lparr>deliveries = [], webhooks = [], requests = []\<rparr>, ws_notified = []\<rparr>)) of w' \<Rightarrow>
    schema_ok (ws_db w') \<and> schedules (ws_db w') = schedules ex_tables"
proof (intro allI)
  fix dispatch sw
  show "case snd (run_seq [ignore (worker_tick dispatch sw)] ([True],
      \<lparr>ws_db = ex_tables, ws_hooks = \<lparr>deliveries = [], webhooks = [], requests = []\<rparr>, ws_notified = []\<rparr>)) of w' \<Rightarrow>
    schema_ok (ws_db w') \<and> schedules (ws_db w') = schedules ex_tables"
    using worker_keeps_both_stores [of "\<lparr>ws_db = ex_tables, ws_hooks = \<lparr>deliveries = [], webhooks = [], requests = []\<rparr>,
        ws_notified = []\<rparr>" "[(dispatch, sw)]" "[True]"]
    by (simp add: ex_tables_ok)
qed

end
