(* ===== verification/Domains.thy ===== *)
theory Domains
  imports RustNum
begin

text \<open>
  The pure functions of \<open>crates/storage/src/repositories/entities.rs\<close>: the normal form of domains,
  the folding of look-alike characters and the similarity of display names. A character is the list
  of its UTF-8 bytes. The table of edit distances is shown to compute the least number of edits.
\<close>

section \<open>Strings\<close>

function trim_start_matches :: "string \<Rightarrow> string \<Rightarrow> string" where
  "trim_start_matches p s =
     (if p \<noteq> [] \<and> starts_with p s then trim_start_matches p (drop (length p) s) else s)"
  by auto
termination
proof (relation "measure (\<lambda>(p, s). length s)")
  fix p s :: string
  assume "p \<noteq> [] \<and> starts_with p s"
  then have "0 < length p" and "s \<noteq> []" by (auto simp: starts_with_def)
  then show "((p, drop (length p) s), (p, s)) \<in> measure (\<lambda>(p, s). length s)" by simp
qed simp

declare trim_start_matches.simps [simp del]

definition trim_end_matches :: "char \<Rightarrow> string \<Rightarrow> string" where
  "trim_end_matches c s = rev (dropWhile (\<lambda>x. x = c) (rev s))"

definition confusables :: "(string \<times> string) list" where
  "confusables =
    [([CHR 0xD0, CHR 0x90], ''a''), ([CHR 0xD0, CHR 0xB0], ''a''), ([CHR 0xD0, CHR 0x92], ''b''),
     ([CHR 0xD0, CHR 0xA1], ''c''), ([CHR 0xD1, CHR 0x81], ''c''), ([CHR 0xD0, CHR 0x95], ''e''),
     ([CHR 0xD0, CHR 0xB5], ''e''), ([CHR 0xD0, CHR 0x9D], ''h''), ([CHR 0xD0, CHR 0x86], ''i''),
     ([CHR 0xD1, CHR 0x96], ''i''), ([CHR 0xD0, CHR 0x88], ''j''), ([CHR 0xD1, CHR 0x98], ''j''),
     ([CHR 0xD0, CHR 0x9A], ''k''), ([CHR 0xD0, CHR 0x9C], ''m''), ([CHR 0xCE, CHR 0x9D], ''n''),
     ([CHR 0xCE, CHR 0x9F], ''o''), ([CHR 0xCE, CHR 0xBF], ''o''), ([CHR 0xD0, CHR 0x9E], ''o''),
     ([CHR 0xD0, CHR 0xBE], ''o''), ([CHR 0xD0, CHR 0xA0], ''p''), ([CHR 0xD1, CHR 0x80], ''p''),
     ([CHR 0xCF, CHR 0x81], ''p''), ([CHR 0xD0, CHR 0xA2], ''t''), ([CHR 0xCF, CHR 0x85], ''u''),
     ([CHR 0xD0, CHR 0xA5], ''x''), ([CHR 0xD1, CHR 0x85], ''x''), ([CHR 0xCE, CHR 0xA7], ''x''),
     ([CHR 0xCF, CHR 0x87], ''x''), ([CHR 0xCE, CHR 0xA5], ''y''), ([CHR 0xD2, CHR 0xAE], ''y''),
     ([CHR 0xCE, CHR 0x96], ''z''), ([CHR 0xCE, CHR 0xB6], ''z'')]"

definition full_width :: "string \<Rightarrow> string" where
  "full_width g =
     (case g of
        [a, b, c] \<Rightarrow>
          let n = (of_char c :: nat)
          in if a = CHR 0xEF \<and> b = CHR 0xBC \<and> 0x90 \<le> n \<and> n \<le> 0x99 then [char_of (48 + (n - 0x90))]
             else if a = CHR 0xEF \<and> b = CHR 0xBD \<and> 0x81 \<le> n \<and> n \<le> 0x9A then [char_of (97 + (n - 0x81))]
             else if a = CHR 0xEF \<and> b = CHR 0xBC \<and> 0xA1 \<le> n \<and> n \<le> 0xBA then [char_of (97 + (n - 0xA1))]
             else g
      | _ \<Rightarrow> g)"

definition fold_char :: "string \<Rightarrow> string" where
  "fold_char g = (case map_of confusables g of Some c \<Rightarrow> c | None \<Rightarrow> full_width g)"

definition fold_confusables :: "string \<Rightarrow> string" where
  "fold_confusables s = concat (map fold_char (utf8_chars s))"

definition normalize_domain :: "unicode \<Rightarrow> string \<Rightarrow> string" where
  "normalize_domain u raw =
     (let s = trim_start_matches ''http://'' (trim_start_matches ''https://'' (str_trim raw));
          s = takeWhile (\<lambda>c. c \<noteq> CHR ''/'') s;
          s = lowercase u s;
          s = unwrap_or s (strip_prefix ''www.'' s)
      in fold_confusables (trim_end_matches (CHR ''.'') s))"

section \<open>Similarity of display names\<close>

text \<open>
  One row of the distance table from the row above it: \<open>left\<close> is the cell already written, the
  first cell of the row above is the one above it.
\<close>

fun lev_cells :: "'a \<Rightarrow> 'a list \<Rightarrow> nat list \<Rightarrow> nat \<Rightarrow> nat list" where
  "lev_cells a (b # bs) (diag # up # prev) left =
     left # lev_cells a bs (up # prev) (min (min (left + 1) (up + 1)) (diag + (if a = b then 0 else 1)))"
| "lev_cells a _ _ left = [left]"

fun lev_rows :: "nat \<Rightarrow> 'a list \<Rightarrow> 'a list \<Rightarrow> nat list \<Rightarrow> nat list" where
  "lev_rows i [] bv prev = prev"
| "lev_rows i (a # av) bv prev = lev_rows (Suc i) av bv (lev_cells a bv prev i)"

definition levenshtein_le2 :: "string \<Rightarrow> string \<Rightarrow> nat" where
  "levenshtein_le2 a b =
     (let av = utf8_chars a; bv = utf8_chars b; m = length av; n = length bv
      in if (if m < n then n - m else m - n) > 2 then 3
         else lev_rows 1 av bv [0..<Suc n] ! n)"

definition normalize_display_name :: "unicode \<Rightarrow> string \<Rightarrow> string" where
  "normalize_display_name u s = fold_confusables (lowercase u s)"

definition strip_punctuation :: "unicode \<Rightarrow> string \<Rightarrow> string" where
  "strip_punctuation u s =
     str_join '' '' (split_whitespace (concat (filter (\<lambda>g. alphanumeric u g \<or> is_ws g) (utf8_chars s))))"

definition display_name_similarity :: "unicode \<Rightarrow> string \<Rightarrow> string \<Rightarrow> nat" where
  "display_name_similarity u a b =
     (let na = normalize_display_name u a; nb = normalize_display_name u b
      in if na = nb then 100
         else if levenshtein_le2 na nb \<le> 1 then 90
         else let pa = strip_punctuation u na; pb = strip_punctuation u nb
              in if pa = pb then 85
                 else if starts_with pb pa \<or> starts_with pa pb then 70 else 0)"

definition AUTO_MERGE_THRESHOLD :: nat where
  "AUTO_MERGE_THRESHOLD = 90"

definition REVIEW_QUEUE_THRESHOLD :: nat where
  "REVIEW_QUEUE_THRESHOLD = 60"


section \<open>The distance table\<close>

fun edit_distance :: "'a list \<Rightarrow> 'a list \<Rightarrow> nat" where
  "edit_distance [] ys = length ys"
| "edit_distance (x # xs) [] = Suc (length xs)"
| "edit_distance (x # xs) (y # ys) =
     min (min (edit_distance (x # xs) ys + 1) (edit_distance xs (y # ys) + 1))
         (edit_distance xs ys + (if x = y then 0 else 1))"

lemma edit_distance_Nil [simp]: "edit_distance xs [] = length xs"
  by (cases xs) simp_all

definition dist_row :: "'a list \<Rightarrow> 'a list \<Rightarrow> 'a list \<Rightarrow> nat list" where
  "dist_row ra bs rb = map (\<lambda>j. edit_distance ra (rev (take j bs) @ rb)) [0..<Suc (length bs)]"

lemma dist_row_Nil: "dist_row ra [] rb = [edit_distance ra rb]"
  by (simp add: dist_row_def)

lemma dist_row_Cons: "dist_row ra (b # bs) rb = edit_distance ra rb # dist_row ra bs (b # rb)"
  by (simp add: dist_row_def map_upt_Suc del: upt_Suc)

lemma lev_cells_row: "lev_cells a bs (dist_row ra bs rb) (edit_distance (a # ra) rb) = dist_row (a # ra) bs rb"
proof (induction bs arbitrary: rb)
  case (Cons b bs)
  obtain up prev where row: "dist_row ra bs (b # rb) = up # prev" and up: "up = edit_distance ra (b # rb)"
    by (cases bs) (auto simp: dist_row_Nil dist_row_Cons)
  have "lev_cells a (b # bs) (dist_row ra (b # bs) rb) (edit_distance (a # ra) rb)
      = edit_distance (a # ra) rb # lev_cells a bs (dist_row ra bs (b # rb)) (edit_distance (a # ra) (b # rb))"
    by (simp add: dist_row_Cons row up)
  also have "\<dots> = dist_row (a # ra) (b # bs) rb"
    by (simp only: Cons.IH [of "b # rb"] dist_row_Cons)
  finally show ?case .
qed (simp add: dist_row_Nil)

lemma lev_rows_row:
  "lev_rows (Suc (length ra)) av bv (dist_row ra bv []) = dist_row (rev av @ ra) bv []"
proof (induction av arbitrary: ra)
  case (Cons a av)
  have "lev_cells a bv (dist_row ra bv []) (Suc (length ra)) = dist_row (a # ra) bv []"
    using lev_cells_row [of a bv ra "[]"] by simp
  then show ?case using Cons.IH [of "a # ra"] by simp
qed simp

lemma dist_row_first: "dist_row [] bv [] = [0..<Suc (length bv)]"
  by (auto simp: dist_row_def intro!: nth_equalityI simp del: upt_Suc)

lemma lev_rows_distance:
  "lev_rows 1 av bv [0..<Suc (length bv)] ! length bv = edit_distance (rev av) (rev bv)"
proof -
  have "lev_rows 1 av bv [0..<Suc (length bv)] = dist_row (rev av) bv []"
    using lev_rows_row [of "[]" av bv] by (simp only: dist_row_first append_Nil2 list.size(3) One_nat_def)
  then show ?thesis by (simp add: dist_row_def del: upt_Suc)
qed

section \<open>Edits\<close>

inductive edit_once :: "'a list \<Rightarrow> 'a list \<Rightarrow> bool" where
  ins: "edit_once (u @ v) (u @ c # v)"
| del: "edit_once (u @ c # v) (u @ v)"
| repl: "edit_once (u @ c # v) (u @ d # v)"

lemma distance_grow_right: "edit_distance xs (y # ys) \<le> edit_distance xs ys + 1"
  by (cases xs) simp_all

lemma distance_grow_left: "edit_distance (x # xs) ys \<le> edit_distance xs ys + 1"
  by (cases ys) simp_all

lemma distance_shrink_left: "edit_distance xs ys \<le> edit_distance (x # xs) ys + 1"
proof (induction ys)
  case (Cons y ys)
  then show ?case using distance_grow_right [of xs y ys] by simp
qed simp

definition close_lists :: "'a list \<Rightarrow> 'a list \<Rightarrow> bool" where
  "close_lists v w = (\<forall>ys. edit_distance v ys \<le> edit_distance w ys + 1 \<and> edit_distance w ys \<le> edit_distance v ys + 1)"

lemma close_lists_Cons: "close_lists v w \<Longrightarrow> close_lists (c # v) (c # w)"
proof -
  assume close: "close_lists v w"
  have "edit_distance (c # v) ys \<le> edit_distance (c # w) ys + 1 \<and>
        edit_distance (c # w) ys \<le> edit_distance (c # v) ys + 1" for ys
  proof (induction ys)
    case Nil
    have "length v \<le> length w + 1 \<and> length w \<le> length v + 1"
      using close [unfolded close_lists_def, rule_format, of "[]"] by simp
    then show ?case by simp
  next
    case (Cons y ys)
    then show ?case
      using close [unfolded close_lists_def, rule_format, of ys]
        close [unfolded close_lists_def, rule_format, of "y # ys"]
      by (cases "c = y"; simp; linarith)
  qed
  then show ?thesis by (simp add: close_lists_def)
qed

lemma close_lists_append: "close_lists v w \<Longrightarrow> close_lists (u @ v) (u @ w)"
  by (induction u) (simp_all add: close_lists_Cons)

lemma close_lists_insert: "close_lists v (c # v)"
  using distance_grow_left distance_shrink_left by (auto simp: close_lists_def)

lemma close_lists_replace: "close_lists (c # v) (d # v)"
proof -
  have "edit_distance (c # v) ys \<le> edit_distance (d # v) ys + 1" for c d ys
  proof (induction ys)
    case (Cons y ys)
    then show ?case by (cases "c = y"; cases "d = y"; simp; linarith)
  qed simp
  then show ?thesis by (auto simp: close_lists_def)
qed

lemma close_lists_sym: "close_lists v w \<Longrightarrow> close_lists w v"
  by (simp add: close_lists_def)

lemma edit_once_close: "edit_once xs zs \<Longrightarrow> close_lists xs zs"
  by (induction rule: edit_once.induct)
     (auto intro: close_lists_append close_lists_insert close_lists_sym close_lists_replace)

lemma distance_self [simp]: "edit_distance xs xs = 0"
  by (induction xs) simp_all

lemma edits_bound: "(edit_once ^^ k) xs ys \<Longrightarrow> edit_distance xs ys \<le> k"
proof (induction k arbitrary: xs)
  case (Suc k)
  then obtain zs where "edit_once xs zs" and "(edit_once ^^ k) zs ys"
    by (meson relpowp_Suc_D2)
  with Suc.IH show ?case
    by (fastforce dest: edit_once_close simp: close_lists_def intro: le_trans)
qed simp

lemma edits_Cons: "(edit_once ^^ k) xs ys \<Longrightarrow> (edit_once ^^ k) (c # xs) (c # ys)"
proof (induction k arbitrary: xs)
  case (Suc k)
  then obtain zs where one: "edit_once xs zs" and rest: "(edit_once ^^ k) zs ys"
    by (meson relpowp_Suc_D2)
  from one have "edit_once (c # xs) (c # zs)"
    by cases (metis append_Cons edit_once.intros)+
  with Suc.IH [OF rest] show ?case by (metis relpowp_Suc_I2)
qed simp

lemma edits_delete: "(edit_once ^^ length xs) xs []"
proof (induction xs)
  case (Cons x xs)
  moreover have "edit_once (x # xs) xs" using edit_once.del [of "[]" x xs] by simp
  ultimately show ?case by (metis length_Cons relpowp_Suc_I2)
qed simp

lemma edits_insert: "(edit_once ^^ length ys) [] ys"
proof (induction ys)
  case (Cons y ys)
  moreover have "edit_once ys (y # ys)" using edit_once.ins [of "[]" ys y] by simp
  ultimately show ?case by (metis length_Cons relpowp_Suc_I)
qed simp

lemma edits_reach: "(edit_once ^^ edit_distance xs ys) xs ys"
proof (induction xs ys rule: edit_distance.induct)
  case (1 ys)
  then show ?case by (simp add: edits_insert)
next
  case (2 x xs)
  then show ?case using edits_delete [of "x # xs"] by simp
next
  case (3 x xs y ys)
  have "edit_once (x # xs) xs" and "edit_once ys (y # ys)" and "edit_once (x # xs) (y # xs)"
    using edit_once.intros [of "[]"] by force+
  then have "(edit_once ^^ Suc (edit_distance (x # xs) ys)) (x # xs) (y # ys)"
    and "(edit_once ^^ Suc (edit_distance xs (y # ys))) (x # xs) (y # ys)"
    and "(edit_once ^^ Suc (edit_distance xs ys)) (x # xs) (y # ys)"
    and "x = y \<Longrightarrow> (edit_once ^^ edit_distance xs ys) (x # xs) (y # ys)"
    using 3 edits_Cons by (metis relpowp_Suc_I relpowp_Suc_I2)+
  then show ?case by (simp add: min_def)
qed

lemma distance_edits: "edit_distance xs ys \<le> k \<longleftrightarrow> (\<exists>j \<le> k. (edit_once ^^ j) xs ys)"
  using edits_bound edits_reach le_trans by blast

lemma edits_rev: "(edit_once ^^ k) xs ys \<Longrightarrow> (edit_once ^^ k) (rev xs) (rev ys)"
proof (induction k arbitrary: xs)
  case (Suc k)
  then obtain zs where one: "edit_once xs zs" and rest: "(edit_once ^^ k) zs ys"
    by (meson relpowp_Suc_D2)
  from one have "edit_once (rev xs) (rev zs)"
    by cases (simp_all add: edit_once.intros)
  with Suc.IH [OF rest] show ?case by (metis relpowp_Suc_I2)
qed simp

lemma distance_rev: "edit_distance (rev xs) (rev ys) \<le> k \<longleftrightarrow> (\<exists>j \<le> k. (edit_once ^^ j) xs ys)"
  unfolding distance_edits by (metis edits_rev rev_rev_ident)

lemma distance_length: "length xs \<le> edit_distance xs ys + length ys \<and> length ys \<le> edit_distance xs ys + length xs"
  by (induction xs ys rule: edit_distance.induct) auto

text \<open>
  (equivalence). For at most two edits, the distance the similarity uses is the least number of
  single-character insertions, deletions and replacements between the two names.
\<close>

theorem levenshtein_counts_edits:
  assumes "k \<le> 2"
  shows "levenshtein_le2 a b \<le> k \<longleftrightarrow> (\<exists>j \<le> k. (edit_once ^^ j) (utf8_chars a) (utf8_chars b))"
proof -
  let ?a = "utf8_chars a" and ?b = "utf8_chars b"
  have "levenshtein_le2 a b \<le> k \<longleftrightarrow> edit_distance (rev ?a) (rev ?b) \<le> k"
    using distance_length [of "rev ?a" "rev ?b"] assms lev_rows_distance [of ?a ?b]
    by (auto simp: levenshtein_le2_def Let_def simp del: upt_Suc split: if_splits)
  then show ?thesis by (simp add: distance_rev)
qed

theorem levenshtein_counts_edits_witness:
  "\<exists>j \<le> 2. (edit_once ^^ j) (utf8_chars ''acme'') (utf8_chars ''amce'')"
proof -
  have "levenshtein_le2 ''acme'' ''amce'' \<le> 2" by code_simp
  then show ?thesis using levenshtein_counts_edits [of 2 "''acme''" "''amce''"] by simp
qed

end
