(* ===== verification/Registry.thy ===== *)
theory Registry
  imports Domains Db Json
begin

text \<open>
  The tables around a domain and the operations of \<open>EntityRepo\<close> in
  \<open>crates/storage/src/repositories/entities.rs\<close>: entities, verification attempts, the review queue
  of near duplicates, disputes with their events, and the links of contributions. \<open>now\<close> is the
  clock of the statement; a fresh identifier is an argument.
\<close>

section \<open>The tables\<close>

record entity_record =
  en_domain :: string
  en_display_name :: string
  en_role :: string
  en_claim_status :: string
  en_verified_at :: "int option"
  en_verification_method :: "string option"
  en_grace_period_start :: "int option"
  en_created_at :: int
  en_updated_at :: int

record attempt_row =
  at_id :: uuid
  at_domain :: string
  at_token_hash :: string
  at_method :: string
  at_status :: string
  at_claimant_session :: "string option"
  at_claimant_email :: "string option"
  at_attestation_version :: string
  at_attested_at :: "int option"
  at_expires_at :: int
  at_used_at :: "int option"
  at_created_at :: int

record dedup_queue_entry =
  dq_id :: uuid
  dq_canonical_domain :: string
  dq_candidate_domain :: string
  dq_candidate_name :: string
  dq_similarity_score :: int
  dq_match_reason :: string
  dq_status :: string
  dq_reviewed_by :: "string option"
  dq_reviewed_at :: "int option"
  dq_rationale :: "string option"
  dq_created_at :: int

record dispute_record =
  di_id :: uuid
  di_domain :: string
  di_dispute_type :: string
  di_status :: string
  di_description :: string
  di_submitter_email :: "string option"
  di_proposed_value :: "string option"
  di_suppressed :: bool
  di_resolved_by :: "string option"
  di_resolved_at :: "int option"
  di_resolution_grounds :: "string option"
  di_created_at :: int
  di_updated_at :: int

record dispute_event =
  de_id :: uuid
  de_dispute_id :: uuid
  de_event_type :: string
  de_actor :: string
  de_rationale :: "string option"
  de_detail :: json
  de_created_at :: int

text \<open>Of a contribution, the project (as text) and the domain it is linked to.\<close>

record contribution_link =
  cl_project_id :: string
  cl_entity_domain :: "string option"

record registry =
  rg_entities :: "entity_record list"
  rg_attempts :: "attempt_row list"
  rg_dedup :: "dedup_queue_entry list"
  rg_disputes :: "dispute_record list"
  rg_dispute_events :: "dispute_event list"
  rg_contributions :: "contribution_link list"

type_synonym 'a regm = "(registry, 'a) dbm"

text \<open>The check constraints of the entity table.\<close>

definition entity_row_ok :: "entity_record \<Rightarrow> bool" where
  "entity_row_ok e =
     (en_role e \<in> {''brand'', ''source'', ''both''}
      \<and> en_claim_status e \<in> {''unclaimed'', ''pending'', ''verified'', ''revoked'', ''pending_conflict''}
      \<and> (case en_verification_method e of
           None \<Rightarrow> True | Some m \<Rightarrow> m \<in> {''dns_txt'', ''email_magic_link'', ''manual_override''}))"

text \<open>An update of the entity of a domain, which the checks may refuse.\<close>

definition update_entity :: "string \<Rightarrow> (entity_record \<Rightarrow> bool) \<Rightarrow> (entity_record \<Rightarrow> entity_record) \<Rightarrow> nat regm" where
  "update_entity domain p f =
     cstmt (\<lambda>d. let q = (\<lambda>e. en_domain e = domain \<and> p e)
                in if list_all (\<lambda>e. q e \<longrightarrow> entity_row_ok (f e)) (rg_entities d)
                   then Some (rows_affected q (rg_entities d), d\<lparr>rg_entities := update_where q f (rg_entities d)\<rparr>)
                   else None)"

section \<open>Entities\<close>

definition new_entity :: "int \<Rightarrow> string \<Rightarrow> string \<Rightarrow> string \<Rightarrow> entity_record" where
  "new_entity now domain display_name role =
     \<lparr>en_domain = domain, en_display_name = display_name, en_role = role, en_claim_status = ''unclaimed'',
      en_verified_at = None, en_verification_method = None, en_grace_period_start = None,
      en_created_at = now, en_updated_at = now\<rparr>"

definition entity_get :: "string \<Rightarrow> entity_record option regm" where
  "entity_get domain = query (\<lambda>d. find (\<lambda>e. en_domain e = domain) (rg_entities d))"

definition upsert :: "int \<Rightarrow> string \<Rightarrow> string \<Rightarrow> string \<Rightarrow> (entity_record \<times> bool) regm" where
  "upsert now domain display_name role =
     dbind (cstmt (\<lambda>d. let e = new_entity now domain display_name role
                       in if \<not> entity_row_ok e then None
                          else if list_ex (\<lambda>x. en_domain x = domain) (rg_entities d) then Some (0 :: nat, d)
                          else Some (1, d\<lparr>rg_entities := rg_entities d @ [e]\<rparr>))) (\<lambda>inserted.
     dbind (entity_get domain) (\<lambda>found.
     dbind (ok_or_raise NotFound found) (\<lambda>record.
       ret (record, 0 < inserted))))"

record entity_list_filters =
  ef_claim_status :: "string option"
  ef_verification_method :: "string option"
  ef_domain :: "string option"

text \<open>\<open>LIKE\<close> over characters, with the backslash as the escape.\<close>

function like_match :: "string list \<Rightarrow> string list \<Rightarrow> bool" where
  "like_match [] s = (s = [])"
| "like_match (p # ps) [] = (p = ''%'' \<and> like_match ps [])"
| "like_match (p # ps) (c # cs) =
     (if p = ''%'' then like_match ps (c # cs) \<or> like_match (p # ps) cs
      else if p = ''_'' then like_match ps cs
      else if p = [CHR 0x5C] then (case ps of [] \<Rightarrow> False | q # qs \<Rightarrow> q = c \<and> like_match qs cs)
      else p = c \<and> like_match ps cs)"
  by pat_completeness auto
termination
  by (relation "measure (\<lambda>(ps, s). length ps + length s)") auto

definition ilike :: "unicode \<Rightarrow> string \<Rightarrow> string \<Rightarrow> bool" where
  "ilike u s pat = like_match (utf8_chars (lowercase u pat)) (utf8_chars (lowercase u s))"

definition passes :: "unicode \<Rightarrow> entity_list_filters \<Rightarrow> entity_record \<Rightarrow> bool" where
  "passes u f e =
     ((case ef_claim_status f of None \<Rightarrow> True | Some cs \<Rightarrow> en_claim_status e = cs)
      \<and> (case ef_verification_method f of None \<Rightarrow> True | Some vm \<Rightarrow> en_verification_method e = Some vm)
      \<and> (case ef_domain f of None \<Rightarrow> True | Some d \<Rightarrow> ilike u (en_domain e) (''%'' @ d @ ''%'')))"

definition entity_list :: "unicode \<Rightarrow> entity_list_filters \<Rightarrow> int \<Rightarrow> int \<Rightarrow> entity_record list regm" where
  "entity_list u filters limit offset =
     query (\<lambda>d. take (nat limit) (drop (nat offset)
                  (sort_key (\<lambda>e. - en_created_at e) (filter (passes u filters) (rg_entities d)))))"

datatype entity_project_mapping = MapUnique string | MapNone | MapAmbiguous "string list"

text \<open>The distinct projects of a domain's contributions; SQL leaves their order open.\<close>

definition project_for_domain :: "string \<Rightarrow> entity_project_mapping regm" where
  "project_for_domain domain =
     dbind (query (\<lambda>d. remdups (map cl_project_id
              (filter (\<lambda>c. cl_entity_domain c = Some domain) (rg_contributions d))))) (\<lambda>project_ids.
       ret (case project_ids of [] \<Rightarrow> MapNone | [p] \<Rightarrow> MapUnique p | _ \<Rightarrow> MapAmbiguous project_ids))"

record erase_counts =
  ec_entity_rows :: nat
  ec_attempt_rows :: nat
  ec_dispute_rows :: nat

text \<open>
  Deleting disputes takes their events along; deleting an entity takes its attempts and review
  entries along and is refused while a contribution links to it.
\<close>

definition delete_disputes :: "string \<Rightarrow> nat regm" where
  "delete_disputes domain =
     stmt (\<lambda>d. (rows_affected (\<lambda>r. di_domain r = domain) (rg_disputes d),
       d\<lparr>rg_disputes := filter (\<lambda>r. di_domain r \<noteq> domain) (rg_disputes d),
         rg_dispute_events := filter (\<lambda>v. \<not> list_ex (\<lambda>r. di_domain r = domain \<and> di_id r = de_dispute_id v)
           (rg_disputes d)) (rg_dispute_events d)\<rparr>))"

definition delete_attempts :: "string \<Rightarrow> nat regm" where
  "delete_attempts domain =
     stmt (\<lambda>d. (rows_affected (\<lambda>a. at_domain a = domain) (rg_attempts d),
       d\<lparr>rg_attempts := filter (\<lambda>a. at_domain a \<noteq> domain) (rg_attempts d)\<rparr>))"

definition unlink_contributions :: "string \<Rightarrow> unit regm" where
  "unlink_contributions domain =
     exec (\<lambda>d. d\<lparr>rg_contributions := update_where (\<lambda>c. cl_entity_domain c = Some domain)
       (\<lambda>c. c\<lparr>cl_entity_domain := None\<rparr>) (rg_contributions d)\<rparr>)"

definition delete_entity :: "string \<Rightarrow> nat regm" where
  "delete_entity domain =
     cstmt (\<lambda>d. if list_ex (\<lambda>e. en_domain e = domain) (rg_entities d)
                   \<and> list_ex (\<lambda>c. cl_entity_domain c = Some domain) (rg_contributions d)
       then None
       else Some (rows_affected (\<lambda>e. en_domain e = domain) (rg_entities d),
         d\<lparr>rg_entities := filter (\<lambda>e. en_domain e \<noteq> domain) (rg_entities d),
           rg_attempts := filter (\<lambda>a. at_domain a \<noteq> domain) (rg_attempts d),
           rg_dedup := filter (\<lambda>q. dq_canonical_domain q \<noteq> domain) (rg_dedup d)\<rparr>))"

definition erase :: "string \<Rightarrow> erase_counts regm" where
  "erase domain =
     tx (dbind (delete_disputes domain) (\<lambda>disputes.
         dbind (delete_attempts domain) (\<lambda>attempts.
         dbind (unlink_contributions domain) (\<lambda>_.
         dbind (delete_entity domain) (\<lambda>entity.
           ret \<lparr>ec_entity_rows = entity, ec_attempt_rows = attempts, ec_dispute_rows = disputes\<rparr>)))))"

definition set_claim_status :: "int \<Rightarrow> string \<Rightarrow> string \<Rightarrow> string option \<Rightarrow> unit regm" where
  "set_claim_status now domain status verification_method =
     dbind (update_entity domain (\<lambda>_. True)
       (\<lambda>e. e\<lparr>en_claim_status := status,
              en_verification_method := or_else verification_method (en_verification_method e),
              en_verified_at := (if status = ''verified'' then Some now else en_verified_at e),
              en_updated_at := now\<rparr>)) (\<lambda>_. ret ())"

definition set_grace_period_start :: "int \<Rightarrow> string \<Rightarrow> unit regm" where
  "set_grace_period_start now domain =
     dbind (update_entity domain (\<lambda>e. en_claim_status e = ''verified'')
       (\<lambda>e. e\<lparr>en_grace_period_start := Some now, en_claim_status := ''revoked'', en_updated_at := now\<rparr>)) (\<lambda>_. ret ())"

definition fourteen_days :: int where
  "fourteen_days = 14 * 86400000000"

definition reopen_after_grace_period :: "int \<Rightarrow> nat regm" where
  "reopen_after_grace_period now =
     (let q = (\<lambda>e. en_claim_status e = ''revoked'' \<and>
                 (case en_grace_period_start e of None \<Rightarrow> False | Some t \<Rightarrow> t < now - fourteen_days))
      in stmt (\<lambda>d. (rows_affected q (rg_entities d),
           d\<lparr>rg_entities := update_where q
              (\<lambda>e. e\<lparr>en_claim_status := ''unclaimed'', en_grace_period_start := None, en_verified_at := None,
                     en_verification_method := None, en_updated_at := now\<rparr>) (rg_entities d)\<rparr>)))"

definition mark_pending_conflict :: "int \<Rightarrow> string \<Rightarrow> unit regm" where
  "mark_pending_conflict now domain =
     dbind (update_entity domain (\<lambda>e. en_claim_status e = ''pending'')
       (\<lambda>e. e\<lparr>en_claim_status := ''pending_conflict'', en_updated_at := now\<rparr>)) (\<lambda>_. ret ())"

section \<open>The review queue\<close>

definition dedup_row_ok :: "dedup_queue_entry \<Rightarrow> bool" where
  "dedup_row_ok q =
     (0 \<le> dq_similarity_score q \<and> dq_similarity_score q \<le> 100
      \<and> dq_status q \<in> {''pending_review'', ''approved_merge'', ''rejected_merge'', ''escalated''})"

definition enqueue_dedup_review ::
  "int \<Rightarrow> uuid \<Rightarrow> string \<Rightarrow> string \<Rightarrow> string \<Rightarrow> int \<Rightarrow> string \<Rightarrow> uuid regm" where
  "enqueue_dedup_review now qid canonical_domain candidate_domain candidate_name similarity_score match_reason =
     cstmt (\<lambda>d.
       let q = \<lparr>dq_id = qid, dq_canonical_domain = canonical_domain, dq_candidate_domain = candidate_domain,
                dq_candidate_name = candidate_name, dq_similarity_score = similarity_score,
                dq_match_reason = match_reason, dq_status = ''pending_review'', dq_reviewed_by = None,
                dq_reviewed_at = None, dq_rationale = None, dq_created_at = now\<rparr>
       in if dedup_row_ok q \<and> \<not> list_ex (\<lambda>x. dq_id x = qid) (rg_dedup d)
             \<and> list_ex (\<lambda>e. en_domain e = canonical_domain) (rg_entities d)
          then Some (qid, d\<lparr>rg_dedup := rg_dedup d @ [q]\<rparr>) else None)"

definition adjudicate_dedup :: "int \<Rightarrow> uuid \<Rightarrow> string \<Rightarrow> string \<Rightarrow> string \<Rightarrow> unit regm" where
  "adjudicate_dedup now queue_id decision operator rationale =
     cstmt (\<lambda>d.
       let p = (\<lambda>q. dq_id q = queue_id \<and> dq_status q = ''pending_review'');
           f = (\<lambda>q. q\<lparr>dq_status := decision, dq_reviewed_by := Some operator, dq_reviewed_at := Some now,
                      dq_rationale := Some rationale\<rparr>)
       in if list_all (\<lambda>q. p q \<longrightarrow> dedup_row_ok (f q)) (rg_dedup d)
          then Some ((), d\<lparr>rg_dedup := update_where p f (rg_dedup d)\<rparr>) else None)"

definition pending_dedup_reviews :: "dedup_queue_entry list regm" where
  "pending_dedup_reviews =
     query (\<lambda>d. sort_key dq_created_at (filter (\<lambda>q. dq_status q = ''pending_review'') (rg_dedup d)))"

definition resolve_display :: "string \<Rightarrow> (string \<times> string) regm" where
  "resolve_display domain =
     dbind (entity_get domain) (\<lambda>found.
       ret (case found of Some e \<Rightarrow> (en_display_name e, en_claim_status e) | None \<Rightarrow> (domain, ''unclaimed'')))"

end
