(* ===== verification/Disputes.thy ===== *)
theory Disputes
  imports Registry
begin

text \<open>
  The dispute lifecycle: \<open>crates/storage/src/repositories/disputes.rs\<close> and the handlers of
  \<open>apps/api/src/routes/disputes.rs\<close>. \<open>ids\<close> supplies the identifiers of the rows a call inserts.
\<close>

section \<open>Rows\<close>

definition DISPUTE_TYPES :: "string list" where
  "DISPUTE_TYPES = [''correction'', ''claim_conflict'', ''gdpr_objection'', ''removal'', ''change_of_control'']"

definition dispute_row_ok :: "dispute_record \<Rightarrow> bool" where
  "dispute_row_ok r =
     (di_dispute_type r \<in> set DISPUTE_TYPES
      \<and> di_status r \<in> {''open'', ''under_review'', ''approved'', ''rejected'', ''resolved''})"

definition new_dispute ::
  "int \<Rightarrow> uuid \<Rightarrow> string \<Rightarrow> string \<Rightarrow> string \<Rightarrow> string option \<Rightarrow> string option \<Rightarrow> bool \<Rightarrow> dispute_record" where
  "new_dispute now did domain dispute_type description submitter_email proposed_value suppressed =
     \<lparr>di_id = did, di_domain = domain, di_dispute_type = dispute_type, di_status = ''open'',
      di_description = description, di_submitter_email = submitter_email, di_proposed_value = proposed_value,
      di_suppressed = suppressed, di_resolved_by = None, di_resolved_at = None, di_resolution_grounds = None,
      di_created_at = now, di_updated_at = now\<rparr>"

definition insert_dispute :: "dispute_record \<Rightarrow> uuid regm" where
  "insert_dispute r =
     cstmt (\<lambda>d. if dispute_row_ok r \<and> \<not> list_ex (\<lambda>x. di_id x = di_id r) (rg_disputes d)
       then Some (di_id r, d\<lparr>rg_disputes := rg_disputes d @ [r]\<rparr>) else None)"

text \<open>The foreign key asks for the dispute; the identifier is the table's default.\<close>

definition insert_dispute_event ::
  "int \<Rightarrow> uuid \<Rightarrow> uuid \<Rightarrow> string \<Rightarrow> string \<Rightarrow> string option \<Rightarrow> json \<Rightarrow> unit regm" where
  "insert_dispute_event now eid dispute_id event_type actor rationale detail =
     cstmt (\<lambda>d. if list_ex (\<lambda>r. di_id r = dispute_id) (rg_disputes d)
                   \<and> \<not> list_ex (\<lambda>v. de_id v = eid) (rg_dispute_events d)
       then Some ((), d\<lparr>rg_dispute_events := rg_dispute_events d @
         [\<lparr>de_id = eid, de_dispute_id = dispute_id, de_event_type = event_type, de_actor = actor,
           de_rationale = rationale, de_detail = detail, de_created_at = now\<rparr>]\<rparr>)
       else None)"

definition update_dispute :: "uuid \<Rightarrow> (dispute_record \<Rightarrow> dispute_record) \<Rightarrow> unit regm" where
  "update_dispute dispute_id f =
     cstmt (\<lambda>d. if list_all (\<lambda>r. di_id r = dispute_id \<longrightarrow> dispute_row_ok (f r)) (rg_disputes d)
       then Some ((), d\<lparr>rg_disputes := update_where (\<lambda>r. di_id r = dispute_id) f (rg_disputes d)\<rparr>)
       else None)"

definition decide :: "int \<Rightarrow> string \<Rightarrow> string \<Rightarrow> string \<Rightarrow> dispute_record \<Rightarrow> dispute_record" where
  "decide now status operator grounds r =
     r\<lparr>di_status := status, di_resolved_by := Some operator, di_resolved_at := Some now,
       di_resolution_grounds := Some grounds, di_updated_at := now\<rparr>"

section \<open>The repository\<close>

definition dispute_get :: "uuid \<Rightarrow> dispute_record option regm" where
  "dispute_get did = query (\<lambda>d. find (\<lambda>r. di_id r = did) (rg_disputes d))"

definition dispute_pending :: "dispute_record list regm" where
  "dispute_pending =
     query (\<lambda>d. sort_key di_created_at (filter (\<lambda>r. di_status r \<in> {''open'', ''under_review''}) (rg_disputes d)))"

definition dispute_events :: "uuid \<Rightarrow> dispute_event list regm" where
  "dispute_events did =
     query (\<lambda>d. sort_key de_created_at (filter (\<lambda>v. de_dispute_id v = did) (rg_dispute_events d)))"

text \<open>After the commit the row is read again.\<close>

definition reread :: "uuid \<Rightarrow> dispute_record regm" where
  "reread did = dbind (dispute_get did) (ok_or_raise NotFound)"

definition submit ::
  "int \<Rightarrow> (nat \<Rightarrow> uuid) \<Rightarrow> string \<Rightarrow> string \<Rightarrow> string \<Rightarrow> string option \<Rightarrow> string option \<Rightarrow> dispute_record regm" where
  "submit now ids domain dispute_type description submitter_email proposed_value =
     (let suppress_on_submit = (dispute_type = ''removal'')
      in dbind (tx (
           dbind (insert_dispute (new_dispute now (ids 0) domain dispute_type description submitter_email
                    proposed_value suppress_on_submit)) (\<lambda>did.
           dbind (insert_dispute_event now (ids 1) did ''submitted'' ''submitter'' None
                    (JObj [(''dispute_type'', JStr dispute_type),
                           (''suppressed_on_submit'', JBool suppress_on_submit)])) (\<lambda>_.
           dbind (if suppress_on_submit
                  then insert_dispute_event now (ids 2) did ''suppressed'' ''system''
                         (Some ''auto-suppressed pending review (AC-4)'') (JObj [])
                  else ret ()) (\<lambda>_.
             ret did))))) reread)"

text \<open>
  A decision loads the dispute, of the given type where the operation asks for one, then writes,
  in one transaction.
\<close>

definition load_dispute :: "uuid \<Rightarrow> string option \<Rightarrow> dispute_record regm" where
  "load_dispute did dispute_type =
     dbind (query (\<lambda>d. find (\<lambda>r. di_id r = did \<and> (case dispute_type of None \<Rightarrow> True | Some ty \<Rightarrow> di_dispute_type r = ty))
              (rg_disputes d)))
       (ok_or_raise NotFound)"

definition approve_correction ::
  "int \<Rightarrow> (nat \<Rightarrow> uuid) \<Rightarrow> uuid \<Rightarrow> string \<Rightarrow> string \<Rightarrow> dispute_record regm" where
  "approve_correction now ids dispute_id operator rationale =
     dbind (tx (
       dbind (load_dispute dispute_id (Some ''correction'')) (\<lambda>row.
       dbind (case di_proposed_value row of
                None \<Rightarrow> ret ()
              | Some new_name \<Rightarrow>
                  if str_trim new_name = [] then ret ()
                  else dbind (update_entity (di_domain row) (\<lambda>_. True)
                         (\<lambda>e. e\<lparr>en_display_name := str_trim new_name, en_updated_at := now\<rparr>)) (\<lambda>_. ret ())) (\<lambda>_.
       dbind (update_dispute dispute_id (decide now ''approved'' operator rationale)) (\<lambda>_.
         insert_dispute_event now (ids 0) dispute_id ''approved'' operator (Some rationale)
           (JObj [(''applied_value'', case di_proposed_value row of None \<Rightarrow> JNull | Some v \<Rightarrow> JStr v)]))))))
     (\<lambda>_. reread dispute_id)"

definition reject :: "int \<Rightarrow> (nat \<Rightarrow> uuid) \<Rightarrow> uuid \<Rightarrow> string \<Rightarrow> string \<Rightarrow> dispute_record regm" where
  "reject now ids dispute_id operator grounds =
     dbind (tx (
       dbind (load_dispute dispute_id None) (\<lambda>row.
       dbind (update_dispute dispute_id
                (\<lambda>r. (decide now ''rejected'' operator grounds r)\<lparr>di_suppressed := False\<rparr>)) (\<lambda>_.
       dbind (insert_dispute_event now (ids 0) dispute_id ''rejected'' operator (Some grounds)
                (JObj [(''appeals_path'', JStr ''reply to the decision notification to appeal'')])) (\<lambda>_.
         if di_suppressed row
         then insert_dispute_event now (ids 1) dispute_id ''unsuppressed'' operator
                (Some ''suppression lifted: takedown rejected'') (JObj [(''domain'', JStr (di_domain row))])
         else ret ())))))
     (\<lambda>_. reread dispute_id)"

definition adjudicate_claim_conflict ::
  "int \<Rightarrow> (nat \<Rightarrow> uuid) \<Rightarrow> uuid \<Rightarrow> string \<Rightarrow> string \<Rightarrow> string option \<Rightarrow> string \<Rightarrow> dispute_record regm" where
  "adjudicate_claim_conflict now ids dispute_id operator winner_email loser_email rationale =
     dbind (tx (
       dbind (load_dispute dispute_id (Some ''claim_conflict'')) (\<lambda>row.
       dbind (update_entity (di_domain row) (\<lambda>_. True)
                (\<lambda>e. e\<lparr>en_claim_status := ''verified'', en_verification_method := Some ''dns_txt'',
                       en_verified_at := Some now, en_updated_at := now\<rparr>)) (\<lambda>_.
       dbind (update_dispute dispute_id (decide now ''resolved'' operator rationale)) (\<lambda>_.
       dbind (insert_dispute_event now (ids 0) dispute_id ''conflict_adjudicated'' operator (Some rationale)
                (JObj [(''arbiter'', JStr ''dns_txt_control''),
                       (''loser_email'', case loser_email of None \<Rightarrow> JNull | Some l \<Rightarrow> JStr l),
                       (''winner_email'', JStr winner_email)])) (\<lambda>_.
         case loser_email of
           None \<Rightarrow> ret ()
         | Some loser \<Rightarrow>
             insert_dispute_event now (ids 1) dispute_id ''notification_sent'' ''system''
               (Some ''losing party notified: outcome + re-claim option'')
               (JObj [(''outcome'', JStr ''lost''), (''reclaim_available'', JBool True),
                      (''recipient'', JStr loser)])))))))
     (\<lambda>_. reread dispute_id)"

definition transfer_control ::
  "int \<Rightarrow> (nat \<Rightarrow> uuid) \<Rightarrow> uuid \<Rightarrow> string \<Rightarrow> string \<Rightarrow> string \<Rightarrow> dispute_record regm" where
  "transfer_control now ids dispute_id operator new_owner_email rationale =
     dbind (tx (
       dbind (load_dispute dispute_id (Some ''change_of_control'')) (\<lambda>row.
       dbind (update_entity (di_domain row) (\<lambda>_. True)
                (\<lambda>e. e\<lparr>en_claim_status := ''verified'', en_verification_method := Some ''dns_txt'',
                       en_verified_at := Some now, en_grace_period_start := None, en_updated_at := now\<rparr>)) (\<lambda>_.
       dbind (update_dispute dispute_id (decide now ''resolved'' operator rationale)) (\<lambda>_.
         insert_dispute_event now (ids 0) dispute_id ''control_transferred'' operator (Some rationale)
           (JObj [(''arbiter'', JStr ''dns_txt_control''), (''new_owner_email'', JStr new_owner_email)]))))))
     (\<lambda>_. reread dispute_id)"

definition assess_gdpr_objection ::
  "int \<Rightarrow> (nat \<Rightarrow> uuid) \<Rightarrow> uuid \<Rightarrow> string \<Rightarrow> bool \<Rightarrow> string \<Rightarrow> dispute_record regm" where
  "assess_gdpr_objection now ids dispute_id operator honored grounds =
     dbind (tx (
       dbind (load_dispute dispute_id (Some ''gdpr_objection'')) (\<lambda>row.
       dbind (if honored then update_dispute dispute_id (\<lambda>r. r\<lparr>di_suppressed := True\<rparr>) else ret ()) (\<lambda>_.
       dbind (update_dispute dispute_id
                (decide now (if honored then ''approved'' else ''rejected'') operator grounds)) (\<lambda>_.
         insert_dispute_event now (ids 0) dispute_id ''gdpr_assessed'' operator (Some grounds)
           (JObj [(''article'', JStr ''GDPR Art.21''), (''domain'', JStr (di_domain row)),
                  (''outcome'', JStr (if honored then ''honored'' else ''refused'')),
                  (''processing_stopped'', JBool honored)]))))))
     (\<lambda>_. reread dispute_id)"

definition is_suppressed :: "string \<Rightarrow> bool regm" where
  "is_suppressed domain = query (\<lambda>d. list_ex (\<lambda>r. di_domain r = domain \<and> di_suppressed r) (rg_disputes d))"

definition record_notification :: "int \<Rightarrow> uuid \<Rightarrow> uuid \<Rightarrow> string \<Rightarrow> string \<Rightarrow> unit regm" where
  "record_notification now eid dispute_id recipient summary =
     insert_dispute_event now eid dispute_id ''notification_sent'' ''system'' (Some summary)
       (JObj [(''recipient'', JStr recipient)])"

section \<open>The handlers\<close>

text \<open>An answer that is no success: its status and error code.\<close>

type_synonym api_refusal = "nat \<times> string"

type_synonym 'a regh = "(registry, api_refusal, 'a) rm"

definition stored :: "'a regm \<Rightarrow> 'a regh" where
  "stored m = map_err (\<lambda>_. (500, ''storage_error'')) m"

definition map_repo_err :: "storage_error \<Rightarrow> api_refusal" where
  "map_repo_err e = (case e of NotFound \<Rightarrow> (404, ''dispute_not_found'') | Sqlx \<Rightarrow> (500, ''storage_error''))"

record submit_request =
  sr_domain :: string
  sr_dispute_type :: string
  sr_description :: string
  sr_submitter_email :: "string option"
  sr_proposed_value :: "string option"

definition submit_dispute :: "unicode \<Rightarrow> int \<Rightarrow> (nat \<Rightarrow> uuid) \<Rightarrow> submit_request \<Rightarrow> dispute_record regh" where
  "submit_dispute u now ids body =
     (let domain = normalize_domain u (sr_domain body); dispute_type = str_trim (sr_dispute_type body)
      in if domain = [] then raise (400, ''empty_domain'')
         else if dispute_type \<notin> set DISPUTE_TYPES then raise (400, ''invalid_dispute_type'')
         else stored (submit now ids domain dispute_type (str_trim (sr_description body))
                (map_option str_trim (sr_submitter_email body)) (map_option str_trim (sr_proposed_value body))))"

definition list_pending :: "dispute_record list regh" where
  "list_pending = stored dispute_pending"

definition get_dispute :: "uuid \<Rightarrow> dispute_record regh" where
  "get_dispute did = dbind (stored (dispute_get did)) (ok_or_raise (404, ''dispute_not_found''))"

definition get_events :: "uuid \<Rightarrow> dispute_event list regh" where
  "get_events did = stored (dispute_events did)"

datatype operator_action =
    Approve string string
  | Reject string string
  | Adjudicate string string "string option" string
  | Transfer string string string
  | GdprAssess string bool string

definition operator_action :: "int \<Rightarrow> (nat \<Rightarrow> uuid) \<Rightarrow> uuid \<Rightarrow> operator_action \<Rightarrow> dispute_record regh" where
  "operator_action now ids did action =
     map_err map_repo_err
       (case action of
          Approve operator rationale \<Rightarrow> approve_correction now ids did (str_trim operator) (str_trim rationale)
        | Reject operator grounds \<Rightarrow> reject now ids did (str_trim operator) (str_trim grounds)
        | Adjudicate operator winner loser rationale \<Rightarrow>
            adjudicate_claim_conflict now ids did (str_trim operator) (str_trim winner)
              (map_option str_trim loser) (str_trim rationale)
        | Transfer operator new_owner rationale \<Rightarrow>
            transfer_control now ids did (str_trim operator) (str_trim new_owner) (str_trim rationale)
        | GdprAssess operator honored grounds \<Rightarrow>
            assess_gdpr_objection now ids did (str_trim operator) honored (str_trim grounds))"

section \<open>What one call may do\<close>

text \<open>A call on the disputes, whatever its arguments: a submission, a decision or a notification.\<close>

datatype dispute_call =
    CallSubmit submit_request
  | CallDecide uuid operator_action
  | CallNotify uuid string string

definition run_call :: "unicode \<Rightarrow> int \<times> (nat \<Rightarrow> uuid) \<times> dispute_call \<Rightarrow> unit regh" where
  "run_call u call =
     (case call of (now, ids, c) \<Rightarrow>
        (case c of
           CallSubmit body \<Rightarrow> dbind (submit_dispute u now ids body) (\<lambda>_. ret ())
         | CallDecide did action \<Rightarrow> dbind (operator_action now ids did action) (\<lambda>_. ret ())
         | CallNotify did recipient summary \<Rightarrow> stored (record_notification now (ids 0) did recipient summary)))"

definition found_for :: "uuid \<Rightarrow> string option \<Rightarrow> registry \<Rightarrow> dispute_record \<Rightarrow> bool" where
  "found_for did ty t r =
     (find (\<lambda>r. di_id r = did \<and> (case ty of None \<Rightarrow> True | Some ty \<Rightarrow> di_dispute_type r = ty)) (rg_disputes t) = Some r)"

lemma load_InrD:
  "load_dispute did ty (fs, t) = (Inr r, (fs', t')) \<Longrightarrow> t' = t \<and> found_for did ty t r"
  unfolding load_dispute_def found_for_def by (rule found_InrD)

lemma update_InrD:
  "update_dispute did f (fs, t) = (Inr a, (fs', t')) \<Longrightarrow>
     t' = t\<lparr>rg_disputes := update_where (\<lambda>r. di_id r = did) f (rg_disputes t)\<rparr>"
  by (auto simp: update_dispute_def dest!: cstmt_InrD split: if_splits)

lemma event_InrD:
  "insert_dispute_event now eid did ety actor rationale detail (fs, t) = (Inr a, (fs', t')) \<Longrightarrow>
     \<exists>v. de_dispute_id v = did \<and> t' = t\<lparr>rg_dispute_events := rg_dispute_events t @ [v]\<rparr>"
  by (rule exI [of _ "\<lparr>de_id = eid, de_dispute_id = did, de_event_type = ety, de_actor = actor,
        de_rationale = rationale, de_detail = detail, de_created_at = now\<rparr>"])
     (auto simp: insert_dispute_event_def dest!: cstmt_InrD split: if_splits)

lemma entity_InrD:
  "update_entity dname p f (fs, t) = (Inr a, (fs', t')) \<Longrightarrow> \<exists>es. t' = t\<lparr>rg_entities := es\<rparr>"
  by (auto simp: update_entity_def Let_def dest!: cstmt_InrD split: if_splits)

lemmas InrDs = load_InrD update_InrD event_InrD entity_InrD

text \<open>\<open>decided did f\<close>: the dispute was updated by \<open>f\<close>, and events about it were added, at least one.\<close>

definition decided :: "uuid \<Rightarrow> (dispute_record \<Rightarrow> dispute_record) \<Rightarrow> registry \<Rightarrow> registry \<Rightarrow> bool" where
  "decided did f t t' =
     (rg_disputes t' = update_where (\<lambda>r. di_id r = did) f (rg_disputes t)
      \<and> (\<exists>new. rg_dispute_events t' = rg_dispute_events t @ new \<and> new \<noteq> [] \<and> (\<forall>v \<in> set new. de_dispute_id v = did))
      \<and> rg_attempts t' = rg_attempts t \<and> rg_dedup t' = rg_dedup t \<and> rg_contributions t' = rg_contributions t)"

lemma update_where_twice:
  "(\<And>r. di_id (f r) = di_id r) \<Longrightarrow>
     update_where (\<lambda>r. di_id r = did) g (update_where (\<lambda>r. di_id r = did) f rows)
       = update_where (\<lambda>r. di_id r = did) (g \<circ> f) rows"
  by (induction rows) auto

text \<open>The decision of each action: the type it asks for and its update.\<close>

primrec action_type :: "operator_action \<Rightarrow> string option" where
  "action_type (Approve operator rationale) = Some ''correction''"
| "action_type (Reject operator grounds) = None"
| "action_type (Adjudicate operator winner loser rationale) = Some ''claim_conflict''"
| "action_type (Transfer operator new_owner rationale) = Some ''change_of_control''"
| "action_type (GdprAssess operator honored grounds) = Some ''gdpr_objection''"

primrec action_update :: "int \<Rightarrow> operator_action \<Rightarrow> dispute_record \<Rightarrow> dispute_record" where
  "action_update now (Approve operator rationale) = decide now ''approved'' (str_trim operator) (str_trim rationale)"
| "action_update now (Reject operator grounds) =
     (\<lambda>r. (decide now ''rejected'' (str_trim operator) (str_trim grounds) r)\<lparr>di_suppressed := False\<rparr>)"
| "action_update now (Adjudicate operator winner loser rationale) =
     decide now ''resolved'' (str_trim operator) (str_trim rationale)"
| "action_update now (Transfer operator new_owner rationale) =
     decide now ''resolved'' (str_trim operator) (str_trim rationale)"
| "action_update now (GdprAssess operator honored grounds) =
     decide now (if honored then ''approved'' else ''rejected'') (str_trim operator) (str_trim grounds)
       \<circ> (if honored then (\<lambda>r. r\<lparr>di_suppressed := True\<rparr>) else (\<lambda>r. r))"

definition decision_of :: "int \<Rightarrow> uuid \<Rightarrow> operator_action \<Rightarrow> registry \<Rightarrow> registry \<Rightarrow> bool" where
  "decision_of now did action t t' =
     (t' = t \<or> ((\<exists>r. found_for did (action_type action) t r) \<and> decided did (action_update now action) t t'))"

lemma reread_reads: "steps (=) (reread did)"
  unfolding reread_def dispute_get_def
  by (intro steps_dbind steps_query steps_ok_or_raise) (auto simp: reflp_def transp_def)

lemma decide_id [simp]: "di_id (decide now st op gr r) = di_id r"
  by (simp add: decide_def)

lemma decides:
  assumes "\<And>fs t a fs' t'. m (fs, t) = (Inr a, (fs', t')) \<Longrightarrow>
     (\<exists>r. found_for did (action_type action) t r) \<and> decided did (action_update now action) t t'"
  shows "steps (decision_of now did action) (dbind (tx m) (\<lambda>_. reread did))"
  by (rule steps_then_read [OF steps_committed reread_reads]) (auto simp: decision_of_def dest: assms)

lemma approve_decides:
  "steps (decision_of now did (Approve operator rationale))
     (approve_correction now ids did (str_trim operator) (str_trim rationale))"
  unfolding approve_correction_def
  by (rule decides) (auto simp: dbind_Inr decided_def dest!: InrDs split: option.splits if_splits)

lemma reject_decides:
  "steps (decision_of now did (Reject operator grounds)) (reject now ids did (str_trim operator) (str_trim grounds))"
  unfolding reject_def
  by (rule decides) (auto simp: dbind_Inr decided_def dest!: InrDs split: if_splits)

lemma adjudicate_decides:
  "steps (decision_of now did (Adjudicate operator winner loser rationale))
     (adjudicate_claim_conflict now ids did (str_trim operator) (str_trim winner) (map_option str_trim loser)
        (str_trim rationale))"
  unfolding adjudicate_claim_conflict_def
  by (rule decides) (auto simp: dbind_Inr decided_def dest!: InrDs split: option.splits)

lemma transfer_decides:
  "steps (decision_of now did (Transfer operator new_owner rationale))
     (transfer_control now ids did (str_trim operator) (str_trim new_owner) (str_trim rationale))"
  unfolding transfer_control_def
  by (rule decides) (auto simp: dbind_Inr decided_def dest!: InrDs)

lemma gdpr_decides:
  "steps (decision_of now did (GdprAssess operator honored grounds))
     (assess_gdpr_objection now ids did (str_trim operator) honored (str_trim grounds))"
  unfolding assess_gdpr_objection_def
  by (rule decides) (auto simp: dbind_Inr decided_def update_where_twice comp_def dest!: InrDs split: if_splits)

lemma action_decides: "steps (decision_of now did action) (operator_action now ids did action)"
  unfolding operator_action_def
  by (rule steps_map_err, cases action)
     (simp_all add: approve_decides reject_decides adjudicate_decides transfer_decides gdpr_decides)

section \<open>Every change is audited\<close>

definition audited :: "registry \<Rightarrow> registry \<Rightarrow> bool" where
  "audited t t' =
     (\<exists>new. rg_dispute_events t' = rg_dispute_events t @ new
        \<and> list_all (\<lambda>r. List.member (rg_disputes t) r \<or> list_ex (\<lambda>v. de_dispute_id v = di_id r) new) (rg_disputes t'))"

lemma reflp_audited: "reflp audited"
  by (auto simp: reflp_def audited_def list_all_iff)

lemma transp_audited: "transp audited"
  by (rule transpI) (fastforce simp: audited_def list_all_iff list_ex_iff)

lemma decision_audited:
  assumes ids: "\<And>r. di_id (f r) = di_id r" and "decided did f t t'"
  shows "audited t t'"
proof -
  from assms(2) obtain new where d: "rg_disputes t' = update_where (\<lambda>r. di_id r = did) f (rg_disputes t)"
    and e: "rg_dispute_events t' = rg_dispute_events t @ new" "new \<noteq> []" "\<forall>v \<in> set new. de_dispute_id v = did"
    by (auto simp: decided_def)
  from e have "list_ex (\<lambda>v. de_dispute_id v = did) new" by (cases new) auto
  with d e ids show ?thesis
    by (auto simp: audited_def list_all_iff set_update_where)
qed

lemma action_update_id: "di_id (action_update now action r) = di_id r"
  by (cases action) (auto simp: decide_def)

lemma steps_call:
  assumes "reflp R" and "transp R"
    and "\<And>now ids domain ty description email proposed. ty \<in> set DISPUTE_TYPES \<Longrightarrow>
       steps R (submit now ids domain ty description email proposed)"
    and "\<And>now ids did action. steps R (operator_action now ids did action)"
    and "\<And>now eid did recipient summary. steps R (record_notification now eid did recipient summary)"
  shows "steps R (run_call u call)"
proof -
  have "steps R (submit_dispute u now ids body)" for now ids body
    unfolding submit_dispute_def Let_def stored_def using assms(1,3)
    by (intro steps_if steps_raise steps_map_err) auto
  with assms show ?thesis
    by (cases call) (auto simp: run_call_def stored_def steps_drop_value steps_map_err split: dispute_call.splits)
qed

text \<open>A submission adds one open dispute, with at least one event about it.\<close>

definition submitted :: "string \<Rightarrow> registry \<Rightarrow> registry \<Rightarrow> bool" where
  "submitted ty t t' =
     (\<exists>now did domain description email proposed new.
        rg_disputes t' = rg_disputes t @ [new_dispute now did domain ty description email proposed (ty = ''removal'')]
        \<and> did \<notin> di_id ` set (rg_disputes t)
        \<and> rg_dispute_events t' = rg_dispute_events t @ new \<and> new \<noteq> [] \<and> (\<forall>v \<in> set new. de_dispute_id v = did))"

lemma insert_InrD:
  "insert_dispute r (fs, t) = (Inr did, (fs', t')) \<Longrightarrow>
     did = di_id r \<and> di_id r \<notin> di_id ` set (rg_disputes t) \<and> t' = t\<lparr>rg_disputes := rg_disputes t @ [r]\<rparr>"
  by (auto simp: insert_dispute_def list_ex_iff dest!: cstmt_InrD split: if_splits)

lemma submittedI:
  assumes "rg_disputes t' = rg_disputes t @ [new_dispute now did domain ty description email proposed (ty = ''removal'')]"
    and "did \<notin> di_id ` set (rg_disputes t)"
    and "rg_dispute_events t' = rg_dispute_events t @ v # new" and "\<forall>w \<in> set (v # new). de_dispute_id w = did"
  shows "submitted ty t t'"
  unfolding submitted_def using assms
  by (intro exI [of _ now] exI [of _ did] exI [of _ domain] exI [of _ description] exI [of _ email]
      exI [of _ proposed] exI [of _ "v # new"]) simp

lemma new_dispute_id [simp]: "di_id (new_dispute now did domain ty description email proposed hidden) = did"
  by (simp add: new_dispute_def)

lemma submit_submits:
  "steps (\<lambda>t t'. t' = t \<or> submitted ty t t') (submit now ids domain ty description email proposed)"
  unfolding submit_def Let_def
  by (rule steps_then_read [OF steps_committed reread_reads], simp, cases "ty = ''removal''")
     (auto simp: dbind_Inr dest!: insert_InrD event_InrD intro!: submittedI)

lemma submitted_audited: "submitted ty t t' \<Longrightarrow> audited t t'"
proof -
  assume "submitted ty t t'"
  then obtain now did domain description email proposed new where
    d: "rg_disputes t' = rg_disputes t @ [new_dispute now did domain ty description email proposed (ty = ''removal'')]"
    and e: "rg_dispute_events t' = rg_dispute_events t @ new" "new \<noteq> []" "\<forall>v \<in> set new. de_dispute_id v = did"
    by (auto simp: submitted_def)
  from e have "list_ex (\<lambda>v. de_dispute_id v = did) new" by (cases new) auto
  with d e show ?thesis by (auto simp: audited_def list_all_iff)
qed

lemma notification_keeps:
  "steps (\<lambda>t t'. rg_disputes t' = rg_disputes t \<and> (\<exists>new. rg_dispute_events t' = rg_dispute_events t @ new))
     (record_notification now eid did recipient summary)"
  unfolding record_notification_def insert_dispute_event_def
  by (rule steps_cstmt) (auto simp: reflp_def split: if_splits)

lemma call_audited: "steps audited (run_call u call)"
proof (rule steps_call [OF reflp_audited transp_audited])
  show "steps audited (submit now ids domain ty description email proposed)" for now ids domain ty description email proposed
    by (rule steps_weaker [OF submit_submits]) (auto intro: submitted_audited reflpD [OF reflp_audited])
  show "steps audited (operator_action now ids did action)" for now ids did action
    by (rule steps_weaker [OF action_decides])
       (auto simp: decision_of_def intro: decision_audited action_update_id reflpD [OF reflp_audited])
  show "steps audited (record_notification now eid did recipient summary)" for now eid did recipient summary
    by (rule steps_weaker [OF notification_keeps]) (auto simp: audited_def list_all_iff)
qed

interpretation audited_calls: guarded_calls "run_call u" audited for u
  by unfold_locales (simp_all add: reflp_audited transp_audited call_audited)

text \<open>
  (safety). Whatever calls are made in whatever order and whatever fails, every dispute that is new
  or changed has a new audit event, and no audit event is lost.
\<close>

theorem dispute_changes_are_audited:
  "audited (snd s) (snd (run_seq (map (run_call u) calls) s))"
  by (rule audited_calls.run_calls_at)

section \<open>The states of a dispute\<close>

text \<open>
  The states that each kind of dispute can reach, and when a dispute hides its domain. No call ever
  sets \<open>under_review\<close>; a removal is either open and hidden or rejected and shown.
\<close>

definition dispute_state_ok :: "dispute_record \<Rightarrow> bool" where
  "dispute_state_ok r =
     (if di_dispute_type r = ''correction'' then di_status r \<in> {''open'', ''approved'', ''rejected''} \<and> \<not> di_suppressed r
      else if di_dispute_type r = ''gdpr_objection''
        then (di_status r = ''open'' \<and> \<not> di_suppressed r) \<or> (di_status r = ''approved'' \<and> di_suppressed r)
             \<or> di_status r = ''rejected''
      else if di_dispute_type r = ''removal''
        then (di_status r = ''open'' \<and> di_suppressed r) \<or> (di_status r = ''rejected'' \<and> \<not> di_suppressed r)
      else di_dispute_type r \<in> {''claim_conflict'', ''change_of_control''}
           \<and> di_status r \<in> {''open'', ''resolved'', ''rejected''} \<and> \<not> di_suppressed r)"

definition disputes_ok :: "registry \<Rightarrow> bool" where
  "disputes_ok t = (distinct (map di_id (rg_disputes t)) \<and> list_all dispute_state_ok (rg_disputes t))"

lemma action_update_state:
  assumes "dispute_state_ok r" and "case action_type action of None \<Rightarrow> True | Some ty \<Rightarrow> di_dispute_type r = ty"
  shows "dispute_state_ok (action_update now action r)"
  using assms by (cases action) (auto simp: dispute_state_ok_def decide_def split: if_splits)

lemma found_forD:
  assumes "found_for did ty t r"
  shows "r \<in> set (rg_disputes t)" and "di_id r = did" and "case ty of None \<Rightarrow> True | Some ty \<Rightarrow> di_dispute_type r = ty"
  using assms by (auto simp: found_for_def find_Some_iff split: option.splits)

lemma decision_state:
  assumes "disputes_ok t" and "decision_of now did action t t'"
  shows "disputes_ok t'"
proof (cases "t' = t")
  case False
  with assms(2) obtain r where r: "found_for did (action_type action) t r"
    and d: "rg_disputes t' = update_where (\<lambda>r. di_id r = did) (action_update now action) (rg_disputes t)"
    by (auto simp: decision_of_def decided_def)
  have "x = r" if "x \<in> set (rg_disputes t)" "di_id x = did" for x
    using assms(1) found_forD(1,2) [OF r] that by (auto simp: disputes_ok_def dest: inj_onD simp: distinct_map)
  with assms(1) found_forD(3) [OF r] d show ?thesis
    by (auto simp: disputes_ok_def list_all_iff set_update_where map_update_where action_update_id
        intro: action_update_state)
qed (use assms in simp)

lemma submission_state:
  assumes "disputes_ok t" and "submitted ty t t'" and "ty \<in> set DISPUTE_TYPES"
  shows "disputes_ok t'"
  using assms
  by (auto simp: submitted_def disputes_ok_def new_dispute_def dispute_state_ok_def DISPUTE_TYPES_def)

lemma call_keeps_states: "steps (preserve disputes_ok) (run_call u call)"
proof (rule steps_call [OF reflp_preserve transp_preserve])
  show "steps (preserve disputes_ok) (submit now ids domain ty description email proposed)" if "ty \<in> set DISPUTE_TYPES"
    for now ids domain ty description email proposed
    using that by (intro steps_weaker [OF submit_submits]) (auto simp: preserve_def intro: submission_state)
  show "steps (preserve disputes_ok) (operator_action now ids did action)" for now ids did action
    by (rule steps_weaker [OF action_decides]) (auto simp: preserve_def intro: decision_state)
  show "steps (preserve disputes_ok) (record_notification now eid did recipient summary)" for now eid did recipient summary
    by (rule steps_weaker [OF notification_keeps]) (auto simp: preserve_def disputes_ok_def)
qed

interpretation dispute_states: invariant_calls "run_call u" disputes_ok for u
  by unfold_locales (rule call_keeps_states)

text \<open>
  (invariant). From an empty table, whatever calls are made and whatever fails, every dispute stays
  in a state of its kind: no call approves or resolves a removal, and an open one hides its domain.
\<close>

theorem disputes_stay_in_their_states:
  "disputes_ok (snd (run_seq (map (run_call u) calls) (fs, d\<lparr>rg_disputes := []\<rparr>)))"
  by (rule dispute_states.run_keeps) (simp add: disputes_ok_def)

section \<open>Objections assessed twice\<close>

text \<open>
  (error). Refusing an objection rejects the dispute and leaves its suppression as it was: an
  objection that was honored before stays hidden although it is rejected.
\<close>

theorem refused_objection_stays_hidden:
  assumes "operator_action now ids did (GdprAssess operator False grounds) (fs, t) = (Inr answer, (fs', t'))"
  shows "\<exists>r. found_for did (Some ''gdpr_objection'') t r \<and> di_status answer = ''rejected''
     \<and> (disputes_ok t \<longrightarrow> di_suppressed answer = di_suppressed r)"
proof -
  let ?f = "action_update now (GdprAssess operator False grounds)"
  have "assess_gdpr_objection now ids did (str_trim operator) False (str_trim grounds) (fs, t) = (Inr answer, (fs', t'))"
    using assms by (auto simp: operator_action_def map_err_def split: prod.splits sum.splits)
  then obtain u fs1 t1 where run: "tx (dbind (load_dispute did (Some ''gdpr_objection'')) (\<lambda>row.
       dbind (ret ()) (\<lambda>_.
       dbind (update_dispute did (decide now ''rejected'' (str_trim operator) (str_trim grounds))) (\<lambda>_.
         insert_dispute_event now (ids 0) did ''gdpr_assessed'' (str_trim operator) (Some (str_trim grounds))
           (JObj [(''article'', JStr ''GDPR Art.21''), (''domain'', JStr (di_domain row)),
                  (''outcome'', JStr ''refused''), (''processing_stopped'', JBool False)]))))) (fs, t) = (Inr u, (fs1, t1))"
    and last: "reread did (fs1, t1) = (Inr answer, (fs', t'))"
    unfolding assess_gdpr_objection_def by (subst (asm) dbind_Inr) auto
  from tx_commitD [OF run] obtain r where r: "found_for did (Some ''gdpr_objection'') t r" and d: "decided did ?f t t1"
    by (auto simp: dbind_Inr decided_def comp_def dest!: InrDs)
  have found: "find (\<lambda>r. di_id r = did) (update_where (\<lambda>r. di_id r = did) ?f (rg_disputes t)) = Some answer"
    using found_InrD [OF last [unfolded reread_def dispute_get_def]] d by (auto simp: decided_def)
  then have "answer \<in> set (update_where (\<lambda>r. di_id r = did) ?f (rg_disputes t))" and "di_id answer = did"
    unfolding find_Some_iff using nth_mem by blast+
  then obtain x where x: "x \<in> set (rg_disputes t)" "di_id x = did" "answer = ?f x"
    by (auto simp: set_update_where split: if_splits)
  have "disputes_ok t \<Longrightarrow> x = r"
    using found_forD(1,2) [OF r] x by (auto simp: disputes_ok_def distinct_map dest: inj_onD)
  with r x show ?thesis by (auto simp: decide_def)
qed

definition ex_objection :: dispute_record where
  "ex_objection = (new_dispute 0 7 ''a.io'' ''gdpr_objection'' [] None None True)\<lparr>di_status := ''approved''\<rparr>"

definition ex_registry :: registry where
  "ex_registry = \<lparr>rg_entities = [], rg_attempts = [], rg_dedup = [], rg_disputes = [ex_objection],
     rg_dispute_events = [], rg_contributions = []\<rparr>"

lemma ex_refusal:
  "operator_action 1 (\<lambda>n. of_nat n) 7 (GdprAssess ''op'' False ''no'') ([], ex_registry)
   = (Inr ((decide 1 ''rejected'' (str_trim ''op'') (str_trim ''no'')) ex_objection),
      ([], ex_registry\<lparr>rg_disputes := [decide 1 ''rejected'' (str_trim ''op'') (str_trim ''no'') ex_objection],
         rg_dispute_events := [\<lparr>de_id = 0, de_dispute_id = 7, de_event_type = ''gdpr_assessed'',
           de_actor = str_trim ''op'', de_rationale = Some (str_trim ''no''),
           de_detail = JObj [(''article'', JStr ''GDPR Art.21''), (''domain'', JStr ''a.io''),
             (''outcome'', JStr ''refused''), (''processing_stopped'', JBool False)], de_created_at = 1\<rparr>]\<rparr>))"
  by (simp add: operator_action_def map_err_def assess_gdpr_objection_def tx_def dbind_def load_dispute_def
      update_dispute_def insert_dispute_event_def reread_def dispute_get_def ex_registry_def ex_objection_def
      decide_def new_dispute_def dispute_row_ok_def DISPUTE_TYPES_def)

lemma refused_objection_stays_hidden_witness:
  "\<exists>answer. fst (operator_action 1 (\<lambda>n. of_nat n) 7 (GdprAssess ''op'' False ''no'') ([], ex_registry)) = Inr answer
     \<and> di_status answer = ''rejected'' \<and> di_suppressed answer"
  using refused_objection_stays_hidden [OF ex_refusal]
  by (auto simp: ex_refusal found_for_def decide_def ex_objection_def new_dispute_def)

end
