(* ===== verification/Comms.thy ===== *)
theory Comms
  imports RustStr RustNum Db "HOL-Library.Multiset"
begin

text \<open>
  The communications subsystem, \<open>crates/comms/src/\<close>, and the preference center of
  \<open>apps/api/src/routes/comms.rs\<close>. The state is the tables and the wire: every message given to the
  transport, with the error it answered, if any. The hash and MAC functions are arguments.
\<close>

section \<open>Streams, recipients and tokens\<close>

datatype stream = Transactional | Marketing

primrec stream_as_str :: "stream \<Rightarrow> string" where
  "stream_as_str Transactional = ''transactional''"
| "stream_as_str Marketing = ''marketing''"

primrec subdomain :: "stream \<Rightarrow> string \<Rightarrow> string" where
  "subdomain Transactional base = ''verify@mail.'' @ base"
| "subdomain Marketing base = ''news@mail.'' @ base"

text \<open>Both functions print in lower-case hex.\<close>

record comms_crypto =
  sha256_hex :: "string \<Rightarrow> string"
  hmac_hex :: "string \<Rightarrow> string \<Rightarrow> string"

definition normalize_email :: "unicode \<Rightarrow> string \<Rightarrow> string" where
  "normalize_email u raw = lowercase u (str_trim raw)"

definition recipient_hash :: "comms_crypto \<Rightarrow> unicode \<Rightarrow> string \<Rightarrow> string" where
  "recipient_hash cc u raw_email = sha256_hex cc (normalize_email u raw_email)"

record minted_token =
  mt_raw :: string
  mt_hash :: string

definition hash_pref_token :: "comms_crypto \<Rightarrow> string \<Rightarrow> string" where
  "hash_pref_token cc raw = sha256_hex cc raw"

definition mint :: "comms_crypto \<Rightarrow> string \<Rightarrow> string \<Rightarrow> string \<Rightarrow> minted_token" where
  "mint cc secret recipient nonce =
     (let raw = hmac_hex cc secret (recipient @ ''|'' @ nonce)
      in \<lparr>mt_raw = raw, mt_hash = hash_pref_token cc raw\<rparr>)"

definition hashes_match :: "string \<Rightarrow> string \<Rightarrow> bool" where
  "hashes_match a b = (length a = length b \<and> list_all2 (=) a b)"

section \<open>Templates\<close>

record message =
  ms_stream :: stream
  ms_from :: string
  ms_to :: string
  ms_subject :: string
  ms_body :: string

datatype template_error =
    PromotionalContentInTransactional string
  | MissingUnsubscribeLink
  | MissingPostalAddress
  | MissingPreferenceLink

definition PROMO_MARKERS :: "string list" where
  "PROMO_MARKERS = [''unsubscribe'', ''sale'', ''% off'', ''discount'', ''limited time'', ''upgrade now'',
     ''special offer'', ''buy now'', ''free trial'', ''newsletter'', ''promo'', ''coupon'', ''act now'']"

definition nl :: string where
  "nl = [CHR 0x0A]"

definition assert_no_promotion :: "unicode \<Rightarrow> string \<Rightarrow> string \<Rightarrow> template_error + unit" where
  "assert_no_promotion u subject body =
     (let haystack = lowercase u (subject @ nl @ body)
      in case find (str_contains haystack) PROMO_MARKERS of
           None \<Rightarrow> Inr ()
         | Some marker \<Rightarrow> Inl (PromotionalContentInTransactional marker))"

datatype transactional_template = DomainVerification string | VerificationRevoked string

primrec transactional_text :: "transactional_template \<Rightarrow> string \<times> string" where
  "transactional_text (DomainVerification verify_url) =
     (''Verify your domain'',
      ''You requested to verify ownership of your domain on the Anseo benchmark.'' @ nl @ nl
      @ ''Open this link to complete verification:'' @ nl @ verify_url @ nl @ nl
      @ ''If you did not request this, you can ignore this email.'' @ nl)"
| "transactional_text (VerificationRevoked domain) =
     (''Your domain verification was removed'',
      ''Verification for '' @ domain @ '' on the Anseo benchmark has been removed.'' @ nl @ nl
      @ ''If you believe this is an error, you can re-start the claim flow at any time.'' @ nl)"

definition build_transactional ::
  "unicode \<Rightarrow> transactional_template \<Rightarrow> string \<Rightarrow> string \<Rightarrow> template_error + message" where
  "build_transactional u template sender recipient =
     (case transactional_text template of (subject, body) \<Rightarrow>
        rbind (assert_no_promotion u subject body) (\<lambda>_.
          Inr \<lparr>ms_stream = Transactional, ms_from = sender, ms_to = recipient, ms_subject = subject, ms_body = body\<rparr>))"

record marketing_template =
  mk_subject :: string
  mk_content :: string
  mk_unsubscribe_url :: string
  mk_preferences_url :: string
  mk_postal_address :: string

definition rank_change :: "string \<Rightarrow> nat \<Rightarrow> nat \<Rightarrow> string \<Rightarrow> string \<Rightarrow> string \<Rightarrow> marketing_template" where
  "rank_change domain old_rank new_rank unsubscribe_url preferences_url postal_address =
     (let direction = (if new_rank < old_rank then ''up'' else ''down'')
      in \<lparr>mk_subject = domain @ '' moved '' @ direction @ '' to #'' @ show_nat new_rank @ '' on the Anseo benchmark'',
          mk_content = domain @ '' moved from #'' @ show_nat old_rank @ '' to #'' @ show_nat new_rank
            @ '' on the Anseo benchmark leaderboard.'',
          mk_unsubscribe_url = unsubscribe_url, mk_preferences_url = preferences_url,
          mk_postal_address = postal_address\<rparr>)"

definition build_marketing :: "marketing_template \<Rightarrow> string \<Rightarrow> string \<Rightarrow> template_error + message" where
  "build_marketing m sender recipient =
     (if str_trim (mk_unsubscribe_url m) = [] then Inl MissingUnsubscribeLink
      else if str_trim (mk_postal_address m) = [] then Inl MissingPostalAddress
      else if str_trim (mk_preferences_url m) = [] then Inl MissingPreferenceLink
      else Inr \<lparr>ms_stream = Marketing, ms_from = sender, ms_to = recipient, ms_subject = mk_subject m,
                ms_body = mk_content m @ nl @ nl @ ''----'' @ nl
                  @ ''Unsubscribe (one click, no login): '' @ mk_unsubscribe_url m @ nl
                  @ ''Manage your preferences: '' @ mk_preferences_url m @ nl @ mk_postal_address m @ nl\<rparr>)"

section \<open>Transports\<close>

text \<open>
  A transport answers each message with an error or none; the number counts the messages it was
  given before. The SMTP transport is built on the submission ports only and never delivers.
\<close>

type_synonym transport = "nat \<Rightarrow> message \<Rightarrow> string option"

definition TLS_SUBMISSION_PORTS :: "nat list" where
  "TLS_SUBMISSION_PORTS = [465, 587]"

datatype smtp_config_error = PlaintextPort nat | EmptyHost

record smtp_transport =
  sm_host :: string
  sm_port :: nat

definition new_smtp :: "string \<Rightarrow> nat \<Rightarrow> smtp_config_error + smtp_transport" where
  "new_smtp host port =
     (if str_trim host = [] then Inl EmptyHost
      else if port \<notin> set TLS_SUBMISSION_PORTS then Inl (PlaintextPort port)
      else Inr \<lparr>sm_host = host, sm_port = port\<rparr>)"

definition not_configured :: string where
  "not_configured = ''SMTP wire transport is not configured in this build; wire a real client (lettre/SES) before sending production mail''"

definition smtp_send :: "smtp_transport \<Rightarrow> transport" where
  "smtp_send t n m = Some not_configured"

definition in_memory_send :: "bool \<Rightarrow> transport" where
  "in_memory_send failing n m = (if failing then Some ''transport send failed: injected failure'' else None)"

section \<open>The tables\<close>

record subscription =
  su_recipient_hash :: string
  su_email :: string
  su_rank_change_enabled :: bool
  su_digest_frequency :: string
  su_all_marketing_off :: bool
  su_marketing_consent :: bool
  su_is_eu_resident :: bool

record preference_update =
  pu_rank_change_enabled :: "bool option"
  pu_digest_frequency :: "string option"
  pu_all_marketing_off :: "bool option"
  pu_marketing_consent :: "bool option"

datatype suppression_reason = Unsubscribe | Bounce | Complaint | GdprObjection

primrec reason_as_str :: "suppression_reason \<Rightarrow> string" where
  "reason_as_str Unsubscribe = ''unsubscribe''"
| "reason_as_str Bounce = ''bounce''"
| "reason_as_str Complaint = ''complaint''"
| "reason_as_str GdprObjection = ''gdpr_objection''"

record suppression_row =
  sp_recipient_hash :: string
  sp_reason :: string
  sp_scope :: string
  sp_suppressed_at :: int

record pref_token_row =
  tk_token_hash :: string
  tk_recipient_hash :: string
  tk_expires_at :: "int option"

datatype send_outcome = OutcomeSent | OutcomeFailed | OutcomeSuppressed | OutcomeConsentBlocked

primrec outcome_as_str :: "send_outcome \<Rightarrow> string" where
  "outcome_as_str OutcomeSent = ''sent''"
| "outcome_as_str OutcomeFailed = ''failed''"
| "outcome_as_str OutcomeSuppressed = ''suppressed''"
| "outcome_as_str OutcomeConsentBlocked = ''consent_blocked''"

record send_log_row =
  sl_recipient_hash :: string
  sl_stream :: string
  sl_email_type :: string
  sl_outcome :: string
  sl_error :: "string option"
  sl_dedup_key :: "string option"

text \<open>The wire records, for each message, the dedup key it was sent under and the answer.\<close>

record wire_entry =
  we_message :: message
  we_recipient_hash :: string
  we_dedup_key :: "string option"
  we_error :: "string option"

record comms =
  cm_subscriptions :: "subscription list"
  cm_suppressions :: "suppression_row list"
  cm_tokens :: "pref_token_row list"
  cm_send_log :: "send_log_row list"
  cm_wire :: "wire_entry list"

type_synonym 'a comm = "(comms, 'a) dbm"

definition upsert_subscription :: "string \<Rightarrow> string \<Rightarrow> bool \<Rightarrow> subscription comm" where
  "upsert_subscription recipient email is_eu_resident =
     stmt (\<lambda>d. case find (\<lambda>s. su_recipient_hash s = recipient) (cm_subscriptions d) of
        None \<Rightarrow>
          let s = \<lparr>su_recipient_hash = recipient, su_email = email, su_rank_change_enabled = True,
                   su_digest_frequency = ''weekly'', su_all_marketing_off = False, su_marketing_consent = False,
                   su_is_eu_resident = is_eu_resident\<rparr>
          in (s, d\<lparr>cm_subscriptions := cm_subscriptions d @ [s]\<rparr>)
      | Some s \<Rightarrow>
          (s\<lparr>su_email := email, su_is_eu_resident := is_eu_resident\<rparr>,
           d\<lparr>cm_subscriptions := update_where (\<lambda>s. su_recipient_hash s = recipient)
              (\<lambda>s. s\<lparr>su_email := email, su_is_eu_resident := is_eu_resident\<rparr>) (cm_subscriptions d)\<rparr>))"

definition get_subscription :: "string \<Rightarrow> subscription option comm" where
  "get_subscription recipient = query (\<lambda>d. find (\<lambda>s. su_recipient_hash s = recipient) (cm_subscriptions d))"

definition DIGEST_FREQUENCIES :: "string list" where
  "DIGEST_FREQUENCIES = [''off'', ''daily'', ''weekly'', ''monthly'']"

definition apply_update :: "preference_update \<Rightarrow> subscription \<Rightarrow> subscription" where
  "apply_update up s =
     s\<lparr>su_rank_change_enabled := unwrap_or (su_rank_change_enabled s) (pu_rank_change_enabled up),
       su_digest_frequency := unwrap_or (su_digest_frequency s) (pu_digest_frequency up),
       su_all_marketing_off := unwrap_or (su_all_marketing_off s) (pu_all_marketing_off up),
       su_marketing_consent := unwrap_or (su_marketing_consent s) (pu_marketing_consent up)\<rparr>"

definition update_preferences :: "string \<Rightarrow> preference_update \<Rightarrow> subscription option comm" where
  "update_preferences recipient up =
     cstmt (\<lambda>d. case find (\<lambda>s. su_recipient_hash s = recipient) (cm_subscriptions d) of
        None \<Rightarrow> Some (None, d)
      | Some s \<Rightarrow>
          if su_digest_frequency (apply_update up s) \<notin> set DIGEST_FREQUENCIES then None
          else Some (Some (apply_update up s),
            d\<lparr>cm_subscriptions := update_where (\<lambda>s. su_recipient_hash s = recipient) (apply_update up)
               (cm_subscriptions d)\<rparr>))"

text \<open>The check of the table allows the scopes \<open>marketing\<close> and \<open>all\<close>.\<close>

definition suppress :: "int \<Rightarrow> string \<Rightarrow> suppression_reason \<Rightarrow> string \<Rightarrow> unit comm" where
  "suppress now recipient reason scope =
     cstmt (\<lambda>d. if scope \<notin> {''marketing'', ''all''} then None
       else Some ((), d\<lparr>cm_suppressions :=
         (if list_ex (\<lambda>p. sp_recipient_hash p = recipient) (cm_suppressions d)
          then update_where (\<lambda>p. sp_recipient_hash p = recipient)
                 (\<lambda>p. p\<lparr>sp_reason := reason_as_str reason, sp_scope := scope, sp_suppressed_at := now\<rparr>)
                 (cm_suppressions d)
          else cm_suppressions d @ [\<lparr>sp_recipient_hash = recipient, sp_reason = reason_as_str reason,
                 sp_scope = scope, sp_suppressed_at = now\<rparr>])\<rparr>))"

definition is_marketing_suppressed :: "string \<Rightarrow> bool comm" where
  "is_marketing_suppressed recipient =
     query (\<lambda>d. list_ex (\<lambda>p. sp_recipient_hash p = recipient \<and> sp_scope p \<in> {''marketing'', ''all''}) (cm_suppressions d))"

definition store_token :: "string \<Rightarrow> string \<Rightarrow> int option \<Rightarrow> unit comm" where
  "store_token token_hash recipient expires_at =
     exec (\<lambda>d. if list_ex (\<lambda>t. tk_token_hash t = token_hash) (cm_tokens d) then d
       else d\<lparr>cm_tokens := cm_tokens d @ [\<lparr>tk_token_hash = token_hash, tk_recipient_hash = recipient,
              tk_expires_at = expires_at\<rparr>]\<rparr>)"

definition resolve_token :: "int \<Rightarrow> string \<Rightarrow> string option comm" where
  "resolve_token now token_hash =
     query (\<lambda>d. map_option tk_recipient_hash (find (\<lambda>t. tk_token_hash t = token_hash
        \<and> (case tk_expires_at t of None \<Rightarrow> True | Some e \<Rightarrow> now < e)) (cm_tokens d)))"

text \<open>The partial unique index: one \<open>sent\<close> row per dedup key.\<close>

definition reserved :: "string \<Rightarrow> comms \<Rightarrow> bool" where
  "reserved key d = list_ex (\<lambda>l. sl_dedup_key l = Some key \<and> sl_outcome l = ''sent'') (cm_send_log d)"

definition reserve_dedup :: "string \<Rightarrow> string \<Rightarrow> string \<Rightarrow> string \<Rightarrow> bool comm" where
  "reserve_dedup recipient stream email_type key =
     stmt (\<lambda>d. if reserved key d then (False, d)
       else (True, d\<lparr>cm_send_log := cm_send_log d @ [\<lparr>sl_recipient_hash = recipient, sl_stream = stream,
               sl_email_type = email_type, sl_outcome = ''sent'', sl_error = None, sl_dedup_key = Some key\<rparr>]\<rparr>))"

definition mark_dedup_failed :: "string \<Rightarrow> string \<Rightarrow> unit comm" where
  "mark_dedup_failed key error =
     exec (\<lambda>d. d\<lparr>cm_send_log := update_where (\<lambda>l. sl_dedup_key l = Some key \<and> sl_outcome l = ''sent'')
       (\<lambda>l. l\<lparr>sl_outcome := ''failed'', sl_error := Some error\<rparr>) (cm_send_log d)\<rparr>)"

definition log_send ::
  "string \<Rightarrow> string \<Rightarrow> string \<Rightarrow> send_outcome \<Rightarrow> string option \<Rightarrow> string option \<Rightarrow> unit comm" where
  "log_send recipient stream email_type outcome error dedup_key =
     cstmt (\<lambda>d.
       let l = \<lparr>sl_recipient_hash = recipient, sl_stream = stream, sl_email_type = email_type,
                sl_outcome = outcome_as_str outcome, sl_error = error, sl_dedup_key = dedup_key\<rparr>
       in if outcome = OutcomeSent \<and> (case dedup_key of None \<Rightarrow> False | Some key \<Rightarrow> reserved key d) then None
          else Some ((), d\<lparr>cm_send_log := cm_send_log d @ [l]\<rparr>))"

definition already_sent_dedup :: "string \<Rightarrow> bool comm" where
  "already_sent_dedup key = query (reserved key)"

section \<open>Dispatch\<close>

datatype marketing_decision = DecideSend | SuppressedByList | DisabledByPreference | BlockedByEuConsent

primrec audit_outcome :: "marketing_decision \<Rightarrow> send_outcome option" where
  "audit_outcome DecideSend = None"
| "audit_outcome SuppressedByList = Some OutcomeSuppressed"
| "audit_outcome DisabledByPreference = Some OutcomeSuppressed"
| "audit_outcome BlockedByEuConsent = Some OutcomeConsentBlocked"

datatype marketing_category = RankChange | Digest

definition marketing_decision :: "bool \<Rightarrow> subscription \<Rightarrow> marketing_category \<Rightarrow> marketing_decision" where
  "marketing_decision suppressed sub category =
     (if suppressed then SuppressedByList
      else if su_all_marketing_off sub then DisabledByPreference
      else if \<not> (case category of RankChange \<Rightarrow> su_rank_change_enabled sub | Digest \<Rightarrow> su_digest_frequency sub \<noteq> ''off'')
        then DisabledByPreference
      else if su_is_eu_resident sub \<and> \<not> su_marketing_consent sub then BlockedByEuConsent
      else DecideSend)"

datatype dispatch_result = Sent | Skipped marketing_decision | AlreadySent | SendFailed string

definition put_on_wire :: "transport \<Rightarrow> string \<Rightarrow> string option \<Rightarrow> message \<Rightarrow> string option comm" where
  "put_on_wire tp recipient key m =
     act (\<lambda>d. let answer = tp (length (cm_wire d)) m
              in (answer, d\<lparr>cm_wire := cm_wire d @ [\<lparr>we_message = m, we_recipient_hash = recipient,
                    we_dedup_key = key, we_error = answer\<rparr>]\<rparr>))"

definition send_and_log :: "transport \<Rightarrow> string \<Rightarrow> string \<Rightarrow> message \<Rightarrow> dispatch_result comm" where
  "send_and_log tp recipient email_type m =
     dbind (put_on_wire tp recipient None m) (\<lambda>answer.
       case answer of
         None \<Rightarrow> dbind (log_send recipient (stream_as_str (ms_stream m)) email_type OutcomeSent None None) (\<lambda>_. ret Sent)
       | Some err \<Rightarrow> dbind (log_send recipient (stream_as_str (ms_stream m)) email_type OutcomeFailed (Some err) None)
                      (\<lambda>_. ret (SendFailed err)))"

definition send_marketing :: "transport \<Rightarrow> string \<Rightarrow> marketing_category \<Rightarrow> string \<Rightarrow> message \<Rightarrow> dispatch_result comm" where
  "send_marketing tp recipient category email_type m =
     (let log = (\<lambda>outcome error. log_send recipient (stream_as_str (ms_stream m)) email_type outcome error None)
      in dbind (get_subscription recipient) (\<lambda>found.
         case found of
           None \<Rightarrow> dbind (log OutcomeSuppressed (Some ''no subscription / not opted in'')) (\<lambda>_. ret (Skipped DisabledByPreference))
         | Some sub \<Rightarrow>
             dbind (is_marketing_suppressed recipient) (\<lambda>suppressed.
               let decision = marketing_decision suppressed sub category
               in if decision \<noteq> DecideSend
                  then dbind (log (unwrap_or OutcomeSuppressed (audit_outcome decision)) None) (\<lambda>_. ret (Skipped decision))
                  else send_and_log tp recipient email_type m)))"

definition send_transactional ::
  "transport \<Rightarrow> string \<Rightarrow> string \<Rightarrow> string option \<Rightarrow> message \<Rightarrow> dispatch_result comm" where
  "send_transactional tp recipient email_type dedup_key m =
     (case dedup_key of
        Some key \<Rightarrow>
          dbind (reserve_dedup recipient (stream_as_str (ms_stream m)) email_type key) (\<lambda>won.
            if \<not> won then ret AlreadySent
            else dbind (put_on_wire tp recipient (Some key) m) (\<lambda>answer.
              case answer of
                None \<Rightarrow> ret Sent
              | Some err \<Rightarrow> dbind (mark_dedup_failed key err) (\<lambda>_. ret (SendFailed err))))
      | None \<Rightarrow> send_and_log tp recipient email_type m)"

section \<open>The preference center\<close>

type_synonym comms_refusal = nat

type_synonym 'a commh = "(comms, comms_refusal, 'a) rm"

definition or_500 :: "'a comm \<Rightarrow> 'a commh" where
  "or_500 m = map_err (\<lambda>_. 500) m"

definition resolve_link :: "comms_crypto \<Rightarrow> int \<Rightarrow> string \<Rightarrow> string commh" where
  "resolve_link cc now raw_token =
     dbind (or_500 (resolve_token now (hash_pref_token cc raw_token))) (ok_or_raise 404)"

definition render_preferences :: "comms_crypto \<Rightarrow> int \<Rightarrow> string \<Rightarrow> subscription commh" where
  "render_preferences cc now token =
     dbind (resolve_link cc now token) (\<lambda>recipient.
     dbind (or_500 (get_subscription recipient)) (ok_or_raise 404))"

record preferences_form =
  fm_rank_change_enabled :: "string option"
  fm_digest_frequency :: "string option"
  fm_all_marketing_off :: "string option"

definition update_of_form :: "preferences_form \<Rightarrow> preference_update" where
  "update_of_form form =
     \<lparr>pu_rank_change_enabled = Some (fm_rank_change_enabled form \<noteq> None),
      pu_digest_frequency = (case fm_digest_frequency form of
         Some f \<Rightarrow> if f \<in> set DIGEST_FREQUENCIES then Some f else None | None \<Rightarrow> None),
      pu_all_marketing_off = Some (fm_all_marketing_off form \<noteq> None), pu_marketing_consent = None\<rparr>"

definition save_preferences :: "comms_crypto \<Rightarrow> int \<Rightarrow> string \<Rightarrow> preferences_form \<Rightarrow> unit commh" where
  "save_preferences cc now token form =
     dbind (resolve_link cc now token) (\<lambda>recipient.
     dbind (or_500 (update_preferences recipient (update_of_form form))) (\<lambda>saved.
     dbind (ok_or_raise 404 saved) (\<lambda>_. ret ())))"

text \<open>The page asks for a confirmation only when the token is known.\<close>

definition unsubscribe_confirm_page :: "comms_crypto \<Rightarrow> int \<Rightarrow> string \<Rightarrow> bool commh" where
  "unsubscribe_confirm_page cc now token s =
     (case resolve_token now (hash_pref_token cc token) s of
        (Inr (Some _), s') \<Rightarrow> (Inr True, s')
      | (_, s') \<Rightarrow> (Inr False, s'))"

definition unsubscribe_update :: preference_update where
  "unsubscribe_update =
     \<lparr>pu_rank_change_enabled = None, pu_digest_frequency = None, pu_all_marketing_off = Some True,
      pu_marketing_consent = None\<rparr>"

definition one_click_unsubscribe :: "comms_crypto \<Rightarrow> int \<Rightarrow> string \<Rightarrow> unit commh" where
  "one_click_unsubscribe cc now token =
     dbind (or_500 (resolve_token now (hash_pref_token cc token))) (\<lambda>found.
       case found of
         None \<Rightarrow> ret ()
       | Some recipient \<Rightarrow>
           dbind (or_500 (suppress now recipient Unsubscribe ''marketing'')) (\<lambda>_.
             ignore (update_preferences recipient unsubscribe_update)))"

section \<open>Every sequence of calls\<close>

text \<open>
  What the program can do to these tables, in any order: the calls of the repository, the sends of
  the messages the templates build, and the public handlers. What a call answers is dropped.
\<close>

datatype comms_call =
    Subscribe string string bool
  | Prefer string preference_update
  | Suppress int string suppression_reason string
  | StoreToken string string "int option"
  | SendMarketing transport string marketing_category string marketing_template string string
  | SendTransactional transport unicode string string "string option" transactional_template string string
  | SaveForm comms_crypto int string preferences_form
  | OneClick comms_crypto int string

primrec perform_call :: "comms_call \<Rightarrow> unit commh" where
  "perform_call (Subscribe h email eu) = ignore (upsert_subscription h email eu)"
| "perform_call (Prefer h up) = ignore (update_preferences h up)"
| "perform_call (Suppress now h reason scope) = ignore (suppress now h reason scope)"
| "perform_call (StoreToken th h expires_at) = ignore (store_token th h expires_at)"
| "perform_call (SendMarketing tp h category email_type mt sender recipient) =
     (case build_marketing mt sender recipient of
        Inl _ \<Rightarrow> ret () | Inr m \<Rightarrow> ignore (send_marketing tp h category email_type m))"
| "perform_call (SendTransactional tp u h email_type key template sender recipient) =
     (case build_transactional u template sender recipient of
        Inl _ \<Rightarrow> ret () | Inr m \<Rightarrow> ignore (send_transactional tp h email_type key m))"
| "perform_call (SaveForm cc now token form) = save_preferences cc now token form"
| "perform_call (OneClick cc now token) = one_click_unsubscribe cc now token"

definition run_comms :: "comms_call list \<Rightarrow> comms conn \<Rightarrow> comms" where
  "run_comms calls s = snd (run_seq (map perform_call calls) s)"

definition marketing_to :: "string \<Rightarrow> comms \<Rightarrow> wire_entry list" where
  "marketing_to h d = filter (\<lambda>e. we_recipient_hash e = h \<and> ms_stream (we_message e) = Marketing) (cm_wire d)"

definition delivered_under :: "string \<Rightarrow> comms \<Rightarrow> wire_entry list" where
  "delivered_under k d = filter (\<lambda>e. we_dedup_key e = Some k \<and> we_error e = None) (cm_wire d)"

definition suppressed_row :: "string \<Rightarrow> comms \<Rightarrow> bool" where
  "suppressed_row h d =
     list_ex (\<lambda>p. sp_recipient_hash p = h \<and> sp_scope p \<in> {''marketing'', ''all''}) (cm_suppressions d)"

lemma built_streams:
  "build_transactional u t a b = Inr m \<Longrightarrow> ms_stream m = Transactional"
  "build_marketing mt a b = Inr m \<Longrightarrow> ms_stream m = Marketing"
  by (auto simp: build_transactional_def build_marketing_def rbind_def split: prod.splits sum.splits if_splits)

definition quiet :: "string \<Rightarrow> comms \<Rightarrow> comms \<Rightarrow> bool" where
  "quiet h d d' = (suppressed_row h d \<longrightarrow> suppressed_row h d' \<and> marketing_to h d' = marketing_to h d)"

lemma reflp_quiet [simp, intro]: "reflp (quiet h)"
  by (auto simp: reflp_def quiet_def)

lemma transp_quiet [simp, intro]: "transp (quiet h)"
  by (auto simp: transp_def quiet_def)

lemma quietI:
  "cm_suppressions d' = cm_suppressions d \<Longrightarrow> cm_wire d' = cm_wire d \<Longrightarrow> quiet h d d'"
  by (simp add: quiet_def suppressed_row_def marketing_to_def)

lemma quiet_log_send: "steps (quiet h) (log_send r s e out err k)"
  unfolding log_send_def by (rule steps_cstmt) (auto simp: Let_def split: if_splits intro: quietI)

lemma quiet_put:
  "r \<noteq> h \<or> ms_stream m = Transactional \<Longrightarrow> steps (quiet h) (put_on_wire tp r key m)"
  unfolding put_on_wire_def
  by (rule steps_act) (auto simp: Let_def quiet_def suppressed_row_def marketing_to_def)

lemma quiet_send_and_log:
  "r \<noteq> h \<or> ms_stream m = Transactional \<Longrightarrow> steps (quiet h) (send_and_log tp r e m)"
  unfolding send_and_log_def
  by (intro steps_dbind steps_case_option steps_ret quiet_put quiet_log_send) auto

lemma quiet_send_marketing:
  assumes "ms_stream m = Marketing"
  shows "steps (quiet h) (send_marketing tp r c e m)"
proof -
  have log: "steps_at (quiet h) d (dbind (log_send r s e out err k) (\<lambda>_. ret x))" for d s out err k x
  proof -
    have "steps (quiet h) (dbind (log_send r s e out err k) (\<lambda>_. ret x))"
      by (intro steps_dbind quiet_log_send steps_ret) auto
    then show ?thesis by (simp add: steps_steps_at)
  qed
  have send: "steps_at (quiet h) d (send_and_log tp r e m)" if "\<not> suppressed_row r d" for d
  proof (cases "r = h")
    case True
    with that show ?thesis by (simp add: steps_at_def quiet_def)
  next
    case False
    then show ?thesis using quiet_send_and_log steps_steps_at by blast
  qed
  show ?thesis
    unfolding steps_steps_at send_marketing_def get_subscription_def is_marketing_suppressed_def Let_def
    by (auto intro!: steps_at_query steps_case_option log send
        simp: marketing_decision_def suppressed_row_def split: option.splits if_splits)
qed

lemma quiet_suppress: "steps (quiet h) (suppress now r reason scope)"
  unfolding suppress_def
  by (rule steps_cstmt)
     (auto simp: quiet_def suppressed_row_def marketing_to_def split: if_splits
       intro!: list_ex_update_where)

lemma quiet_repo:
  "steps (quiet h) (upsert_subscription r email eu)"
  "steps (quiet h) (update_preferences r up)"
  "steps (quiet h) (store_token th r ex)"
  "steps (quiet h) (reserve_dedup r s e key)"
  "steps (quiet h) (mark_dedup_failed key err)"
  "steps (quiet h) (get_subscription r)"
  "steps (quiet h) (resolve_token now th)"
  unfolding upsert_subscription_def update_preferences_def store_token_def reserve_dedup_def
    mark_dedup_failed_def get_subscription_def resolve_token_def
  by (auto intro!: steps_stmt steps_exec steps_cstmt steps_query quietI
       simp: Let_def split: option.splits if_splits)

lemma quiet_send_transactional:
  "ms_stream m = Transactional \<Longrightarrow> steps (quiet h) (send_transactional tp r e key m)"
  unfolding send_transactional_def
  by (intro steps_case_option steps_dbind steps_if steps_ret quiet_repo quiet_put quiet_send_and_log) auto

lemma quiet_handlers:
  "steps (quiet h) (save_preferences cc now token form)"
  "steps (quiet h) (one_click_unsubscribe cc now token)"
  unfolding save_preferences_def one_click_unsubscribe_def resolve_link_def or_500_def
  by (intro steps_case_option steps_dbind steps_ignore steps_map_err steps_ok_or_raise steps_ret
        quiet_repo quiet_suppress; simp)+

lemma quiet_call: "steps (quiet h) (perform_call c)"
proof (cases c)
  case (SendMarketing tp r category e mt sender recipient)
  then show ?thesis
    by (cases "build_marketing mt sender recipient")
       (simp_all add: steps_ret steps_ignore quiet_send_marketing built_streams)
next
  case (SendTransactional tp u r e key template sender recipient)
  then show ?thesis
    by (cases "build_transactional u template sender recipient")
       (simp_all add: steps_ret steps_ignore quiet_send_transactional built_streams)
qed (simp_all add: steps_ignore quiet_repo quiet_suppress quiet_handlers)

lemma suppress_done:
  assumes "suppress now r reason scope (fs, d) = (Inr (), (fs', d'))"
  shows "suppressed_row r d'" and "cm_wire d' = cm_wire d"
proof -
  have "list_ex P (update_where q f xs)" if "list_ex q xs" "\<And>x. q x \<Longrightarrow> P (f x)" for P q f and xs :: "suppression_row list"
    using that by (induction xs) auto
  then show "suppressed_row r d'" and "cm_wire d' = cm_wire d"
    using assms
    by (auto simp: suppress_def cstmt_def stmt_def suppressed_row_def split: list.splits if_splits)
qed

interpretation quiet_calls: guarded_calls perform_call "quiet h" for h
  by unfold_locales (simp_all add: quiet_call)

text \<open>
  (safety). Once the one-click link of a known recipient has been answered, no sequence of calls,
  whatever the database does meanwhile, ever puts a marketing message to that recipient on the
  wire: not a new subscription, not a change of preferences, not another suppression.
\<close>

theorem unsubscribed_for_good:
  assumes "one_click_unsubscribe cc now token (fs, d) = (Inr (), s)"
    and "resolve_token now (hash_pref_token cc token) ([], d) = (Inr (Some h), ([], d))"
  shows "marketing_to h (run_comms calls (faults, snd s)) = marketing_to h d"
proof -
  obtain fs' d' where s: "s = (fs', d')" by (cases s)
  have found: "r = Some h \<and> d1 = d" if "resolve_token now (hash_pref_token cc token) (fs, d) = (Inr r, (fs1, d1))" for r fs1 d1
    using that assms(2) by (auto simp: resolve_token_def query_def dest: stmt_InrD)
  from assms(1) obtain fs1 fs2 d2 where sup: "suppress now h Unsubscribe ''marketing'' (fs1, d) = (Inr (), (fs2, d2))"
    and rest: "ignore (update_preferences h unsubscribe_update) (fs2, d2) = (Inr (), s)"
    unfolding one_click_unsubscribe_def or_500_def dbind_Inr
    by (auto simp: map_err_def dbind_Inr split: prod.splits sum.splits dest!: found)
  have "quiet h d2 d'"
    using stepsD [OF steps_ignore [OF quiet_repo(2)] rest [unfolded s]] .
  with suppress_done [OF sup] have "suppressed_row h d' \<and> marketing_to h d' = marketing_to h d"
    by (auto simp: quiet_def marketing_to_def)
  moreover have "quiet h d' (run_comms calls (faults, d'))"
    unfolding run_comms_def by (rule quiet_calls.run_calls)
  ultimately show ?thesis by (simp add: s quiet_def)
qed

text \<open>A reader who unsubscribed, subscribed again and is in reach of a campaign.\<close>

definition plain_crypto :: comms_crypto where
  "plain_crypto = \<lparr>sha256_hex = (\<lambda>s. ''h'' @ s), hmac_hex = (\<lambda>k s. k @ s)\<rparr>"

definition ex_comms :: comms where
  "ex_comms =
     \<lparr>cm_subscriptions = [\<lparr>su_recipient_hash = ''r'', su_email = ''o@acme.com'', su_rank_change_enabled = True,
        su_digest_frequency = ''weekly'', su_all_marketing_off = False, su_marketing_consent = True,
        su_is_eu_resident = False\<rparr>],
      cm_suppressions = [], cm_tokens = [\<lparr>tk_token_hash = ''ht'', tk_recipient_hash = ''r'', tk_expires_at = Some 9\<rparr>],
      cm_send_log = [], cm_wire = []\<rparr>"

theorem unsubscribed_for_good_witness:
  "\<forall>calls. marketing_to ''r'' (run_comms calls ([True], snd (snd (one_click_unsubscribe plain_crypto 5 ''t'' ([], ex_comms))))) = []"
proof -
  have "one_click_unsubscribe plain_crypto 5 ''t'' ([], ex_comms)
      = (Inr (), snd (one_click_unsubscribe plain_crypto 5 ''t'' ([], ex_comms)))"
    by code_simp
  moreover have "resolve_token 5 (hash_pref_token plain_crypto ''t'') ([], ex_comms) = (Inr (Some ''r''), ([], ex_comms))"
    by code_simp
  moreover have "marketing_to ''r'' ex_comms = []" by code_simp
  ultimately show ?thesis using unsubscribed_for_good by metis
qed

section \<open>Racing magic links\<close>

text \<open>
  Keyed sends in flight at once: each has begun, has won the reservation of its key, or has to mark
  a failed one. A request may stop anywhere, and any other call may run in between.
\<close>

datatype keyed_send =
    Begun string string string message
  | Won string string string message
  | Failing string string

inductive race :: "comms \<times> keyed_send multiset \<Rightarrow> comms \<times> keyed_send multiset \<Rightarrow> bool" where
  arrive: "race (d, P) (d, add_mset (Begun h e key m) P)"
| stop: "race (d, add_mset p P) (d, P)"
| win: "reserve_dedup h (stream_as_str (ms_stream m)) e key ([], d) = (Inr True, ([], d'))
    \<Longrightarrow> race (d, add_mset (Begun h e key m) P) (d', add_mset (Won h e key m) P)"
| lose: "reserve_dedup h (stream_as_str (ms_stream m)) e key ([], d) = (Inr False, ([], d'))
    \<Longrightarrow> race (d, add_mset (Begun h e key m) P) (d', P)"
| deliver: "put_on_wire tp h (Some key) m ([], d) = (Inr None, ([], d'))
    \<Longrightarrow> race (d, add_mset (Won h e key m) P) (d', P)"
| fail: "put_on_wire tp h (Some key) m ([], d) = (Inr (Some err), ([], d'))
    \<Longrightarrow> race (d, add_mset (Won h e key m) P) (d', add_mset (Failing key err) P)"
| mark: "mark_dedup_failed key err ([], d) = (Inr (), ([], d'))
    \<Longrightarrow> race (d, add_mset (Failing key err) P) (d', P)"
| other: "perform_call c (fs, d) = (r, (fs', d')) \<Longrightarrow> race (d, P) (d', P)"

primrec holds :: "string \<Rightarrow> keyed_send \<Rightarrow> bool" where
  "holds k (Begun h e key m) = False"
| "holds k (Won h e key m) = (key = k)"
| "holds k (Failing key err) = (key = k)"

definition held :: "string \<Rightarrow> keyed_send multiset \<Rightarrow> nat" where
  "held k P = size (filter_mset (holds k) P)"

lemma held_add [simp]: "held k (add_mset p P) = (if holds k p then Suc (held k P) else held k P)"
  by (simp add: held_def)

definition once_inv :: "string \<Rightarrow> comms \<times> keyed_send multiset \<Rightarrow> bool" where
  "once_inv k s =
     (let n = held k (snd s) + length (delivered_under k (fst s))
      in n \<le> 1 \<and> (0 < n \<longrightarrow> reserved k (fst s)))"

definition once :: "string \<Rightarrow> comms \<Rightarrow> comms \<Rightarrow> bool" where
  "once k d d' =
     (if reserved k d then reserved k d' \<and> delivered_under k d' = delivered_under k d
      else delivered_under k d' = delivered_under k d
        \<or> length (delivered_under k d') = Suc (length (delivered_under k d)) \<and> reserved k d')"

lemma reflp_once [simp, intro]: "reflp (once k)"
  by (auto simp: reflp_def once_def)

lemma transp_once [simp, intro]: "transp (once k)"
  by (auto simp: transp_def once_def split: if_splits)

lemma onceI: "cm_send_log d' = cm_send_log d \<Longrightarrow> cm_wire d' = cm_wire d \<Longrightarrow> once k d d'"
  by (simp add: once_def reserved_def delivered_under_def)

lemma once_log_send: "steps (once k) (log_send r s e out err k')"
  unfolding log_send_def
  by (rule steps_cstmt) (auto simp: Let_def once_def reserved_def delivered_under_def split: if_splits)

lemma once_put: "steps (once k) (put_on_wire tp r None m)"
  unfolding put_on_wire_def by (rule steps_act) (simp add: Let_def once_def reserved_def delivered_under_def)

lemma once_send_and_log: "steps (once k) (send_and_log tp r e m)"
  unfolding send_and_log_def by (intro steps_dbind steps_case_option steps_ret once_put once_log_send) auto

lemma once_repo:
  "steps (once k) (upsert_subscription r email eu)"
  "steps (once k) (update_preferences r up)"
  "steps (once k) (suppress now r reason scope)"
  "steps (once k) (store_token th r ex)"
  "steps (once k) (get_subscription r)"
  "steps (once k) (is_marketing_suppressed r)"
  "steps (once k) (resolve_token now th)"
  unfolding upsert_subscription_def update_preferences_def store_token_def suppress_def
    get_subscription_def resolve_token_def is_marketing_suppressed_def
  by (auto intro!: steps_stmt steps_exec steps_cstmt steps_query onceI
       simp: Let_def split: option.splits if_splits)

lemma once_send_marketing: "steps (once k) (send_marketing tp r c e m)"
  unfolding send_marketing_def Let_def
  by (intro steps_dbind steps_case_option steps_if steps_ret once_repo once_log_send once_send_and_log) auto

lemma list_ex_marked:
  "list_ex (\<lambda>l. sl_dedup_key l = Some k \<and> sl_outcome l = ''sent'')
     (update_where (\<lambda>l. sl_dedup_key l = Some key \<and> sl_outcome l = ''sent'')
       (\<lambda>l. l\<lparr>sl_outcome := ''failed'', sl_error := Some err\<rparr>) ls)
   = (list_ex (\<lambda>l. sl_dedup_key l = Some k \<and> sl_outcome l = ''sent'') ls \<and> key \<noteq> k)"
  by (induction ls) auto

lemmas keyed_simps = reserved_def delivered_under_def list_ex_marked Let_def

lemma once_send_transactional: "steps (once k) (send_transactional tp r e key m)"
proof (cases key)
  case None
  then show ?thesis by (simp add: send_transactional_def once_send_and_log)
next
  case (Some key')
  show ?thesis
    unfolding Some send_transactional_def reserve_dedup_def mark_dedup_failed_def put_on_wire_def exec_def
    by (rule stepsI)
       (auto simp: dbind_def stmt_def act_def once_def keyed_simps
          split: list.splits if_splits option.splits)
qed

lemma once_handlers:
  "steps (once k) (save_preferences cc now token form)"
  "steps (once k) (one_click_unsubscribe cc now token)"
  unfolding save_preferences_def one_click_unsubscribe_def resolve_link_def or_500_def
  by (intro steps_case_option steps_dbind steps_ignore steps_map_err steps_ok_or_raise steps_ret
        once_repo; simp)+

lemma once_call: "steps (once k) (perform_call c)"
proof (cases c)
  case (SendMarketing tp r category e mt sender recipient)
  then show ?thesis
    by (cases "build_marketing mt sender recipient")
       (simp_all add: steps_ret steps_ignore once_send_marketing)
next
  case (SendTransactional tp u r e key template sender recipient)
  then show ?thesis
    by (cases "build_transactional u template sender recipient")
       (simp_all add: steps_ret steps_ignore once_send_transactional)
qed (simp_all add: steps_ignore once_repo once_handlers)

lemma once_inv_once: "once k d d' \<Longrightarrow> once_inv k (d, P) \<Longrightarrow> once_inv k (d', P)"
  by (auto simp: once_def once_inv_def Let_def split: if_splits)

lemma once_inv_race: "race s s' \<Longrightarrow> once_inv k s \<Longrightarrow> once_inv k s'"
proof (induction rule: race.induct)
  case (other c fs d r fs' d' P)
  then show ?case using once_inv_once stepsD [OF once_call] by blast
qed (auto simp: once_inv_def reserve_dedup_def put_on_wire_def mark_dedup_failed_def keyed_simps
       split: if_splits)

lemma once_inv_races: "race\<^sup>*\<^sup>* s s' \<Longrightarrow> once_inv k s \<Longrightarrow> once_inv k s'"
  by (induction rule: rtranclp_induct) (auto intro: once_inv_race)

definition no_comms :: comms where
  "no_comms = \<lparr>cm_subscriptions = [], cm_suppressions = [], cm_tokens = [], cm_send_log = [], cm_wire = []\<rparr>"

text \<open>
  (bounds). However many requests race for a magic link, with every other call, failure and stop
  in between, at most one message is delivered under a dedup key: the statement of the unique
  reservation decides the race, and only a send that failed gives the key back.
\<close>

theorem magic_link_goes_out_once:
  assumes "race\<^sup>*\<^sup>* (no_comms, {#}) (d, P)"
  shows "length (delivered_under k d) \<le> 1"
proof -
  have "once_inv k (no_comms, {#})" by (simp add: no_comms_def once_inv_def delivered_under_def held_def)
  with assms have "once_inv k (d, P)"
    by (rule once_inv_races)
  then show ?thesis by (simp add: once_inv_def Let_def)
qed

definition ex_link :: message where
  "ex_link = \<lparr>ms_stream = Transactional, ms_from = ''verify@mail.anseo.com'', ms_to = ''o@acme.com'',
     ms_subject = ''Verify your domain'', ms_body = ''link''\<rparr>"

definition ex_reserved :: comms where
  "ex_reserved = snd (snd (reserve_dedup ''r'' ''transactional'' ''magic_link'' ''ml:t'' ([], no_comms)))"

definition ex_delivered :: comms where
  "ex_delivered = snd (snd (put_on_wire (in_memory_send False) ''r'' (Some ''ml:t'') ex_link ([], ex_reserved)))"

theorem magic_link_goes_out_once_witness:
  "length (delivered_under ''ml:t'' ex_delivered) = 1"
proof -
  let ?b = "Begun ''r'' ''magic_link'' ''ml:t'' ex_link" and ?w = "Won ''r'' ''magic_link'' ''ml:t'' ex_link"
  have "race (no_comms, {#}) (no_comms, {#?b#})"
    and "race (no_comms, {#?b#}) (no_comms, {#?b, ?b#})"
    by (rule race.arrive)+
  moreover have "race (no_comms, {#?b, ?b#}) (ex_reserved, {#?w, ?b#})"
    by (rule race.win) code_simp
  moreover have "race (ex_reserved, {#?w, ?b#}) (ex_reserved, {#?w#})"
    by (subst add_mset_commute, rule race.lose) code_simp
  moreover have "race (ex_reserved, {#?w#}) (ex_delivered, {#})"
    by (rule race.deliver) code_simp
  ultimately have "race\<^sup>*\<^sup>* (no_comms, {#}) (ex_delivered, {#})"
    by (rule converse_rtranclp_into_rtranclp [OF _ converse_rtranclp_into_rtranclp [OF _
          converse_rtranclp_into_rtranclp [OF _ converse_rtranclp_into_rtranclp [OF _ r_into_rtranclp]]]])
  then have "length (delivered_under ''ml:t'' ex_delivered) \<le> 1" by (rule magic_link_goes_out_once)
  moreover have "0 < length (delivered_under ''ml:t'' ex_delivered)" by code_simp
  ultimately show ?thesis by (metis One_nat_def Suc_leI le_antisym)
qed

end
