(* ===== verification/Verification.thy ===== *)
theory Verification
  imports Disputes Comms "HOL-Library.Char_ord" "HOL-Library.List_Lexorder"
begin

text \<open>
  Proof of domain ownership: \<open>crates/storage/src/repositories/verification.rs\<close> and the handlers of
  \<open>apps/api/src/routes/verification.rs\<close>. The token and identifier of a new challenge are arguments,
  and so is the resolver, which answers the text records of a name.
\<close>

section \<open>Methods and tokens\<close>

datatype verification_method = DnsTxt | EmailMagicLink

primrec method_as_str :: "verification_method \<Rightarrow> string" where
  "method_as_str DnsTxt = ''dns_txt''"
| "method_as_str EmailMagicLink = ''email_magic_link''"

text \<open>Microseconds.\<close>

primrec ttl :: "verification_method \<Rightarrow> int" where
  "ttl DnsTxt = 48 * 3600000000"
| "ttl EmailMagicLink = 30 * 60000000"

primrec qualifies_for_ranking :: "verification_method \<Rightarrow> bool" where
  "qualifies_for_ranking DnsTxt = True"
| "qualifies_for_ranking EmailMagicLink = False"

definition ATTESTATION_TEXT :: string where
  "ATTESTATION_TEXT = ''I am authorized to act for and on behalf of the owner/operator of this domain.''"

definition ATTESTATION_VERSION :: string where
  "ATTESTATION_VERSION = ''v1-2026-06-06''"

definition CHALLENGE_LABEL_PREFIX :: string where
  "CHALLENGE_LABEL_PREFIX = ''_anseo-challenge''"

definition CHALLENGE_VALUE_PREFIX :: string where
  "CHALLENGE_VALUE_PREFIX = ''anseo-verify=''"

definition RATE_LIMIT_PER_HOUR :: nat where
  "RATE_LIMIT_PER_HOUR = 5"

record minted_challenge =
  mc_id :: uuid
  mc_raw_token :: string
  mc_method :: verification_method
  mc_expires_at :: int

definition dns_record_name :: "string \<Rightarrow> string" where
  "dns_record_name domain = CHALLENGE_LABEL_PREFIX @ ''.'' @ domain"

definition dns_record_value :: "minted_challenge \<Rightarrow> string" where
  "dns_record_value c = CHALLENGE_VALUE_PREFIX @ mc_raw_token c"

datatype resolve_error = NameNotFound string | Transient string

type_synonym resolver = "string \<Rightarrow> resolve_error + string list"

definition constant_time_eq :: "string \<Rightarrow> string \<Rightarrow> bool" where
  "constant_time_eq a b = (length a = length b \<and> list_all2 (=) a b)"

definition txt_value :: "string \<Rightarrow> string" where
  "txt_value r = trim_matches (CHR 0x22) (str_trim r)"

definition txt_records_contain_token :: "string list \<Rightarrow> string \<Rightarrow> bool" where
  "txt_records_contain_token records expected_token =
     list_ex (\<lambda>r. constant_time_eq (txt_value r) (CHALLENGE_VALUE_PREFIX @ expected_token)) records"

definition hash_token :: "comms_crypto \<Rightarrow> string \<Rightarrow> string" where
  "hash_token cc raw = sha256_hex cc raw"

section \<open>The ledger of attempts\<close>

definition one_hour :: int where
  "one_hour = 3600000000"

definition attempts_last_hour :: "int \<Rightarrow> string \<Rightarrow> nat regm" where
  "attempts_last_hour now domain =
     query (\<lambda>d. length (filter (\<lambda>a. at_domain a = domain \<and> now - one_hour < at_created_at a) (rg_attempts d)))"

definition expire_live_challenges :: "string \<Rightarrow> verification_method \<Rightarrow> unit regm" where
  "expire_live_challenges domain m =
     exec (\<lambda>d. d\<lparr>rg_attempts := update_where
        (\<lambda>a. at_domain a = domain \<and> at_method a = method_as_str m \<and> at_status a = ''pending'' \<and> at_used_at a = None)
        (\<lambda>a. a\<lparr>at_status := ''expired''\<rparr>) (rg_attempts d)\<rparr>)"

text \<open>
  An attempt needs its entity, a fresh identifier, and, when it is live, to be the only live one of
  its domain and method.
\<close>

definition live :: "attempt_row \<Rightarrow> bool" where
  "live a = (at_status a = ''pending'' \<and> at_used_at a = None)"

definition insert_attempt :: "attempt_row \<Rightarrow> unit regm" where
  "insert_attempt a =
     cstmt (\<lambda>d. if list_ex (\<lambda>e. en_domain e = at_domain a) (rg_entities d)
                   \<and> \<not> list_ex (\<lambda>b. at_id b = at_id a
                        \<or> (live a \<and> live b \<and> at_domain b = at_domain a \<and> at_method b = at_method a)) (rg_attempts d)
                then Some ((), d\<lparr>rg_attempts := rg_attempts d @ [a]\<rparr>) else None)"

definition new_attempt ::
  "comms_crypto \<Rightarrow> int \<Rightarrow> uuid \<Rightarrow> string \<Rightarrow> string \<Rightarrow> verification_method \<Rightarrow> string option \<Rightarrow> string option \<Rightarrow> attempt_row" where
  "new_attempt cc now aid raw domain m session email =
     \<lparr>at_id = aid, at_domain = domain, at_token_hash = hash_token cc raw, at_method = method_as_str m,
      at_status = ''pending'', at_claimant_session = session, at_claimant_email = email,
      at_attestation_version = ATTESTATION_VERSION, at_attested_at = Some now, at_expires_at = now + ttl m,
      at_used_at = None, at_created_at = now\<rparr>"

definition create_challenge ::
  "comms_crypto \<Rightarrow> int \<Rightarrow> uuid \<Rightarrow> string \<Rightarrow> string \<Rightarrow> verification_method \<Rightarrow> string option \<Rightarrow> string option \<Rightarrow>
   minted_challenge regm" where
  "create_challenge cc now aid raw domain m session email =
     dbind (insert_attempt (new_attempt cc now aid raw domain m session email)) (\<lambda>_.
       ret \<lparr>mc_id = aid, mc_raw_token = raw, mc_method = m, mc_expires_at = now + ttl m\<rparr>)"

definition find_by_token :: "comms_crypto \<Rightarrow> string \<Rightarrow> attempt_row option regm" where
  "find_by_token cc raw_token = query (\<lambda>d. find (\<lambda>a. at_token_hash a = hash_token cc raw_token) (rg_attempts d))"

definition consume :: "int \<Rightarrow> uuid \<Rightarrow> bool regm" where
  "consume now aid =
     (let q = (\<lambda>a. at_id a = aid \<and> at_status a = ''pending'' \<and> at_used_at a = None \<and> now < at_expires_at a)
      in stmt (\<lambda>d. (rows_affected q (rg_attempts d) = 1,
           d\<lparr>rg_attempts := update_where q (\<lambda>a. a\<lparr>at_status := ''verified'', at_used_at := Some now\<rparr>) (rg_attempts d)\<rparr>)))"

definition mark_failed :: "uuid \<Rightarrow> unit regm" where
  "mark_failed aid =
     exec (\<lambda>d. d\<lparr>rg_attempts := update_where (\<lambda>a. at_id a = aid \<and> at_status a = ''pending'')
        (\<lambda>a. a\<lparr>at_status := ''failed''\<rparr>) (rg_attempts d)\<rparr>)"

definition record_revocation :: "int \<Rightarrow> uuid \<Rightarrow> string \<Rightarrow> unit regm" where
  "record_revocation now aid domain =
     insert_attempt \<lparr>at_id = aid, at_domain = domain, at_token_hash = [], at_method = ''dns_txt'',
       at_status = ''revoked'', at_claimant_session = None, at_claimant_email = None,
       at_attestation_version = ATTESTATION_VERSION, at_attested_at = None, at_expires_at = now,
       at_used_at = None, at_created_at = now\<rparr>"

text \<open>\<open>ORDER BY used_at DESC\<close>, which puts the rows without one first.\<close>

definition newest_used_first :: "attempt_row list \<Rightarrow> attempt_row list" where
  "newest_used_first rows =
     filter (\<lambda>a. at_used_at a = None) rows
     @ sort_key (\<lambda>a. - unwrap_or 0 (at_used_at a)) (filter (\<lambda>a. at_used_at a \<noteq> None) rows)"

definition dns_verified_entity :: "registry \<Rightarrow> string \<Rightarrow> bool" where
  "dns_verified_entity d domain =
     list_ex (\<lambda>e. en_domain e = domain \<and> en_claim_status e = ''verified''
       \<and> en_verification_method e = Some ''dns_txt'') (rg_entities d)"

definition verified_dns_attempts :: "registry \<Rightarrow> string \<Rightarrow> attempt_row list" where
  "verified_dns_attempts d domain =
     filter (\<lambda>a. at_domain a = domain \<and> at_method a = ''dns_txt'' \<and> at_status a = ''verified'') (rg_attempts d)"

text \<open>\<open>DISTINCT ON (domain)\<close>: the first row of each domain. Domains compare bytewise here.\<close>

definition dns_verified_domains :: "(string \<times> string) list regm" where
  "dns_verified_domains =
     query (\<lambda>d. map (\<lambda>domain. (domain, at_token_hash (hd (newest_used_first (verified_dns_attempts d domain)))))
       (sort (remdups (map at_domain (filter (\<lambda>a. at_method a = ''dns_txt'' \<and> at_status a = ''verified''
          \<and> dns_verified_entity d (at_domain a)) (rg_attempts d))))))"

definition attempts_for_domain :: "string \<Rightarrow> attempt_row list regm" where
  "attempts_for_domain domain =
     query (\<lambda>d. sort_key (\<lambda>a. - at_created_at a) (filter (\<lambda>a. at_domain a = domain) (rg_attempts d)))"

section \<open>Revocation and the daily job\<close>

definition revoke_entity :: "int \<Rightarrow> uuid \<Rightarrow> string \<Rightarrow> unit regm" where
  "revoke_entity now aid domain =
     dbind (set_grace_period_start now domain) (\<lambda>_. record_revocation now aid domain)"

definition still_present :: "comms_crypto \<Rightarrow> string \<Rightarrow> string list \<Rightarrow> bool" where
  "still_present cc token_hash txt =
     list_ex (\<lambda>v. case strip_prefix ''anseo-verify='' (txt_value v) of
        None \<Rightarrow> False | Some raw \<Rightarrow> hash_token cc raw = token_hash) txt"

text \<open>The identifiers of the revocation rows come from \<open>ids\<close>, one per revoked domain.\<close>

fun reverify_each ::
  "comms_crypto \<Rightarrow> int \<Rightarrow> (nat \<Rightarrow> uuid) \<Rightarrow> resolver \<Rightarrow> (string \<times> string) list \<Rightarrow> nat \<Rightarrow> nat regm" where
  "reverify_each cc now ids rs [] revoked = ret revoked"
| "reverify_each cc now ids rs ((domain, token_hash) # rest) revoked =
     (case rs (dns_record_name domain) of
        Inl (Transient _) \<Rightarrow> reverify_each cc now ids rs rest revoked
      | answer \<Rightarrow>
          (let txt = (case answer of Inr v \<Rightarrow> v | Inl _ \<Rightarrow> [])
           in if still_present cc token_hash txt then reverify_each cc now ids rs rest revoked
              else dbind (revoke_entity now (ids revoked) domain) (\<lambda>_.
                     reverify_each cc now ids rs rest (revoked + 1))))"

definition run_reverification_job :: "comms_crypto \<Rightarrow> int \<Rightarrow> (nat \<Rightarrow> uuid) \<Rightarrow> resolver \<Rightarrow> nat regm" where
  "run_reverification_job cc now ids rs =
     dbind dns_verified_domains (\<lambda>domains. reverify_each cc now ids rs domains 0)"

datatype token_rejection = Unknown | AlreadyConsumed | TokenExpired | WrongState

definition classify_token :: "attempt_row option \<Rightarrow> int \<Rightarrow> token_rejection + unit" where
  "classify_token record now =
     (case record of
        None \<Rightarrow> Inl Unknown
      | Some r \<Rightarrow>
          if at_used_at r \<noteq> None then Inl AlreadyConsumed
          else if at_expires_at r \<le> now then Inl TokenExpired
          else if at_status r \<noteq> ''pending'' then Inl WrongState
          else Inr ())"

section \<open>Starting a verification\<close>

text \<open>The environment a handler reads, and the tables of both components.\<close>

record verify_env =
  ve_base_url :: "string option"
  ve_mail_root :: "string option"
  ve_crypto :: comms_crypto
  ve_unicode :: unicode

record site =
  st_registry :: registry
  st_comms :: comms

type_synonym 'a siteh = "(site, api_refusal, 'a) rm"

definition in_registry :: "(registry, 'e, 'a) rm \<Rightarrow> (site, 'e, 'a) rm" where
  "in_registry = zoom st_registry (\<lambda>r s. s\<lparr>st_registry := r\<rparr>)"

definition in_comms :: "(comms, 'e, 'a) rm \<Rightarrow> (site, 'e, 'a) rm" where
  "in_comms = zoom st_comms (\<lambda>c s. s\<lparr>st_comms := c\<rparr>)"

definition DEFAULT_VERIFY_BASE_URL :: string where
  "DEFAULT_VERIFY_BASE_URL = ''https://benchmark.anseo.ai''"

definition verify_base_url :: "verify_env \<Rightarrow> string" where
  "verify_base_url env =
     (case ve_base_url env of
        None \<Rightarrow> DEFAULT_VERIFY_BASE_URL
      | Some v \<Rightarrow> let v' = trim_end_matches (CHR ''/'') (str_trim v)
                  in if v' = [] then DEFAULT_VERIFY_BASE_URL else v')"

definition mail_root :: "verify_env \<Rightarrow> string" where
  "mail_root env =
     (case ve_mail_root env of
        None \<Rightarrow> ''anseo.ai'' | Some v \<Rightarrow> if str_trim v = [] then ''anseo.ai'' else str_trim v)"

record start_request =
  sq_domain :: string
  sq_method :: string
  sq_display_name :: "string option"
  sq_role :: "string option"
  sq_email :: "string option"
  sq_claimant_session :: "string option"
  sq_attestation_accepted :: bool

record start_response =
  so_domain :: string
  so_method :: string
  so_state :: string
  so_expires_at :: int
  so_qualifies_for_ranking :: bool
  so_dns_record :: "(string \<times> string) option"
  so_email_sent_to :: "string option"

definition parse_method :: "string \<Rightarrow> api_refusal + verification_method" where
  "parse_method s =
     (if s = ''dns_txt'' then Inr DnsTxt
      else if s = ''email_magic_link'' then Inr EmailMagicLink
      else Inl (400, ''invalid_method''))"

definition rsplit_once :: "char \<Rightarrow> string \<Rightarrow> (string \<times> string) option" where
  "rsplit_once c s = map_option (\<lambda>(b, a). (rev a, rev b)) (split_once c (rev s))"

definition email_proves_domain_authority :: "unicode \<Rightarrow> string \<Rightarrow> string \<Rightarrow> bool" where
  "email_proves_domain_authority u email domain =
     (case rsplit_once (CHR ''@'') (str_trim email) of
        None \<Rightarrow> False
      | Some (local, host) \<Rightarrow> local \<noteq> [] \<and> host \<noteq> [] \<and> normalize_domain u host = domain)"

datatype magic_link_outcome = LinkSent | LinkAlreadySent | LinkFailed string

definition send_magic_link :: "verify_env \<Rightarrow> string \<Rightarrow> string \<Rightarrow> magic_link_outcome siteh" where
  "send_magic_link env email raw_token =
     (let verify_url = verify_base_url env @ ''/v1/verify/'' @ raw_token;
          sender = subdomain Transactional (mail_root env)
      in dbind (map_err (\<lambda>_. (500, ''storage_error''))
           (from_result (build_transactional (ve_unicode env) (DomainVerification verify_url) sender email))) (\<lambda>message.
         dbind (map_err (\<lambda>_. (500, ''storage_error'')) (from_result (new_smtp (''smtp.mail.'' @ mail_root env) 587))) (\<lambda>transport.
         dbind (map_err (\<lambda>_. (500, ''storage_error'')) (in_comms (send_transactional (smtp_send transport)
             (recipient_hash (ve_crypto env) (ve_unicode env) email) ''domain_verification''
             (Some (hash_token (ve_crypto env) raw_token)) message))) (\<lambda>result.
           ret (case result of
                  Sent \<Rightarrow> LinkSent
                | AlreadySent \<Rightarrow> LinkAlreadySent
                | Skipped decision \<Rightarrow> LinkFailed ''dispatch skipped''
                | SendFailed e \<Rightarrow> LinkFailed e)))))"

text \<open>Whether the operator's re-send reached the recipient.\<close>

definition send_magic_link_for_operator :: "verify_env \<Rightarrow> string \<Rightarrow> string \<Rightarrow> (site, unit, unit) rm" where
  "send_magic_link_for_operator env email raw_token s =
     (case send_magic_link env email raw_token s of
        (Inr (LinkFailed _), s') \<Rightarrow> (Inl (), s')
      | (Inr _, s') \<Rightarrow> (Inr (), s')
      | (Inl _, s') \<Rightarrow> (Inl (), s'))"

text \<open>\<open>if let Ok(Some(e)) = get(domain)\<close>: a failure to read the entity is passed over.\<close>

definition claim_if_unclaimed :: "int \<Rightarrow> string \<Rightarrow> unit regh" where
  "claim_if_unclaimed now domain s =
     (case entity_get domain s of
        (Inr (Some e), s') \<Rightarrow>
          if en_claim_status e = ''unclaimed''
          then stored (set_claim_status now domain ''pending'' None) s' else (Inr (), s')
      | (_, s') \<Rightarrow> (Inr (), s'))"

definition start_challenge ::
  "verify_env \<Rightarrow> int \<Rightarrow> uuid \<Rightarrow> string \<Rightarrow> string \<Rightarrow> verification_method \<Rightarrow> start_request \<Rightarrow> minted_challenge regh" where
  "start_challenge env now aid raw domain m req =
     dbind (stored (attempts_last_hour now domain)) (\<lambda>n.
       if RATE_LIMIT_PER_HOUR \<le> n then raise (429, ''rate_limited'')
       else dbind (stored (upsert now domain (unwrap_or domain (sq_display_name req))
                (unwrap_or ''source'' (sq_role req)))) (\<lambda>_.
            dbind (claim_if_unclaimed now domain) (\<lambda>_.
            dbind (stored (expire_live_challenges domain m)) (\<lambda>_.
              stored (create_challenge (ve_crypto env) now aid raw domain m (sq_claimant_session req) (sq_email req))))))"

definition start_verification ::
  "verify_env \<Rightarrow> int \<Rightarrow> uuid \<Rightarrow> string \<Rightarrow> start_request \<Rightarrow> start_response siteh" where
  "start_verification env now aid raw req =
     (if \<not> sq_attestation_accepted req then raise (422, ''attestation_required'')
      else dbind (from_result (parse_method (sq_method req))) (\<lambda>m.
        let domain = normalize_domain (ve_unicode env) (sq_domain req); email = unwrap_or [] (sq_email req)
        in if domain = [] then raise (400, ''invalid_domain'')
           else if m = EmailMagicLink \<and> email = [] then raise (400, ''email_required'')
           else if m = EmailMagicLink \<and> \<not> email_proves_domain_authority (ve_unicode env) email domain
             then raise (400, ''email_domain_mismatch'')
           else dbind (in_registry (start_challenge env now aid raw domain m req)) (\<lambda>challenge.
             let resp = \<lparr>so_domain = domain, so_method = method_as_str m, so_state = ''pending'',
                   so_expires_at = mc_expires_at challenge, so_qualifies_for_ranking = qualifies_for_ranking m,
                   so_dns_record = None, so_email_sent_to = None\<rparr>
             in case m of
                  DnsTxt \<Rightarrow> ret (resp\<lparr>so_dns_record := Some (dns_record_name domain, dns_record_value challenge)\<rparr>)
                | EmailMagicLink \<Rightarrow>
                    dbind (send_magic_link env email (mc_raw_token challenge)) (\<lambda>outcome.
                      case outcome of
                        LinkFailed _ \<Rightarrow> raise (502, ''email_dispatch_failed'')
                      | _ \<Rightarrow> ret (resp\<lparr>so_email_sent_to := Some email\<rparr>)))))"

section \<open>Completing a verification\<close>

record check_response =
  ck_domain :: string
  ck_state :: string
  ck_verification_method :: "string option"
  ck_verified_at :: "int option"

fun check_values ::
  "comms_crypto \<Rightarrow> int \<Rightarrow> string \<Rightarrow> string list \<Rightarrow> check_response regh" where
  "check_values cc now domain [] =
     ret \<lparr>ck_domain = domain, ck_state = ''pending'', ck_verification_method = None, ck_verified_at = None\<rparr>"
| "check_values cc now domain (v # vs) =
     (case strip_prefix ''anseo-verify='' (txt_value v) of
        None \<Rightarrow> check_values cc now domain vs
      | Some raw \<Rightarrow>
          dbind (stored (find_by_token cc raw)) (\<lambda>found.
            case found of
              None \<Rightarrow> check_values cc now domain vs
            | Some r \<Rightarrow>
                if at_domain r \<noteq> domain \<or> at_method r \<noteq> ''dns_txt'' then check_values cc now domain vs
                else if classify_token (Some r) now \<noteq> Inr () then check_values cc now domain vs
                else if \<not> txt_records_contain_token [v] raw then check_values cc now domain vs
                else dbind (stored (consume now (at_id r))) (\<lambda>won.
                  if won
                  then dbind (stored (set_claim_status now domain ''verified'' (Some ''dns_txt''))) (\<lambda>_.
                       dbind (stored (entity_get domain)) (\<lambda>entity.
                         ret \<lparr>ck_domain = domain, ck_state = ''verified'',
                              ck_verification_method = Option.bind entity en_verification_method,
                              ck_verified_at = Option.bind entity en_verified_at\<rparr>))
                  else check_values cc now domain vs)))"

definition check_verification_with_resolver ::
  "comms_crypto \<Rightarrow> unicode \<Rightarrow> int \<Rightarrow> resolver \<Rightarrow> string \<Rightarrow> check_response regh" where
  "check_verification_with_resolver cc u now rs raw_domain =
     (let domain = normalize_domain u raw_domain
      in case rs (dns_record_name domain) of
           Inl (Transient _) \<Rightarrow> raise (503, ''dns_resolution_failed'')
         | Inl (NameNotFound _) \<Rightarrow> check_values cc now domain []
         | Inr txt_values \<Rightarrow> check_values cc now domain txt_values)"

definition is_valid_token_format :: "string \<Rightarrow> bool" where
  "is_valid_token_format token = (length token = 64 \<and> list_all is_ascii_hexdigit token)"

definition html_escape :: "string \<Rightarrow> string" where
  "html_escape s = concat (map (\<lambda>c.
     if c = CHR ''&'' then ''&amp;'' else if c = CHR ''<'' then ''&lt;'' else if c = CHR ''>'' then ''&gt;''
     else if c = CHR 0x22 then ''&quot;'' else if c = CHR 0x27 then ''&#x27;'' else [c]) s)"

definition quote :: string where
  "quote = [CHR 0x22]"

definition verify_confirm_page :: "string \<Rightarrow> api_refusal + string" where
  "verify_confirm_page token =
     (if \<not> is_valid_token_format token then Inl (404, ''not_found'')
      else Inr (''<!doctype html>'' @ nl
        @ ''<html lang='' @ quote @ ''en'' @ quote @ ''><head><meta charset='' @ quote @ ''utf-8'' @ quote
        @ ''><title>Confirm domain verification</title></head>'' @ nl @ ''<body>'' @ nl
        @ ''  <h1>Confirm domain verification</h1>'' @ nl
        @ ''  <p>Click the button to confirm you control this domain.</p>'' @ nl
        @ ''  <form method='' @ quote @ ''post'' @ quote @ '' action='' @ quote @ ''/v1/verify/'' @ html_escape token @ quote @ ''>'' @ nl
        @ ''    <button type='' @ quote @ ''submit'' @ quote @ ''>Confirm verification</button>'' @ nl
        @ ''  </form>'' @ nl @ ''</body></html>''))"

text \<open>The answer names the verified domain.\<close>

definition verify_magic_link :: "comms_crypto \<Rightarrow> int \<Rightarrow> string \<Rightarrow> string regh" where
  "verify_magic_link cc now token =
     dbind (stored (find_by_token cc token)) (\<lambda>found.
       case found of
         None \<Rightarrow> raise (401, ''invalid_token'')
       | Some r \<Rightarrow>
           if classify_token (Some r) now \<noteq> Inr () then raise (401, ''invalid_token'')
           else if at_method r \<noteq> ''email_magic_link'' then raise (401, ''invalid_token'')
           else dbind (stored (consume now (at_id r))) (\<lambda>won.
             if \<not> won then raise (401, ''invalid_token'')
             else dbind (stored (set_claim_status now (at_domain r) ''verified'' (Some ''email_magic_link''))) (\<lambda>_.
               ret (at_domain r))))"

section \<open>What a call may do to the ledger\<close>

text \<open>
  Rows are only added at the end, and an existing row either stays as it is or leaves the state
  \<open>pending\<close> for good; \<open>verified\<close> it becomes only while it was valid.
\<close>

definition attempt_step :: "attempt_row \<Rightarrow> attempt_row \<Rightarrow> bool" where
  "attempt_step a b =
     (b = a \<or> at_status a = ''pending''
        \<and> (b = a\<lparr>at_status := ''expired''\<rparr> \<or> b = a\<lparr>at_status := ''failed''\<rparr>
           \<or> (\<exists>now < at_expires_at a. b = a\<lparr>at_status := ''verified'', at_used_at := Some now\<rparr>)))"

definition ledger :: "registry \<Rightarrow> registry \<Rightarrow> bool" where
  "ledger t t' = (\<exists>old new. rg_attempts t' = old @ new \<and> list_all2 attempt_step (rg_attempts t) old)"

lemma attempt_step_refl [simp]: "attempt_step a a"
  by (simp add: attempt_step_def)

lemma attempt_steps:
  "at_status a = ''pending'' \<Longrightarrow> attempt_step a (a\<lparr>at_status := ''expired''\<rparr>)"
  "at_status a = ''pending'' \<Longrightarrow> attempt_step a (a\<lparr>at_status := ''failed''\<rparr>)"
  "at_status a = ''pending'' \<Longrightarrow> now < at_expires_at a \<Longrightarrow>
     attempt_step a (a\<lparr>at_status := ''verified'', at_used_at := Some now\<rparr>)"
  unfolding attempt_step_def by blast+

lemma attempt_step_trans: "attempt_step a b \<Longrightarrow> attempt_step b c \<Longrightarrow> attempt_step a c"
  by (auto simp: attempt_step_def)

lemma ledgerI: "rg_attempts t' = old @ new \<Longrightarrow> list_all2 attempt_step (rg_attempts t) old \<Longrightarrow> ledger t t'"
  by (auto simp: ledger_def)

lemma ledger_same: "rg_attempts t' = rg_attempts t \<Longrightarrow> ledger t t'"
  by (rule ledgerI [of t' "rg_attempts t" "[]"]) (auto intro: list.rel_refl)

lemma reflp_ledger [simp, intro]: "reflp ledger"
  by (simp add: reflp_def ledger_same)

lemma transp_ledger [simp, intro]: "transp ledger"
proof (rule transpI)
  fix t1 t2 t3
  assume "ledger t1 t2" and "ledger t2 t3"
  then obtain o1 n1 o2 n2 where 1: "rg_attempts t2 = o1 @ n1" "list_all2 attempt_step (rg_attempts t1) o1"
    and 2: "rg_attempts t3 = o2 @ n2" "list_all2 attempt_step (o1 @ n1) o2"
    unfolding ledger_def by metis
  from 2(2) obtain p q where o2: "o2 = p @ q" "list_all2 attempt_step o1 p"
    by (auto simp: list_all2_append1)
  have "transp (list_all2 attempt_step)"
    by (rule list.rel_transp) (auto intro: transpI attempt_step_trans)
  from transpD [OF this 1(2) o2(2)] have "list_all2 attempt_step (rg_attempts t1) p" .
  with 2(1) o2(1) show "ledger t1 t3" by (auto simp: ledger_def)
qed

lemma ledger_update:
  "rg_attempts t' = update_where q f (rg_attempts t) \<Longrightarrow> (\<And>a. q a \<Longrightarrow> attempt_step a (f a)) \<Longrightarrow> ledger t t'"
  unfolding ledger_def
  by (rule exI [of _ "rg_attempts t'"]) (auto simp: update_where_def list_all2_conv_all_nth)

lemma ledger_insert: "rg_attempts t' = rg_attempts t @ [a] \<Longrightarrow> ledger t t'"
  by (rule ledgerI) (auto intro: list.rel_refl)

lemma ledger_inserted: "steps ledger (insert_attempt a)"
  unfolding insert_attempt_def
  by (rule steps_cstmt) (auto intro: ledger_insert [where a = a] split: if_splits)

lemma ledger_updated:
  "(\<And>a. q a \<Longrightarrow> attempt_step a (f a)) \<Longrightarrow> ledger t (t\<lparr>rg_attempts := update_where q f (rg_attempts t)\<rparr>)"
  by (rule ledger_update [where q = q and f = f]) simp_all

lemma ledger_repo:
  "steps ledger (attempts_last_hour now domain)"
  "steps ledger (expire_live_challenges domain m)"
  "steps ledger (insert_attempt a)"
  "steps ledger (find_by_token cc raw)"
  "steps ledger (consume now aid)"
  "steps ledger (mark_failed aid)"
  "steps ledger (dns_verified_domains)"
  "steps ledger (entity_get domain)"
  unfolding attempts_last_hour_def find_by_token_def dns_verified_domains_def entity_get_def
    expire_live_challenges_def consume_def mark_failed_def Let_def
  by (auto intro!: ledger_inserted steps_query steps_exec steps_stmt ledger_updated attempt_steps)

lemma ledger_entity: "steps ledger (update_entity domain p f)"
  unfolding update_entity_def Let_def
  by (rule steps_cstmt) (auto intro!: ledger_same split: if_splits)

lemma ledger_upsert: "steps ledger (upsert now domain dn role)"
  unfolding upsert_def
  by (intro steps_dbind steps_cstmt steps_ok_or_raise steps_ret ledger_repo)
     (auto intro!: ledger_same simp: Let_def split: if_splits)

lemma ledger_status:
  "steps ledger (set_claim_status now domain status vm)"
  "steps ledger (set_grace_period_start now domain)"
  unfolding set_claim_status_def set_grace_period_start_def
  by (intro steps_dbind ledger_entity steps_ret; simp)+

lemma ledger_revoke: "steps ledger (revoke_entity now aid domain)"
  unfolding revoke_entity_def record_revocation_def
  by (intro steps_dbind ledger_status ledger_repo) simp

lemma ledger_job: "steps ledger (run_reverification_job cc now ids rs)"
proof -
  have "steps ledger (reverify_each cc now ids rs ds n)" for ds n
    by (induction cc now ids rs ds n rule: reverify_each.induct)
       (auto simp: Let_def simp del: ret_apply intro!: steps_ret steps_dbind ledger_revoke split: sum.splits resolve_error.splits)
  then show ?thesis
    unfolding run_reverification_job_def by (intro steps_dbind ledger_repo) auto
qed

lemma ledger_check: "steps ledger (check_verification_with_resolver cc u now rs raw_domain)"
proof -
  have "steps ledger (check_values cc now domain vs)" for domain vs
    by (induction cc now domain vs rule: check_values.induct)
       (auto simp: stored_def simp del: ret_apply intro!: steps_ret steps_dbind steps_map_err ledger_repo ledger_status
         split: option.splits)
  then show ?thesis
    unfolding check_verification_with_resolver_def Let_def
    by (auto intro!: steps_raise steps_ret split: sum.splits resolve_error.splits simp del: raise_apply ret_apply)
qed

lemma ledger_confirm: "steps ledger (verify_magic_link cc now token)"
  unfolding verify_magic_link_def stored_def
  by (intro steps_dbind steps_case_option steps_if steps_map_err ledger_repo ledger_status steps_raise steps_ret; simp)

lemma ledger_claim: "steps ledger (claim_if_unclaimed now domain)"
proof (rule stepsI)
  fix fs t r fs' t'
  assume run: "claim_if_unclaimed now domain (fs, t) = (r, (fs', t'))"
  obtain x fs1 t1 where get: "entity_get domain (fs, t) = (x, (fs1, t1))" by (metis surj_pair)
  from stepsD [OF ledger_repo(8) this] have 1: "ledger t t1" .
  have "steps ledger (stored (set_claim_status now domain ''pending'' None))"
    unfolding stored_def by (intro steps_map_err ledger_status)
  with run get have "ledger t1 t'"
    by (auto simp: claim_if_unclaimed_def ledger_same split: sum.splits option.splits if_splits dest: stepsD)
  with 1 show "ledger t t'" by (rule transpD [OF transp_ledger])
qed

lemma ledger_start: "steps ledger (start_challenge env now aid raw domain m req)"
  unfolding start_challenge_def stored_def create_challenge_def
  by (intro steps_dbind steps_if steps_map_err ledger_repo ledger_upsert ledger_claim steps_raise steps_ret; simp)

text \<open>Any call on the claims of domains: the handlers, the daily job, a revocation, a failed check.\<close>

datatype site_call =
    Start verify_env int uuid string start_request
  | Check comms_crypto unicode int resolver string
  | Confirm comms_crypto int string
  | Reverify comms_crypto int "nat \<Rightarrow> uuid" resolver
  | RevokeEntity int uuid string
  | MarkFailed uuid

primrec perform_site :: "site_call \<Rightarrow> unit siteh" where
  "perform_site (Start env now aid raw req) = ignore (start_verification env now aid raw req)"
| "perform_site (Check cc u now rs raw_domain) = ignore (in_registry (check_verification_with_resolver cc u now rs raw_domain))"
| "perform_site (Confirm cc now token) = ignore (in_registry (verify_magic_link cc now token))"
| "perform_site (Reverify cc now ids rs) = ignore (in_registry (run_reverification_job cc now ids rs))"
| "perform_site (RevokeEntity now aid domain) = ignore (in_registry (revoke_entity now aid domain))"
| "perform_site (MarkFailed aid) = ignore (in_registry (mark_failed aid))"

definition run_site :: "site_call list \<Rightarrow> site conn \<Rightarrow> site" where
  "run_site calls s = snd (run_seq (map perform_site calls) s)"

definition site_ledger :: "site \<Rightarrow> site \<Rightarrow> bool" where
  "site_ledger s s' = ledger (st_registry s) (st_registry s')"

lemma reflp_site_ledger [simp, intro]: "reflp site_ledger"
  by (simp add: site_ledger_def reflp_def ledger_same)

lemma transp_site_ledger [simp, intro]: "transp site_ledger"
  by (auto simp: site_ledger_def transp_def intro: transpD [OF transp_ledger])

lemma site_ledger_registry: "steps ledger m \<Longrightarrow> steps site_ledger (in_registry m)"
  unfolding in_registry_def by (erule steps_zoom) (simp add: site_ledger_def)

lemma site_ledger_comms: "steps site_ledger (in_comms m)"
  unfolding in_comms_def
  by (rule steps_zoom [where R = "\<lambda>_ _. True"]) (auto simp: steps_def site_ledger_def ledger_same)

lemma site_ledger_link: "steps site_ledger (send_magic_link env email raw)"
  unfolding send_magic_link_def Let_def
  by (intro steps_dbind steps_map_err steps_from_result steps_ret site_ledger_comms; simp)

lemma site_ledger_start: "steps site_ledger (start_verification env now aid raw req)"
  unfolding start_verification_def Let_def
  by (auto intro!: steps_dbind steps_from_result steps_ret steps_raise site_ledger_link site_ledger_registry ledger_start
       split: verification_method.splits magic_link_outcome.splits simp del: ret_apply raise_apply)

lemma site_ledger_call: "steps site_ledger (perform_site c)"
  by (cases c)
     (simp_all add: steps_ignore site_ledger_start site_ledger_registry ledger_check ledger_confirm ledger_job
       ledger_revoke ledger_repo)

interpretation ledger_calls: guarded_calls perform_site site_ledger
  by unfold_locales (simp_all add: site_ledger_call)

lemma run_site_ledger: "ledger (st_registry (snd s)) (st_registry (run_site calls s))"
  using ledger_calls.run_calls_at [of s calls] by (simp add: run_site_def site_ledger_def)

section \<open>A token works once\<close>

definition token_row :: "comms_crypto \<Rightarrow> string \<Rightarrow> registry \<Rightarrow> attempt_row option" where
  "token_row cc token t = find (\<lambda>a. at_token_hash a = hash_token cc token) (rg_attempts t)"

lemma attempt_step_hash: "attempt_step a b \<Longrightarrow> at_token_hash b = at_token_hash a"
  by (auto simp: attempt_step_def)

lemma find_ledger:
  "list_all2 attempt_step xs ys \<Longrightarrow> find (\<lambda>a. at_token_hash a = h) xs = Some a \<Longrightarrow>
     \<exists>b. find (\<lambda>a. at_token_hash a = h) (ys @ zs) = Some b \<and> attempt_step a b"
  by (induction xs ys rule: list_all2_induct) (auto simp: attempt_step_hash split: if_splits)

lemma token_row_ledger:
  "ledger t t' \<Longrightarrow> token_row cc token t = Some a \<Longrightarrow> \<exists>b. token_row cc token t' = Some b \<and> attempt_step a b"
  unfolding ledger_def token_row_def using find_ledger by metis

lemma token_found: "stored (find_by_token cc token) (fs, t) = (Inr x, (fs', t')) \<Longrightarrow> t' = t \<and> x = token_row cc token t"
  by (auto simp: stored_def map_err_def find_by_token_def query_def token_row_def
      split: prod.splits sum.splits dest!: stmt_InrD)

lemma spent_refused:
  assumes "token_row cc token t = Some a" and "at_status a \<noteq> ''pending''"
  shows "\<not> (\<exists>x s. verify_magic_link cc now token (fs, t) = (Inr x, s))"
  using assms by (auto simp: verify_magic_link_def dbind_Inr classify_token_def dest!: token_found split: if_splits)

lemma classify_ok: "classify_token (Some a) now = Inr () \<longleftrightarrow> live a \<and> now < at_expires_at a"
  by (auto simp: classify_token_def live_def)

lemma stored_InrD: "stored m (fs, t) = (Inr a, (fs', t')) \<Longrightarrow> m (fs, t) = (Inr a, (fs', t'))"
  by (auto simp: stored_def map_err_def split: prod.splits sum.splits)

lemma consumed_row:
  assumes "consume now (at_id a) (fs, t) = (Inr won, (fs', t'))" and "token_row cc token t = Some a"
    and "live a" and "now < at_expires_at a"
  shows "token_row cc token t' = Some (a\<lparr>at_status := ''verified'', at_used_at := Some now\<rparr>)"
  using assms
  by (auto simp: consume_def Let_def token_row_def find_update_where live_def dest!: stmt_InrD)

lemma updated_entity:
  "update_entity domain p f (fs, t) = (Inr n, (fs', t')) \<Longrightarrow>
     t' = t\<lparr>rg_entities := update_where (\<lambda>e. en_domain e = domain \<and> p e) f (rg_entities t)\<rparr>"
  unfolding update_entity_def Let_def by (drule cstmt_InrD) (simp split: if_splits)

lemma verified_entity:
  assumes "set_claim_status now domain ''verified'' (Some m) (fs, t) = (Inr (), (fs', t'))"
  shows "t' = t\<lparr>rg_entities := update_where (\<lambda>e. en_domain e = domain)
     (\<lambda>e. e\<lparr>en_claim_status := ''verified'', en_verification_method := Some m,
            en_verified_at := Some now, en_updated_at := now\<rparr>) (rg_entities t)\<rparr>"
  using assms unfolding set_claim_status_def by (subst (asm) dbind_Inr) (auto dest!: updated_entity)

lemma confirm_InrD:
  assumes "verify_magic_link cc now token (fs, t) = (Inr domain, (fs', t'))"
  obtains a fs1 t1 where "token_row cc token t = Some a" and "live a" and "now < at_expires_at a"
    and "at_method a = ''email_magic_link''" and "domain = at_domain a"
    and "token_row cc token t1 = Some (a\<lparr>at_status := ''verified'', at_used_at := Some now\<rparr>)"
    and "set_claim_status now domain ''verified'' (Some ''email_magic_link'') (fs1, t1) = (Inr (), (fs', t'))"
proof -
  let ?rest = "\<lambda>a. dbind (stored (consume now (at_id a))) (\<lambda>won.
      if \<not> won then raise (401, ''invalid_token'')
      else dbind (stored (set_claim_status now (at_domain a) ''verified'' (Some ''email_magic_link''))) (\<lambda>_.
        ret (at_domain a)))"
  from assms obtain x fs0 t0 where x: "stored (find_by_token cc token) (fs, t) = (Inr x, (fs0, t0))"
    and run: "(case x of None \<Rightarrow> raise (401, ''invalid_token'')
       | Some r \<Rightarrow> if classify_token (Some r) now \<noteq> Inr () then raise (401, ''invalid_token'')
           else if at_method r \<noteq> ''email_magic_link'' then raise (401, ''invalid_token'')
           else ?rest r) (fs0, t0) = (Inr domain, (fs', t'))"
    unfolding verify_magic_link_def by (subst (asm) dbind_Inr) auto
  from token_found [OF x] have "t0 = t" and "x = token_row cc token t" by auto
  with run obtain a where row: "token_row cc token t = Some a" "live a" "now < at_expires_at a"
    "at_method a = ''email_magic_link''" and rest: "?rest a (fs0, t) = (Inr domain, (fs', t'))"
    by (cases "token_row cc token t") (auto simp: classify_ok split: if_splits)
  have "domain = at_domain a" using rest by (auto simp: dbind_Inr split: if_splits)
  note row = row this
  from rest obtain fs1 t1 where c: "consume now (at_id a) (fs0, t) = (Inr True, (fs1, t1))"
    and s: "set_claim_status now (at_domain a) ''verified'' (Some ''email_magic_link'') (fs1, t1) = (Inr (), (fs', t'))"
    by (auto simp: dbind_Inr dest!: stored_InrD split: if_splits)
  from that [OF row consumed_row [OF c row(1-3)]] s row(5) show thesis by simp
qed

text \<open>
  (safety). A magic link works once: after a confirmation, whatever calls follow, whatever fails
  and however the clocks run, no later confirmation of the same token succeeds.
\<close>

theorem magic_link_works_once:
  assumes "verify_magic_link cc now token (fs, st_registry s) = (Inr domain, (fs', t'))"
  shows "\<not> (\<exists>x r. verify_magic_link cc later token
            (faults, st_registry (run_site calls (faults', s\<lparr>st_registry := t'\<rparr>))) = (Inr x, r))"
proof -
  from assms obtain a fs1 t1 where row: "token_row cc token t1 = Some (a\<lparr>at_status := ''verified'', at_used_at := Some now\<rparr>)"
    and status: "set_claim_status now domain ''verified'' (Some ''email_magic_link'') (fs1, t1) = (Inr (), (fs', t'))"
    by (rule confirm_InrD)
  have "ledger t1 t'" using stepsD [OF ledger_status(1) status] .
  moreover have "ledger t' (st_registry (run_site calls (faults', s\<lparr>st_registry := t'\<rparr>)))"
    using run_site_ledger [of "(faults', s\<lparr>st_registry := t'\<rparr>)"] by simp
  ultimately have "ledger t1 (st_registry (run_site calls (faults', s\<lparr>st_registry := t'\<rparr>)))"
    by (rule transpD [OF transp_ledger])
  from token_row_ledger [OF this row] obtain b where
    "token_row cc token (st_registry (run_site calls (faults', s\<lparr>st_registry := t'\<rparr>))) = Some b"
    and "attempt_step (a\<lparr>at_status := ''verified'', at_used_at := Some now\<rparr>) b" by blast
  then show ?thesis by (intro spent_refused) (auto simp: attempt_step_def)
qed

text \<open>
  (error). A confirmed mailbox replaces a proof by DNS: the entity is then verified by e-mail, no
  longer qualifies for ranking, and the daily job never looks at it again.
\<close>

theorem mailbox_replaces_dns_proof:
  assumes "verify_magic_link cc now token (fs, t) = (Inr domain, (fs', t'))"
  shows "\<not> dns_verified_entity t' domain
     \<and> list_all (\<lambda>e. en_domain e \<noteq> domain \<or> (en_claim_status e = ''verified''
          \<and> en_verification_method e = Some ''email_magic_link'')) (rg_entities t')"
proof -
  from assms obtain a fs1 t1 where
    status: "set_claim_status now domain ''verified'' (Some ''email_magic_link'') (fs1, t1) = (Inr (), (fs', t'))"
    by (rule confirm_InrD)
  have all: "en_claim_status e = ''verified'' \<and> en_verification_method e = Some ''email_magic_link''"
    if "e \<in> set (rg_entities t')" "en_domain e = domain" for e
  proof -
    from that(1) have "e \<in> set (update_where (\<lambda>e. en_domain e = domain)
        (\<lambda>e. e\<lparr>en_claim_status := ''verified'', en_verification_method := Some ''email_magic_link'',
            en_verified_at := Some now, en_updated_at := now\<rparr>) (rg_entities t1))"
      unfolding verified_entity [OF status] by simp
    from update_where_memD [OF this] obtain x where "e = (if en_domain x = domain
        then x\<lparr>en_claim_status := ''verified'', en_verification_method := Some ''email_magic_link'',
            en_verified_at := Some now, en_updated_at := now\<rparr> else x)" by blast
    with that(2) show ?thesis by (cases "en_domain x = domain") simp_all
  qed
  then have "\<not> dns_verified_entity t' domain"
    by (fastforce simp: dns_verified_entity_def list_ex_iff)
  with all show ?thesis by (auto simp: list_all_iff)
qed

section \<open>What a check accepts\<close>

text \<open>A text record that carries the token of a live attempt by DNS of just this domain.\<close>

definition accepts :: "comms_crypto \<Rightarrow> int \<Rightarrow> string \<Rightarrow> registry \<Rightarrow> string \<Rightarrow> bool" where
  "accepts cc now domain t v =
     (case strip_prefix ''anseo-verify='' (txt_value v) of
        None \<Rightarrow> False
      | Some raw \<Rightarrow>
          (case token_row cc raw t of
             None \<Rightarrow> False
           | Some a \<Rightarrow> at_domain a = domain \<and> at_method a = ''dns_txt'' \<and> live a \<and> now < at_expires_at a))"

lemma contains_stripped:
  "strip_prefix ''anseo-verify='' (txt_value v) = Some raw \<Longrightarrow> txt_records_contain_token [v] raw"
  by (auto simp: txt_records_contain_token_def constant_time_eq_def CHALLENGE_VALUE_PREFIX_def list.rel_eq
      dest!: strip_prefix_SomeD)

lemma consume_wins:
  assumes "distinct (map at_id (rg_attempts t))" and "token_row cc raw t = Some a" and "live a" and "now < at_expires_at a"
    and "stored (consume now (at_id a)) (fs, t) = (Inr won, s)"
  shows "won"
proof -
  obtain fs' t' where s: "s = (fs', t')" by (cases s)
  have "a \<in> set (rg_attempts t)" using assms(2) by (auto simp: token_row_def find_Some_iff)
  from one_row [OF assms(1) this, of "\<lambda>b. at_id b = at_id a \<and> at_status b = ''pending'' \<and> at_used_at b = None \<and> now < at_expires_at b"]
  have "rows_affected (\<lambda>b. at_id b = at_id a \<and> at_status b = ''pending'' \<and> at_used_at b = None \<and> now < at_expires_at b)
      (rg_attempts t) = 1" using assms(3,4) by (simp add: live_def)
  then show ?thesis
    using stored_InrD [OF assms(5) [unfolded s]] by (auto simp: consume_def Let_def dest!: stmt_InrD)
qed

lemma stored_found: "stored (find_by_token cc raw) (fs, t) = (Inr x, s) \<Longrightarrow> \<exists>fs'. s = (fs', t) \<and> x = token_row cc raw t"
  by (cases s) (auto dest!: token_found)

lemma check_values_accepts:
  assumes "distinct (map at_id (rg_attempts t))"
    and "check_values cc now domain vs (fs, t) = (Inr answer, s)"
  shows "ck_state answer = (if list_ex (accepts cc now domain t) vs then ''verified'' else ''pending'')
    \<and> (list_ex (accepts cc now domain t) vs \<or> snd s = t)"
  using assms(2)
proof (induction vs arbitrary: fs)
  case Nil
  then show ?case by auto
next
  case (Cons v vs)
  show ?case
  proof (cases "strip_prefix ''anseo-verify='' (txt_value v)")
    case None
    with Cons show ?thesis by (simp add: accepts_def)
  next
    case (Some raw)
    note raw = this
    obtain y s1 where f: "stored (find_by_token cc raw) (fs, t) = (y, s1)" by (metis surj_pair)
    show ?thesis
    proof (cases y)
      case (Inl e)
      with Cons.prems raw f show ?thesis by (simp add: dbind_def)
    next
      case (Inr x)
      with f stored_found obtain fs1 where f: "stored (find_by_token cc raw) (fs, t) = (Inr (token_row cc raw t), (fs1, t))"
        by metis
      have "dbind (stored (find_by_token cc raw)) k (fs, t) = k (token_row cc raw t) (fs1, t)"
        for k :: "attempt_row option \<Rightarrow> check_response regh" using f by (simp add: dbind_def)
      note run = Cons.prems raw this contains_stripped [OF raw]
      show ?thesis
      proof (cases "accepts cc now domain t v")
        case False
        with run have "check_values cc now domain vs (fs1, t) = (Inr answer, s)"
          by (cases "token_row cc raw t") (auto simp: accepts_def classify_ok split: if_splits)
        from Cons.IH [OF this] False show ?thesis by simp
      next
        case True
        with raw obtain a where a: "token_row cc raw t = Some a" "at_domain a = domain" "at_method a = ''dns_txt''"
          "live a" "now < at_expires_at a" by (auto simp: accepts_def split: option.splits)
        from a(4,5) have "classify_token (Some a) now = Inr ()" by (simp add: classify_ok)
        with run a(1-3) have "ck_state answer = ''verified''"
          by (auto simp: dbind_Inr dest!: consume_wins [OF assms(1) a(1,4,5)] split: if_splits)
        with True show ?thesis by simp
      qed
    qed
  qed
qed

text \<open>
  (functional). A check that gets an answer from the resolver verifies the domain exactly if one of
  the text records carries the token of a live, unexpired attempt by DNS of that same domain;
  otherwise it answers \<open>pending\<close> and changes nothing.
\<close>

theorem check_accepts_exactly_live_tokens:
  assumes "check_verification_with_resolver cc u now rs raw_domain (fs, t) = (Inr answer, (fs', t'))"
    and "distinct (map at_id (rg_attempts t))"
  defines "domain \<equiv> normalize_domain u raw_domain"
  shows "if \<exists>vs. rs (dns_record_name domain) = Inr vs \<and> list_ex (accepts cc now domain t) vs
     then ck_state answer = ''verified''
     else ck_state answer = ''pending'' \<and> t' = t"
proof (cases "rs (dns_record_name domain)")
  case (Inl e)
  with assms(1) have "check_values cc now domain [] (fs, t) = (Inr answer, (fs', t'))"
    by (cases e) (auto simp: check_verification_with_resolver_def Let_def domain_def)
  from check_values_accepts [OF assms(2) this] Inl show ?thesis by simp
next
  case (Inr vs)
  with assms(1) have "check_values cc now domain vs (fs, t) = (Inr answer, (fs', t'))"
    by (simp add: check_verification_with_resolver_def Let_def domain_def)
  from check_values_accepts [OF assms(2) this] Inr show ?thesis by (simp split: if_splits)
qed

section \<open>What the daily job revokes\<close>

definition revoked_at :: "int \<Rightarrow> entity_record \<Rightarrow> entity_record" where
  "revoked_at now e = e\<lparr>en_grace_period_start := Some now, en_claim_status := ''revoked'', en_updated_at := now\<rparr>"

text \<open>The resolver answered, and no text record of the domain carries the token.\<close>

definition gone :: "comms_crypto \<Rightarrow> resolver \<Rightarrow> string \<times> string \<Rightarrow> bool" where
  "gone cc rs dh =
     (case rs (dns_record_name (fst dh)) of
        Inl (Transient _) \<Rightarrow> False
      | Inl (NameNotFound _) \<Rightarrow> True
      | Inr txt \<Rightarrow> \<not> still_present cc (snd dh) txt)"

definition revoke_all :: "int \<Rightarrow> string set \<Rightarrow> entity_record list \<Rightarrow> entity_record list" where
  "revoke_all now D es = map (\<lambda>e. if en_domain e \<in> D \<and> en_claim_status e = ''verified'' then revoked_at now e else e) es"

lemma revoke_InrD:
  assumes "revoke_entity now aid domain (fs, t) = (Inr (), (fs', t'))"
  shows "rg_entities t' = revoke_all now {domain} (rg_entities t)"
proof -
  from assms obtain fs1 t1 where g: "set_grace_period_start now domain (fs, t) = (Inr (), (fs1, t1))"
    and r: "record_revocation now aid domain (fs1, t1) = (Inr (), (fs', t'))"
    unfolding revoke_entity_def dbind_Inr by (metis surj_pair unit.exhaust)
  from g have "rg_entities t1 = revoke_all now {domain} (rg_entities t)"
    unfolding set_grace_period_start_def
    by (subst (asm) dbind_Inr) (auto dest!: updated_entity simp: revoke_all_def update_where_def revoked_at_def)
  moreover from r have "rg_entities t' = rg_entities t1"
    by (auto simp: record_revocation_def insert_attempt_def dest!: cstmt_InrD split: if_splits)
  ultimately show ?thesis by simp
qed

lemma revoke_all_insert: "revoke_all now D (revoke_all now {d} es) = revoke_all now (insert d D) es"
  by (auto simp: revoke_all_def revoked_at_def)

lemma revoke_all_none: "revoke_all now {} es = es"
  by (simp add: revoke_all_def map_idI)

lemma reverify_each_revokes:
  "reverify_each cc now ids rs ds n (fs, t) = (Inr m, (fs', t')) \<Longrightarrow>
     rg_entities t' = revoke_all now (fst ` set (filter (gone cc rs) ds)) (rg_entities t)
     \<and> m = n + length (filter (gone cc rs) ds)"
proof (induction ds arbitrary: n fs t)
  case Nil
  then show ?case by (simp add: revoke_all_none)
next
  case (Cons dh ds)
  obtain d h where dh: "dh = (d, h)" by (cases dh)
  show ?case
  proof (cases "gone cc rs dh")
    case False
    with Cons.prems have "reverify_each cc now ids rs ds n (fs, t) = (Inr m, (fs', t'))"
      by (auto simp: gone_def dh Let_def split: sum.splits resolve_error.splits if_splits)
    with Cons.IH False show ?thesis by simp
  next
    case True
    with Cons.prems have "dbind (revoke_entity now (ids n) d) (\<lambda>_. reverify_each cc now ids rs ds (n + 1)) (fs, t)
        = (Inr m, (fs', t'))"
      by (auto simp: gone_def dh Let_def still_present_def split: sum.splits resolve_error.splits if_splits)
    then obtain fs1 t1 where r: "revoke_entity now (ids n) d (fs, t) = (Inr (), (fs1, t1))"
      and rest: "reverify_each cc now ids rs ds (n + 1) (fs1, t1) = (Inr m, (fs', t'))"
      unfolding dbind_Inr by (metis surj_pair unit.exhaust)
    from Cons.IH [OF rest] revoke_InrD [OF r] True dh show ?thesis
      by (simp add: revoke_all_insert)
  qed
qed

definition current_proof :: "registry \<Rightarrow> string \<Rightarrow> string" where
  "current_proof t domain = at_token_hash (hd (newest_used_first (verified_dns_attempts t domain)))"

text \<open>
  (functional). A sweep that completes revokes exactly the entities verified by DNS whose domain has
  a verified attempt and whose resolver answered without the newest such token: it starts their
  grace period and leaves every other entity as it was. A transient failure of the resolver never
  revokes, and an entity marked as verified by DNS that has no attempt is never looked at.
\<close>

theorem sweep_revokes_exactly_the_gone:
  assumes "run_reverification_job cc now ids rs (fs, t) = (Inr n, (fs', t'))"
  shows "rg_entities t' = map (\<lambda>e.
      if en_claim_status e = ''verified'' \<and> dns_verified_entity t (en_domain e)
         \<and> verified_dns_attempts t (en_domain e) \<noteq> []
         \<and> gone cc rs (en_domain e, current_proof t (en_domain e))
      then revoked_at now e else e) (rg_entities t)"
proof -
  let ?ds = "map (\<lambda>domain. (domain, current_proof t domain))
       (sort (remdups (map at_domain (filter (\<lambda>a. at_method a = ''dns_txt'' \<and> at_status a = ''verified''
          \<and> dns_verified_entity t (at_domain a)) (rg_attempts t)))))"
  from assms obtain fs1 where "reverify_each cc now ids rs ?ds 0 (fs1, t) = (Inr n, (fs', t'))"
    unfolding run_reverification_job_def dns_verified_domains_def current_proof_def
    by (auto simp: dbind_Inr query_def dest!: stmt_InrD)
  from reverify_each_revokes [OF this]
  have "rg_entities t' = revoke_all now (fst ` set (filter (gone cc rs) ?ds)) (rg_entities t)" by simp
  moreover have "domain \<in> fst ` set (filter (gone cc rs) ?ds) \<longleftrightarrow> dns_verified_entity t domain
      \<and> verified_dns_attempts t domain \<noteq> [] \<and> gone cc rs (domain, current_proof t domain)" for domain
    by (auto simp: verified_dns_attempts_def filter_empty_conv image_iff)
  ultimately show ?thesis by (auto simp: revoke_all_def)
qed

section \<open>Magic links in this build\<close>

lemma smtp_never_sends:
  assumes "\<not> reserved key (st_comms s)"
    and "in_comms (send_transactional (smtp_send tp) h e (Some key) m) (fs, s) = (Inr r, s')"
  shows "r = SendFailed not_configured"
  using assms
  by (auto simp: in_comms_def zoom_def send_transactional_def dbind_Inr reserve_dedup_def mark_dedup_failed_def
      put_on_wire_def smtp_send_def act_def exec_def Let_def split: prod.splits if_splits dest!: stmt_InrD)

lemma or_500_InrD: "map_err f m s = (Inr x, r) \<Longrightarrow> m s = (Inr x, r)"
  by (auto simp: map_err_def split: prod.splits sum.splits)

lemma link_fails:
  assumes "\<not> reserved (hash_token (ve_crypto env) raw) (st_comms s)"
    and "send_magic_link env email raw (fs, s) = (Inr out, r)"
  shows "out = LinkFailed not_configured"
proof -
  have from_result_InrD: "s' = s0 \<and> y = Inr x" if "from_result y s0 = (Inr x, s')" for y :: "'e + 'x" and x and s0 s' :: "site conn"
    using that by (cases y) auto
  from assms(2) obtain tp m res where "in_comms (send_transactional (smtp_send tp)
      (recipient_hash (ve_crypto env) (ve_unicode env) email) ''domain_verification''
      (Some (hash_token (ve_crypto env) raw)) m) (fs, s) = (Inr res, r)"
    and "out = (case res of Sent \<Rightarrow> LinkSent | AlreadySent \<Rightarrow> LinkAlreadySent
                | Skipped decision \<Rightarrow> LinkFailed ''dispatch skipped'' | SendFailed e \<Rightarrow> LinkFailed e)"
    unfolding send_magic_link_def Let_def dbind_Inr
    by (auto dest!: or_500_InrD from_result_InrD)
  moreover from this(1) have "res = SendFailed not_configured"
    by (cases r) (rule smtp_never_sends [OF assms(1)])
  ultimately show ?thesis by simp
qed

lemma created_token:
  "stored (create_challenge cc now aid raw domain m session email) s1 = (Inr c, s2) \<Longrightarrow> mc_raw_token c = raw"
  unfolding stored_def by (auto simp: create_challenge_def dbind_Inr dest!: or_500_InrD)

lemma started_token:
  "start_challenge env now aid raw domain m req s = (Inr ch, s') \<Longrightarrow> mc_raw_token ch = raw"
  unfolding start_challenge_def by (auto simp: dbind_Inr dest: created_token split: if_splits)

lemma registry_keeps_comms: "in_registry m (fs, s) = (x, (fs', s')) \<Longrightarrow> st_comms s' = st_comms s"
  by (auto simp: in_registry_def zoom_def split: prod.splits)

text \<open>
  (error). In this build no start of a verification by e-mail succeeds: the transport is not
  configured, so with a token that was never sent before the answer is always an error, although
  the challenge may have been recorded.
\<close>

theorem magic_link_start_fails:
  assumes "sq_method req = ''email_magic_link''"
    and "\<not> reserved (hash_token (ve_crypto env) raw) (st_comms s)"
  shows "\<exists>e r. start_verification env now aid raw req (fs, s) = (Inl e, r)"
proof (rule ccontr)
  assume "\<nexists>e r. start_verification env now aid raw req (fs, s) = (Inl e, r)"
  then obtain x r where "start_verification env now aid raw req (fs, s) = (Inr x, r)"
    by (metis obj_sumE surj_pair)
  then obtain ch fs1 s1 out where reg: "in_registry (start_challenge env now aid raw
      (normalize_domain (ve_unicode env) (sq_domain req)) EmailMagicLink req) (fs, s) = (Inr ch, (fs1, s1))"
    and sent: "send_magic_link env (unwrap_or [] (sq_email req)) (mc_raw_token ch) (fs1, s1) = (Inr out, r)"
    and "\<nexists>d. out = LinkFailed d"
    using assms(1)
    by (auto simp: start_verification_def parse_method_def Let_def dbind_Inr split: if_splits magic_link_outcome.splits)
       (metis magic_link_outcome.exhaust)+
  moreover have "mc_raw_token ch = raw"
    using reg by (auto simp: in_registry_def zoom_def split: prod.splits dest: started_token)
  ultimately show False
    using link_fails [of env raw s1] assms(2) registry_keeps_comms [OF reg] by metis
qed

section \<open>The rate limit\<close>

text \<open>
  Starts of a verification one after the other, each some time after the one before, with the
  identifier, token and request of each.
\<close>

fun run_starts ::
  "verify_env \<Rightarrow> int \<Rightarrow> (nat \<times> uuid \<times> string \<times> start_request) list \<Rightarrow> site conn \<Rightarrow> site" where
  "run_starts env now [] s = snd s"
| "run_starts env now ((d, aid, raw, req) # rest) s =
     run_starts env (now + int d) rest (snd (start_verification env (now + int d) aid raw req s))"

text \<open>The domains and times of the attempts, and how many fall in the hour up to \<open>w\<close>.\<close>

definition attempt_times :: "registry \<Rightarrow> (string \<times> int) list" where
  "attempt_times t = map (\<lambda>a. (at_domain a, at_created_at a)) (rg_attempts t)"

definition window_count :: "string \<Rightarrow> int \<Rightarrow> (string \<times> int) list \<Rightarrow> nat" where
  "window_count domain w ts = length (filter (\<lambda>(d, c). d = domain \<and> w - one_hour < c \<and> c \<le> w) ts)"

definition paced :: "int \<Rightarrow> registry \<Rightarrow> bool" where
  "paced now t =
     (list_all (\<lambda>(d, c). c \<le> now) (attempt_times t) \<and> (\<forall>domain w. window_count domain w (attempt_times t) \<le> RATE_LIMIT_PER_HOUR))"

definition same_times :: "registry \<Rightarrow> registry \<Rightarrow> bool" where
  "same_times t t' = (attempt_times t' = attempt_times t)"

definition one_more :: "string \<Rightarrow> int \<Rightarrow> registry \<Rightarrow> registry \<Rightarrow> bool" where
  "one_more domain now t t' = (attempt_times t' = attempt_times t \<or> attempt_times t' = attempt_times t @ [(domain, now)])"

lemma paced_later: "paced now t \<Longrightarrow> now \<le> now' \<Longrightarrow> paced now' t"
  by (fastforce simp: paced_def list_all_iff)

lemma same_times_order [simp, intro]: "reflp same_times" "transp same_times"
  by (simp_all add: reflp_def transp_def same_times_def)

lemma paced_one_more:
  assumes "paced now t" and "one_more domain now t t'"
    and "length (filter (\<lambda>(d, c). d = domain \<and> now - one_hour < c) (attempt_times t)) < RATE_LIMIT_PER_HOUR"
  shows "paced now t'"
proof -
  have "window_count dom' w (attempt_times t @ [(domain, now)]) \<le> RATE_LIMIT_PER_HOUR" for dom' w
  proof (cases "dom' = domain \<and> now \<le> w \<and> w - one_hour < now")
    case True
    then have "window_count dom' w (attempt_times t) \<le> length (filter (\<lambda>(d, c). d = domain \<and> now - one_hour < c) (attempt_times t))"
      unfolding window_count_def by (intro length_filter_mono) auto
    with assms(3) show ?thesis by (simp add: window_count_def)
  next
    case False
    with assms(1) show ?thesis by (auto simp: window_count_def paced_def)
  qed
  with assms(1,2) show ?thesis by (auto simp: paced_def one_more_def)
qed

lemma times_repo:
  "steps same_times (upsert now domain dn role)"
  "steps same_times (expire_live_challenges domain m)"
  "steps same_times (entity_get domain)"
  "steps same_times (update_entity domain p f)"
  unfolding upsert_def expire_live_challenges_def entity_get_def update_entity_def Let_def
  by (auto intro!: steps_dbind steps_cstmt steps_exec steps_query steps_ok_or_raise steps_ret
      simp: same_times_def attempt_times_def update_where_def simp del: ret_apply split: if_splits)

lemma times_claim: "steps same_times (claim_if_unclaimed now domain)"
proof (rule stepsI)
  fix fs t r fs' t'
  assume run: "claim_if_unclaimed now domain (fs, t) = (r, (fs', t'))"
  obtain x fs1 t1 where get: "entity_get domain (fs, t) = (x, (fs1, t1))" by (metis surj_pair)
  from stepsD [OF times_repo(3) this] have 1: "same_times t t1" .
  have "steps same_times (stored (set_claim_status now domain ''pending'' None))"
    unfolding stored_def set_claim_status_def by (intro steps_map_err steps_dbind times_repo steps_ret) auto
  with run get have "same_times t1 t'"
    by (auto simp: claim_if_unclaimed_def same_times_def split: sum.splits option.splits if_splits dest: stepsD)
  with 1 show "same_times t t'" by (simp add: same_times_def)
qed

lemma one_more_after:
  assumes "steps same_times m" and "\<And>a. steps (one_more domain now) (f a)"
  shows "steps (one_more domain now) (dbind m f)"
proof (rule stepsI)
  fix fs t r fs' t'
  assume run: "dbind m f (fs, t) = (r, (fs', t'))"
  obtain x fs1 t1 where m: "m (fs, t) = (x, (fs1, t1))" by (metis surj_pair)
  from stepsD [OF assms(1) m] run m show "one_more domain now t t'"
    by (cases x) (auto simp: dbind_def one_more_def same_times_def dest: stepsD [OF assms(2)])
qed

lemma one_more_created:
  "steps (one_more domain now) (create_challenge cc now aid raw domain m session email)"
proof (rule stepsI)
  fix fs t r fs' t'
  assume run: "create_challenge cc now aid raw domain m session email (fs, t) = (r, (fs', t'))"
  have "steps (one_more domain now) (insert_attempt (new_attempt cc now aid raw domain m session email))"
    unfolding insert_attempt_def
    by (rule steps_cstmt) (auto simp: one_more_def attempt_times_def new_attempt_def reflp_def split: if_splits)
  with run show "one_more domain now t t'"
    by (auto simp: create_challenge_def dbind_def split: sum.splits prod.splits dest: stepsD)
qed

lemma steps_at_stored_query:
  assumes "reflp R" and "steps_at R t (f (q t))"
  shows "steps_at R t (dbind (stored (query q)) f)"
  using assms unfolding steps_at_def
  by (auto simp: dbind_def stored_def map_err_def query_def stmt_def split: list.splits if_splits dest: reflpD)

lemma start_paced: "steps_at (preserve (paced now)) t (start_challenge env now aid raw domain m req)"
proof -
  let ?rest = "dbind (stored (upsert now domain (unwrap_or domain (sq_display_name req)) (unwrap_or ''source'' (sq_role req)))) (\<lambda>_.
            dbind (claim_if_unclaimed now domain) (\<lambda>_.
            dbind (stored (expire_live_challenges domain m)) (\<lambda>_.
              stored (create_challenge (ve_crypto env) now aid raw domain m (sq_claimant_session req) (sq_email req)))))"
  let ?n = "length (filter (\<lambda>a. at_domain a = domain \<and> now - one_hour < at_created_at a) (rg_attempts t))"
  have rest: "steps (one_more domain now) ?rest"
    unfolding stored_def by (intro one_more_after steps_map_err times_repo times_claim one_more_created)
  have n: "length (filter (\<lambda>(d, c). d = domain \<and> now - one_hour < c) (attempt_times t)) = ?n"
    by (simp add: attempt_times_def filter_map comp_def)
  have "steps_at (preserve (paced now)) t ?rest" if "?n < RATE_LIMIT_PER_HOUR"
    unfolding steps_at_def preserve_def
    by (intro allI impI, rule paced_one_more [OF _ stepsD [OF rest]]) (use that n in auto)
  then have after: "steps_at (preserve (paced now)) t (if RATE_LIMIT_PER_HOUR \<le> ?n then raise (429, ''rate_limited'') else ?rest)"
    by (simp add: steps_at_def preserve_def)
  show ?thesis
    unfolding start_challenge_def attempts_last_hour_def
    by (rule steps_at_stored_query, rule reflp_preserve, rule after)
qed

lemma link_keeps_registry: "steps (\<lambda>s s'. st_registry s' = st_registry s) (send_magic_link env email raw)"
proof -
  have "steps (\<lambda>s s'. st_registry s' = st_registry s) (in_comms m)" for m :: "(comms, 'e, 'a) rm"
    unfolding in_comms_def by (rule steps_zoom [where R = "\<lambda>_ _. True"]) (auto simp: steps_def)
  then show ?thesis
    unfolding send_magic_link_def Let_def
    by (intro steps_dbind steps_map_err steps_from_result steps_ret) (auto simp: reflp_def transp_def)
qed

lemma start_verification_paced:
  "steps_at (\<lambda>s s'. preserve (paced now) (st_registry s) (st_registry s')) s (start_verification env now aid raw req)"
  (is "steps_at ?R s _")
proof -
  let ?S = "\<lambda>s s' :: site. st_registry s' = st_registry s"
  have reg: "steps_at ?R s (in_registry (start_challenge env now aid raw domain m req))" for domain m
    unfolding in_registry_def by (rule steps_at_zoom [OF start_paced]) simp
  have refused: "steps_at ?R s (raise e)" for e :: api_refusal
    by (simp add: steps_at_def preserve_def)
  have S: "reflp ?S" "transp ?S" by (auto simp: reflp_def transp_def)
  have sent: "steps ?S (case m of DnsTxt \<Rightarrow> ret (f challenge)
      | EmailMagicLink \<Rightarrow> dbind (send_magic_link env email (mc_raw_token challenge)) (\<lambda>outcome.
          case outcome of LinkFailed _ \<Rightarrow> raise (502, ''email_dispatch_failed'') | _ \<Rightarrow> ret (g challenge)))"
    for m email challenge and f g :: "minted_challenge \<Rightarrow> start_response"
    by (auto intro!: steps_dbind S steps_ret steps_raise link_keeps_registry
        split: verification_method.splits magic_link_outcome.splits simp del: ret_apply raise_apply)
  show ?thesis
  proof (cases "parse_method (sq_method req)")
    case (Inl e)
    then show ?thesis
      by (simp add: start_verification_def refused dbind_def steps_at_def preserve_def)
  next
    case (Inr m)
    have "dbind (ret m) f = f m" for f :: "verification_method \<Rightarrow> start_response siteh"
      by (rule ext) (simp add: dbind_def)
    then show ?thesis
      unfolding start_verification_def Inr from_result_simps Let_def
      by (simp only:) (intro steps_at_if refused steps_at_then [OF reg sent], simp add: preserve_def)
  qed
qed

text \<open>
  (bounds). Starts in sequence, from an empty ledger, whatever fails: in no hour, wherever it
  begins, does a domain get more than five challenges.
\<close>

theorem at_most_five_challenges_an_hour:
  "window_count domain w (attempt_times (st_registry (run_starts env now starts
     (fs, s\<lparr>st_registry := (st_registry s)\<lparr>rg_attempts := []\<rparr>\<rparr>)))) \<le> RATE_LIMIT_PER_HOUR"
proof -
  have "paced (now + int (sum_list (map fst starts))) (st_registry (run_starts env now starts s))" if "paced now (st_registry (snd s))" for s
    using that
  proof (induction env now starts s rule: run_starts.induct)
    case (2 env now d aid raw req rest s)
    obtain fs t where s: "s = (fs, t)" by (cases s)
    obtain x fs' t' where run: "start_verification env (now + int d) aid raw req (fs, t) = (x, (fs', t'))"
      by (metis surj_pair)
    from 2(2) have "paced (now + int d) (st_registry t)" by (auto simp: s intro: paced_later)
    with run start_verification_paced [of "now + int d" t env aid raw req] have "paced (now + int d) (st_registry t')"
      by (auto simp: steps_at_def preserve_def)
    with 2(1) run s show ?case by (simp add: add.assoc)
  qed simp
  moreover have "paced now ((st_registry s)\<lparr>rg_attempts := []\<rparr>)"
    by (simp add: paced_def attempt_times_def window_count_def)
  ultimately have "paced (now + int (sum_list (map fst starts)))
      (st_registry (run_starts env now starts (fs, s\<lparr>st_registry := (st_registry s)\<lparr>rg_attempts := []\<rparr>\<rparr>)))"
    by simp
  then show ?thesis by (simp add: paced_def)
qed

section \<open>Examples\<close>

definition ex_entity :: entity_record where
  "ex_entity = (new_entity 0 ''a.io'' ''A'' ''source'')\<lparr>en_claim_status := ''verified'',
     en_verification_method := Some ''dns_txt'', en_verified_at := Some 1\<rparr>"

definition ex_proof :: attempt_row where
  "ex_proof = (new_attempt plain_crypto 0 1 ''old'' ''a.io'' DnsTxt None None)\<lparr>at_status := ''verified'', at_used_at := Some 1\<rparr>"

definition ex_link_attempt :: attempt_row where
  "ex_link_attempt = new_attempt plain_crypto 2 2 ''tok'' ''a.io'' EmailMagicLink None (Some ''o@a.io'')"

definition ex_dns_attempt :: attempt_row where
  "ex_dns_attempt = new_attempt plain_crypto 2 3 ''new'' ''a.io'' DnsTxt None None"

definition ex_claims :: registry where
  "ex_claims = \<lparr>rg_entities = [ex_entity], rg_attempts = [ex_proof, ex_link_attempt, ex_dns_attempt], rg_dedup = [],
     rg_disputes = [], rg_dispute_events = [], rg_contributions = []\<rparr>"

definition ex_site :: site where
  "ex_site = \<lparr>st_registry = ex_claims, st_comms = no_comms\<rparr>"

lemmas ex_simps = ex_entity_def ex_proof_def ex_link_attempt_def ex_dns_attempt_def ex_claims_def ex_site_def
  new_entity_def new_attempt_def hash_token_def plain_crypto_def

lemma ex_confirm:
  "verify_magic_link plain_crypto 3 ''tok'' ([], ex_claims)
     = (Inr ''a.io'', snd (verify_magic_link plain_crypto 3 ''tok'' ([], ex_claims)))"
  by code_simp

lemma magic_link_works_once_witness:
  "\<forall>calls. \<not> (\<exists>x r. verify_magic_link plain_crypto 4 ''tok'' ([], st_registry (run_site calls ([True],
     ex_site\<lparr>st_registry := snd (snd (verify_magic_link plain_crypto 3 ''tok'' ([], ex_claims)))\<rparr>))) = (Inr x, r))"
proof -
  have "verify_magic_link plain_crypto 3 ''tok'' ([], st_registry ex_site)
     = (Inr ''a.io'', (fst (snd (verify_magic_link plain_crypto 3 ''tok'' ([], ex_claims))),
         snd (snd (verify_magic_link plain_crypto 3 ''tok'' ([], ex_claims)))))"
    using ex_confirm by (simp add: ex_site_def)
  from magic_link_works_once [OF this] show ?thesis by blast
qed

lemma mailbox_replaces_dns_proof_witness:
  "dns_verified_entity ex_claims ''a.io''
     \<and> \<not> dns_verified_entity (snd (snd (verify_magic_link plain_crypto 3 ''tok'' ([], ex_claims)))) ''a.io''"
proof -
  have "verify_magic_link plain_crypto 3 ''tok'' ([], ex_claims)
     = (Inr ''a.io'', (fst (snd (verify_magic_link plain_crypto 3 ''tok'' ([], ex_claims))),
         snd (snd (verify_magic_link plain_crypto 3 ''tok'' ([], ex_claims)))))"
    using ex_confirm by simp
  from mailbox_replaces_dns_proof [OF this] show ?thesis
    by (simp add: dns_verified_entity_def ex_claims_def ex_entity_def new_entity_def)
qed

definition ex_resolver :: "string list \<Rightarrow> resolver" where
  "ex_resolver txt name = (if name = ''_anseo-challenge.a.io'' then Inr txt else Inl (Transient ''down''))"

definition ascii_unicode :: unicode where
  "ascii_unicode = \<lparr>lowercase = to_ascii_lowercase, alphanumeric = list_all is_ascii_alphanumeric\<rparr>"

lemma plain_trim: "list_all (\<lambda>c. 33 \<le> (of_char c :: nat) \<and> of_char c < (128 :: nat)) s \<Longrightarrow> str_trim s = s"
  by (rule str_trim_id) (fastforce simp: list_all_iff dest: cont_byte ws_byte)

lemma ex_domain: "normalize_domain ascii_unicode ''a.io'' = ''a.io''"
proof -
  have "str_trim ''a.io'' = ''a.io''" by (rule plain_trim) code_simp
  then show ?thesis unfolding normalize_domain_def by simp code_simp
qed

lemma ex_txt: "txt_value ''anseo-verify=new'' = ''anseo-verify=new''"
proof -
  have "str_trim ''anseo-verify=new'' = ''anseo-verify=new''" by (rule plain_trim) code_simp
  then show ?thesis unfolding txt_value_def by simp code_simp
qed

definition ex_verified :: check_response where
  "ex_verified = \<lparr>ck_domain = ''a.io'', ck_state = ''verified'', ck_verification_method = Some ''dns_txt'',
     ck_verified_at = Some 3\<rparr>"

lemma ex_check:
  "fst (check_verification_with_resolver plain_crypto ascii_unicode 3 (ex_resolver [''anseo-verify=new'']) ''a.io'' ([], ex_claims))
     = Inr ex_verified"
proof -
  have name: "ex_resolver [''anseo-verify=new''] (dns_record_name ''a.io'') = Inr [''anseo-verify=new'']"
    by code_simp
  have strip: "strip_prefix ''anseo-verify='' ''anseo-verify=new'' = Some ''new''" by code_simp
  have has: "txt_records_contain_token [''anseo-verify=new''] ''new''"
    by (rule contains_stripped) (simp add: ex_txt strip)
  have found: "find (\<lambda>a. at_token_hash a = hash_token plain_crypto ''new'') (rg_attempts ex_claims) = Some ex_dns_attempt"
    by code_simp
  have row: "at_domain ex_dns_attempt = ''a.io''" "at_method ex_dns_attempt = ''dns_txt''"
    "classify_token (Some ex_dns_attempt) 3 = Inr ()" by code_simp+
  show ?thesis
    by (simp add: check_verification_with_resolver_def ex_domain name ex_txt strip has find_by_token_def
        stored_def map_err_def dbind_def found row) code_simp
qed

lemma check_accepts_exactly_live_tokens_witness:
  "\<exists>vs. ex_resolver [''anseo-verify=new''] (dns_record_name (normalize_domain ascii_unicode ''a.io'')) = Inr vs
     \<and> list_ex (accepts plain_crypto 3 (normalize_domain ascii_unicode ''a.io'') ex_claims) vs"
proof -
  let ?run = "check_verification_with_resolver plain_crypto ascii_unicode 3 (ex_resolver [''anseo-verify=new'']) ''a.io'' ([], ex_claims)"
  have "?run = (Inr ex_verified, (fst (snd ?run), snd (snd ?run)))" using ex_check by (metis prod.collapse)
  moreover have "distinct (map at_id (rg_attempts ex_claims))" by code_simp
  ultimately show ?thesis
    using check_accepts_exactly_live_tokens by (fastforce simp: ex_verified_def split: if_splits)
qed

lemma ex_sweep:
  "run_reverification_job plain_crypto 5 (\<lambda>n. 9 + of_nat n) (ex_resolver []) ([], ex_claims)
     = (Inr 1, ([], snd (snd (run_reverification_job plain_crypto 5 (\<lambda>n. 9 + of_nat n) (ex_resolver []) ([], ex_claims)))))"
  by code_simp

lemma sweep_revokes_exactly_the_gone_witness:
  "map en_claim_status (rg_entities (snd (snd (run_reverification_job plain_crypto 5 (\<lambda>n. 9 + of_nat n)
     (ex_resolver []) ([], ex_claims))))) = [''revoked'']"
proof -
  have "dns_verified_entity ex_claims ''a.io''" "verified_dns_attempts ex_claims ''a.io'' \<noteq> []"
    "gone plain_crypto (ex_resolver []) (''a.io'', current_proof ex_claims ''a.io'')" by code_simp+
  with sweep_revokes_exactly_the_gone [OF ex_sweep] show ?thesis
    by (simp add: ex_claims_def ex_entity_def new_entity_def revoked_at_def)
qed

lemma magic_link_start_fails_witness:
  "\<exists>e r. start_verification \<lparr>ve_base_url = None, ve_mail_root = None, ve_crypto = plain_crypto, ve_unicode = ascii_unicode\<rparr>
     3 7 ''tk'' \<lparr>sq_domain = ''b.io'', sq_method = ''email_magic_link'', sq_display_name = None, sq_role = None,
       sq_email = Some ''o@b.io'', sq_claimant_session = None, sq_attestation_accepted = True\<rparr> ([], ex_site) = (Inl e, r)"
  by (rule magic_link_start_fails) code_simp+

text \<open>
  The Cyrillic letter that looks like an \<open>a\<close> is folded in the host of a mailbox too: a mailbox of
  that other domain proves the authority over the domain it imitates.
\<close>

lemma homoglyph_mailbox_accepted:
  "email_proves_domain_authority ascii_unicode (''o@'' @ [CHR 0xD0, CHR 0xB0] @ ''.io'') ''a.io''"
proof -
  let ?host = "[CHR 0xD0, CHR 0xB0] @ ''.io''"
  have "str_trim (''o@'' @ ?host) = ''o@'' @ ?host" and "str_trim ?host = ?host"
    by code_simp+
  moreover from this(2) have "normalize_domain ascii_unicode ?host = ''a.io''"
    unfolding normalize_domain_def by simp code_simp
  moreover have "rsplit_once (CHR ''@'') (''o@'' @ ?host) = Some (''o'', ?host)" by code_simp
  ultimately show ?thesis by (simp add: email_proves_domain_authority_def)
qed

end
