(* ===== verification/Secrets.thy ===== *)
theory Secrets
  imports RustStr
begin

text \<open>
  Secret storage, \<open>crates/core/src/secret_store.rs\<close>: the operating system's keyring, the file
  encrypted with a passphrase, the process-local map, and the chain that composes them. The
  keyring, the file system, the environment and the process-wide cache are the state \<open>secret_host\<close>;
  the file's encryption is seen through what decrypts it.
\<close>

section \<open>The host\<close>

datatype secret_error =
    Backend string
  | SecretNotFound string
  | SecretIo string
  | InvalidPassphrase
  | MissingPassphrase
  | NoDurableBackend
  | Kms string
  | MalformedEnvelope string

fun not_found :: "secret_error \<Rightarrow> bool" where
  "not_found (SecretNotFound k) = True"
| "not_found _ = False"

text \<open>
  What a secrets file is: a map under a passphrase (\<open>None\<close> if its payload is no JSON object), a
  file for recipients, or anything else.
\<close>

datatype age_content =
    PassphraseFile string "(string \<rightharpoonup> string) option"
  | RecipientsFile
  | NotAge

record age_file =
  af_content :: age_content
  af_mtime :: int
  af_unreadable :: bool

text \<open>A write may fail before the file is truncated, or after, when it leaves no age file.\<close>

datatype write_outcome = WriteOk | WriteRefused | WriteBroken

record secret_host =
  sh_env :: "string \<rightharpoonup> string"
  sh_keyring :: "string \<times> string \<rightharpoonup> string"
  sh_keyring_unreadable :: bool
  sh_keyring_unwritable :: bool
  sh_files :: "string \<rightharpoonup> age_file"
  sh_write :: write_outcome
  sh_cache :: "string \<rightharpoonup> int option \<times> (string \<rightharpoonup> string)"
  sh_clock :: int

type_synonym 'a on_host = "secret_host \<Rightarrow> (secret_error + 'a) \<times> secret_host"

section \<open>The encrypted file\<close>

definition AGE_PASSPHRASE_ENV :: string where
  "AGE_PASSPHRASE_ENV = ''ANSEO_KEYRING_PASSPHRASE''"

definition read_passphrase :: "secret_host \<Rightarrow> secret_error + string" where
  "read_passphrase h =
     (case sh_env h AGE_PASSPHRASE_ENV of
        Some p \<Rightarrow> Inr p
      | None \<Rightarrow> (case sh_env h ''OPENGEO_KEYRING_PASSPHRASE'' of Some p \<Rightarrow> Inr p | None \<Rightarrow> Inl MissingPassphrase))"

definition store_cache :: "string \<Rightarrow> int option \<Rightarrow> (string \<rightharpoonup> string) \<Rightarrow> secret_host \<Rightarrow> secret_host" where
  "store_cache path mtime m h = h\<lparr>sh_cache := (sh_cache h)(path \<mapsto> (mtime, m))\<rparr>"

definition cached :: "string \<Rightarrow> age_file \<Rightarrow> secret_host \<Rightarrow> (string \<rightharpoonup> string) option" where
  "cached path f h =
     (case sh_cache h path of Some (Some t, m) \<Rightarrow> if t = af_mtime f then Some m else None | _ \<Rightarrow> None)"

definition decrypt_map :: "string \<Rightarrow> (string \<rightharpoonup> string) on_host" where
  "decrypt_map path h =
     (case sh_files h path of
        None \<Rightarrow> (Inr Map.empty, h)
      | Some f \<Rightarrow>
          (case cached path f h of
             Some m \<Rightarrow> (Inr m, h)
           | None \<Rightarrow>
               if af_unreadable f then (Inl (SecretIo ''age-file''), h)
               else case read_passphrase h of
                      Inl e \<Rightarrow> (Inl e, h)
                    | Inr passphrase \<Rightarrow>
                        (case af_content f of
                           NotAge \<Rightarrow> (Inl (Backend ''age-file''), h)
                         | RecipientsFile \<Rightarrow> (Inl (Backend ''age-file''), h)
                         | PassphraseFile p payload \<Rightarrow>
                             if p \<noteq> passphrase then (Inl InvalidPassphrase, h)
                             else case payload of
                                    None \<Rightarrow> (Inl (Backend ''age-file''), h)
                                  | Some m \<Rightarrow> (Inr m, store_cache path (Some (af_mtime f)) m h))))"

definition write_secrets_file :: "string \<Rightarrow> age_content \<Rightarrow> unit on_host" where
  "write_secrets_file path content h =
     (case sh_write h of
        WriteRefused \<Rightarrow> (Inl (SecretIo ''age-file''), h)
      | WriteBroken \<Rightarrow>
          (Inl (SecretIo ''age-file''),
           h\<lparr>sh_files := (sh_files h)(path \<mapsto> \<lparr>af_content = NotAge, af_mtime = sh_clock h, af_unreadable = False\<rparr>)\<rparr>)
      | WriteOk \<Rightarrow>
          (Inr (), h\<lparr>sh_files := (sh_files h)(path \<mapsto> \<lparr>af_content = content, af_mtime = sh_clock h, af_unreadable = False\<rparr>)\<rparr>))"

definition encrypt_map :: "string \<Rightarrow> (string \<rightharpoonup> string) \<Rightarrow> unit on_host" where
  "encrypt_map path m h =
     (case read_passphrase h of
        Inl e \<Rightarrow> (Inl e, h)
      | Inr passphrase \<Rightarrow>
          (case write_secrets_file path (PassphraseFile passphrase (Some m)) h of
             (Inl e, h') \<Rightarrow> (Inl e, h')
           | (Inr _, h') \<Rightarrow> (Inr (), store_cache path (Some (sh_clock h)) m h')))"

section \<open>The stores\<close>

text \<open>The interface every store implements, over the state it works on.\<close>

record 'w secret_store =
  ss_get :: "'w \<Rightarrow> string \<Rightarrow> (secret_error + string) \<times> 'w"
  ss_set :: "'w \<Rightarrow> string \<Rightarrow> string \<Rightarrow> (secret_error + unit) \<times> 'w"
  ss_remove :: "'w \<Rightarrow> string \<Rightarrow> (secret_error + unit) \<times> 'w"
  ss_set_durable :: "'w \<Rightarrow> string \<Rightarrow> string \<Rightarrow> (secret_error + unit) \<times> 'w"

datatype secret_leg =
    KeyringLeg string
  | AgeFileLeg string
  | InMemoryLeg bool "string \<rightharpoonup> string"

primrec is_durable :: "secret_leg \<Rightarrow> bool" where
  "is_durable (KeyringLeg service) = True"
| "is_durable (AgeFileLeg path) = True"
| "is_durable (InMemoryLeg durable m) = durable"

text \<open>The process-local map.\<close>

definition memory_get :: "(string \<rightharpoonup> string) \<Rightarrow> string \<Rightarrow> secret_error + string" where
  "memory_get m k = (case m k of Some s \<Rightarrow> Inr s | None \<Rightarrow> Inl (SecretNotFound k))"

text \<open>The keyring.\<close>

definition keyring_get :: "string \<Rightarrow> string \<Rightarrow> secret_host \<Rightarrow> secret_error + string" where
  "keyring_get service k h =
     (if sh_keyring_unreadable h then Inl (Backend ''keyring'')
      else case sh_keyring h (service, k) of Some s \<Rightarrow> Inr s | None \<Rightarrow> Inl (SecretNotFound k))"

definition keyring_set :: "string \<Rightarrow> string \<Rightarrow> string \<Rightarrow> unit on_host" where
  "keyring_set service k s h =
     (if sh_keyring_unwritable h then (Inl (Backend ''keyring''), h)
      else (Inr (), h\<lparr>sh_keyring := (sh_keyring h)((service, k) \<mapsto> s)\<rparr>))"

definition keyring_remove :: "string \<Rightarrow> string \<Rightarrow> unit on_host" where
  "keyring_remove service k h =
     (if sh_keyring_unwritable h then (Inl (Backend ''keyring''), h)
      else (Inr (), h\<lparr>sh_keyring := (sh_keyring h)((service, k) := None)\<rparr>))"

text \<open>The file. A \<open>set\<close> that cannot decrypt the file starts from an empty map.\<close>

definition age_get :: "string \<Rightarrow> string \<Rightarrow> string on_host" where
  "age_get path k h =
     (case decrypt_map path h of
        (Inl e, h') \<Rightarrow> (Inl e, h')
      | (Inr m, h') \<Rightarrow> (case m k of Some s \<Rightarrow> Inr s | None \<Rightarrow> Inl (SecretNotFound k), h'))"

definition age_set :: "string \<Rightarrow> string \<Rightarrow> string \<Rightarrow> unit on_host" where
  "age_set path k s h =
     (case decrypt_map path h of
        (r, h') \<Rightarrow> encrypt_map path ((case r of Inr m \<Rightarrow> m | Inl _ \<Rightarrow> Map.empty)(k \<mapsto> s)) h')"

definition age_remove :: "string \<Rightarrow> string \<Rightarrow> unit on_host" where
  "age_remove path k h =
     (case decrypt_map path h of
        (Inl e, h') \<Rightarrow> (Inl e, h')
      | (Inr m, h') \<Rightarrow> if m k = None then (Inr (), h') else encrypt_map path (m(k := None)) h')"

text \<open>A single store with its host.\<close>

type_synonym leg_state = "secret_leg \<times> secret_host"

fun leg_get :: "leg_state \<Rightarrow> string \<Rightarrow> (secret_error + string) \<times> leg_state" where
  "leg_get (InMemoryLeg d m, h) k = (memory_get m k, (InMemoryLeg d m, h))"
| "leg_get (KeyringLeg service, h) k = (keyring_get service k h, (KeyringLeg service, h))"
| "leg_get (AgeFileLeg path, h) k = (case age_get path k h of (r, h') \<Rightarrow> (r, (AgeFileLeg path, h')))"

fun leg_set :: "leg_state \<Rightarrow> string \<Rightarrow> string \<Rightarrow> (secret_error + unit) \<times> leg_state" where
  "leg_set (InMemoryLeg d m, h) k s = (Inr (), (InMemoryLeg d (m(k \<mapsto> s)), h))"
| "leg_set (KeyringLeg service, h) k s = (case keyring_set service k s h of (r, h') \<Rightarrow> (r, (KeyringLeg service, h')))"
| "leg_set (AgeFileLeg path, h) k s = (case age_set path k s h of (r, h') \<Rightarrow> (r, (AgeFileLeg path, h')))"

fun leg_remove :: "leg_state \<Rightarrow> string \<Rightarrow> (secret_error + unit) \<times> leg_state" where
  "leg_remove (InMemoryLeg d m, h) k = (Inr (), (InMemoryLeg d (m(k := None)), h))"
| "leg_remove (KeyringLeg service, h) k = (case keyring_remove service k h of (r, h') \<Rightarrow> (r, (KeyringLeg service, h')))"
| "leg_remove (AgeFileLeg path, h) k = (case age_remove path k h of (r, h') \<Rightarrow> (r, (AgeFileLeg path, h')))"

definition leg_set_durable :: "leg_state \<Rightarrow> string \<Rightarrow> string \<Rightarrow> (secret_error + unit) \<times> leg_state" where
  "leg_set_durable w k s = (if \<not> is_durable (fst w) then (Inl NoDurableBackend, w) else leg_set w k s)"

definition leg_store :: "leg_state secret_store" where
  "leg_store = \<lparr>ss_get = leg_get, ss_set = leg_set, ss_remove = leg_remove, ss_set_durable = leg_set_durable\<rparr>"

section \<open>The chain\<close>

type_synonym chain_state = "secret_leg list \<times> secret_host"

text \<open>Each loop carries the last error; the legs already passed are put back in front.\<close>

fun chain_get_loop ::
  "string \<Rightarrow> secret_error option \<Rightarrow> bool \<Rightarrow> secret_leg list \<Rightarrow> string on_host" where
  "chain_get_loop k last_err saw_not_found [] h =
     (Inl (if saw_not_found then SecretNotFound k
           else case last_err of Some e \<Rightarrow> e | None \<Rightarrow> SecretNotFound k), h)"
| "chain_get_loop k last_err saw_not_found (l # ls) h =
     (case leg_get (l, h) k of
        (Inr s, (_, h')) \<Rightarrow> (Inr s, h')
      | (Inl e, (_, h')) \<Rightarrow>
          if not_found e then chain_get_loop k last_err True ls h'
          else chain_get_loop k (Some e) saw_not_found ls h')"

definition chain_get :: "chain_state \<Rightarrow> string \<Rightarrow> (secret_error + string) \<times> chain_state" where
  "chain_get w k = (case chain_get_loop k None False (fst w) (snd w) of (r, h') \<Rightarrow> (r, (fst w, h')))"

definition no_legs :: secret_error where
  "no_legs = Backend ''chained''"

fun chain_set_loop ::
  "(secret_leg \<Rightarrow> bool) \<Rightarrow> string \<Rightarrow> string \<Rightarrow> secret_error option \<Rightarrow> secret_leg list \<Rightarrow> secret_host \<Rightarrow>
   (secret_error option + unit) \<times> chain_state" where
  "chain_set_loop use k s last_err [] h = (Inl last_err, ([], h))"
| "chain_set_loop use k s last_err (l # ls) h =
     (if \<not> use l then (case chain_set_loop use k s last_err ls h of (r, (ls', h')) \<Rightarrow> (r, (l # ls', h')))
      else case leg_set (l, h) k s of
             (Inr _, (l', h')) \<Rightarrow> (Inr (), (l' # ls, h'))
           | (Inl e, (l', h')) \<Rightarrow>
               (case chain_set_loop use k s (Some e) ls h' of (r, (ls', h'')) \<Rightarrow> (r, (l' # ls', h''))))"

definition chain_set :: "chain_state \<Rightarrow> string \<Rightarrow> string \<Rightarrow> (secret_error + unit) \<times> chain_state" where
  "chain_set w k s =
     (case chain_set_loop (\<lambda>_. True) k s None (fst w) (snd w) of
        (Inr _, w') \<Rightarrow> (Inr (), w')
      | (Inl last_err, w') \<Rightarrow> (Inl (case last_err of Some e \<Rightarrow> e | None \<Rightarrow> no_legs), w'))"

definition chain_set_durable :: "chain_state \<Rightarrow> string \<Rightarrow> string \<Rightarrow> (secret_error + unit) \<times> chain_state" where
  "chain_set_durable w k s =
     (case chain_set_loop is_durable k s None (fst w) (snd w) of
        (Inr _, w') \<Rightarrow> (Inr (), w')
      | (Inl last_err, w') \<Rightarrow> (Inl (case last_err of Some e \<Rightarrow> e | None \<Rightarrow> NoDurableBackend), w'))"

fun chain_remove_loop ::
  "string \<Rightarrow> secret_error option \<Rightarrow> bool \<Rightarrow> secret_leg list \<Rightarrow> secret_host \<Rightarrow> (secret_error + unit) \<times> chain_state" where
  "chain_remove_loop k last_err any_ok [] h =
     (if any_ok then Inr () else Inl (case last_err of Some e \<Rightarrow> e | None \<Rightarrow> no_legs), ([], h))"
| "chain_remove_loop k last_err any_ok (l # ls) h =
     (case leg_remove (l, h) k of
        (r, (l', h')) \<Rightarrow>
          (case (case r of Inr _ \<Rightarrow> chain_remove_loop k last_err True ls h'
                         | Inl e \<Rightarrow> chain_remove_loop k (Some e) any_ok ls h') of
             (r', (ls', h'')) \<Rightarrow> (r', (l' # ls', h''))))"

definition chain_remove :: "chain_state \<Rightarrow> string \<Rightarrow> (secret_error + unit) \<times> chain_state" where
  "chain_remove w k = chain_remove_loop k None False (fst w) (snd w)"

definition chain_store :: "chain_state secret_store" where
  "chain_store = \<lparr>ss_get = chain_get, ss_set = chain_set, ss_remove = chain_remove, ss_set_durable = chain_set_durable\<rparr>"

section \<open>The default chain\<close>

definition KEYRING_SERVICE :: string where
  "KEYRING_SERVICE = ''anseo''"

definition keyring_disabled :: "secret_host \<Rightarrow> bool" where
  "keyring_disabled h =
     (case or_else (sh_env h ''ANSEO_DISABLE_KEYRING'') (sh_env h ''OPENGEO_DISABLE_KEYRING'') of
        Some v \<Rightarrow> v \<in> {''1'', ''true'', ''yes''} | None \<Rightarrow> False)"

definition path_join :: "string \<Rightarrow> string \<Rightarrow> string" where
  "path_join a b =
     (if starts_with ''/'' b then b else if a = [] then b
      else if last a = CHR ''/'' then a @ b else a @ ''/'' @ b)"

definition secrets_path_under :: "string \<Rightarrow> secret_host \<Rightarrow> string option" where
  "secrets_path_under subdir h =
     (case sh_env h ''XDG_CONFIG_HOME'' of
        Some xdg \<Rightarrow> Some (path_join (path_join xdg subdir) ''secrets.age'')
      | None \<Rightarrow> map_option (\<lambda>home. path_join (path_join (path_join home ''.config'') subdir) ''secrets.age'')
                  (sh_env h ''HOME''))"

definition default_chain :: "secret_host \<Rightarrow> secret_leg list" where
  "default_chain h =
     (if keyring_disabled h then [] else [KeyringLeg KEYRING_SERVICE])
     @ (case secrets_path_under ''anseo'' h of Some p \<Rightarrow> [AgeFileLeg p] | None \<Rightarrow> [])
     @ (case secrets_path_under ''opengeo'' h of
          Some p \<Rightarrow> if sh_files h p \<noteq> None then [AgeFileLeg p] else [] | None \<Rightarrow> [])
     @ [InMemoryLeg False Map.empty]"

section \<open>Provider secrets\<close>

definition BENCHMARK_KEK_KEY_PREFIX :: string where
  "BENCHMARK_KEK_KEY_PREFIX = ''benchmark-kek''"

definition provider_secret_key :: "string \<Rightarrow> string \<Rightarrow> string" where
  "provider_secret_key project_id provider = project_id @ '':'' @ provider"

definition get_provider_secret :: "'w secret_store \<Rightarrow> 'w \<Rightarrow> string \<Rightarrow> string \<Rightarrow> (secret_error + string) \<times> 'w" where
  "get_provider_secret st w project_id provider =
     (case ss_get st w (provider_secret_key project_id provider) of
        (Inr s, w') \<Rightarrow> (Inr s, w')
      | (Inl e, w') \<Rightarrow> if not_found e then ss_get st w' provider else (Inl e, w'))"

definition set_provider_secret ::
  "'w secret_store \<Rightarrow> 'w \<Rightarrow> string \<Rightarrow> string \<Rightarrow> string \<Rightarrow> (secret_error + unit) \<times> 'w" where
  "set_provider_secret st w project_id provider s = ss_set st w (provider_secret_key project_id provider) s"

definition remove_provider_secret :: "'w secret_store \<Rightarrow> 'w \<Rightarrow> string \<Rightarrow> string \<Rightarrow> (secret_error + unit) \<times> 'w" where
  "remove_provider_secret st w project_id provider = ss_remove st w (provider_secret_key project_id provider)"


section \<open>The contract of a single store\<close>

text \<open>
  What a caller may rely on. A store that works may become unreadable at any time, so a read after
  a write gives the value or an error that is no \<open>not found\<close>: never another value, never nothing.
\<close>

definition reads :: "secret_error + string \<Rightarrow> string \<Rightarrow> bool" where
  "reads r s = (case r of Inr x \<Rightarrow> x = s | Inl e \<Rightarrow> \<not> not_found e)"

locale secret_backend =
  fixes st :: "'w secret_store"
  assumes set_get: "ss_set st w k s = (Inr (), w') \<Longrightarrow> reads (fst (ss_get st w' k)) s"
    and set_other: "ss_set st w k s = (Inr (), w') \<Longrightarrow> k' \<noteq> k \<Longrightarrow> fst (ss_get st w k') = Inr x \<Longrightarrow>
      reads (fst (ss_get st w' k')) x"
    and remove_get: "ss_remove st w k = (Inr (), w') \<Longrightarrow> fst (ss_get st w' k) \<noteq> Inr x"
    and remove_other: "ss_remove st w k = (Inr (), w') \<Longrightarrow> k' \<noteq> k \<Longrightarrow> fst (ss_get st w k') = Inr x \<Longrightarrow>
      reads (fst (ss_get st w' k')) x"
    and durable_sets: "ss_set_durable st w k s = (Inr (), w') \<Longrightarrow> ss_set st w k s = (Inr (), w')"
begin

lemma provider_round_trip:
  assumes "set_provider_secret st w project_id provider s = (Inr (), w')"
  shows "reads (fst (get_provider_secret st w' project_id provider)) s"
proof -
  have "reads (fst (ss_get st w' (provider_secret_key project_id provider))) s"
    using assms set_get by (simp add: set_provider_secret_def)
  then show ?thesis
    by (auto simp: get_provider_secret_def reads_def split: prod.splits sum.splits)
qed

end

lemma decrypt_again: "decrypt_map path h = (Inr m, h') \<Longrightarrow> fst (decrypt_map path h') = Inr m"
  by (auto simp: decrypt_map_def store_cache_def cached_def split: option.splits if_splits sum.splits age_content.splits prod.splits)

lemma encrypt_then_decrypt: "encrypt_map path m h = (Inr (), h') \<Longrightarrow> fst (decrypt_map path h') = Inr m"
  by (auto simp: encrypt_map_def write_secrets_file_def decrypt_map_def store_cache_def cached_def
      split: option.splits if_splits sum.splits write_outcome.splits prod.splits)

lemma age_get_decrypt:
  "fst (age_get path k h) = (case fst (decrypt_map path h) of
     Inl e \<Rightarrow> Inl e | Inr m \<Rightarrow> (case m k of Some s \<Rightarrow> Inr s | None \<Rightarrow> Inl (SecretNotFound k)))"
  by (auto simp: age_get_def split: prod.splits sum.splits)

lemma age_set_InrD:
  "age_set path k s h = (Inr (), h') \<Longrightarrow>
     fst (decrypt_map path h') = Inr ((case fst (decrypt_map path h) of Inr m \<Rightarrow> m | Inl _ \<Rightarrow> Map.empty)(k \<mapsto> s))"
  by (auto simp: age_set_def split: prod.splits dest!: encrypt_then_decrypt)

lemma age_remove_InrD:
  "age_remove path k h = (Inr (), h') \<Longrightarrow>
     \<exists>m. fst (decrypt_map path h) = Inr m \<and> fst (decrypt_map path h') = Inr (m(k := None))"
  by (auto simp: age_remove_def split: prod.splits sum.splits if_splits dest: encrypt_then_decrypt decrypt_again
      simp: fun_upd_idem)

lemma leg_get_age: "fst (leg_get (AgeFileLeg path, h) k) = fst (age_get path k h)"
  by (simp split: prod.splits)

interpretation leg: secret_backend leg_store
proof
  fix w w' :: leg_state and k k' s x :: string
  obtain l h where w: "w = (l, h)" by (cases w)
  show "reads (fst (ss_get leg_store w' k)) s" if "ss_set leg_store w k s = (Inr (), w')"
    using that
    by (cases l) (auto simp: w leg_store_def reads_def memory_get_def keyring_get_def keyring_set_def leg_get_age
        age_get_decrypt dest!: age_set_InrD split: prod.splits if_splits simp del: leg_get.simps(3))
  show "reads (fst (ss_get leg_store w' k')) x"
    if "ss_set leg_store w k s = (Inr (), w')" "k' \<noteq> k" "fst (ss_get leg_store w k') = Inr x"
    using that
    by (cases l) (auto simp: w leg_store_def reads_def memory_get_def keyring_get_def keyring_set_def leg_get_age
        age_get_decrypt dest!: age_set_InrD split: prod.splits if_splits option.splits sum.splits simp del: leg_get.simps(3))
  show "fst (ss_get leg_store w' k) \<noteq> Inr x" if "ss_remove leg_store w k = (Inr (), w')"
    using that
    by (cases l) (auto simp: w leg_store_def memory_get_def keyring_get_def keyring_remove_def leg_get_age
        age_get_decrypt dest!: age_remove_InrD split: prod.splits if_splits simp del: leg_get.simps(3))
  show "reads (fst (ss_get leg_store w' k')) x"
    if "ss_remove leg_store w k = (Inr (), w')" "k' \<noteq> k" "fst (ss_get leg_store w k') = Inr x"
    using that
    by (cases l) (auto simp: w leg_store_def reads_def memory_get_def keyring_get_def keyring_remove_def leg_get_age
        age_get_decrypt dest!: age_remove_InrD split: prod.splits if_splits option.splits sum.splits simp del: leg_get.simps(3))
  show "ss_set leg_store w k s = (Inr (), w')" if "ss_set_durable leg_store w k s = (Inr (), w')"
    using that by (auto simp: leg_store_def leg_set_durable_def split: if_splits)
qed


section \<open>What the chain keeps of it\<close>

text \<open>Legs that only write to the keyring or to files leave an unwritable keyring as it is.\<close>

definition keyring_same :: "secret_host \<Rightarrow> secret_host \<Rightarrow> bool" where
  "keyring_same h h' =
     (sh_keyring h' = sh_keyring h \<and> sh_keyring_unreadable h' = sh_keyring_unreadable h
      \<and> sh_keyring_unwritable h' = sh_keyring_unwritable h)"

lemma decrypt_map_host: "snd (decrypt_map path h) = h \<or> (\<exists>t m. snd (decrypt_map path h) = store_cache path t m h)"
  by (auto simp: decrypt_map_def split: option.splits sum.splits age_content.splits)

lemma age_set_keyring: "keyring_same h (snd (age_set path k s h))"
  using decrypt_map_host [of path h]
  by (auto simp: age_set_def encrypt_map_def write_secrets_file_def keyring_same_def store_cache_def
      split: prod.splits sum.splits write_outcome.splits)

lemma age_set_same: "age_set path k s h = (r, h') \<Longrightarrow> keyring_same h h'"
  by (metis age_set_keyring snd_conv)

lemma keyring_same_refl: "keyring_same h h"
  by (simp add: keyring_same_def)

lemma leg_set_keyring: "sh_keyring_unwritable h \<Longrightarrow> leg_set (l, h) k s = (r, (l', h')) \<Longrightarrow> keyring_same h h'"
  by (cases l) (auto simp: keyring_set_def keyring_same_refl split: prod.splits dest: age_set_same)

lemma chain_set_keyring:
  "chain_set_loop u k s e ls h = (r, (ls', h')) \<Longrightarrow> sh_keyring_unwritable h \<Longrightarrow> keyring_same h h'"
proof (induction u k s e ls h arbitrary: r ls' h' rule: chain_set_loop.induct)
  case (2 u k s e l ls h)
  obtain x l1 h1 where set: "leg_set (l, h) k s = (x, (l1, h1))" by (metis surj_pair)
  from leg_set_keyring [OF 2(4) this] have "keyring_same h h1" .
  with 2 set show ?case
    by (cases x) (fastforce simp: keyring_same_def split: if_splits prod.splits)+
qed (simp add: keyring_same_def)

text \<open>
  (error). A keyring that can be read but not written hides every later write: the write succeeds
  in a later store, and the next read still gives the old value of the keyring.
\<close>

theorem readonly_keyring_hides_writes:
  assumes "sh_keyring h (service, k) = Some old" and "\<not> sh_keyring_unreadable h" and "sh_keyring_unwritable h"
    and "chain_set (KeyringLeg service # ls, h) k s = (Inr (), w')"
  shows "fst (chain_get w' k) = Inr old"
proof -
  obtain ls' h' where w': "w' = (ls', h')" by (cases w')
  from assms(3,4) obtain ls1 e where rest: "chain_set_loop (\<lambda>_. True) k s (Some e) ls h = (Inr (), (ls1, h'))"
    and ls': "ls' = KeyringLeg service # ls1"
    by (auto simp: chain_set_def keyring_set_def w' split: prod.splits sum.splits)
  from chain_set_keyring [OF rest assms(3)] assms(1,2) show ?thesis
    by (simp add: w' ls' chain_get_def keyring_get_def keyring_same_def)
qed

text \<open>
  (error). Storing a secret in a file that cannot be decrypted, as with another passphrase, succeeds
  and keeps that secret only: every other secret of the file is gone.
\<close>

theorem set_discards_an_unreadable_file:
  assumes "fst (decrypt_map path h) = Inl e" and "age_set path k s h = (Inr (), h')" and "k' \<noteq> k"
  shows "fst (age_get path k' h') = Inl (SecretNotFound k')"
  using age_set_InrD [OF assms(2)] assms(1,3) by (simp add: age_get_decrypt)

lemma durable_loop:
  "chain_set_loop is_durable k s e ls h = (r, (ls', h')) \<Longrightarrow>
     list_all2 (\<lambda>l l'. is_durable l \<or> l' = l) ls ls'
     \<and> (r = Inr () \<longrightarrow> (\<exists>l \<in> set ls'. is_durable l \<and> reads (fst (leg_get (l, h') k)) s))"
proof (induction is_durable k s e ls h arbitrary: r ls' h' rule: chain_set_loop.induct)
  case (2 k s e l ls h)
  obtain x l1 h1 where set: "leg_set (l, h) k s = (x, (l1, h1))" by (metis surj_pair)
  have dur: "is_durable l1 = is_durable l"
    using set by (cases l) (auto split: prod.splits)
  show ?case
  proof (cases "is_durable l \<and> x = Inr ()")
    case True
    then have "reads (fst (leg_get (l1, h1) k)) s"
      using leg.set_get [of "(l, h)" k s "(l1, h1)"] set by (simp add: leg_store_def)
    with True set 2(3) dur show ?thesis by (auto intro: list_all2_refl)
  next
    case False
    with 2 set show ?thesis
      by (cases x) (fastforce split: if_splits prod.splits)+
  qed
qed simp

text \<open>
  (safety). A durable write never touches a store that is not durable, and when it succeeds, a
  durable store gives the secret back.
\<close>

theorem durable_write_is_durable:
  "case chain_set_durable w k s of (r, w') \<Rightarrow>
     list_all2 (\<lambda>l l'. is_durable l \<or> l' = l) (fst w) (fst w')
     \<and> (case r of Inl _ \<Rightarrow> True | Inr _ \<Rightarrow> list_ex (\<lambda>l. is_durable l \<and> reads (fst (leg_get (l, snd w') k)) s) (fst w'))"
proof -
  obtain r ls' h' where run: "chain_set_loop is_durable k s None (fst w) (snd w) = (r, (ls', h'))" by (metis surj_pair)
  from durable_loop [OF this] show ?thesis
    by (cases r) (auto simp: chain_set_durable_def run list_ex_iff)
qed

text \<open>A chain that ends in the process-local map removes whatever it is asked to, and says so.\<close>

lemma remove_loop_memory:
  "fst (chain_remove_loop k e ok (ls @ [InMemoryLeg d m]) h) = Inr ()"
proof (induction ls arbitrary: e ok h)
  case (Cons l ls)
  obtain r l1 h1 where "leg_remove (l, h) k = (r, (l1, h1))" by (metis surj_pair)
  with Cons show ?case by (auto split: sum.splits prod.splits) (metis fst_conv)+
qed simp

lemma default_chain_end: "\<exists>ls. default_chain h = ls @ [InMemoryLeg False Map.empty]"
  by (simp add: default_chain_def flip: append_assoc)

lemma default_chain_removes: "fst (chain_remove (default_chain h, h') k) = Inr ()"
  using default_chain_end [of h] by (auto simp: chain_remove_def remove_loop_memory)

lemma get_loop_memory:
  "chain_get_loop k err saw (ls @ [InMemoryLeg False Map.empty]) h = (Inl e, h') \<Longrightarrow> e = SecretNotFound k"
proof (induction ls arbitrary: err saw h)
  case Nil
  then show ?case by (simp add: memory_get_def)
next
  case (Cons l ls)
  obtain r l1 h1 where "leg_get (l, h) k = (r, (l1, h1))" by (metis surj_pair)
  with Cons show ?case by (cases r) (auto split: if_splits)
qed

lemma default_chain_get:
  assumes "fst (chain_get (default_chain h, h') k) = Inl e"
  shows "e = SecretNotFound k"
proof -
  obtain ls where ls: "default_chain h = ls @ [InMemoryLeg False Map.empty]" using default_chain_end by blast
  obtain r h1 where run: "chain_get_loop k None False (default_chain h) h' = (r, h1)" by (metis surj_pair)
  with assms have "r = Inl e" by (simp add: chain_get_def)
  with run get_loop_memory show ?thesis unfolding ls by blast
qed


section \<open>Examples\<close>

definition stale_host :: secret_host where
  "stale_host = \<lparr>sh_env = [''ANSEO_KEYRING_PASSPHRASE'' \<mapsto> ''pw''], sh_keyring = [(''anseo'', ''k'') \<mapsto> ''old''],
     sh_keyring_unreadable = False, sh_keyring_unwritable = True, sh_files = Map.empty, sh_write = WriteOk,
     sh_cache = Map.empty, sh_clock = 1\<rparr>"

lemma readonly_keyring_hides_writes_witness:
  "case chain_set ([KeyringLeg ''anseo'', AgeFileLeg ''f''], stale_host) ''k'' ''new'' of
     (r, w') \<Rightarrow> r = Inr () \<and> fst (chain_get w' ''k'') = Inr ''old''"
proof -
  obtain r w' where run: "chain_set ([KeyringLeg ''anseo'', AgeFileLeg ''f''], stale_host) ''k'' ''new'' = (r, w')"
    by (metis surj_pair)
  then have r: "r = Inr ()"
    by (auto simp: chain_set_def keyring_set_def age_set_def decrypt_map_def encrypt_map_def read_passphrase_def
        AGE_PASSPHRASE_ENV_def write_secrets_file_def stale_host_def)
  from readonly_keyring_hides_writes [OF _ _ _ run [unfolded r]] run r show ?thesis
    by (simp add: stale_host_def)
qed

definition sealed_host :: secret_host where
  "sealed_host = stale_host\<lparr>sh_files := [''f'' \<mapsto>
     \<lparr>af_content = PassphraseFile ''other'' (Some [''a'' \<mapsto> ''x'']), af_mtime = 1, af_unreadable = False\<rparr>]\<rparr>"

lemma set_discards_an_unreadable_file_witness:
  "case age_set ''f'' ''k'' ''new'' sealed_host of (r, h') \<Rightarrow> r = Inr () \<and> fst (age_get ''f'' ''a'' h') = Inl (SecretNotFound ''a'')"
proof -
  obtain r h' where run: "age_set ''f'' ''k'' ''new'' sealed_host = (r, h')" by (metis surj_pair)
  have dec: "fst (decrypt_map ''f'' sealed_host) = Inl InvalidPassphrase"
    by (simp add: decrypt_map_def cached_def read_passphrase_def AGE_PASSPHRASE_ENV_def sealed_host_def stale_host_def)
  from run have r: "r = Inr ()"
    by (auto simp: age_set_def decrypt_map_def cached_def encrypt_map_def read_passphrase_def
        AGE_PASSPHRASE_ENV_def write_secrets_file_def sealed_host_def stale_host_def)
  from set_discards_an_unreadable_file [OF dec run [unfolded r]] run r show ?thesis by simp
qed

end
