(* ===== verification/Benchmark.thy ===== *)
theory Benchmark
  imports Secrets RustNum
begin

text \<open>
  The benchmark contributions: the redaction of \<open>crates/benchmark/src/redactor.rs\<close> and the
  envelope encryption of \<open>crates/benchmark/src/crypto.rs\<close>, with the key of a project in the secret
  store. The AEAD cipher, the HMAC and the JSON form of a payload are arguments.
\<close>

section \<open>Redaction\<close>

definition TERMS_VERSION :: string where
  "TERMS_VERSION = ''v1-2026-05-28''"

text \<open>Times are nanoseconds since the epoch.\<close>

record raw_prompt_run =
  rw_project_id :: string
  rw_prompt_slug :: string
  rw_provider :: string
  rw_model :: string
  rw_observed_at :: int
  rw_observed_rank :: "int option"
  rw_citation_domains :: "string list"
  rw_brand_name :: string
  rw_raw_response_text :: string
  rw_api_key_used :: string
  rw_ip_address :: string

record benchmark_payload =
  bp_prompt_slug :: string
  bp_provider :: string
  bp_model :: string
  bp_observed_at_hour :: int
  bp_observed_rank :: "int option"
  bp_citation_domains :: "string list"
  bp_project_hmac :: string
  bp_terms_version :: string

datatype redactor_error = StaleConsent string | InvalidSlug string

record project_kek =
  pk_project_id :: string
  pk_key :: "u8 list"

type_synonym hmac_fn = "u8 list \<Rightarrow> u8 list \<Rightarrow> u8 list"

definition project_hmac :: "hmac_fn \<Rightarrow> project_kek \<Rightarrow> string \<Rightarrow> string" where
  "project_hmac hmac kek project_id = hex_lower (hmac (pk_key kek) (str_bytes project_id))"

definition is_slug_safe :: "string \<Rightarrow> bool" where
  "is_slug_safe s = (s \<noteq> [] \<and> list_all (\<lambda>c. is_ascii_lowercase c \<or> is_ascii_digit c \<or> c = CHR ''-'') s)"

definition hour_ns :: int where
  "hour_ns = 3600000000000"

definition round_to_hour :: "int \<Rightarrow> int" where
  "round_to_hour ts = ts - ts mod hour_ns"

definition redact :: "hmac_fn \<Rightarrow> project_kek \<Rightarrow> string \<Rightarrow> raw_prompt_run \<Rightarrow> redactor_error + benchmark_payload" where
  "redact hmac kek consented_terms raw =
     (if consented_terms \<noteq> TERMS_VERSION then Inl (StaleConsent consented_terms)
      else if \<not> is_slug_safe (rw_prompt_slug raw) then Inl (InvalidSlug (rw_prompt_slug raw))
      else Inr \<lparr>bp_prompt_slug = rw_prompt_slug raw, bp_provider = rw_provider raw, bp_model = rw_model raw,
        bp_observed_at_hour = round_to_hour (rw_observed_at raw), bp_observed_rank = rw_observed_rank raw,
        bp_citation_domains = rw_citation_domains raw,
        bp_project_hmac = project_hmac hmac kek (rw_project_id raw), bp_terms_version = TERMS_VERSION\<rparr>)"

section \<open>The key of a project\<close>

definition KEY_LEN :: nat where
  "KEY_LEN = 32"

definition kek_secret_key :: "string \<Rightarrow> string" where
  "kek_secret_key project_id = BENCHMARK_KEK_KEY_PREFIX @ '':'' @ project_id"

datatype crypto_error =
    KekMissing string
  | KekMalformed string
  | EphemeralKek string
  | CryptoStore secret_error
  | EncryptFailed
  | DecryptFailed

fun hex_decode :: "string \<Rightarrow> u8 list option" where
  "hex_decode [] = Some []"
| "hex_decode [c] = None"
| "hex_decode (a # b # s) =
     (case digit_val 16 a of
        None \<Rightarrow> None
      | Some x \<Rightarrow>
          (case digit_val 16 b of
             None \<Rightarrow> None
           | Some y \<Rightarrow> map_option ((#) (of_nat (16 * x + y))) (hex_decode s)))"

definition kek_from_secret :: "string \<Rightarrow> string \<Rightarrow> crypto_error + project_kek" where
  "kek_from_secret project_id secret =
     (case hex_decode secret of
        None \<Rightarrow> Inl (KekMalformed project_id)
      | Some bytes \<Rightarrow>
          if length bytes \<noteq> KEY_LEN then Inl (KekMalformed project_id)
          else Inr \<lparr>pk_project_id = project_id, pk_key = bytes\<rparr>)"

definition kek_to_secret :: "project_kek \<Rightarrow> string" where
  "kek_to_secret kek = hex_lower (pk_key kek)"

definition kek_load :: "'w secret_store \<Rightarrow> 'w \<Rightarrow> string \<Rightarrow> (crypto_error + project_kek) \<times> 'w" where
  "kek_load st w project_id =
     (case ss_get st w (kek_secret_key project_id) of
        (Inr s, w') \<Rightarrow> (kek_from_secret project_id s, w')
      | (Inl e, w') \<Rightarrow> (Inl (if not_found e then KekMissing project_id else CryptoStore e), w'))"

text \<open>\<open>fresh\<close> is the key generated for a project that has none.\<close>

definition kek_load_or_create ::
  "'w secret_store \<Rightarrow> 'w \<Rightarrow> string \<Rightarrow> u8 list \<Rightarrow> (crypto_error + project_kek) \<times> 'w" where
  "kek_load_or_create st w project_id fresh =
     (case kek_load st w project_id of
        (Inr kek, w') \<Rightarrow> (Inr kek, w')
      | (Inl (KekMissing _), w') \<Rightarrow>
          (let kek = \<lparr>pk_project_id = project_id, pk_key = fresh\<rparr>
           in case ss_set_durable st w' (kek_secret_key project_id) (kek_to_secret kek) of
                (Inr _, w'') \<Rightarrow> (Inr kek, w'')
              | (Inl NoDurableBackend, w'') \<Rightarrow> (Inl (EphemeralKek project_id), w'')
              | (Inl e, w'') \<Rightarrow> (Inl (CryptoStore e), w''))
      | (Inl e, w') \<Rightarrow> (Inl e, w'))"

definition kek_destroy :: "'w secret_store \<Rightarrow> 'w \<Rightarrow> string \<Rightarrow> (crypto_error + unit) \<times> 'w" where
  "kek_destroy st w project_id =
     (case ss_remove st w (kek_secret_key project_id) of
        (Inr _, w') \<Rightarrow> (Inr (), w')
      | (Inl e, w') \<Rightarrow> (Inl (CryptoStore e), w'))"

section \<open>Sealing\<close>

text \<open>Key, nonce, associated data, text.\<close>

record aead =
  ae_encrypt :: "u8 list \<Rightarrow> u8 list \<Rightarrow> u8 list \<Rightarrow> u8 list \<Rightarrow> u8 list option"
  ae_decrypt :: "u8 list \<Rightarrow> u8 list \<Rightarrow> u8 list \<Rightarrow> u8 list \<Rightarrow> u8 list option"

record payload_codec =
  pc_write :: "benchmark_payload \<Rightarrow> u8 list"
  pc_read :: "u8 list \<Rightarrow> benchmark_payload option"

record sealed_contribution =
  sc_project_hmac :: string
  sc_wrapped_dek :: string
  sc_dek_nonce :: string
  sc_payload_ct :: string
  sc_payload_nonce :: string
  sc_verification_token :: "string option"

definition aad_bytes :: "string \<Rightarrow> string option \<Rightarrow> u8 list" where
  "aad_bytes hm token =
     str_bytes hm @ (case token of None \<Rightarrow> [] | Some t \<Rightarrow> 0x1f # str_bytes ''vtok:'' @ str_bytes t)"

definition decode_nonce :: "string \<Rightarrow> u8 list option" where
  "decode_nonce s = Option.bind (hex_decode s) (\<lambda>bytes. if length bytes \<noteq> 24 then None else Some bytes)"

record sealing_randomness =
  sr_dek :: "u8 list"
  sr_payload_nonce :: "u8 list"
  sr_dek_nonce :: "u8 list"

definition seal_inner ::
  "aead \<Rightarrow> payload_codec \<Rightarrow> sealing_randomness \<Rightarrow> project_kek \<Rightarrow> benchmark_payload \<Rightarrow> string option \<Rightarrow>
   crypto_error + sealed_contribution" where
  "seal_inner ae pc rnd kek payload token =
     (let aad = aad_bytes (bp_project_hmac payload) token
      in case ae_encrypt ae (sr_dek rnd) (sr_payload_nonce rnd) aad (pc_write pc payload) of
           None \<Rightarrow> Inl EncryptFailed
         | Some payload_ct \<Rightarrow>
             (case ae_encrypt ae (pk_key kek) (sr_dek_nonce rnd) aad (sr_dek rnd) of
                None \<Rightarrow> Inl EncryptFailed
              | Some wrapped_dek \<Rightarrow>
                  Inr \<lparr>sc_project_hmac = bp_project_hmac payload, sc_wrapped_dek = hex_lower wrapped_dek,
                       sc_dek_nonce = hex_lower (sr_dek_nonce rnd), sc_payload_ct = hex_lower payload_ct,
                       sc_payload_nonce = hex_lower (sr_payload_nonce rnd), sc_verification_token = token\<rparr>))"

definition seal ::
  "aead \<Rightarrow> payload_codec \<Rightarrow> sealing_randomness \<Rightarrow> project_kek \<Rightarrow> benchmark_payload \<Rightarrow> crypto_error + sealed_contribution" where
  "seal ae pc rnd kek payload = seal_inner ae pc rnd kek payload None"

definition seal_identified ::
  "aead \<Rightarrow> payload_codec \<Rightarrow> sealing_randomness \<Rightarrow> project_kek \<Rightarrow> benchmark_payload \<Rightarrow> string \<Rightarrow>
   crypto_error + sealed_contribution" where
  "seal_identified ae pc rnd kek payload token = seal_inner ae pc rnd kek payload (Some token)"

definition open_sealed :: "aead \<Rightarrow> payload_codec \<Rightarrow> project_kek \<Rightarrow> sealed_contribution \<Rightarrow> crypto_error + benchmark_payload" where
  "open_sealed ae pc kek sealed =
     (let aad = aad_bytes (sc_project_hmac sealed) (sc_verification_token sealed);
          dek = Option.bind (decode_nonce (sc_dek_nonce sealed)) (\<lambda>dek_nonce.
                Option.bind (hex_decode (sc_wrapped_dek sealed)) (ae_decrypt ae (pk_key kek) dek_nonce aad))
      in case dek of
           None \<Rightarrow> Inl DecryptFailed
         | Some dek \<Rightarrow>
             if length dek \<noteq> KEY_LEN then Inl DecryptFailed
             else case Option.bind (Option.bind (decode_nonce (sc_payload_nonce sealed)) (\<lambda>payload_nonce.
                         Option.bind (hex_decode (sc_payload_ct sealed)) (ae_decrypt ae dek payload_nonce aad))) (pc_read pc) of
                    None \<Rightarrow> Inl DecryptFailed
                  | Some payload \<Rightarrow> Inr payload)"


section \<open>What leaves the deployment\<close>

text \<open>
  (safety). The payload depends on nothing but the fields that may leave: two runs that agree on
  prompt, provider, model, rank, citations, project and the hour of observation are redacted to the
  same payload, whatever their brand names, answers, keys, addresses and exact times.
\<close>

theorem redaction_hides_the_rest:
  "redact hmac kek terms raw = redact hmac kek terms
     (raw\<lparr>rw_brand_name := brand, rw_raw_response_text := response, rw_api_key_used := api_key, rw_ip_address := ip,
        rw_observed_at := round_to_hour (rw_observed_at raw) + int n mod hour_ns\<rparr>)"
proof -
  have "0 < hour_ns" by (simp add: hour_ns_def)
  then have "round_to_hour (round_to_hour t + int n mod hour_ns) = round_to_hour t" for t
    by (auto simp: round_to_hour_def mod_diff_left_eq mod_add_eq algebra_simps minus_mod_eq_mult_div)
  then show ?thesis by (simp add: redact_def)
qed

section \<open>Round trips\<close>

lemma hex_round_trip [simp]: "hex_decode (hex_lower bs) = Some bs"
proof (induction bs)
  case (Cons b bs)
  have "unat b < 256" by (rule unat_u8_lt)
  then have d: "unat b div 16 < 16" "unat b mod 16 < 16" by auto
  have "(of_nat (16 * (unat b div 16) + unat b mod 16) :: u8) = b" by simp
  with Cons d show ?case by (simp add: hex_lower_def hex_byte_def digit_val_digit_char)
qed (simp add: hex_lower_def)

lemma kek_secret_round_trip:
  "length (pk_key kek) = KEY_LEN \<Longrightarrow> kek_from_secret (pk_project_id kek) (kek_to_secret kek) = Inr kek"
  by (simp add: kek_from_secret_def kek_to_secret_def)

context secret_backend
begin

lemma created_kek_reloads:
  assumes "kek_load_or_create st w project_id fresh = (Inr kek, w')" and "length fresh = KEY_LEN"
    and "\<nexists>k. fst (kek_load st w project_id) = Inr k"
  shows "fst (kek_load st w' project_id) = Inr \<lparr>pk_project_id = project_id, pk_key = fresh\<rparr>
     \<or> (\<exists>e. fst (kek_load st w' project_id) = Inl (CryptoStore e))"
proof -
  from assms(1,3) obtain w1 where set: "ss_set_durable st w1 (kek_secret_key project_id)
      (kek_to_secret \<lparr>pk_project_id = project_id, pk_key = fresh\<rparr>) = (Inr (), w')"
    by (auto simp: kek_load_or_create_def Let_def split: prod.splits sum.splits crypto_error.splits secret_error.splits)
  from set_get [OF durable_sets [OF this]]
  have r: "reads (fst (ss_get st w' (kek_secret_key project_id)))
      (kek_to_secret \<lparr>pk_project_id = project_id, pk_key = fresh\<rparr>)" .
  show ?thesis
  proof (cases "ss_get st w' (kek_secret_key project_id)")
    case (Pair x w2)
    with r kek_secret_round_trip [of "\<lparr>pk_project_id = project_id, pk_key = fresh\<rparr>"] assms(2) show ?thesis
      by (cases x) (auto simp: kek_load_def reads_def)
  qed
qed

end

text \<open>
  (roundtrip). Opening with the same key gives back what was sealed, in both tiers, for a cipher
  that decrypts what it encrypts and a payload format that reads what it writes.
\<close>

theorem sealed_contributions_open:
  assumes "\<And>k n a m c. ae_encrypt ae k n a m = Some c \<Longrightarrow> ae_decrypt ae k n a c = Some m"
    and "pc_read pc (pc_write pc payload) = Some payload"
    and "length (sr_dek rnd) = 32" and "length (sr_payload_nonce rnd) = 24" and "length (sr_dek_nonce rnd) = 24"
    and "seal_inner ae pc rnd kek payload token = Inr sealed"
  shows "open_sealed ae pc kek sealed = Inr payload"
  using assms(2-6)
  by (auto simp: seal_inner_def open_sealed_def Let_def decode_nonce_def KEY_LEN_def split: option.splits
      dest!: assms(1))

lemma of_char_u8: "(of_char a :: u8) = of_char b \<longleftrightarrow> a = b"
  by (metis unat_of_char_u8 of_char_eq_iff)

lemma str_bytes_eq [simp]: "str_bytes a = str_bytes b \<longleftrightarrow> a = b"
  by (auto dest: str_bytes_inj)

lemma hex_before_separator:
  assumes "\<forall>c \<in> set a. is_ascii_hexdigit c"
  shows "takeWhile (\<lambda>b. b \<noteq> 0x1f) (aad_bytes a x) = str_bytes a"
proof -
  have "of_char c \<noteq> (0x1f :: u8)" if "is_ascii_hexdigit c" for c
  proof
    assume "of_char c = (0x1f :: u8)"
    then have "of_char c = (of_char (CHR 0x1F) :: u8)" by simp
    with that show False by (simp only: of_char_u8) (simp add: is_ascii_hexdigit_def digit_val_def)
  qed
  with assms have "\<forall>b \<in> set (str_bytes a). b \<noteq> 0x1f" by (auto simp: str_bytes_def)
  then show ?thesis
    by (simp add: aad_bytes_def takeWhile_append2 split: option.splits)
qed

lemma hex_no_separator:
  assumes "\<forall>c \<in> set a. is_ascii_hexdigit c" and "\<forall>c \<in> set b. is_ascii_hexdigit c"
    and "aad_bytes a x = aad_bytes b y"
  shows "a = b \<and> x = y"
proof -
  have "a = b" using assms hex_before_separator by (metis str_bytes_eq)
  with assms(3) show ?thesis by (auto simp: aad_bytes_def split: option.splits)
qed

text \<open>
  (safety). The verification token travels in the clear but is bound to the ciphertext: for a cipher
  that rejects other associated data, a contribution whose token or project was exchanged never
  opens.
\<close>

theorem exchanged_tokens_never_open:
  assumes "\<And>k n a m c a'. ae_encrypt ae k n a m = Some c \<Longrightarrow> a' \<noteq> a \<Longrightarrow> ae_decrypt ae k n a' c = None"
    and "seal_inner ae pc rnd kek payload token = Inr sealed"
    and "\<forall>c \<in> set (bp_project_hmac payload) \<union> set hm. is_ascii_hexdigit c"
    and "(hm, token') \<noteq> (bp_project_hmac payload, token)"
  shows "open_sealed ae pc kek (sealed\<lparr>sc_project_hmac := hm, sc_verification_token := token'\<rparr>) = Inl DecryptFailed"
proof -
  have "aad_bytes hm token' \<noteq> aad_bytes (bp_project_hmac payload) token"
    using hex_no_separator [of hm "bp_project_hmac payload" token' token] assms(3,4) by auto
  with assms(2) show ?thesis
    by (auto simp: seal_inner_def open_sealed_def Let_def decode_nonce_def split: option.splits if_splits dest!: assms(1))
qed

section \<open>Names\<close>

text \<open>
  (safety). The key of a project and a provider's secret never share a name: a project identifier
  has 26 characters and no colon.
\<close>

theorem kek_names_are_apart:
  assumes "length project_id = 26" and "CHR '':'' \<notin> set project_id"
  shows "provider_secret_key project_id provider \<noteq> kek_secret_key other"
proof
  assume eq: "provider_secret_key project_id provider = kek_secret_key other"
  have "kek_secret_key other ! 13 = CHR '':''"
    by (simp add: kek_secret_key_def BENCHMARK_KEK_KEY_PREFIX_def nth_append)
  moreover have "provider_secret_key project_id provider ! 13 = project_id ! 13"
    using assms(1) by (simp add: provider_secret_key_def nth_append)
  ultimately show False using eq assms nth_mem [of 13 project_id] by simp
qed

section \<open>Shredding and creating over the default chain\<close>

text \<open>
  (error). Shredding a key over the default chain reports success whatever the stores answer: the
  chain ends in a process-local map, which removes everything. When the file cannot be decrypted,
  as with another passphrase, the report is wrong and nothing has changed.
\<close>

theorem shred_reports_success_regardless:
  "fst (kek_destroy chain_store (default_chain h, h) project_id) = Inr ()
   \<and> (keyring_disabled h \<and> (\<exists>p e. secrets_path_under ''anseo'' h = Some p \<and> decrypt_map p h = (Inl e, h))
        \<and> (case secrets_path_under ''opengeo'' h of None \<Rightarrow> True | Some q \<Rightarrow> sh_files h q = None)
      \<longrightarrow> snd (snd (kek_destroy chain_store (default_chain h, h) project_id)) = h)"
proof
  show "fst (kek_destroy chain_store (default_chain h, h) project_id) = Inr ()"
    using default_chain_removes [of h h "kek_secret_key project_id"]
    by (auto simp: kek_destroy_def chain_store_def split: prod.splits sum.splits)
  show "keyring_disabled h \<and> (\<exists>p e. secrets_path_under ''anseo'' h = Some p \<and> decrypt_map p h = (Inl e, h))
        \<and> (case secrets_path_under ''opengeo'' h of None \<Rightarrow> True | Some q \<Rightarrow> sh_files h q = None)
      \<longrightarrow> snd (snd (kek_destroy chain_store (default_chain h, h) project_id)) = h"
    by (auto simp: kek_destroy_def chain_store_def chain_remove_def default_chain_def age_remove_def split: option.splits)
qed

text \<open>
  (error). With another passphrase than the file's, opting in creates a new key for the project,
  reports success, and leaves nothing else in the file: the keys of all other projects and all
  provider secrets are lost.
\<close>

theorem opting_in_with_another_passphrase_loses_all:
  assumes "keyring_disabled h" and "secrets_path_under ''anseo'' h = Some p"
    and "case secrets_path_under ''opengeo'' h of None \<Rightarrow> True | Some q \<Rightarrow> sh_files h q = None"
    and "sh_files h p = Some f" and "af_content f = PassphraseFile right payload" and "\<not> af_unreadable f"
    and "cached p f h = None" and "read_passphrase h = Inr wrong" and "wrong \<noteq> right" and "sh_write h = WriteOk"
  shows "\<exists>w'. kek_load_or_create chain_store (default_chain h, h) project_id fresh
      = (Inr \<lparr>pk_project_id = project_id, pk_key = fresh\<rparr>, w')
     \<and> (\<forall>k \<noteq> kek_secret_key project_id. fst (age_get p k (snd w')) = Inl (SecretNotFound k))"
proof -
  let ?kek = "\<lparr>pk_project_id = project_id, pk_key = fresh\<rparr>" and ?k = "kek_secret_key project_id"
  have dec: "decrypt_map p h = (Inl InvalidPassphrase, h)"
    using assms(4-9) by (simp add: decrypt_map_def)
  obtain h' where set: "age_set p ?k (kek_to_secret ?kek) h = (Inr (), h')"
    using assms(8,10) by (simp add: age_set_def dec encrypt_map_def write_secrets_file_def)
  have chain: "default_chain h = [AgeFileLeg p, InMemoryLeg False Map.empty]"
    using assms(1-3) by (auto simp: default_chain_def split: option.splits)
  have get: "kek_load chain_store (default_chain h, h) project_id = (Inl (KekMissing project_id), (default_chain h, h))"
    by (simp add: kek_load_def chain_store_def chain_get_def chain age_get_def dec memory_get_def)
  have "kek_load_or_create chain_store (default_chain h, h) project_id fresh = (Inr ?kek, ([AgeFileLeg p, InMemoryLeg False Map.empty], h'))"
    using set by (simp add: kek_load_or_create_def get) (simp add: chain_store_def chain_set_durable_def chain)
  moreover have "fst (age_get p k h') = Inl (SecretNotFound k)" if "k \<noteq> ?k" for k
    using age_set_InrD [OF set] that by (simp add: age_get_decrypt dec)
  ultimately show ?thesis by auto
qed


section \<open>Examples\<close>

definition ex_payload :: benchmark_payload where
  "ex_payload = \<lparr>bp_prompt_slug = ''p'', bp_provider = ''openai'', bp_model = ''m'', bp_observed_at_hour = 0,
     bp_observed_rank = None, bp_citation_domains = [], bp_project_hmac = ''ab'', bp_terms_version = TERMS_VERSION\<rparr>"

definition ex_codec :: payload_codec where
  "ex_codec = \<lparr>pc_write = (\<lambda>_. [7]), pc_read = (\<lambda>_. Some ex_payload)\<rparr>"

text \<open>A cipher that hides nothing but checks its associated data.\<close>

fun marked :: "u8 list \<Rightarrow> u8 list" where
  "marked [] = [0]"
| "marked (b # bs) = 1 # b # marked bs"

definition ex_aead :: aead where
  "ex_aead = \<lparr>ae_encrypt = (\<lambda>k n a m. Some (marked a @ m)),
     ae_decrypt = (\<lambda>k n a c. if take (length (marked a)) c = marked a then Some (drop (length (marked a)) c) else None)\<rparr>"

lemma marked_prefix: "take (length (marked a)) (marked b @ m) = marked a \<Longrightarrow> a = b"
proof (induction a arbitrary: b)
  case Nil
  then show ?case by (cases b) simp_all
next
  case (Cons x xs)
  then show ?case by (cases b) auto
qed

definition ex_randomness :: sealing_randomness where
  "ex_randomness = \<lparr>sr_dek = replicate 32 3, sr_payload_nonce = replicate 24 1, sr_dek_nonce = replicate 24 2\<rparr>"

definition ex_kek :: project_kek where
  "ex_kek = \<lparr>pk_project_id = ''p'', pk_key = replicate 32 9\<rparr>"

definition ex_sealed :: sealed_contribution where
  "ex_sealed = (case seal_identified ex_aead ex_codec ex_randomness ex_kek ex_payload ''tok'' of Inr s \<Rightarrow> s)"

lemma ex_seal: "seal_inner ex_aead ex_codec ex_randomness ex_kek ex_payload (Some ''tok'') = Inr ex_sealed"
  by (simp add: ex_sealed_def seal_identified_def seal_inner_def ex_aead_def Let_def)

lemma sealed_contributions_open_witness:
  "open_sealed ex_aead ex_codec ex_kek ex_sealed = Inr ex_payload"
  by (rule sealed_contributions_open [OF _ _ _ _ _ ex_seal]) (auto simp: ex_aead_def ex_codec_def ex_randomness_def)

lemma exchanged_tokens_never_open_witness:
  "open_sealed ex_aead ex_codec ex_kek (ex_sealed\<lparr>sc_project_hmac := ''ab'', sc_verification_token := Some ''other''\<rparr>)
     = Inl DecryptFailed"
  by (rule exchanged_tokens_never_open [OF _ ex_seal])
     (auto simp: ex_aead_def ex_payload_def is_ascii_hexdigit_def digit_val_def dest: marked_prefix)

lemma kek_names_are_apart_witness:
  "provider_secret_key ''01ARZ3NDEKTSV4RRFFQ69G5FAV'' ''openai'' \<noteq> kek_secret_key ''01ARZ3NDEKTSV4RRFFQ69G5FAV''"
  by (rule kek_names_are_apart) simp_all

definition ex_file :: string where
  "ex_file = ''/h/.config/anseo/secrets.age''"

definition ex_host :: secret_host where
  "ex_host = \<lparr>sh_env = [''ANSEO_DISABLE_KEYRING'' \<mapsto> ''1'', ''HOME'' \<mapsto> ''/h'', ''ANSEO_KEYRING_PASSPHRASE'' \<mapsto> ''new''],
     sh_keyring = Map.empty, sh_keyring_unreadable = False, sh_keyring_unwritable = False,
     sh_files = [ex_file \<mapsto> \<lparr>af_content = PassphraseFile ''old'' (Some [''openai'' \<mapsto> ''sk'']), af_mtime = 1, af_unreadable = False\<rparr>],
     sh_write = WriteOk, sh_cache = Map.empty, sh_clock = 2\<rparr>"

lemma ex_host_facts:
  "keyring_disabled ex_host" "secrets_path_under ''anseo'' ex_host = Some ex_file"
  "secrets_path_under ''opengeo'' ex_host = Some ''/h/.config/opengeo/secrets.age''"
  "sh_files ex_host ''/h/.config/opengeo/secrets.age'' = None"
  "decrypt_map ex_file ex_host = (Inl InvalidPassphrase, ex_host)"
  by (simp_all add: ex_host_def ex_file_def keyring_disabled_def or_else_def secrets_path_under_def path_join_def
      starts_with_def decrypt_map_def cached_def read_passphrase_def AGE_PASSPHRASE_ENV_def)

lemma shred_reports_success_regardless_witness:
  "fst (kek_destroy chain_store (default_chain ex_host, ex_host) ''p'') = Inr ()
   \<and> snd (snd (kek_destroy chain_store (default_chain ex_host, ex_host) ''p'')) = ex_host"
  using shred_reports_success_regardless [of ex_host "''p''"] ex_host_facts by simp

lemma opting_in_with_another_passphrase_loses_all_witness:
  "fst (age_get ex_file ''openai'' (ex_host\<lparr>sh_env := (sh_env ex_host)(''ANSEO_KEYRING_PASSPHRASE'' \<mapsto> ''old'')\<rparr>)) = Inr ''sk''
   \<and> (\<exists>w'. kek_load_or_create chain_store (default_chain ex_host, ex_host) ''p'' (replicate 32 9) = (Inr ex_kek, w')
      \<and> fst (age_get ex_file ''openai'' (snd w')) = Inl (SecretNotFound ''openai''))"
proof
  show "fst (age_get ex_file ''openai'' (ex_host\<lparr>sh_env := (sh_env ex_host)(''ANSEO_KEYRING_PASSPHRASE'' \<mapsto> ''old'')\<rparr>)) = Inr ''sk''"
    by (simp add: age_get_def decrypt_map_def cached_def read_passphrase_def AGE_PASSPHRASE_ENV_def ex_host_def store_cache_def)
  have "\<exists>w'. kek_load_or_create chain_store (default_chain ex_host, ex_host) ''p'' (replicate 32 9)
      = (Inr \<lparr>pk_project_id = ''p'', pk_key = replicate 32 9\<rparr>, w')
     \<and> (\<forall>k \<noteq> kek_secret_key ''p''. fst (age_get ex_file k (snd w')) = Inl (SecretNotFound k))"
    by (rule opting_in_with_another_passphrase_loses_all [OF ex_host_facts(1,2), of
          "\<lparr>af_content = PassphraseFile ''old'' (Some [''openai'' \<mapsto> ''sk'']), af_mtime = 1, af_unreadable = False\<rparr>"
          "''old''" "Some [''openai'' \<mapsto> ''sk'']" "''new''"])
       (simp_all add: ex_host_facts(3,4), simp_all add: ex_host_def cached_def read_passphrase_def AGE_PASSPHRASE_ENV_def)
  then show "\<exists>w'. kek_load_or_create chain_store (default_chain ex_host, ex_host) ''p'' (replicate 32 9) = (Inr ex_kek, w')
      \<and> fst (age_get ex_file ''openai'' (snd w')) = Inl (SecretNotFound ''openai'')"
    by (auto simp: ex_kek_def kek_secret_key_def BENCHMARK_KEK_KEY_PREFIX_def)
qed

end
