(* ===== verification/Spec2Isabelle.thy ===== *)
theory Spec2Isabelle
  imports Authn RecGenerate Crawl CrawlerApi System Verification Benchmark
begin

text \<open>
  Anseo watches how language models answer questions about a brand. An operator declares prompts
  and providers in \<open>anseo.yaml\<close>, schedules run the matrix of prompts and providers, answers are
  stored, and events about what happened are sent to webhooks. This development models the parts of
  the Rust workspace (\<open>crates/\<close>, \<open>apps/\<close>) that decide: who may do what, what runs when,
  what is stored, and what is sent to whom. Each theory names the files it models.

  Foundations. \<open>Prelude\<close>: results, option combinators, table updates. \<open>RustStr\<close>, \<open>RustNum\<close>: the
  string and number operations of the Rust standard library that the sources call; a
  \<open>String\<close> is the list of its UTF-8 bytes, an integer a word of its width or, where it cannot
  overflow, a number. \<open>F64\<close>, \<open>F32\<close>: binary64 and binary32 arithmetic over the rationals with NaN and infinities.
  \<open>Json\<close>: values of \<open>serde_json\<close>. \<open>Db\<close>: PostgreSQL as a state passed along with a list of faults to
  come. One SQL statement is atomic: it takes effect or fails, and then changes nothing; so a
  theorem about every list of faults is about every way the database can fail, and a theorem about
  every list of statements is about every interleaving of processes. \<open>steps R m\<close> says that a program
  relates the tables before and after by \<open>R\<close> whatever fails; \<open>pads m\<close> places a fault after a run.

  Access. \<open>Authz\<close>: the matrix of roles and capabilities, the deciders, the decision that precedes
  the tenant setting, and the middleware. Its locales \<open>role_decider\<close> and \<open>guc_context\<close> are the
  interfaces between decision and tenant setting, interpreted by the matrix and by the contexts of
  the code. \<open>Authn\<close>: key minting, the last-owner rule, invitations, the MFA gate. \<open>Billing\<close>:
  entitlements from subscriptions, billing webhooks, plan limits and the dunning state machine
  with its table.

  Delivery. \<open>Egress\<close>: which addresses an outgoing request may reach. \<open>Signer\<close>: the signature header
  and the base64 transport of the secret. \<open>Delivery\<close>: the retry ladder and one attempt. \<open>Webhooks\<close>:
  the delivery and webhook tables, fan-out of events, the settling of a due delivery and the
  polling sweep.

  Recommendations. \<open>RecEngine\<close>: the input of the engine, its deterministic rules, the identifiers and
  caps. \<open>RecLane\<close>: the language-model lane and the assembly of the input from facts. \<open>RecRules\<close>: what
  both lanes guarantee. \<open>Recs\<close>: the lifecycle, the repository, the list, detail and transition
  handlers with cursors, and the adoption reports. \<open>RecGenerate\<close>: the endpoint that runs the engine
  over stored facts and stores what it proposes.

  Answers. \<open>Mentions\<close>: brands and competitors found in an answer, their ranks and tone, and the claims
  about the brand. \<open>Citations\<close>: the sources an answer cites, in its text and its annotations, the
  comparison of two extractions, and the rows that an extraction writes.

  Sites. \<open>HtmlText\<close>: the scanning of HTML and sitemap text. \<open>SiteAudit\<close>: the ten rules, scores, the report
  and its gate. \<open>Crawl\<close>: fetching, the queue of a site, sitemaps, and the endpoint with its table of
  runs. \<open>Crawlers\<close>: log lines and payloads about visits of crawlers, who they claim to be and whether
  the address proves it, the privacy of addresses, and the sink. \<open>CrawlerApi\<close>: metrics of a window and
  the endpoints.

  Scheduling. \<open>Cadence\<close>: provider names and costs, the cadence grammar, density caps, cost
  projection, and the next tick after a run. \<open>Config\<close>: the configuration document and its
  validation, and the identifiers derived from names. \<open>Orchestrator\<close>: the matrix of cells and its
  records. \<open>Schedules\<close>: the tables and the REST handlers. \<open>Ticks\<close>: claiming, reaping, running and
  settling ticks. \<open>Worker\<close>: the daily run cap, the fan-out over projects and one turn of the poll
  loop over the schedule tables, the webhook tables and the notifications. \<open>System\<close>: what any number
  of turns keeps.

  Groups of lemmas. The invariants are relations between states proved by \<open>steps\<close>: the lifecycle
  (\<open>Recs\<close>), the delivery history (\<open>Webhooks\<close>), the dunning clock (\<open>Billing\<close>), the well-formed tables
  (\<open>Locks\<close>). The locale \<open>run_relation\<close> says what the insertion of a run must respect for running a
  tick to respect it, \<open>tick_relation\<close> adds claiming and marking, and \<open>sweep_relation\<close> the audit log;
  they are interpreted by the growth of the tick table, by the rows of other organisations, by the
  unchanged ticks within a run, and by the tables the worker keeps. The locale \<open>crawl_pipeline\<close> says
  what reading hits and storing events must respect for an ingestion to keep the event table; it is
  interpreted by the two payload adapters and by the access log with its cursor. \<open>Locks\<close> refines the tick table
  to an abstract set of claimed keys. \<open>Dispatch\<close> relates the events of a dispatch to the ticks it
  leaves. The remaining properties state the behaviour of single functions on every branch, agree an
  executable check with a declarative specification, or show by a concrete run that a promise of a
  comment is not kept.

  Bounds. No fuel is used: loops are recursions over lists, over the 800 days of the calendar search,
  over the batch limit of a sweep, or over positions in a text; the loop of the crawler is a partial
  function that is shown to return, because every page allows it finitely many links and a page
  bound stops it. Times are microseconds since the epoch as integers; products
  that the code computes in 64 bits wrap.

  Parameters. SHA-256, HMAC, the URL parser, the resolver, the HTTP client, the Stripe client, the
  YAML parser, the serializer, regular expressions, Unicode tables, the file system, the time zone
  database, provider adapters, clocks and random identifiers are arguments of the definitions that use them, with what is relied upon as hypotheses.

  Not modelled: provider adapters, benchmark contributions, analytics and ClickHouse, plugins, e-mail,
  the secret store, the remaining REST routes, the command line, the MCP server, the web application
  and the schema generators; row-level security, HTTP and logging everywhere.
\<close>

end
